(* ===== verification/Prelude.thy ===== *)
theory Prelude
  imports
    Main
    "HOL-Library.Word"
    "HOL-Library.AList"
    "HOL-Library.Char_ord"
    "HOL-Library.List_Lexorder"
    "HOL-Library.Multiset"
begin

text \<open>
  Shared vocabulary of the development: Go error values and errors.Is, Go strings as byte
  strings, Go maps as association lists, bytes as 8-bit words, and the generic argument that an
  invariant kept by every step holds in every reachable state.
\<close>

section \<open>Error values\<close>

text \<open>
  The sentinel variables the packages declare with errors.New and compare with errors.Is, by the
  part of the program that declares them.
\<close>

datatype run_sentinel =
    ActiveRunErr | StoreFormatErr | UnknownResultErr | RequestKeyErr | StepLimitErr
  | TimeLimitErr | ContextLimitErr | ModelBoundaryErr | ModelCapabilityErr | ControlledRunErr
  | ParentBudgetErr | ChildBudgetErr | ChildPausedErr | PlanRevisionErr | ResultReferenceErr
  | NoRowsErr

datatype input_sentinel =
    InputPendingErr | QueuePausedErr | InputTargetEndedErr | InputNotPendingErr
  | ToolDisabledErr | ApprovalChangedErr | CommandBusyErr | AutoDisabledErr
  | HostExecutionRequiresFullErr | SandboxUnsupportedErr | MemoryDeniedErr

datatype access_sentinel =
    PermissionDeniedErr | PermissionRevokedErr | FullAccessConfirmationErr | InvalidSpaceErr
  | SpaceNotFoundErr | ConversationSpaceErr | ComputerRootsRequiredErr
  | ComputerFilesDisabledErr | PathNotAllowedErr | PathBlockedErr | ProtectedPathErr
  | PublicLocalConfirmationErr | PublicSourceBlockedErr

datatype control_sentinel =
    ControlUserInteractionRequiredErr | ControlStaleRevisionErr | ControlAlreadyUsedErr
  | ControlOperationNotFoundErr | ControlExpiredErr | ControlWrongCodeErr
  | ControlConfirmationRequiredErr | ControlIrreversibleErr | ControlBusyErr | ControlJournalErr
  | ExternalControlChangeErr | ControlMCPReentryRequiredErr | ControlRunConfirmationErr

datatype sentinel =
    Run_sentinel run_sentinel
  | Input_sentinel input_sentinel
  | Access_sentinel access_sentinel
  | Control_sentinel control_sentinel

abbreviation ErrActiveRun :: sentinel where "ErrActiveRun \<equiv> Run_sentinel ActiveRunErr"
abbreviation ErrStoreFormat :: sentinel where "ErrStoreFormat \<equiv> Run_sentinel StoreFormatErr"
abbreviation ErrUnknownResult :: sentinel where "ErrUnknownResult \<equiv> Run_sentinel UnknownResultErr"
abbreviation ErrRequestKey :: sentinel where "ErrRequestKey \<equiv> Run_sentinel RequestKeyErr"
abbreviation ErrStepLimit :: sentinel where "ErrStepLimit \<equiv> Run_sentinel StepLimitErr"
abbreviation ErrTimeLimit :: sentinel where "ErrTimeLimit \<equiv> Run_sentinel TimeLimitErr"
abbreviation ErrContextLimit :: sentinel where "ErrContextLimit \<equiv> Run_sentinel ContextLimitErr"
abbreviation ErrModelBoundary :: sentinel where "ErrModelBoundary \<equiv> Run_sentinel ModelBoundaryErr"
abbreviation ErrModelCapability :: sentinel where "ErrModelCapability \<equiv> Run_sentinel ModelCapabilityErr"
abbreviation ErrControlledRun :: sentinel where "ErrControlledRun \<equiv> Run_sentinel ControlledRunErr"
abbreviation ErrParentBudget :: sentinel where "ErrParentBudget \<equiv> Run_sentinel ParentBudgetErr"
abbreviation ErrChildBudget :: sentinel where "ErrChildBudget \<equiv> Run_sentinel ChildBudgetErr"
abbreviation ErrChildPaused :: sentinel where "ErrChildPaused \<equiv> Run_sentinel ChildPausedErr"
abbreviation ErrPlanRevision :: sentinel where "ErrPlanRevision \<equiv> Run_sentinel PlanRevisionErr"
abbreviation ErrResultReference :: sentinel where "ErrResultReference \<equiv> Run_sentinel ResultReferenceErr"
abbreviation ErrNoRows :: sentinel where "ErrNoRows \<equiv> Run_sentinel NoRowsErr"

abbreviation ErrInputPending :: sentinel where "ErrInputPending \<equiv> Input_sentinel InputPendingErr"
abbreviation ErrQueuePaused :: sentinel where "ErrQueuePaused \<equiv> Input_sentinel QueuePausedErr"
abbreviation ErrInputTargetEnded :: sentinel where "ErrInputTargetEnded \<equiv> Input_sentinel InputTargetEndedErr"
abbreviation ErrInputNotPending :: sentinel where "ErrInputNotPending \<equiv> Input_sentinel InputNotPendingErr"
abbreviation ErrToolDisabled :: sentinel where "ErrToolDisabled \<equiv> Input_sentinel ToolDisabledErr"
abbreviation ErrApprovalChanged :: sentinel where "ErrApprovalChanged \<equiv> Input_sentinel ApprovalChangedErr"
abbreviation ErrCommandBusy :: sentinel where "ErrCommandBusy \<equiv> Input_sentinel CommandBusyErr"
abbreviation ErrAutoDisabled :: sentinel where "ErrAutoDisabled \<equiv> Input_sentinel AutoDisabledErr"
abbreviation ErrHostExecutionRequiresFull :: sentinel where "ErrHostExecutionRequiresFull \<equiv> Input_sentinel HostExecutionRequiresFullErr"
abbreviation ErrSandboxUnsupported :: sentinel where "ErrSandboxUnsupported \<equiv> Input_sentinel SandboxUnsupportedErr"
abbreviation ErrMemoryDenied :: sentinel where "ErrMemoryDenied \<equiv> Input_sentinel MemoryDeniedErr"

abbreviation ErrPermissionDenied :: sentinel where "ErrPermissionDenied \<equiv> Access_sentinel PermissionDeniedErr"
abbreviation ErrPermissionRevoked :: sentinel where "ErrPermissionRevoked \<equiv> Access_sentinel PermissionRevokedErr"
abbreviation ErrFullAccessConfirmation :: sentinel where "ErrFullAccessConfirmation \<equiv> Access_sentinel FullAccessConfirmationErr"
abbreviation ErrInvalidSpace :: sentinel where "ErrInvalidSpace \<equiv> Access_sentinel InvalidSpaceErr"
abbreviation ErrSpaceNotFound :: sentinel where "ErrSpaceNotFound \<equiv> Access_sentinel SpaceNotFoundErr"
abbreviation ErrConversationSpace :: sentinel where "ErrConversationSpace \<equiv> Access_sentinel ConversationSpaceErr"
abbreviation ErrComputerRootsRequired :: sentinel where "ErrComputerRootsRequired \<equiv> Access_sentinel ComputerRootsRequiredErr"
abbreviation ErrComputerFilesDisabled :: sentinel where "ErrComputerFilesDisabled \<equiv> Access_sentinel ComputerFilesDisabledErr"
abbreviation ErrPathNotAllowed :: sentinel where "ErrPathNotAllowed \<equiv> Access_sentinel PathNotAllowedErr"
abbreviation ErrPathBlocked :: sentinel where "ErrPathBlocked \<equiv> Access_sentinel PathBlockedErr"
abbreviation ErrProtectedPath :: sentinel where "ErrProtectedPath \<equiv> Access_sentinel ProtectedPathErr"
abbreviation ErrPublicLocalConfirmation :: sentinel where "ErrPublicLocalConfirmation \<equiv> Access_sentinel PublicLocalConfirmationErr"
abbreviation ErrPublicSourceBlocked :: sentinel where "ErrPublicSourceBlocked \<equiv> Access_sentinel PublicSourceBlockedErr"

abbreviation ErrControlUserInteractionRequired :: sentinel where "ErrControlUserInteractionRequired \<equiv> Control_sentinel ControlUserInteractionRequiredErr"
abbreviation ErrControlStaleRevision :: sentinel where "ErrControlStaleRevision \<equiv> Control_sentinel ControlStaleRevisionErr"
abbreviation ErrControlAlreadyUsed :: sentinel where "ErrControlAlreadyUsed \<equiv> Control_sentinel ControlAlreadyUsedErr"
abbreviation ErrControlOperationNotFound :: sentinel where "ErrControlOperationNotFound \<equiv> Control_sentinel ControlOperationNotFoundErr"
abbreviation ErrControlExpired :: sentinel where "ErrControlExpired \<equiv> Control_sentinel ControlExpiredErr"
abbreviation ErrControlWrongCode :: sentinel where "ErrControlWrongCode \<equiv> Control_sentinel ControlWrongCodeErr"
abbreviation ErrControlConfirmationRequired :: sentinel where "ErrControlConfirmationRequired \<equiv> Control_sentinel ControlConfirmationRequiredErr"
abbreviation ErrControlIrreversible :: sentinel where "ErrControlIrreversible \<equiv> Control_sentinel ControlIrreversibleErr"
abbreviation ErrControlBusy :: sentinel where "ErrControlBusy \<equiv> Control_sentinel ControlBusyErr"
abbreviation ErrControlJournal :: sentinel where "ErrControlJournal \<equiv> Control_sentinel ControlJournalErr"
abbreviation ErrExternalControlChange :: sentinel where "ErrExternalControlChange \<equiv> Control_sentinel ExternalControlChangeErr"
abbreviation ErrControlMCPReentryRequired :: sentinel where "ErrControlMCPReentryRequired \<equiv> Control_sentinel ControlMCPReentryRequiredErr"
abbreviation ErrControlRunConfirmation :: sentinel where "ErrControlRunConfirmation \<equiv> Control_sentinel ControlRunConfirmationErr"

text \<open>
  An error is a fresh errors.New, a sentinel, a fmt.Errorf with its format, its printed operands
  and its %w operands, or an errors.Join.
\<close>

datatype go_error =
    ErrorsNew string
  | Sentinel sentinel
  | Errorf string "string list" "go_error list"
  | ErrorsJoin "go_error list"

type_synonym 'a res = "go_error + 'a"

fun errors_is :: "go_error \<Rightarrow> sentinel \<Rightarrow> bool" where
  "errors_is (ErrorsNew _) s = False"
| "errors_is (Sentinel t) s = (t = s)"
| "errors_is (Errorf _ _ es) s = list_ex (\<lambda>e. errors_is e s) es"
| "errors_is (ErrorsJoin es) s = list_ex (\<lambda>e. errors_is e s) es"

text \<open>A Go function whose only result is an error returns None for nil.\<close>

type_synonym err = "go_error option"

text \<open>First error of a sequence of checks, the shape of every validate method.\<close>

fun first_err :: "err list \<Rightarrow> err" where
  "first_err [] = None"
| "first_err (e # es) = (case e of None \<Rightarrow> first_err es | Some x \<Rightarrow> Some x)"

lemma first_err_None [simp]: "first_err es = None \<longleftrightarrow> (\<forall>e \<in> set es. e = None)"
  by (induction es) (auto split: option.splits)

lemma first_err_append: "first_err (xs @ ys) = (case first_err xs of None \<Rightarrow> first_err ys | Some e \<Rightarrow> Some e)"
  by (induction xs) (simp_all split: option.split del: first_err_None)

section \<open>Bytes and strings\<close>

type_synonym byte = "8 word"
type_synonym bytes = "8 word list"

definition byte_of_char :: "char \<Rightarrow> byte" where
  "byte_of_char c = word_of_nat (of_char c)"

definition char_of_byte :: "byte \<Rightarrow> char" where
  "char_of_byte b = char_of (unat b)"

definition bytes_of_string :: "string \<Rightarrow> bytes" where
  "bytes_of_string s = map byte_of_char s"

definition string_of_bytes :: "bytes \<Rightarrow> string" where
  "string_of_bytes bs = map char_of_byte bs"

lemma char_of_byte_of_char [simp]: "char_of_byte (byte_of_char c) = c"
proof -
  have "of_char c < (256::nat)" by (cases c) (simp add: of_char_def)
  then have "unat (word_of_nat (of_char c) :: byte) = of_char c"
    by (simp add: unat_of_nat take_bit_nat_eq_self)
  then show ?thesis by (simp add: char_of_byte_def byte_of_char_def)
qed

lemma byte_of_char_of_byte [simp]: "byte_of_char (char_of_byte b) = b"
proof -
  have "unat b < 256" using unsigned_less[of b] by simp
  then show ?thesis by (simp add: char_of_byte_def byte_of_char_def)
qed

lemma string_of_bytes_of_string [simp]: "string_of_bytes (bytes_of_string s) = s"
  by (simp add: string_of_bytes_def bytes_of_string_def comp_def)

lemma bytes_of_string_of_bytes [simp]: "bytes_of_string (string_of_bytes b) = b"
  by (simp add: string_of_bytes_def bytes_of_string_def comp_def)

lemma length_bytes_of_string [simp]: "length (bytes_of_string s) = length s"
  by (simp add: bytes_of_string_def)

lemma length_string_of_bytes [simp]: "length (string_of_bytes s) = length s"
  by (simp add: string_of_bytes_def)

text \<open>strings.Join and sort.Strings (bytewise lexicographic order).\<close>

fun strings_Join :: "string list \<Rightarrow> string \<Rightarrow> string" where
  "strings_Join [] sep = []"
| "strings_Join [a] sep = a"
| "strings_Join (a # b # as) sep = a @ sep @ strings_Join (b # as) sep"

definition sort_Strings :: "string list \<Rightarrow> string list" where
  "sort_Strings xs = sort xs"

lemma set_sort_Strings [simp]: "set (sort_Strings xs) = set xs"
  by (simp add: sort_Strings_def)

lemma length_sort_Strings [simp]: "length (sort_Strings xs) = length xs"
  by (simp add: sort_Strings_def)

lemma sorted_sort_Strings [simp]: "sorted (sort_Strings xs)"
  by (simp add: sort_Strings_def)

lemma distinct_sort_Strings [simp]: "distinct (sort_Strings xs) = distinct xs"
  by (simp add: sort_Strings_def)

section \<open>Decimal integers\<close>

text \<open>
  strconv.Itoa, and strconv.Atoi on a 64-bit int: an optional sign, at least one digit, digits
  only, and a value that fits in an int64.
\<close>

definition digit_char :: "nat \<Rightarrow> char" where
  "digit_char d = char_of (48 + d)"

fun itoa_nat :: "nat \<Rightarrow> string" where
  "itoa_nat n = (if n < 10 then [digit_char n] else itoa_nat (n div 10) @ [digit_char (n mod 10)])"

declare itoa_nat.simps [simp del]

definition Itoa :: "int \<Rightarrow> string" where
  "Itoa i = (if i < 0 then CHR ''-'' # itoa_nat (nat (- i)) else itoa_nat (nat i))"

definition digit_value :: "char \<Rightarrow> nat option" where
  "digit_value c = (let n = (of_char c :: nat) in if 48 \<le> n \<and> n \<le> 57 then Some (n - 48) else None)"

fun atoi_digits :: "nat \<Rightarrow> string \<Rightarrow> nat option" where
  "atoi_digits acc [] = Some acc"
| "atoi_digits acc (c # cs) =
     (case digit_value c of None \<Rightarrow> None | Some d \<Rightarrow> atoi_digits (10 * acc + d) cs)"

definition Atoi :: "string \<Rightarrow> int option" where
  "Atoi s =
     (let neg = (s \<noteq> [] \<and> hd s = CHR ''-'');
          body = (if s \<noteq> [] \<and> (hd s = CHR ''-'' \<or> hd s = CHR ''+'') then tl s else s)
      in if body = [] then None
         else case atoi_digits 0 body of
                None \<Rightarrow> None
              | Some n \<Rightarrow>
                  if neg then (if int n \<le> 2 ^ 63 then Some (- int n) else None)
                  else (if int n < 2 ^ 63 then Some (int n) else None))"

lemma of_char_digit_char: "d < 10 \<Longrightarrow> (of_char (digit_char d) :: nat) = 48 + d"
  by (simp add: digit_char_def)

lemma digit_value_digit_char [simp]: "d < 10 \<Longrightarrow> digit_value (digit_char d) = Some d"
  by (simp add: digit_value_def of_char_digit_char)

lemma atoi_digits_append:
  "atoi_digits a (xs @ ys) = (case atoi_digits a xs of None \<Rightarrow> None | Some b \<Rightarrow> atoi_digits b ys)"
  by (induction xs arbitrary: a) (auto split: option.splits)

lemma atoi_digits_itoa_nat [simp]: "atoi_digits 0 (itoa_nat n) = Some n"
proof (induction n rule: itoa_nat.induct)
  case (1 n)
  show ?case
  proof (cases "n < 10")
    case True
    then show ?thesis by (simp add: itoa_nat.simps)
  next
    case False
    then show ?thesis using 1 by (simp add: itoa_nat.simps[of n] atoi_digits_append)
  qed
qed

lemma itoa_nat_not_Nil [simp]: "itoa_nat n \<noteq> []"
  by (simp add: itoa_nat.simps)

lemma hd_itoa_nat: "\<exists>d < 10. hd (itoa_nat n) = digit_char d"
proof (induction n rule: itoa_nat.induct)
  case (1 n)
  show ?case
    using 1 by (cases "n < 10") (auto simp: itoa_nat.simps[of n] hd_append)
qed

lemma hd_itoa_nat_no_sign: "hd (itoa_nat n) \<noteq> CHR ''-''" "hd (itoa_nat n) \<noteq> CHR ''+''"
proof -
  obtain d where d: "d < 10" "hd (itoa_nat n) = digit_char d" using hd_itoa_nat by blast
  have "digit_value (hd (itoa_nat n)) = Some d" using d by simp
  moreover have "digit_value CHR ''-'' = None" "digit_value CHR ''+'' = None"
    by (simp_all add: digit_value_def)
  ultimately show "hd (itoa_nat n) \<noteq> CHR ''-''" "hd (itoa_nat n) \<noteq> CHR ''+''" by auto
qed

lemma Atoi_Itoa: "- (2 ^ 63) \<le> i \<Longrightarrow> i < 2 ^ 63 \<Longrightarrow> Atoi (Itoa i) = Some i"
  by (auto simp: Atoi_def Itoa_def Let_def hd_itoa_nat_no_sign)

section \<open>Go maps\<close>

text \<open>
  A Go map is an association list with distinct keys: map_of is the lookup,
  AList.update the assignment and AList.delete the delete; the list order is
  one iteration order of range, which Go leaves open.
\<close>

type_synonym ('k, 'v) gomap = "('k \<times> 'v) list"

abbreviation gm_wf :: "('k, 'v) gomap \<Rightarrow> bool" where
  "gm_wf m \<equiv> distinct (map fst m)"

lemma gm_wf_update [simp]: "gm_wf m \<Longrightarrow> gm_wf (AList.update k v m)"
  by (rule distinct_update)

lemma gm_wf_delete [simp]: "gm_wf m \<Longrightarrow> gm_wf (AList.delete k m)"
  by (simp add: distinct_delete)

lemma gm_wf_filter [simp]: "gm_wf m \<Longrightarrow> gm_wf (filter P m)"
  by (induction m) auto

lemma update_fresh: "k \<notin> fst ` set m \<Longrightarrow> AList.update k v m = m @ [(k, v)]"
  by (induction m) auto

lemma length_update: "length (AList.update k v m) = (if k \<in> fst ` set m then length m else Suc (length m))"
  by (induction m) (auto simp: image_iff)

lemma delete_fresh: "k \<notin> fst ` set m \<Longrightarrow> AList.delete k m = m"
  by (induction m) (auto simp: AList.delete_eq)

lemma length_delete_le: "length (AList.delete k m) \<le> length m"
  by (simp add: AList.delete_eq)

lemma map_of_filter_gm: "gm_wf m \<Longrightarrow>
  map_of (filter P m) k = (case map_of m k of None \<Rightarrow> None | Some v \<Rightarrow> if P (k, v) then Some v else None)"
  by (induction m) (auto split: option.splits simp: map_of_eq_None_iff)

lemma set_update_gm: "gm_wf m \<Longrightarrow> set (AList.update k v m) = insert (k, v) {p \<in> set m. fst p \<noteq> k}"
  by (induction m) (auto simp: image_iff)

lemma set_delete_gm: "set (AList.delete k m) = {p \<in> set m. fst p \<noteq> k}"
  by (auto simp: AList.delete_eq)

lemma set_split_gm: "gm_wf m \<Longrightarrow> map_of m k = Some v \<Longrightarrow> set m = insert (k, v) {p \<in> set m. fst p \<noteq> k}"
proof (induction m)
  case (Cons p m)
  show ?case
  proof (cases "fst p = k")
    case True
    then have "\<forall>q \<in> set m. fst q \<noteq> k" using Cons.prems by (auto simp: image_iff)
    then show ?thesis using True Cons.prems by (cases p) auto
  next
    case False
    then have "set m = insert (k, v) {p \<in> set m. fst p \<noteq> k}" using Cons by (cases p) auto
    then show ?thesis using False by auto
  qed
qed simp

lemma keys_update [simp]: "fst ` set (AList.update k v m) = insert k (fst ` set m)"
  by (induction m) auto

section \<open>Reachable states\<close>

locale invariant_system =
  fixes start :: "'s \<Rightarrow> bool"
    and step :: "'s \<Rightarrow> 's \<Rightarrow> bool"
    and inv :: "'s \<Rightarrow> bool"
  assumes start_inv: "start s \<Longrightarrow> inv s"
    and step_inv: "inv s \<Longrightarrow> step s t \<Longrightarrow> inv t"
begin

lemma steps_inv: "step\<^sup>*\<^sup>* s t \<Longrightarrow> inv s \<Longrightarrow> inv t"
  by (induction rule: rtranclp_induct) (auto intro: step_inv)

lemma reachable_inv: "start s \<Longrightarrow> step\<^sup>*\<^sup>* s t \<Longrightarrow> inv t"
  by (blast intro: steps_inv start_inv)

end

end
