(* ===== verification/Execution_Gate.thy ===== *)
theory Execution_Gate
  imports Prelude
begin

text \<open>
  internal/harness/execution_gate.go: the process-wide gate that leases one conversation per
  foreground run, keeps settings and backups exclusive, and bounds the model calls in flight.
  Every method takes the gate's mutex for its whole body, so each is one atomic step on the
  record. The release closures an acquire hands out carry their sync.Once as a flag.
\<close>

section \<open>State and operations\<close>

definition MaxForegroundRuns :: nat where
  "MaxForegroundRuns = 2"

record executionGate =
  exclusive :: bool
  chats :: "(string, bool) gomap"

definition TryLock :: "executionGate \<Rightarrow> bool \<times> executionGate" where
  "TryLock gate =
     (if exclusive gate \<or> length (chats gate) \<noteq> 0 then (False, gate)
      else (True, gate\<lparr>exclusive := True\<rparr>))"

definition Unlock :: "executionGate \<Rightarrow> executionGate" where
  "Unlock gate = gate\<lparr>exclusive := False\<rparr>"

text \<open>The closure acquire returns: the conversation it deletes and whether its Once has fired.\<close>

record lease =
  lease_chat :: string
  lease_once :: bool

definition executing_count :: "executionGate \<Rightarrow> nat" where
  "executing_count gate = length (filter snd (chats gate))"

definition blocking_ids :: "executionGate \<Rightarrow> string" where
  "blocking_ids gate = strings_Join (sort_Strings (map fst (chats gate))) '', ''"

definition acquire :: "executionGate \<Rightarrow> string \<Rightarrow> bool \<Rightarrow> lease res \<times> executionGate" where
  "acquire gate chat execution =
     (let held = (map_of (chats gate) chat \<noteq> None);
          count = executing_count gate
      in if chat = [] \<or> exclusive gate \<or> held \<or> (execution \<and> count \<ge> MaxForegroundRuns)
         then (Inl (Errorf ''%w; foreground limit=%d; blocking conversations: %s''
                      [Itoa (int MaxForegroundRuns), blocking_ids gate] [Sentinel ErrActiveRun]),
               gate)
         else (Inr \<lparr>lease_chat = chat, lease_once = False\<rparr>,
               gate\<lparr>chats := AList.update chat execution (chats gate)\<rparr>))"

definition release :: "lease \<Rightarrow> executionGate \<Rightarrow> lease \<times> executionGate" where
  "release l gate =
     (if lease_once l then (l, gate)
      else (l\<lparr>lease_once := True\<rparr>,
            gate\<lparr>chats := AList.delete (lease_chat l) (chats gate)\<rparr>))"

text \<open>
  A service that already owns a lease gets a closure that does nothing; an empty conversation
  gets a draft name from newID. The result pairs the closure, None for the empty one.
\<close>

definition acquireConversation ::
    "bool \<Rightarrow> string \<Rightarrow> executionGate \<Rightarrow> string \<Rightarrow> lease option res \<times> executionGate" where
  "acquireConversation ownsLease newID gate chat =
     (if ownsLease then (Inr None, gate)
      else let chat' = (if chat = [] then ''draft-'' @ newID else chat)
           in case acquire gate chat' True of
                (Inl e, g) \<Rightarrow> (Inl e, g)
              | (Inr l, g) \<Rightarrow> (Inr (Some l), g))"

text \<open>The run lookup of acquireParent is its argument: the conversation of the run, or an error.\<close>

definition acquireParent ::
    "bool \<Rightarrow> string \<Rightarrow> (string \<Rightarrow> string res) \<Rightarrow> executionGate \<Rightarrow> string
      \<Rightarrow> lease option res \<times> executionGate" where
  "acquireParent ownsLease newID runConversation gate runID =
     (if ownsLease then (Inr None, gate)
      else case runConversation runID of
             Inl e \<Rightarrow> (Inl e, gate)
           | Inr chat \<Rightarrow> acquireConversation ownsLease newID gate chat)"

definition commit :: "executionGate \<Rightarrow> string \<Rightarrow> unit res \<times> executionGate" where
  "commit gate allowChat =
     (let blocked = (exclusive gate
                     \<or> list_ex (\<lambda>(id, _). id \<noteq> allowChat \<or> allowChat = []) (chats gate))
      in if blocked
         then (Inl (Errorf ''%w; blocking conversations: %s'' [blocking_ids gate] [Sentinel ErrActiveRun]), gate)
         else (Inr (), gate\<lparr>exclusive := True\<rparr>))"

text \<open>
  The model slots are a channel of capacity two, made on first use. A select between a free slot
  and a finished context may take either ready case (pick); with neither ready the call blocks,
  which is None.
\<close>

definition acquireModel :: "bool \<Rightarrow> go_error option \<Rightarrow> nat option \<Rightarrow> (err \<times> nat option) option" where
  "acquireModel pick ctxErr modelSlots =
     (let used = (case modelSlots of None \<Rightarrow> 0 | Some n \<Rightarrow> n)
      in if used < 2 \<and> (ctxErr = None \<or> pick) then Some (None, Some (Suc used))
         else case ctxErr of Some e \<Rightarrow> Some (Some e, Some used) | None \<Rightarrow> None)"

definition releaseModel :: "nat option \<Rightarrow> nat option" where
  "releaseModel modelSlots = map_option (\<lambda>n. n - 1) modelSlots"

section \<open>The gate and its clients as a transition system\<close>

text \<open>
  A world is the gate, every lease closure handed out so far (any of them may be called again at
  any time) and whether somebody is due to call Unlock: the caller of a TryLock that returned
  true, or the holder of the closure commit returned.
\<close>

record gate_world =
  gw_gate :: executionGate
  gw_leases :: "lease list"
  gw_holder :: bool

inductive gate_step :: "gate_world \<Rightarrow> gate_world \<Rightarrow> bool" where
  TryLockStep:
    "TryLock (gw_gate w) = (ok, g) \<Longrightarrow>
     gate_step w (w\<lparr>gw_gate := g, gw_holder := ok \<or> gw_holder w\<rparr>)"
| UnlockStep:
    "gw_holder w \<Longrightarrow> gate_step w (w\<lparr>gw_gate := Unlock (gw_gate w), gw_holder := False\<rparr>)"
| AcquireStep:
    "acquire (gw_gate w) chat execution = (Inr l, g) \<Longrightarrow>
     gate_step w (w\<lparr>gw_gate := g, gw_leases := gw_leases w @ [l]\<rparr>)"
| AcquireFail:
    "acquire (gw_gate w) chat execution = (Inl e, g) \<Longrightarrow> gate_step w (w\<lparr>gw_gate := g\<rparr>)"
| ReleaseStep:
    "i < length (gw_leases w) \<Longrightarrow> release (gw_leases w ! i) (gw_gate w) = (l, g) \<Longrightarrow>
     gate_step w (w\<lparr>gw_gate := g, gw_leases := (gw_leases w)[i := l]\<rparr>)"
| CommitStep:
    "commit (gw_gate w) allowChat = (r, g) \<Longrightarrow>
     gate_step w (w\<lparr>gw_gate := g, gw_holder := (r = Inr ()) \<or> gw_holder w\<rparr>)"

definition gate_start :: "gate_world \<Rightarrow> bool" where
  "gate_start w \<longleftrightarrow> w = \<lparr>gw_gate = \<lparr>exclusive = False, chats = []\<rparr>, gw_leases = [], gw_holder = False\<rparr>"

definition live_chats :: "lease list \<Rightarrow> string list" where
  "live_chats ls = map lease_chat (filter (\<lambda>l. \<not> lease_once l) ls)"

text \<open>
  The live leases are exactly the conversations the gate holds, each once; at most two execute;
  an exclusive holder leaves room for no conversation but the one that commits.
\<close>

definition gate_inv :: "gate_world \<Rightarrow> bool" where
  "gate_inv w \<longleftrightarrow>
     gm_wf (chats (gw_gate w))
     \<and> mset (live_chats (gw_leases w)) = mset (map fst (chats (gw_gate w)))
     \<and> [] \<notin> fst ` set (chats (gw_gate w))
     \<and> executing_count (gw_gate w) \<le> MaxForegroundRuns
     \<and> exclusive (gw_gate w) = gw_holder w
     \<and> (exclusive (gw_gate w) \<longrightarrow> length (chats (gw_gate w)) \<le> 1)"

section \<open>Lemmas\<close>

lemma live_chats_append [simp]: "live_chats (xs @ ys) = live_chats xs @ live_chats ys"
  by (simp add: live_chats_def)

lemma live_chats_fire:
  "i < length ls \<Longrightarrow> \<not> lease_once (ls ! i) \<Longrightarrow>
   mset (live_chats (ls[i := (ls ! i)\<lparr>lease_once := True\<rparr>])) = mset (live_chats ls) - {#lease_chat (ls ! i)#}"
proof (induction ls arbitrary: i)
  case (Cons a ls)
  show ?case
  proof (cases i)
    case 0
    then show ?thesis using Cons.prems by (simp add: live_chats_def)
  next
    case (Suc j)
    then have IH: "mset (live_chats (ls[j := (ls ! j)\<lparr>lease_once := True\<rparr>])) = mset (live_chats ls) - {#lease_chat (ls ! j)#}"
      using Cons by simp
    have "lease_chat (ls ! j) \<in># mset (live_chats ls)"
      using Suc Cons.prems by (auto simp: live_chats_def)
    then show ?thesis using Suc IH
      by (simp add: live_chats_def multiset_diff_union_assoc[symmetric])
  qed
qed simp

lemma mset_keys_delete:
  "gm_wf m \<Longrightarrow> mset (map fst (AList.delete k m)) = mset (map fst m) - {#k#}"
  by (induction m) (auto simp: AList.delete_eq filter_id_conv fst_conv image_iff
        intro!: arg_cong[where f = "\<lambda>x. add_mset _ (image_mset fst (mset x))"])

lemma acquire_ok_iff:
  "(\<exists>l g. acquire gate chat ex = (Inr l, g)) \<longleftrightarrow>
     chat \<noteq> [] \<and> \<not> exclusive gate \<and> chat \<notin> fst ` set (chats gate)
     \<and> (ex \<longrightarrow> executing_count gate < MaxForegroundRuns)"
  by (auto simp: acquire_def Let_def map_of_eq_None_iff)

lemma acquire_okD:
  "acquire gate chat ex = (Inr l, g) \<Longrightarrow>
     l = \<lparr>lease_chat = chat, lease_once = False\<rparr> \<and> g = gate\<lparr>chats := chats gate @ [(chat, ex)]\<rparr>
     \<and> chat \<noteq> [] \<and> \<not> exclusive gate \<and> chat \<notin> fst ` set (chats gate)
     \<and> (ex \<longrightarrow> executing_count gate < MaxForegroundRuns)"
  by (auto simp: acquire_def Let_def map_of_eq_None_iff update_fresh split: if_splits)

lemma acquire_failD:
  "acquire gate chat ex = (Inl e, g) \<Longrightarrow> g = gate \<and> errors_is e ErrActiveRun"
  by (auto simp: acquire_def Let_def split: if_splits)

lemma executing_count_delete: "executing_count (g\<lparr>chats := AList.delete k (chats g)\<rparr>) \<le> executing_count g"
proof -
  have "length (filter snd (AList.delete k m)) \<le> length (filter snd m)" for m :: "(string, bool) gomap"
    by (induction m) (auto simp: AList.delete_eq)
  then show ?thesis by (simp add: executing_count_def)
qed

lemma commit_okD:
  "commit g a = (Inr (), g') \<Longrightarrow>
     g' = g\<lparr>exclusive := True\<rparr> \<and> \<not> exclusive g \<and> (\<forall>id \<in> fst ` set (chats g). id = a \<and> a \<noteq> [])"
  by (force simp: commit_def Let_def list_ex_iff split: if_splits)

lemma commit_failD: "commit g a = (Inl e, g') \<Longrightarrow> g' = g \<and> errors_is e ErrActiveRun"
  by (auto simp: commit_def Let_def split: if_splits)

lemma all_same_length: "distinct xs \<Longrightarrow> \<forall>x \<in> set xs. x = a \<Longrightarrow> length xs \<le> 1"
  by (cases xs; cases "tl xs") auto

lemma gate_inv_release:
  assumes inv: "gate_inv w" and i: "i < length (gw_leases w)"
    and r: "release (gw_leases w ! i) (gw_gate w) = (l, g)"
  shows "gate_inv (w\<lparr>gw_gate := g, gw_leases := (gw_leases w)[i := l]\<rparr>)"
proof (cases "lease_once (gw_leases w ! i)")
  case True
  with r have "l = gw_leases w ! i" "g = gw_gate w" by (auto simp: release_def)
  with inv show ?thesis by simp
next
  case False
  let ?c = "lease_chat (gw_leases w ! i)"
  have lg: "l = (gw_leases w ! i)\<lparr>lease_once := True\<rparr>"
    "g = gw_gate w\<lparr>chats := AList.delete ?c (chats (gw_gate w))\<rparr>"
    using False r by (auto simp: release_def)
  have "mset (live_chats ((gw_leases w)[i := l])) = mset (live_chats (gw_leases w)) - {#?c#}"
    using live_chats_fire[OF i False] lg by simp
  moreover have "mset (map fst (AList.delete ?c (chats (gw_gate w)))) = mset (map fst (chats (gw_gate w))) - {#?c#}"
    by (rule mset_keys_delete) (use inv in \<open>simp add: gate_inv_def\<close>)
  moreover have "executing_count g \<le> MaxForegroundRuns"
    using inv executing_count_delete[where g = "gw_gate w" and k = ?c] lg(2) by (simp add: gate_inv_def)
  ultimately show ?thesis using inv lg(2) length_delete_le[of ?c "chats (gw_gate w)"]
    by (auto simp: gate_inv_def set_delete_gm)
qed

lemma gate_inv_commit:
  assumes "gate_inv w" "commit (gw_gate w) a = (r, g)"
  shows "gate_inv (w\<lparr>gw_gate := g, gw_holder := (r = Inr ()) \<or> gw_holder w\<rparr>)"
proof (cases r)
  case (Inl e)
  then show ?thesis using assms commit_failD[of "gw_gate w" a e g] by (simp add: gate_inv_def)
next
  case (Inr u)
  then have ok: "g = gw_gate w\<lparr>exclusive := True\<rparr>" "\<forall>id \<in> fst ` set (chats (gw_gate w)). id = a"
    using assms commit_okD[of "gw_gate w" a g] by auto
  moreover have "length (map fst (chats (gw_gate w))) \<le> 1"
    using assms ok(2) by (intro all_same_length[of _ a]) (auto simp: gate_inv_def)
  ultimately show ?thesis using assms(1) Inr by (auto simp: gate_inv_def executing_count_def)
qed

lemma gate_inv_step: "gate_inv w \<Longrightarrow> gate_step w w' \<Longrightarrow> gate_inv w'"
proof (erule gate_step.cases, goal_cases)
  case (1 w0 ok g)
  then show ?case by (auto simp: TryLock_def gate_inv_def executing_count_def split: if_splits)
next
  case (2 w0)
  then show ?case by (auto simp: gate_inv_def Unlock_def executing_count_def)
next
  case (3 w0 chat ex l g)
  then show ?case using acquire_okD[of "gw_gate w0" chat ex l g]
    by (auto simp: gate_inv_def executing_count_def live_chats_def)
next
  case (4 w0 chat ex e g)
  then show ?case using acquire_failD[of "gw_gate w0" chat ex e g] by simp
next
  case (5 i w0 l g)
  then show ?case using gate_inv_release by blast
next
  case (6 w0 a r g)
  then show ?case using gate_inv_commit by blast
qed

interpretation gate_sys: invariant_system gate_start gate_step gate_inv
proof (unfold_locales, goal_cases)
  case (1 s)
  then show ?case by (simp add: gate_start_def gate_inv_def live_chats_def executing_count_def)
next
  case (2 s t)
  then show ?case by (rule gate_inv_step)
qed

lemma gate_inv_lease_held:
  "gate_inv w \<Longrightarrow> l \<in> set (gw_leases w) \<Longrightarrow> \<not> lease_once l \<Longrightarrow> lease_chat l \<in> fst ` set (chats (gw_gate w))"
proof -
  assume inv: "gate_inv w" and l: "l \<in> set (gw_leases w)" "\<not> lease_once l"
  have "set (live_chats (gw_leases w)) = set (map fst (chats (gw_gate w)))"
    using inv mset_eq_setD unfolding gate_inv_def by blast
  moreover have "lease_chat l \<in> set (live_chats (gw_leases w))" using l by (auto simp: live_chats_def)
  ultimately show ?thesis by simp
qed

section \<open>Properties\<close>



text \<open>
  In a reachable state a release closure removes exactly its own conversation the first time
  it is called and nothing when called again, even if the conversation was leased anew; after the
  first call the conversation can be leased for a short edit as soon as no exclusive holder is left.
\<close>

theorem release_exactly_once:
  assumes "gate_start w0" and "gate_step\<^sup>*\<^sup>* w0 w" and "l \<in> set (gw_leases w)"
    and "release l (gw_gate w) = (l1, g1)"
  shows "(lease_once l \<longrightarrow> g1 = gw_gate w)
    \<and> (\<not> lease_once l \<longrightarrow> lease_chat l \<in> fst ` set (chats (gw_gate w))
         \<and> map_of (chats g1) = (map_of (chats (gw_gate w)))(lease_chat l := None))
    \<and> (\<forall>g. release l1 g = (l1, g))
    \<and> (\<not> lease_once l \<and> \<not> exclusive (gw_gate w) \<longrightarrow>
         (\<exists>l2 g2. acquire g1 (lease_chat l) False = (Inr l2, g2)))"
proof -
  have inv: "gate_inv w" using gate_sys.reachable_inv assms(1,2) by blast
  have held: "\<not> lease_once l \<longrightarrow> lease_chat l \<in> fst ` set (chats (gw_gate w))"
    using gate_inv_lease_held[OF inv assms(3)] by blast
  have again: "\<not> lease_once l \<and> \<not> exclusive (gw_gate w) \<longrightarrow>
         (\<exists>l2 g2. acquire g1 (lease_chat l) False = (Inr l2, g2))"
    using assms(4) held inv unfolding acquire_ok_iff
    by (force simp: release_def set_delete_gm gate_inv_def)
  then show ?thesis
    using assms(4) held
    by (cases "lease_once l") (auto simp: release_def AList.delete_conv')
qed

theorem release_exactly_once_witness:
  "\<exists>(w::gate_world) (l::lease). l \<in> set (gw_leases w) \<and> \<not> lease_once l
     \<and> map_of (chats (snd (release l (gw_gate w)))) (lease_chat l) = None
     \<and> chats (gw_gate w) = [(''a'', True)]"
proof -
  define w0 where "w0 = \<lparr>gw_gate = \<lparr>exclusive = False, chats = []\<rparr>, gw_leases = [], gw_holder = False\<rparr>"
  define g where "g = \<lparr>exclusive = False, chats = [(''a'', True)]\<rparr>"
  define l where "l = \<lparr>lease_chat = ''a'', lease_once = False\<rparr>"
  define w where "w = w0\<lparr>gw_gate := g, gw_leases := gw_leases w0 @ [l]\<rparr>"
  have a: "acquire (gw_gate w0) ''a'' True = (Inr l, g)"
    by (simp add: acquire_def w0_def g_def l_def executing_count_def MaxForegroundRuns_def)
  have s: "gate_start w0" by (simp add: gate_start_def w0_def)
  have r: "gate_step\<^sup>*\<^sup>* w0 w"
    unfolding w_def by (rule r_into_rtranclp[of gate_step, OF gate_step.AcquireStep[OF a]])
  have l: "l \<in> set (gw_leases w)" by (simp add: w_def)
  have "release l (gw_gate w) = (fst (release l (gw_gate w)), snd (release l (gw_gate w)))" by simp
  note o = release_exactly_once[OF s r l this]
  have n: "\<not> lease_once l" by (simp add: l_def)
  have c: "chats (gw_gate w) = [(''a'', True)]" by (simp add: w_def g_def)
  show ?thesis using o n c l by (intro exI[of _ w] exI[of _ l]) simp
qed

text \<open>
  A commit that succeeds met no leased conversation other than the one it was allowed, and
  from then until Unlock every acquire of any conversation, every TryLock and every further commit
  is refused with ErrActiveRun (or false) and leaves the gate as it is.
\<close>

theorem commit_excludes:
  assumes "commit g allowChat = (Inr (), g')"
  shows "fst ` set (chats g) \<subseteq> {allowChat} - {[]}
    \<and> (\<forall>chat ex. \<exists>e. acquire g' chat ex = (Inl e, g') \<and> errors_is e ErrActiveRun)
    \<and> TryLock g' = (False, g')
    \<and> (\<forall>c. \<exists>e. commit g' c = (Inl e, g') \<and> errors_is e ErrActiveRun)
    \<and> (exclusive g = False \<longrightarrow> Unlock g' = g)"
  using commit_okD[OF assms]
  by (auto simp: acquire_def TryLock_def commit_def Unlock_def Let_def)

theorem commit_excludes_witness:
  "TryLock (snd (commit \<lparr>exclusive = False, chats = [(''c'', True)]\<rparr> ''c''))
     = (False, \<lparr>exclusive = True, chats = [(''c'', True)]\<rparr>)"
proof -
  have c: "commit \<lparr>exclusive = False, chats = [(''c'', True)]\<rparr> ''c''
      = (Inr (), \<lparr>exclusive = True, chats = [(''c'', True)]\<rparr>)"
    by (simp add: commit_def)
  show ?thesis using commit_excludes[OF c] c by simp
qed

end
