(* ===== verification/Lark_Frame.thy ===== *)
theory Lark_Frame
  imports Prelude
begin

unbundle bit_operations_syntax

text \<open>
  internal/channels/lark_frame.go: the bounded protobuf codec of the Lark websocket frames and the
  assembler of fragmented messages. uint64 fields are 64-bit words and []byte are lists of 8-bit
  words, so the varint code of encoding/binary is modelled with its shifts and masks. A callback
  that mutates captured variables is a function on the captured state.
\<close>

section \<open>Varints\<close>

text \<open>encoding/binary AppendUvarint and Uvarint of the standard library.\<close>

function append_uvarint :: "64 word \<Rightarrow> bytes" where
  "append_uvarint x =
     (if 0x80 \<le> x then (ucast x OR 0x80) # append_uvarint (drop_bit 7 x) else [ucast x])"
  by pat_completeness auto
termination
proof (relation "measure unat", goal_cases)
  case (2 x)
  then have "128 \<le> unat x" by (simp add: word_le_nat_alt)
  then have "unat x div 128 < unat x" by simp
  then show ?case by (simp add: unat_drop_bit_eq drop_bit_eq_div unat_div)
qed simp

declare append_uvarint.simps [simp del]

text \<open>The loop state is the index, the accumulator and the shift; the result is Go's (value, n).\<close>

fun uvarint_loop :: "nat \<Rightarrow> 64 word \<Rightarrow> nat \<Rightarrow> bytes \<Rightarrow> 64 word \<times> int" where
  "uvarint_loop i x s [] = (0, 0)"
| "uvarint_loop i x s (b # buf) =
     (if i = 10 then (0, - (int i + 1))
      else if b < 0x80 then
        (if i = 9 \<and> b > 1 then (0, - (int i + 1)) else (x OR push_bit s (ucast b), int i + 1))
      else uvarint_loop (Suc i) (x OR push_bit s (ucast (b AND 0x7f))) (s + 7) buf)"

definition Uvarint :: "bytes \<Rightarrow> 64 word \<times> int" where
  "Uvarint buf = uvarint_loop 0 0 0 buf"

section \<open>Frames\<close>

record LarkFrame =
  Seq :: "64 word"
  Log :: "64 word"
  Service :: "64 word"
  Method :: "64 word"
  Headers :: "(string, string) gomap"
  Encoding :: string
  FrameType :: string
  Payload :: bytes
  LogNew :: bytes

definition wireVar :: "bytes \<Rightarrow> 64 word \<Rightarrow> 64 word \<Rightarrow> bytes" where
  "wireVar out field value = out @ append_uvarint (push_bit 3 field) @ append_uvarint value"

definition wireBytes :: "bytes \<Rightarrow> 64 word \<Rightarrow> bytes \<Rightarrow> bytes" where
  "wireBytes out field value =
     out @ append_uvarint (push_bit 3 field OR 2) @ append_uvarint (word_of_nat (length value)) @ value"

definition headerBytes :: "string \<Rightarrow> string \<Rightarrow> bytes" where
  "headerBytes key value =
     wireBytes (wireBytes [] 1 (bytes_of_string key)) 2 (bytes_of_string value)"

definition Marshal :: "LarkFrame \<Rightarrow> bytes" where
  "Marshal f =
     (let out = wireVar [] 1 (Seq f);
          out = wireVar out 2 (Log f);
          out = wireVar out 3 (Service f);
          out = wireVar out 4 (Method f);
          keys = sort_Strings (map fst (Headers f));
          out = fold (\<lambda>key out. wireBytes out 5 (headerBytes key (the (map_of (Headers f) key)))) keys out;
          out = wireBytes out 6 (bytes_of_string (Encoding f));
          out = wireBytes out 7 (bytes_of_string (FrameType f));
          out = wireBytes out 8 (Payload f)
      in wireBytes out 9 (LogNew f))"

type_synonym 's wire_call = "'s \<Rightarrow> 64 word \<Rightarrow> 64 word \<Rightarrow> bytes \<Rightarrow> 's \<times> err"

text \<open>
  One field: the tag, the value of a varint field, the bytes of a length-delimited field and the
  input left, or the error of the switch.
\<close>

definition wire_field :: "bytes \<Rightarrow> (64 word \<times> 64 word \<times> bytes \<times> bytes) res" where
  "wire_field raw =
     (let (tag, n) = Uvarint raw
      in if n \<le> 0 \<or> drop_bit 3 tag = 0 then Inl (ErrorsNew ''lark: invalid protobuf tag'')
         else let raw = drop (nat n) raw; kind = tag AND 7
           in if kind = 0 then
                (let (v, n) = Uvarint raw
                 in if n \<le> 0 then Inl (ErrorsNew ''lark: invalid varint'')
                    else Inr (drop_bit 3 tag, v, [], drop (nat n) raw))
              else if kind = 2 then
                (let (size, n) = Uvarint raw
                 in if n \<le> 0 \<or> size > word_of_nat (length raw - nat n)
                    then Inl (ErrorsNew ''lark: invalid field length'')
                    else let raw = drop (nat n) raw
                      in Inr (drop_bit 3 tag, 0, take (unat size) raw, drop (unat size) raw))
              else if kind = 1 then
                (if length raw < 8 then Inl (ErrorsNew ''lark: truncated field'')
                 else Inr (drop_bit 3 tag, 0, [], drop 8 raw))
              else if kind = 5 then
                (if length raw < 4 then Inl (ErrorsNew ''lark: truncated field'')
                 else Inr (drop_bit 3 tag, 0, [], drop 4 raw))
              else Inl (ErrorsNew ''lark: unsupported protobuf wire type''))"

lemma uvarint_loop_n: "snd (uvarint_loop i x s buf) \<le> int i + int (length buf)"
proof (induction i x s buf rule: uvarint_loop.induct)
  case (2 i x s b buf)
  then show ?case
    by (cases "i = 10"; cases "b < 0x80") (auto simp: algebra_simps)
qed simp

lemma wire_field_shorter:
  assumes "wire_field raw = Inr (field, v, b, rest)"
  shows "length rest < length raw"
proof -
  obtain tag n where u: "Uvarint raw = (tag, n)" by (cases "Uvarint raw")
  from assms u have n: "n > 0" by (auto simp: wire_field_def split: if_splits)
  have le: "n \<le> int (length raw)" using uvarint_loop_n[of 0 0 0 raw] u by (simp add: Uvarint_def)
  have "length rest \<le> length (drop (nat n) raw)"
    using assms u n by (auto simp: wire_field_def Let_def split: if_splits prod.splits)
  with n le show ?thesis by simp
qed

function wireRead :: "'s wire_call \<Rightarrow> 's \<Rightarrow> bytes \<Rightarrow> 's \<times> err" where
  "wireRead call st raw =
     (if raw = [] then (st, None)
      else case wire_field raw of
             Inl e \<Rightarrow> (st, Some e)
           | Inr (field, v, b, rest) \<Rightarrow>
               (case call st field v b of
                  (st', Some e) \<Rightarrow> (st', Some e)
                | (st', None) \<Rightarrow> wireRead call st' rest))"
  by pat_completeness auto
termination
  by (relation "measure (\<lambda>(call, st, raw). length raw)") (auto dest: wire_field_shorter)

declare wireRead.simps [simp del]

definition headerCall :: "(string \<times> string) wire_call" where
  "headerCall kv field v b =
     ((if field = 1 then string_of_bytes b else fst kv,
       if field = 2 then string_of_bytes b else snd kv), None)"

definition frameCall :: "LarkFrame wire_call" where
  "frameCall f field v b =
     (if field = 1 then (f\<lparr>Seq := v\<rparr>, None)
      else if field = 2 then (f\<lparr>Log := v\<rparr>, None)
      else if field = 3 then (f\<lparr>Service := v\<rparr>, None)
      else if field = 4 then (f\<lparr>Method := v\<rparr>, None)
      else if field = 5 then
        (if length (Headers f) \<ge> 64 \<or> length b > 4096
         then (f, Some (ErrorsNew ''lark: headers exceed limit''))
         else case wireRead headerCall ([], []) b of
                (_, Some e) \<Rightarrow> (f, Some e)
              | ((k, value), None) \<Rightarrow>
                  (if map_of (Headers f) k \<noteq> None then (f, Some (ErrorsNew ''lark: repeated header''))
                   else (f\<lparr>Headers := AList.update k value (Headers f)\<rparr>, None)))
      else if field = 6 then (f\<lparr>Encoding := string_of_bytes b\<rparr>, None)
      else if field = 7 then (f\<lparr>FrameType := string_of_bytes b\<rparr>, None)
      else if field = 8 then (f\<lparr>Payload := b\<rparr>, None)
      else if field = 9 then (f\<lparr>LogNew := b\<rparr>, None)
      else (f, None))"

definition emptyFrame :: LarkFrame where
  "emptyFrame = \<lparr>Seq = 0, Log = 0, Service = 0, Method = 0, Headers = [], Encoding = [],
                 FrameType = [], Payload = [], LogNew = []\<rparr>"

definition DecodeLarkFrame :: "bytes \<Rightarrow> LarkFrame \<times> err" where
  "DecodeLarkFrame raw =
     (if length raw > 2 ^ 20 then (emptyFrame, Some (ErrorsNew ''lark: frame exceeds limit''))
      else let (f, e) = wireRead frameCall emptyFrame raw
        in if Encoding f \<noteq> [] \<and> Encoding f \<noteq> ''json''
           then (f, Some (ErrorsNew ''lark: unsupported payload encoding''))
           else (f, e))"

section \<open>Assembler\<close>

text \<open>A nil part is None; the arrival time is in nanoseconds.\<close>

record larkParts =
  part_at :: int
  parts :: "bytes option list"
  part_size :: nat
  part_service :: "64 word"

type_synonym LarkAssembler = "(string, larkParts) gomap"

definition NewLarkAssembler :: LarkAssembler where
  "NewLarkAssembler = []"

definition valid_id_char :: "char \<Rightarrow> bool" where
  "valid_id_char c \<longleftrightarrow>
     (CHR ''a'' \<le> c \<and> c \<le> CHR ''z'') \<or> (CHR ''A'' \<le> c \<and> c \<le> CHR ''Z'')
     \<or> (CHR ''0'' \<le> c \<and> c \<le> CHR ''9'') \<or> c = CHR ''_'' \<or> c = CHR ''-'' \<or> c = CHR '':'' \<or> c = CHR ''.''"

definition validID :: "string \<Rightarrow> bool" where
  "validID mid \<longleftrightarrow> 1 \<le> length mid \<and> length mid \<le> 256 \<and> list_all valid_id_char mid"

definition header :: "LarkFrame \<Rightarrow> string \<Rightarrow> string" where
  "header f k = (case map_of (Headers f) k of None \<Rightarrow> [] | Some v \<Rightarrow> v)"

definition expire :: "int \<Rightarrow> LarkAssembler \<Rightarrow> LarkAssembler" where
  "expire now entries = filter (\<lambda>(k, v). \<not> now - part_at v > 5 * 10 ^ 9) entries"

definition fragmentCount :: "LarkFrame \<Rightarrow> int option" where
  "fragmentCount f = (if header f ''sum'' = [] then Some 1 else Atoi (header f ''sum''))"

text \<open>Storing one fragment in its entry and completing it: the second half of Add.\<close>

definition addPart ::
    "LarkAssembler \<Rightarrow> string \<Rightarrow> larkParts \<Rightarrow> nat \<Rightarrow> bytes \<Rightarrow> (bytes \<times> bool \<times> err) \<times> LarkAssembler" where
  "addPart entries mid entry seq payload =
     (let (entry', failed) =
        (case parts entry ! seq of
           Some p \<Rightarrow> (entry, if p \<noteq> payload then Some (ErrorsNew ''lark: conflicting fragment'') else None)
         | None \<Rightarrow>
             let sz = part_size entry + length payload
             in if sz > 2 ^ 20
                then (entry\<lparr>part_size := sz\<rparr>, Some (ErrorsNew ''lark: combined payload exceeds limit''))
                else (entry\<lparr>part_size := sz, parts := (parts entry)[seq := Some payload]\<rparr>, None))
      in case failed of
           Some e \<Rightarrow>
             (([], False, Some e),
              (if parts entry ! seq = None then AList.delete mid entries else entries))
         | None \<Rightarrow>
             if None \<in> set (parts entry') then (([], False, None), AList.update mid entry' entries)
             else ((concat (map the (parts entry')), True, None), AList.delete mid entries))"

definition Add :: "int \<Rightarrow> LarkAssembler \<Rightarrow> LarkFrame \<Rightarrow> (bytes \<times> bool \<times> err) \<times> LarkAssembler" where
  "Add now entries f =
     (case fragmentCount f of
        None \<Rightarrow> (([], False, Some (ErrorsNew ''lark: invalid fragment count'')), entries)
      | Some cnt \<Rightarrow>
          if cnt < 1 \<or> cnt > 64
          then (([], False, Some (ErrorsNew ''lark: invalid fragment count'')), entries)
          else if cnt = 1 then ((Payload f, True, None), entries)
          else (case Atoi (header f ''seq'') of
                 None \<Rightarrow> (([], False, Some (ErrorsNew ''lark: invalid fragment'')), entries)
               | Some seq \<Rightarrow>
                   let mid = header f ''message_id''
                   in if seq < 0 \<or> seq \<ge> cnt \<or> \<not> validID mid
                      then (([], False, Some (ErrorsNew ''lark: invalid fragment'')), entries)
                      else let entries = expire now entries
                        in if map_of entries mid = None \<and> length entries \<ge> 16
                           then (([], False, Some (ErrorsNew ''lark: fragment capacity reached'')), entries)
                           else let entry = (case map_of entries mid of
                                               Some e \<Rightarrow> e
                                             | None \<Rightarrow> \<lparr>part_at = now, parts = replicate (nat cnt) None,
                                                          part_size = 0, part_service = Service f\<rparr>);
                                    entries = AList.update mid entry entries
                             in if length (parts entry) \<noteq> nat cnt \<or> part_service entry \<noteq> Service f
                                then (([], False, Some (ErrorsNew ''lark: inconsistent fragments'')), entries)
                                else addPart entries mid entry (nat seq) (Payload f)))"

section \<open>The codec round trip\<close>

lemma bit_0x7f_0x80:
  "bit (0x7f :: 64 word) n = (n < 7)" "bit (0x7f :: 8 word) n = (n < 7)" "bit (0x80 :: 8 word) n = (n = 7)"
proof -
  have "(0x7f :: 64 word) = mask 7" "(0x7f :: 8 word) = mask 7" "(0x80 :: 8 word) = push_bit 7 1"
    by (simp_all add: mask_eq_exp_minus_1)
  then show "bit (0x7f :: 64 word) n = (n < 7)" "bit (0x7f :: 8 word) n = (n < 7)"
    "bit (0x80 :: 8 word) n = (n = 7)"
    by (auto simp only: bit_mask_iff bit_push_bit_iff bit_1_iff) auto
qed

lemma low_septet:
  fixes v :: "64 word"
  shows "(ucast ((ucast v OR 0x80 :: 8 word) AND 0x7f) :: 64 word) = v AND 0x7f"
  by (rule bit_word_eqI)
    (simp only: bit_and_iff bit_or_iff bit_ucast_iff bit_0x7f_0x80, auto)

lemma septet_join:
  fixes v :: "64 word"
  shows "push_bit s (v AND 0x7f) OR push_bit (s + 7) (drop_bit 7 v) = push_bit s v"
proof (rule bit_word_eqI)
  fix n
  assume "n < LENGTH(64)"
  have e: "7 + (n - (s + 7)) = n - s" "\<not> n - s < 7" if "s + 7 \<le> n" using that by simp_all
  have l: "n - s < 7" if "s \<le> n" "\<not> s + 7 \<le> n" using that by simp
  show "bit (push_bit s (v AND 0x7f) OR push_bit (s + 7) (drop_bit 7 v)) n = bit (push_bit s v) n"
    by (simp only: bit_and_iff bit_or_iff bit_push_bit_iff bit_drop_bit_eq bit_0x7f_0x80 comp_def)
      (use e l in \<open>cases "s + 7 \<le> n"; auto simp only:; simp\<close>)
qed

lemma high_bit_ge:
  fixes v :: "64 word"
  shows "\<not> (ucast v OR 0x80 :: 8 word) < 0x80"
proof
  let ?b = "ucast v OR 0x80 :: 8 word"
  assume "?b < 0x80"
  then have "unat ?b < 128" by (simp add: word_less_nat_alt)
  then have "\<not> bit (unat ?b) 7" by (simp add: bit_iff_odd)
  moreover have "bit ?b 7" by (simp add: bit_or_iff bit_0x7f_0x80)
  ultimately show False by (simp add: bit_unsigned_iff)
qed

lemma uvarint_append:
  assumes "i + 1 \<le> 10" "s = 7 * i" "unat v < 2 ^ (64 - 7 * i)"
  shows "uvarint_loop i a s (append_uvarint v @ rest)
     = (a OR push_bit s v, int i + int (length (append_uvarint v)))"
  using assms
proof (induction v arbitrary: i a s rule: append_uvarint.induct)
  case (1 v)
  show ?case
  proof (cases "0x80 \<le> v")
    case True
    then have "128 \<le> unat v" by (simp add: word_le_nat_alt)
    then have i: "i < 9" using 1(2,4) by (cases "i = 9") (simp_all del: power_strict_increasing_iff)
    have "unat (drop_bit 7 v) < 2 ^ (64 - 7 * (i + 1))"
    proof -
      have "64 - 7 * i = (64 - 7 * (i + 1)) + 7" using i by simp
      then have "unat v < 2 ^ (64 - 7 * (i + 1)) * 2 ^ 7" using 1(4) by (simp only: power_add)
      then show ?thesis by (simp only: unat_drop_bit_eq drop_bit_eq_div[of 7 "unat v"] less_mult_imp_div_less)
    qed
    then have IH: "uvarint_loop (Suc i) a' (s + 7) (append_uvarint (drop_bit 7 v) @ rest)
        = (a' OR push_bit (s + 7) (drop_bit 7 v), int (Suc i) + int (length (append_uvarint (drop_bit 7 v))))" for a'
      using 1(1)[OF True, of "Suc i" "s + 7" a'] 1(3) i by simp
    have "append_uvarint v @ rest = (ucast v OR 0x80) # append_uvarint (drop_bit 7 v) @ rest"
      using True by (simp add: append_uvarint.simps[of v])
    then have "uvarint_loop i a s (append_uvarint v @ rest)
        = uvarint_loop (Suc i) (a OR push_bit s (v AND 0x7f)) (s + 7) (append_uvarint (drop_bit 7 v) @ rest)"
      using i high_bit_ge[of v] by (simp only: uvarint_loop.simps low_septet) simp
    also have "\<dots> = (a OR push_bit s v, int (Suc i) + int (length (append_uvarint (drop_bit 7 v))))"
      unfolding IH or.assoc septet_join by simp
    also have "int (Suc i) + int (length (append_uvarint (drop_bit 7 v))) = int i + int (length (append_uvarint v))"
      using True by (simp add: append_uvarint.simps[of v])
    finally show ?thesis .
  next
    case False
    then have v: "unat v < 128" by (simp add: word_le_nat_alt)
    have u: "unat (ucast v :: 8 word) = unat v" using v by (simp add: unsigned_ucast_eq take_bit_nat_eq_self)
    then have "(ucast v :: 8 word) < 0x80" using v by (simp add: word_less_nat_alt)
    moreover have "ucast (ucast v :: 8 word) = v" using u v
      by (simp add: word_unat_eq_iff unsigned_ucast_eq unsigned_take_bit_eq take_bit_nat_eq_self)
    moreover have "i = 9 \<longrightarrow> \<not> (ucast v :: 8 word) > 1" using 1(4) u by (auto simp: word_less_nat_alt)
    ultimately show ?thesis using False 1(2) by (simp add: append_uvarint.simps[of v])
  qed
qed

lemma Uvarint_append [simp]:
  "Uvarint (append_uvarint v @ rest) = (v, int (length (append_uvarint v)))"
  using uvarint_append[of 0 0 v 0 rest] unsigned_less[of v] by (simp add: Uvarint_def)

text \<open>
  A wire item is anything whose encoding one turn of the reading loop consumes whole, whatever
  follows it in a slice whose length fits Go's int. Both kinds of field Marshal writes are wire
  items.
\<close>

locale wire_item =
  fixes ok :: "'x \<Rightarrow> bool"
    and enc :: "'x \<Rightarrow> bytes"
    and field_of :: "'x \<Rightarrow> 64 word"
    and value_of :: "'x \<Rightarrow> 64 word"
    and body_of :: "'x \<Rightarrow> bytes"
  assumes read: "ok x \<Longrightarrow> length (enc x @ rest) < 2 ^ 63 \<Longrightarrow>
    wire_field (enc x @ rest) = Inr (field_of x, value_of x, body_of x, rest)"
begin

lemma enc_not_Nil: "ok x \<Longrightarrow> enc x \<noteq> []"
  using wire_field_shorter[OF read, of x "[]"] by auto

lemma wireRead_item:
  "ok x \<Longrightarrow> length (enc x @ rest) < 2 ^ 63 \<Longrightarrow>
   call st (field_of x) (value_of x) (body_of x) = (st', None) \<Longrightarrow>
   wireRead call st (enc x @ rest) = wireRead call st' rest"
  using enc_not_Nil read by (subst wireRead.simps) simp

lemma wireRead_item_err:
  "ok x \<Longrightarrow> length (enc x @ rest) < 2 ^ 63 \<Longrightarrow>
   call st (field_of x) (value_of x) (body_of x) = (st', Some e) \<Longrightarrow>
   wireRead call st (enc x @ rest) = (st', Some e)"
  using enc_not_Nil read by (subst wireRead.simps) simp

end

definition field_ok :: "64 word \<Rightarrow> bool" where
  "field_ok field \<longleftrightarrow> field \<noteq> 0 \<and> unat field < 2 ^ 61"

lemma tag_parts:
  fixes field :: "64 word"
  assumes "unat field < 2 ^ 61"
  shows "drop_bit 3 (push_bit 3 field) = field" "drop_bit 3 (push_bit 3 field OR 2) = field"
    "push_bit 3 field AND 7 = 0" "(push_bit 3 field OR 2) AND 7 = 2"
proof -
  have hi: "\<not> bit field n" if "61 \<le> n" for n
  proof -
    have "unat field < 2 ^ n" using assms that by (meson less_le_trans one_le_numeral power_increasing)
    then have "\<not> bit (unat field) n" by (simp add: bit_iff_odd)
    then show ?thesis by (simp add: bit_unsigned_iff)
  qed
  have b7: "bit (7 :: 64 word) n = (n < 3)" for n
  proof -
    have "(7 :: 64 word) = mask 3" by (simp add: mask_eq_exp_minus_1)
    then show ?thesis by (auto simp only: bit_mask_iff) auto
  qed
  have b2: "bit (2 :: 64 word) n = (n = 1)" for n
  proof -
    have "(2 :: 64 word) = push_bit 1 1" by simp
    then show ?thesis by (auto simp only: bit_push_bit_iff bit_1_iff) auto
  qed
  have "n < 64 \<Longrightarrow> \<not> 3 + n < 64 \<Longrightarrow> \<not> bit field n" for n using hi[of n] by simp
  then show "drop_bit 3 (push_bit 3 field) = field" "drop_bit 3 (push_bit 3 field OR 2) = field"
    by (auto intro!: bit_word_eqI simp only: bit_drop_bit_eq bit_push_bit_iff bit_or_iff b2 comp_def) auto
  show "push_bit 3 field AND 7 = 0" "(push_bit 3 field OR 2) AND 7 = 2"
    by (auto intro!: bit_word_eqI simp only: bit_and_iff bit_push_bit_iff bit_or_iff b2 b7 bit_0_eq)
qed

lemma append_uvarint_not_Nil [simp]: "append_uvarint v \<noteq> []"
  by (simp add: append_uvarint.simps)

interpretation var_item: wire_item "\<lambda>(field, v). field_ok field" "\<lambda>(field, v). wireVar [] field v"
    fst snd "\<lambda>_. []"
proof (unfold_locales, goal_cases)
  case (1 x rest)
  then show ?case
    by (cases x) (simp add: wire_field_def wireVar_def field_ok_def tag_parts Let_def)
qed

interpretation bytes_item: wire_item "\<lambda>(field, b). field_ok field"
    "\<lambda>(field, b). wireBytes [] field b" fst "\<lambda>_. 0" snd
proof (unfold_locales, goal_cases)
  case (1 x rest)
  obtain field b where x: "x = (field, b)" by (cases x)
  then have ok: "field \<noteq> 0" "unat field < 2 ^ 61" "length b + length rest < 2 ^ 63"
    using 1 by (simp_all add: field_ok_def wireBytes_def)
  have len: "unat (word_of_nat n :: 64 word) = n" if "n \<le> length b + length rest" for n
    using ok(3) that by (simp add: unat_of_nat take_bit_nat_eq_self)
  have "\<not> (word_of_nat (length b + length rest) :: 64 word) < word_of_nat (length b)"
    using len[of "length b"] len[of "length b + length rest"] by (simp add: word_less_nat_alt)
  then show ?case using ok x len[of "length b"]
    by (simp add: wire_field_def wireBytes_def tag_parts Let_def del: of_nat_add)
qed

lemma wireVar_append: "wireVar out field v = out @ wireVar [] field v"
  by (simp add: wireVar_def)

lemma wireBytes_append: "wireBytes out field b = out @ wireBytes [] field b"
  by (simp add: wireBytes_def)

lemma field_ok_small: "unat field \<in> {1..9} \<Longrightarrow> field_ok field"
  by (auto simp: field_ok_def)

lemmas wireRead_var = var_item.wireRead_item[of "(field, v)" for field v, simplified]
lemmas wireRead_bytes = bytes_item.wireRead_item[of "(field, b)" for field b, simplified]

lemmas wireRead_bytes_last = bytes_item.wireRead_item[of "(field, b)" "[]" for field b, simplified]

lemma read_header:
  assumes "length (headerBytes k v) < 2 ^ 63"
  shows "wireRead headerCall ([], []) (headerBytes k v) = ((k, v), None)"
proof -
  have h: "headerBytes k v = wireBytes [] 1 (bytes_of_string k) @ wireBytes [] 2 (bytes_of_string v) @ []"
    by (simp add: headerBytes_def wireBytes_append[of "wireBytes [] 1 (bytes_of_string k)"])
  have "wireRead headerCall ([], []) (headerBytes k v)
      = wireRead headerCall (k, []) (wireBytes [] 2 (bytes_of_string v) @ [])"
    unfolding h using assms h by (intro wireRead_bytes) (simp_all add: field_ok_def headerCall_def)
  also have "\<dots> = wireRead headerCall (k, v) []"
    using assms h by (intro wireRead_bytes) (simp_all add: field_ok_def headerCall_def)
  also have "\<dots> = ((k, v), None)" by (simp add: wireRead.simps)
  finally show ?thesis .
qed

lemma read_headers:
  assumes "gm_wf (Headers f @ hs)" and "length (Headers f) + length hs \<le> 64"
    and "list_all (\<lambda>(k, v). length (headerBytes k v) \<le> 4096) hs"
    and "length (concat (map (\<lambda>(k, v). wireBytes [] 5 (headerBytes k v)) hs) @ rest) < 2 ^ 63"
  shows "wireRead frameCall f (concat (map (\<lambda>(k, v). wireBytes [] 5 (headerBytes k v)) hs) @ rest)
    = wireRead frameCall (f\<lparr>Headers := Headers f @ hs\<rparr>) rest"
  using assms
proof (induction hs arbitrary: f)
  case (Cons kv hs)
  obtain k v where kv: "kv = (k, v)" by (cases kv)
  let ?f = "f\<lparr>Headers := Headers f @ [(k, v)]\<rparr>"
  let ?rest = "concat (map (\<lambda>(k, v). wireBytes [] 5 (headerBytes k v)) hs) @ rest"
  have fresh: "k \<notin> fst ` set (Headers f)" using Cons.prems(1) kv by auto
  have "length (headerBytes k v) \<le> 4096" using Cons.prems(3) kv by simp
  then have call: "frameCall f 5 0 (headerBytes k v) = (?f, None)"
    using Cons.prems(2) fresh read_header[of k v]
    by (simp add: frameCall_def update_fresh map_of_eq_None_iff[THEN iffD2])
  have "wireRead frameCall f (wireBytes [] 5 (headerBytes k v) @ ?rest) = wireRead frameCall ?f ?rest"
    using Cons.prems(4) kv call by (intro wireRead_bytes) (simp_all add: field_ok_def)
  also have "\<dots> = wireRead frameCall (?f\<lparr>Headers := Headers ?f @ hs\<rparr>) rest"
    using Cons.prems kv by (intro Cons.IH) auto
  finally show ?case using kv by simp
qed simp

definition sorted_headers :: "LarkFrame \<Rightarrow> (string, string) gomap" where
  "sorted_headers f = map (\<lambda>k. (k, the (map_of (Headers f) k))) (sort_Strings (map fst (Headers f)))"

lemma sorted_headers_set: "gm_wf (Headers f) \<Longrightarrow> set (sorted_headers f) = set (Headers f)"
  by (force simp: sorted_headers_def image_iff)

lemma sorted_headers_wf: "gm_wf (Headers f) \<Longrightarrow> gm_wf (sorted_headers f)"
  by (simp add: sorted_headers_def comp_def)

lemma sorted_headers_map_of: "gm_wf (Headers f) \<Longrightarrow> map_of (sorted_headers f) = map_of (Headers f)"
  by (metis map_of_inject_set sorted_headers_set sorted_headers_wf)

lemma length_sorted_headers [simp]: "length (sorted_headers f) = length (Headers f)"
  by (simp add: sorted_headers_def)

lemma fold_wireBytes:
  "fold (\<lambda>key out. wireBytes out 5 (h key)) keys out
    = out @ concat (map (\<lambda>key. wireBytes [] 5 (h key)) keys)"
  by (induction keys arbitrary: out) (simp_all add: wireBytes_def)

lemma Marshal_parts:
  "Marshal f = wireVar [] 1 (Seq f) @ wireVar [] 2 (Log f) @ wireVar [] 3 (Service f) @ wireVar [] 4 (Method f)
     @ concat (map (\<lambda>(k, v). wireBytes [] 5 (headerBytes k v)) (sorted_headers f))
     @ wireBytes [] 6 (bytes_of_string (Encoding f)) @ wireBytes [] 7 (bytes_of_string (FrameType f))
     @ wireBytes [] 8 (Payload f) @ wireBytes [] 9 (LogNew f)"
  by (simp add: Marshal_def Let_def fold_wireBytes sorted_headers_def comp_def)
    (simp add: wireVar_def wireBytes_def)

lemma read_Marshal:
  assumes len: "length (Marshal f) < 2 ^ 63" and wf: "gm_wf (Headers f)" and n: "length (Headers f) \<le> 64"
    and small: "list_all (\<lambda>(k, v). length (headerBytes k v) \<le> 4096) (Headers f)"
  shows "wireRead frameCall emptyFrame (Marshal f) = (f\<lparr>Headers := sorted_headers f\<rparr>, None)"
proof -
  have sm: "list_all (\<lambda>(k, v). length (headerBytes k v) \<le> 4096) (sorted_headers f)"
    using small sorted_headers_set[OF wf] by (simp add: list_all_iff)
  note L = len[unfolded Marshal_parts length_append]
  have "wireRead frameCall emptyFrame (Marshal f)
      = wireRead frameCall (emptyFrame\<lparr>Seq := Seq f, Log := Log f, Service := Service f, Method := Method f\<rparr>)
          (concat (map (\<lambda>(k, v). wireBytes [] 5 (headerBytes k v)) (sorted_headers f))
           @ wireBytes [] 6 (bytes_of_string (Encoding f)) @ wireBytes [] 7 (bytes_of_string (FrameType f))
           @ wireBytes [] 8 (Payload f) @ wireBytes [] 9 (LogNew f))"
    unfolding Marshal_parts using L
    by (subst wireRead_var, simp add: field_ok_def, simp, simp add: frameCall_def)+ simp
  also have "\<dots> = wireRead frameCall (emptyFrame\<lparr>Seq := Seq f, Log := Log f, Service := Service f, Method := Method f, Headers := sorted_headers f\<rparr>)
           (wireBytes [] 6 (bytes_of_string (Encoding f)) @ wireBytes [] 7 (bytes_of_string (FrameType f))
           @ wireBytes [] 8 (Payload f) @ wireBytes [] 9 (LogNew f))"
    using L sm n by (subst read_headers) (simp_all add: emptyFrame_def sorted_headers_wf[OF wf])
  also have "\<dots> = wireRead frameCall (f\<lparr>Headers := sorted_headers f\<rparr>) []"
    using L
    by ((subst wireRead_bytes, simp add: field_ok_def, simp, simp add: frameCall_def)+,
        subst wireRead_bytes_last) (simp_all add: field_ok_def frameCall_def emptyFrame_def)
  finally show ?thesis by (simp add: wireRead.simps)
qed

lemma wireRead_inv:
  assumes "\<And>st field v b. P st \<Longrightarrow> P (fst (call st field v b))" and "P st"
  shows "P (fst (wireRead call st raw))"
  using assms(2)
proof (induction "length raw" arbitrary: st raw rule: less_induct)
  case less
  show ?case
  proof (cases "wire_field raw")
    case (Inr q)
    obtain field v b rest where q: "q = (field, v, b, rest)" by (cases q)
    obtain st' e where c: "call st field v b = (st', e)" by (cases "call st field v b")
    have st': "P st'" using assms(1)[OF less.prems, of field v b] c by simp
    have "P (fst (wireRead call st' rest))"
      using less.hyps[of rest st'] st' wire_field_shorter[of raw field v b rest] Inr q by simp
    then show ?thesis using less.prems st' Inr q c
      by (subst wireRead.simps) (simp split: option.split)
  qed (use less.prems in \<open>simp add: wireRead.simps\<close>)
qed

definition headers_ok :: "LarkFrame \<Rightarrow> bool" where
  "headers_ok f \<longleftrightarrow> gm_wf (Headers f) \<and> length (Headers f) \<le> 64"

lemma frameCall_headers_ok: "headers_ok f \<Longrightarrow> headers_ok (fst (frameCall f field v b))"
  by (auto simp: headers_ok_def frameCall_def length_update split: prod.splits option.splits)

section \<open>The assembler\<close>

definition parts_size :: "bytes option list \<Rightarrow> nat" where
  "parts_size ps = sum_list (map (\<lambda>p. case p of None \<Rightarrow> 0 | Some b \<Rightarrow> length b) ps)"

definition entry_ok :: "larkParts \<Rightarrow> bool" where
  "entry_ok e \<longleftrightarrow> 2 \<le> length (parts e) \<and> length (parts e) \<le> 64 \<and> part_size e = parts_size (parts e)
     \<and> part_size e \<le> 2 ^ 20 \<and> None \<in> set (parts e)"

definition assembler_ok :: "LarkAssembler \<Rightarrow> bool" where
  "assembler_ok es \<longleftrightarrow> gm_wf es \<and> length es \<le> 16 \<and> (\<forall>(mid, e) \<in> set es. validID mid \<and> entry_ok e)"

lemma parts_size_update:
  "k < length ps \<Longrightarrow> ps ! k = None \<Longrightarrow> parts_size (ps[k := Some b]) = parts_size ps + length b"
  by (induction ps arbitrary: k) (auto simp: parts_size_def nth_Cons split: nat.splits)

lemma parts_size_replicate [simp]: "parts_size (replicate n None) = 0"
  by (simp add: parts_size_def)

lemma assembler_ok_expire: "assembler_ok es \<Longrightarrow> assembler_ok (expire now es)"
  by (auto simp: assembler_ok_def expire_def intro: le_trans[OF length_filter_le])

lemma assembler_ok_delete: "assembler_ok es \<Longrightarrow> assembler_ok (AList.delete mid es)"
  using length_delete_le[of mid es] by (auto simp: assembler_ok_def set_delete_gm)

lemma assembler_ok_update:
  "assembler_ok es \<Longrightarrow> validID mid \<Longrightarrow> entry_ok e \<Longrightarrow> (mid \<notin> fst ` set es \<Longrightarrow> length es < 16) \<Longrightarrow>
   assembler_ok (AList.update mid e es)"
  by (auto simp: assembler_ok_def set_update_gm length_update)

lemma assembler_ok_addPart:
  assumes "assembler_ok es" "validID mid" "map_of es mid = Some e" "entry_ok e" "k < length (parts e)"
  shows "assembler_ok (snd (addPart es mid e k payload))"
proof -
  have mid: "mid \<in> fst ` set es" using assms(3) by (metis map_of_eq_None_iff option.distinct(1))
  have upd: "assembler_ok (AList.update mid e' es)" if "entry_ok e'" for e'
    using assembler_ok_update[OF assms(1,2) that] mid by simp
  show ?thesis
    using assms assembler_ok_delete[OF assms(1), of mid] upd
    by (auto simp: addPart_def Let_def entry_ok_def parts_size_update split: option.splits)
qed

definition fresh_entry :: "int \<Rightarrow> nat \<Rightarrow> LarkFrame \<Rightarrow> larkParts" where
  "fresh_entry now n f = \<lparr>part_at = now, parts = replicate n None, part_size = 0, part_service = Service f\<rparr>"

text \<open>The four ways Add can end, as the invariant and the completion proofs need them.\<close>

lemma Add_cases:
  obtains (unchanged) "snd (Add now es f) = es"
  | (expired) "snd (Add now es f) = expire now es"
  | (stored) mid n k e where "validID mid" "2 \<le> n" "n \<le> 64" "k < n" "length (parts e) = n"
      "map_of (expire now es) mid = Some e
        \<or> (map_of (expire now es) mid = None \<and> length (expire now es) < 16 \<and> e = fresh_entry now n f)"
      "Add now es f = addPart (AList.update mid e (expire now es)) mid e k (Payload f)"
  | (mismatch) mid e where "validID mid" "map_of (expire now es) mid = Some e"
      "snd (Add now es f) = AList.update mid e (expire now es)"
proof -
  let ?mid = "header f ''message_id''" and ?ex = "expire now es"
  consider (none) "fragmentCount f = None \<or> (\<exists>c. fragmentCount f = Some c \<and> (c \<le> 1 \<or> c > 64))"
    | (some) c where "fragmentCount f = Some c" "2 \<le> c" "c \<le> 64" by (cases "fragmentCount f") fastforce+
  then show ?thesis
  proof cases
    case none
    then show ?thesis by (intro unchanged) (auto simp: Add_def)
  next
    case (some c)
    consider (bad) "Atoi (header f ''seq'') = None \<or> (\<exists>q. Atoi (header f ''seq'') = Some q \<and> (q < 0 \<or> q \<ge> c))
        \<or> \<not> validID ?mid"
      | (good) q where "Atoi (header f ''seq'') = Some q" "0 \<le> q" "q < c" "validID ?mid"
      by (cases "Atoi (header f ''seq'')") fastforce+
    then show ?thesis
    proof cases
      case bad
      then show ?thesis using some by (intro unchanged) (auto simp: Add_def split: option.split)
    next
      case (good q)
      define e where "e = (case map_of ?ex ?mid of Some e \<Rightarrow> e | None \<Rightarrow> fresh_entry now (nat c) f)"
      have add: "Add now es f =
          (if map_of ?ex ?mid = None \<and> length ?ex \<ge> 16
           then (([], False, Some (ErrorsNew ''lark: fragment capacity reached'')), ?ex)
           else if length (parts e) \<noteq> nat c \<or> part_service e \<noteq> Service f
             then (([], False, Some (ErrorsNew ''lark: inconsistent fragments'')), AList.update ?mid e ?ex)
             else addPart (AList.update ?mid e ?ex) ?mid e (nat q) (Payload f))"
        unfolding e_def fresh_entry_def using some good by (simp add: Add_def Let_def)
      show ?thesis
      proof (cases "length (parts e) = nat c \<and> part_service e = Service f")
        case True
        note match = this
        show ?thesis
        proof (cases "map_of ?ex ?mid = None \<and> length ?ex \<ge> 16")
          case True
          then show ?thesis using add by (intro expired) simp
        next
          case False
          then have "Add now es f = addPart (AList.update ?mid e ?ex) ?mid e (nat q) (Payload f)"
            unfolding add using match by auto
          moreover have "map_of ?ex ?mid = Some e
              \<or> (map_of ?ex ?mid = None \<and> length ?ex < 16 \<and> e = fresh_entry now (nat c) f)"
            using False by (cases "map_of ?ex ?mid") (auto simp: e_def)
          ultimately show ?thesis using some good match by (intro stored[of ?mid "nat c" "nat q" e]) auto
        qed
      next
        case False
        then show ?thesis
          using add good expired mismatch[of ?mid e]
          by (cases "map_of ?ex ?mid") (auto simp: e_def fresh_entry_def split: if_splits)
      qed
    qed
  qed
qed

lemma entry_ok_fresh: "2 \<le> n \<Longrightarrow> n \<le> 64 \<Longrightarrow> entry_ok (fresh_entry now n f)"
  by (simp add: entry_ok_def fresh_entry_def)

lemma assembler_ok_lookup: "assembler_ok es \<Longrightarrow> map_of es mid = Some e \<Longrightarrow> entry_ok e"
  by (auto simp: assembler_ok_def dest: map_of_SomeD)

lemma assembler_ok_Add:
  assumes "assembler_ok es"
  shows "assembler_ok (snd (Add now es f))"
proof (cases rule: Add_cases[of now es f])
  case (stored mid n k e)
  have ex: "assembler_ok (expire now es)" using assembler_ok_expire[OF assms] .
  have e: "entry_ok e" 
    using stored(2,3,6) entry_ok_fresh[of n now f] assembler_ok_lookup[OF ex, of mid e] by auto
  have "mid \<notin> fst ` set (expire now es) \<Longrightarrow> length (expire now es) < 16"
    using stored(6) by (auto simp: map_of_eq_None_iff[symmetric])
  then have "assembler_ok (AList.update mid e (expire now es))"
    using assembler_ok_update ex stored e by blast
  then show ?thesis using stored e assembler_ok_addPart[of _ mid e k] by (simp add: update_conv')
next
  case (mismatch mid e)
  have ex: "assembler_ok (expire now es)" using assembler_ok_expire[OF assms] .
  then have e: "entry_ok e" using assembler_ok_lookup mismatch by blast
  have "mid \<in> fst ` set (expire now es)" using mismatch(2) by (force dest: map_of_SomeD)
  then show ?thesis using mismatch e ex assembler_ok_update by metis
qed (use assms assembler_ok_expire in simp_all)

text \<open>
  One fragment of a message: fragment k of n carries payload p under the message id mid. Only the
  three headers and the service matter to the assembler.
\<close>

definition is_fragment :: "string \<Rightarrow> nat \<Rightarrow> 64 word \<Rightarrow> nat \<Rightarrow> bytes \<Rightarrow> LarkFrame \<Rightarrow> bool" where
  "is_fragment mid n svc k p f \<longleftrightarrow>
     header f ''sum'' = Itoa (int n) \<and> header f ''seq'' = Itoa (int k) \<and> header f ''message_id'' = mid
     \<and> Service f = svc \<and> Payload f = p"

fun add_all :: "LarkAssembler \<Rightarrow> (int \<times> LarkFrame) list \<Rightarrow> (bytes \<times> bool \<times> err) list \<times> LarkAssembler" where
  "add_all es [] = ([], es)"
| "add_all es ((now, f) # fs) =
     (let (r, es') = Add now es f; (rs, es'') = add_all es' fs in (r # rs, es''))"

definition fill :: "bytes list \<Rightarrow> nat set \<Rightarrow> bytes option list" where
  "fill ps S = map (\<lambda>k. if k \<in> S then Some (ps ! k) else None) [0..<length ps]"

lemma length_fill [simp]: "length (fill ps S) = length ps"
  by (simp add: fill_def)

lemma nth_fill [simp]: "k < length ps \<Longrightarrow> fill ps S ! k = (if k \<in> S then Some (ps ! k) else None)"
  by (simp add: fill_def)

lemma fill_insert: "k < length ps \<Longrightarrow> (fill ps S)[k := Some (ps ! k)] = fill ps (insert k S)"
  by (rule nth_equalityI) (auto simp: nth_list_update)

lemma None_in_fill: "None \<in> set (fill ps S) \<longleftrightarrow> \<not> {..<length ps} \<subseteq> S"
  by (auto simp: fill_def image_iff)

lemma concat_fill: "{..<length ps} \<subseteq> S \<Longrightarrow> concat (map the (fill ps S)) = concat ps"
proof -
  assume "{..<length ps} \<subseteq> S"
  then have "map the (fill ps S) = ps" by (intro nth_equalityI) auto
  then show ?thesis by simp
qed

lemma parts_size_fill: "parts_size (fill ps S) \<le> length (concat ps)"
proof -
  have "parts_size (fill ps S) \<le> sum_list (map length ps)"
    unfolding parts_size_def
    by (subst map_nth[of ps, symmetric]) (auto simp: fill_def comp_def simp del: map_nth intro!: sum_list_mono)
  then show ?thesis by (simp add: length_concat)
qed

lemma Atoi_small: "n < 2 ^ 63 \<Longrightarrow> Atoi (Itoa (int n)) = Some (int n)"
  by (rule Atoi_Itoa) (auto simp: of_nat_less_iff[symmetric] simp del: of_nat_less_iff)

lemma Itoa_not_Nil [simp]: "Itoa i \<noteq> []"
  by (simp add: Itoa_def)

lemma Add_fragment:
  assumes "is_fragment mid n svc k p f" "2 \<le> n" "n \<le> 64" "k < n" "validID mid"
    and "map_of (expire now es) mid = None \<Longrightarrow> length (expire now es) < 16"
    and "e = (case map_of (expire now es) mid of Some e \<Rightarrow> e | None \<Rightarrow> fresh_entry now n f)"
    and "length (parts e) = n" "part_service e = svc"
  shows "Add now es f = addPart (AList.update mid e (expire now es)) mid e k p"
proof -
  have c: "fragmentCount f = Some (int n)" "Atoi (header f ''seq'') = Some (int k)"
    using assms by (simp_all add: fragmentCount_def is_fragment_def Atoi_small)
  show ?thesis
    unfolding Add_def using assms c
    by (auto simp: Let_def is_fragment_def fresh_entry_def split: option.splits)
qed

definition partial_entry :: "bytes list \<Rightarrow> nat set \<Rightarrow> int \<Rightarrow> 64 word \<Rightarrow> larkParts" where
  "partial_entry ps S t0 svc =
     \<lparr>part_at = t0, parts = fill ps S, part_size = parts_size (fill ps S), part_service = svc\<rparr>"

definition received :: "LarkAssembler \<Rightarrow> string \<Rightarrow> bytes list \<Rightarrow> nat set \<Rightarrow> int \<Rightarrow> 64 word \<Rightarrow> bool" where
  "received es mid ps S t0 svc \<longleftrightarrow> gm_wf es \<and>
     (if S = {} then mid \<notin> fst ` set es \<and> length es < 16
      else map_of es mid = Some (partial_entry ps S t0 svc))"

lemma addPart_fill:
  assumes "k < length ps" "k \<notin> S" "length (concat ps) \<le> 2 ^ 20"
  shows "addPart es mid (partial_entry ps S t0 svc) k (ps ! k) =
    (if {..<length ps} \<subseteq> insert k S then ((concat ps, True, None), AList.delete mid es)
     else (([], False, None), AList.update mid (partial_entry ps (insert k S) t0 svc) es))"
proof -
  have "parts_size (fill ps (insert k S)) = parts_size (fill ps S) + length (ps ! k)"
    using assms by (simp add: fill_insert[symmetric] parts_size_update)
  then show ?thesis
    using assms parts_size_fill[of ps "insert k S"] concat_fill[of ps "insert k S"]
    by (simp add: addPart_def partial_entry_def Let_def fill_insert None_in_fill)
qed

lemma Add_received:
  assumes rec: "received es mid ps S t0 svc" and frag: "is_fragment mid (length ps) svc k (ps ! k) f"
    and n: "2 \<le> length ps" "length ps \<le> 64" "length (concat ps) \<le> 2 ^ 20" "validID mid"
    and k: "k < length ps" "k \<notin> S" and t: "now - t0 \<le> 5 * 10 ^ 9" "S = {} \<longrightarrow> now = t0"
  shows "Add now es f =
    (if {..<length ps} \<subseteq> insert k S
     then ((concat ps, True, None), AList.delete mid (AList.update mid (partial_entry ps S t0 svc) (expire now es)))
     else (([], False, None), AList.update mid (partial_entry ps (insert k S) t0 svc)
             (AList.update mid (partial_entry ps S t0 svc) (expire now es))))"
proof -
  have keep: "S \<noteq> {} \<Longrightarrow> map_of (expire now es) mid = Some (partial_entry ps S t0 svc)"
    using rec t(1) by (simp add: expire_def received_def map_of_filter_gm partial_entry_def)
  have gone: "S = {} \<Longrightarrow> map_of (expire now es) mid = None"
    using rec by (auto simp: expire_def received_def map_of_eq_None_iff)
  have room: "S = {} \<Longrightarrow> length (expire now es) < 16"
    using rec by (auto simp: expire_def received_def intro: le_less_trans[OF length_filter_le])
  have empty: "partial_entry ps {} now svc = fresh_entry now (length ps) f"
    using frag by (simp add: partial_entry_def fresh_entry_def fill_def is_fragment_def map_replicate_const)
  have pe: "length (parts (partial_entry ps S t0 svc)) = length ps" "part_service (partial_entry ps S t0 svc) = svc"
    by (simp_all add: partial_entry_def)
  have "Add now es f =
      addPart (AList.update mid (partial_entry ps S t0 svc) (expire now es)) mid (partial_entry ps S t0 svc) k (ps ! k)"
    using keep gone room empty t(2) n k pe
    by (intro Add_fragment[OF frag]; cases "S = {}") simp_all
  then show ?thesis using addPart_fill[OF k n(3)] by simp
qed

lemma received_insert:
  assumes "received es mid ps S t0 svc"
  shows "received (AList.update mid (partial_entry ps (insert k S) t0 svc)
           (AList.update mid (partial_entry ps S t0 svc) (expire now es))) mid ps (insert k S) t0 svc"
  using assms by (simp add: received_def expire_def update_conv')

lemma add_all_completes:
  assumes "received es mid ps S t0 svc" and "2 \<le> length ps" "length ps \<le> 64" "length (concat ps) \<le> 2 ^ 20"
    and "validID mid" and "distinct (map fst fs)" "fst ` set fs = {..<length ps} - S" "fs \<noteq> []"
    and "\<forall>(k, now, f) \<in> set fs. is_fragment mid (length ps) svc k (ps ! k) f \<and> now - t0 \<le> 5 * 10 ^ 9"
    and "S = {} \<longrightarrow> fst (snd (hd fs)) = t0"
  shows "fst (add_all es (map snd fs)) = replicate (length fs - 1) ([], False, None) @ [(concat ps, True, None)]
    \<and> mid \<notin> fst ` set (snd (add_all es (map snd fs)))"
  using assms
proof (induction fs arbitrary: es S)
  case (Cons q fs)
  obtain k now f where q: "q = (k, now, f)" by (cases q)
  have k: "k < length ps" "k \<notin> S" using Cons.prems(7) q by auto
  have add: "Add now es f = (if {..<length ps} \<subseteq> insert k S
     then ((concat ps, True, None), AList.delete mid (AList.update mid (partial_entry ps S t0 svc) (expire now es)))
     else (([], False, None), AList.update mid (partial_entry ps (insert k S) t0 svc)
             (AList.update mid (partial_entry ps S t0 svc) (expire now es))))"
    using Cons.prems q k by (intro Add_received) auto
  show ?case
  proof (cases "fs = []")
    case True
    then have "{..<length ps} \<subseteq> insert k S" using Cons.prems(7) q by auto
    then show ?thesis using add True q by (simp add: set_delete_gm image_iff)
  next
    case False
    have rest: "fst ` set fs = {..<length ps} - insert k S" using Cons.prems(6,7) q by auto
    then have pend: "\<not> {..<length ps} \<subseteq> insert k S" using False by (cases fs) auto
    let ?es = "AList.update mid (partial_entry ps (insert k S) t0 svc)
             (AList.update mid (partial_entry ps S t0 svc) (expire now es))"
    have "fst (add_all ?es (map snd fs)) = replicate (length fs - 1) ([], False, None) @ [(concat ps, True, None)]
        \<and> mid \<notin> fst ` set (snd (add_all ?es (map snd fs)))"
      using Cons.prems False q rest received_insert[OF Cons.prems(1)] by (intro Cons.IH[of _ "insert k S"]) auto
    moreover have "replicate (length fs) x = x # replicate (length fs - 1) x" for x :: "bytes \<times> bool \<times> err"
      using False by (cases fs) simp_all
    ultimately show ?thesis using add pend q by (simp add: case_prod_beta)
  qed
qed simp

section \<open>Properties\<close>

text \<open>
  C15: Decoding what Marshal wrote gives the frame back: every frame with at most 64 headers, each
  within 4096 encoded bytes, an encoding that is empty or json, and a total of at most one
  megabyte decodes without error to the same fields and the same header map.
\<close>

theorem lark_frame_roundtrip:
  assumes "gm_wf (Headers f)" and "length (Headers f) \<le> 64"
    and "list_all (\<lambda>(k, v). length (headerBytes k v) \<le> 4096) (Headers f)"
    and "Encoding f = [] \<or> Encoding f = ''json''" and "length (Marshal f) \<le> 2 ^ 20"
  shows "\<exists>hs. DecodeLarkFrame (Marshal f) = (f\<lparr>Headers := hs\<rparr>, None) \<and> map_of hs = map_of (Headers f)"
  using assms read_Marshal[of f] sorted_headers_map_of[of f]
  by (auto simp: DecodeLarkFrame_def)

theorem lark_frame_roundtrip_witness:
  "\<exists>f hs. Headers f = [(''type'', ''event''), (''sum'', ''2'')] \<and> Payload f = [1, 2, 255]
     \<and> DecodeLarkFrame (Marshal f) = (f\<lparr>Headers := hs\<rparr>, None) \<and> map_of hs = map_of (Headers f)"
proof -
  define f where "f = \<lparr>Seq = 300, Log = 2, Service = 7, Method = 1, Headers = [(''type'', ''event''), (''sum'', ''2'')],
    Encoding = ''json'', FrameType = [], Payload = [1, 2, 255], LogNew = []\<rparr>"
  have len: "length (Marshal f) \<le> 2 ^ 20"
    by (simp add: f_def Marshal_parts sorted_headers_def sort_Strings_def headerBytes_def wireBytes_def
        wireVar_def append_uvarint.simps bytes_of_string_def)
  have h: "list_all (\<lambda>(k, v). length (headerBytes k v) \<le> 4096) (Headers f)"
    by (simp add: f_def headerBytes_def wireBytes_def append_uvarint.simps bytes_of_string_def)
  obtain hs where "DecodeLarkFrame (Marshal f) = (f\<lparr>Headers := hs\<rparr>, None) \<and> map_of hs = map_of (Headers f)"
    using lark_frame_roundtrip[OF _ _ h _ len] by (auto simp: f_def)
  moreover have "Headers f = [(''type'', ''event''), (''sum'', ''2'')]" "Payload f = [1, 2, 255]"
    by (simp_all add: f_def)
  ultimately show ?thesis by blast
qed

text \<open>
  Whatever bytes arrive, a frame that decodes without error came from at most one megabyte,
  holds at most 64 headers with distinct names, and has an encoding that is empty or json.
\<close>

theorem lark_decode_bounds:
  assumes "DecodeLarkFrame raw = (f, None)"
  shows "length raw \<le> 2 ^ 20 \<and> length (Headers f) \<le> 64 \<and> gm_wf (Headers f)
    \<and> (Encoding f = [] \<or> Encoding f = ''json'')"
proof -
  have "headers_ok emptyFrame" by (simp add: headers_ok_def emptyFrame_def)
  then have "headers_ok (fst (wireRead frameCall emptyFrame raw))"
    using wireRead_inv[of headers_ok frameCall] frameCall_headers_ok by blast
  then show ?thesis using assms
    by (auto simp: DecodeLarkFrame_def headers_ok_def split: if_splits prod.splits)
qed

theorem lark_decode_bounds_witness:
  "DecodeLarkFrame [0x08, 0x96, 0x01] = (emptyFrame\<lparr>Seq := 150\<rparr>, None)
    \<and> length (Headers (emptyFrame\<lparr>Seq := 150\<rparr>)) \<le> 64"
proof -
  have r: "wire_field [0x08, 0x96, 0x01] = Inr (1, 150, [], [])"
    by (simp add: wire_field_def Uvarint_def)
  have d: "DecodeLarkFrame [0x08, 0x96, 0x01] = (emptyFrame\<lparr>Seq := 150\<rparr>, None)"
    by (simp add: DecodeLarkFrame_def wireRead.simps r frameCall_def) (simp add: emptyFrame_def)
  then show ?thesis using lark_decode_bounds[OF d] by simp
qed

text \<open>
  The assembler's memory is bounded whatever frames arrive: after any sequence of Add calls
  at most 16 messages are pending, each with 2 to 64 parts, its recorded size equal to the bytes
  stored and at most one megabyte, and none of them complete.
\<close>

theorem lark_assembler_bounded:
  "assembler_ok (snd (add_all NewLarkAssembler fs))"
proof -
  have "assembler_ok es \<Longrightarrow> assembler_ok (snd (add_all es fs))" for es
    by (induction fs arbitrary: es) (auto simp: case_prod_beta assembler_ok_Add)
  moreover have "assembler_ok NewLarkAssembler" by (simp add: NewLarkAssembler_def assembler_ok_def)
  ultimately show ?thesis by blast
qed

text \<open>
  C27: The fragments of a message may arrive in any order. Feeding each of the n fragments of a
  message once, none later than five seconds after the first, to an assembler that has room and
  does not know the message answers "not yet" to all but the last and the payloads concatenated
  in fragment order to the last, and then forgets the message.
\<close>

theorem lark_reassembly_any_order:
  assumes "gm_wf es" "mid \<notin> fst ` set es" "length es < 16" "validID mid"
    and "2 \<le> length ps" "length ps \<le> 64" "length (concat ps) \<le> 2 ^ 20"
    and "distinct (map fst fs)" "fst ` set fs = {..<length ps}"
    and "\<forall>(k, now, f) \<in> set fs. is_fragment mid (length ps) svc k (ps ! k) f
          \<and> now - fst (snd (hd fs)) \<le> 5 * 10 ^ 9"
  shows "fst (add_all es (map snd fs)) = replicate (length ps - 1) ([], False, None) @ [(concat ps, True, None)]
    \<and> mid \<notin> fst ` set (snd (add_all es (map snd fs)))"
proof -
  have "0 \<in> fst ` set fs" using assms(5,9) by auto
  then have "fs \<noteq> []" by auto
  moreover have "length fs = length ps"
    using assms(8,9) distinct_card[of "map fst fs"] by simp
  ultimately show ?thesis
    using assms add_all_completes[of es mid ps "{}" "fst (snd (hd fs))" svc fs] by (simp add: received_def)
qed

theorem lark_reassembly_any_order_witness:
  "\<exists>f0 f1. is_fragment ''m'' 2 3 0 [1, 2] f0 \<and> is_fragment ''m'' 2 3 1 [9] f1
     \<and> fst (add_all [] [(100, f1), (200, f0)]) = [([], False, None), ([1, 2, 9], True, None)]"
proof -
  define frag where "frag k p = emptyFrame\<lparr>Service := 3, Payload := p,
    Headers := [(''sum'', Itoa 2), (''seq'', Itoa (int k)), (''message_id'', ''m'')]\<rparr>" for k :: nat and p
  have f: "is_fragment ''m'' 2 3 k p (frag k p)" for k p
    by (simp add: frag_def is_fragment_def header_def)
  have k: "fst ` set [(1, 100 :: int, frag 1 [9]), (0 :: nat, 200, frag 0 [1, 2])] = {..<length [[1, 2], [9 :: byte]]}"
    by auto
  have v: "validID ''m''" by (simp add: validID_def valid_id_char_def)
  have "fst (add_all [] (map snd [(1, 100, frag 1 [9]), (0, 200, frag 0 [1, 2])]))
      = replicate (length [[1, 2], [9 :: byte]] - 1) ([], False, None) @ [(concat [[1, 2], [9]], True, None)]"
    using lark_reassembly_any_order[OF _ _ _ v _ _ _ _ k, of "[]" 3] f[of 0 "[1, 2]"] f[of 1 "[9]"]
    by (simp add: numeral_2_eq_2[symmetric])
  then show ?thesis using f[of 0 "[1, 2]"] f[of 1 "[9]"]
    by (intro exI[of _ "frag 0 [1, 2]"] exI[of _ "frag 1 [9]"]) simp
qed

end
