(* ===== verification/Go_Text.thy ===== *)
theory Go_Text
  imports Prelude
begin

text \<open>
  The parts of Go's strings, path and path/filepath packages the components use, on byte strings.
  What depends on the operating system or on the full Unicode tables is a field of the platform
  record, which every definition that needs it takes as an argument; unix_platform is its instance
  for slash paths and ASCII letters.
\<close>

section \<open>package strings\<close>

definition HasPrefix :: "string \<Rightarrow> string \<Rightarrow> bool" where
  "HasPrefix s p \<longleftrightarrow> take (length p) s = p"

definition HasSuffix :: "string \<Rightarrow> string \<Rightarrow> bool" where
  "HasSuffix s p \<longleftrightarrow> HasPrefix (rev s) (rev p)"

definition TrimPrefix :: "string \<Rightarrow> string \<Rightarrow> string" where
  "TrimPrefix s p = (if HasPrefix s p then drop (length p) s else s)"

definition Contains :: "string \<Rightarrow> string \<Rightarrow> bool" where
  "Contains s t \<longleftrightarrow> list_ex (\<lambda>i. HasPrefix (drop i s) t) [0..<Suc (length s)]"

definition ContainsAny :: "string \<Rightarrow> string \<Rightarrow> bool" where
  "ContainsAny s cs \<longleftrightarrow> list_ex (\<lambda>c. c \<in> set cs) s"

text \<open>The control bytes NUL, CR and LF that the validators refuse.\<close>

definition nul_cr_lf :: string where
  "nul_cr_lf = [CHR 0x00, CHR 0x0D, CHR 0x0A]"

fun ReplaceAll_char :: "char \<Rightarrow> char \<Rightarrow> string \<Rightarrow> string" where
  "ReplaceAll_char a b [] = []"
| "ReplaceAll_char a b (c # cs) = (if c = a then b else c) # ReplaceAll_char a b cs"

fun Split_char :: "char \<Rightarrow> string \<Rightarrow> string list" where
  "Split_char sep [] = [[]]"
| "Split_char sep (c # cs) =
     (if c = sep then [] # Split_char sep cs
      else case Split_char sep cs of [] \<Rightarrow> [[c]] | w # ws \<Rightarrow> (c # w) # ws)"

text \<open>
  unicode.IsSpace as UTF-8 encodings: trimming strips these byte sequences from either end, which
  is what TrimSpace does on every string, valid UTF-8 or not.
\<close>

definition space_encodings :: "string list" where
  "space_encodings =
     [
      [CHR 0x09], [CHR 0x0A], [CHR 0x0B], [CHR 0x0C],
      [CHR 0x0D], [CHR 0x20], [CHR 0xC2, CHR 0x85], [CHR 0xC2, CHR 0xA0],
      [CHR 0xE1, CHR 0x9A, CHR 0x80], [CHR 0xE2, CHR 0x80, CHR 0x80], [CHR 0xE2, CHR 0x80, CHR 0x81], [CHR 0xE2, CHR 0x80, CHR 0x82],
      [CHR 0xE2, CHR 0x80, CHR 0x83], [CHR 0xE2, CHR 0x80, CHR 0x84], [CHR 0xE2, CHR 0x80, CHR 0x85], [CHR 0xE2, CHR 0x80, CHR 0x86],
      [CHR 0xE2, CHR 0x80, CHR 0x87], [CHR 0xE2, CHR 0x80, CHR 0x88], [CHR 0xE2, CHR 0x80, CHR 0x89], [CHR 0xE2, CHR 0x80, CHR 0x8A],
      [CHR 0xE2, CHR 0x80, CHR 0xA8], [CHR 0xE2, CHR 0x80, CHR 0xA9], [CHR 0xE2, CHR 0x80, CHR 0xAF], [CHR 0xE2, CHR 0x81, CHR 0x9F],
      [CHR 0xE3, CHR 0x80, CHR 0x80]]"

function strip_front :: "string list \<Rightarrow> string \<Rightarrow> string" where
  "strip_front ws s =
     (case find (\<lambda>w. w \<noteq> [] \<and> HasPrefix s w) ws of
        None \<Rightarrow> s
      | Some w \<Rightarrow> strip_front ws (drop (length w) s))"
  by pat_completeness auto
termination
proof (relation "measure (\<lambda>(ws, s). length s)", goal_cases)
  case (2 ws s w)
  then have "w \<noteq> []" "HasPrefix s w" by (auto simp: find_Some_iff)
  then have "s \<noteq> []" by (auto simp: HasPrefix_def)
  with \<open>w \<noteq> []\<close> show ?case by (cases s) auto
qed simp

declare strip_front.simps [simp del]

definition TrimSpace :: "string \<Rightarrow> string" where
  "TrimSpace s = rev (strip_front (map rev space_encodings) (rev (strip_front space_encodings s)))"

lemma length_strip_front: "length (strip_front ws s) \<le> length s"
  by (induction ws s rule: strip_front.induct)
    (subst strip_front.simps, auto split: option.split)

lemma length_TrimSpace: "length (TrimSpace s) \<le> length s"
  using length_strip_front[of "map rev space_encodings" "rev (strip_front space_encodings s)"]
    length_strip_front[of space_encodings s]
  by (simp add: TrimSpace_def)

lemma strip_front_Nil [simp]: "strip_front ws [] = []"
  by (subst strip_front.simps) (auto simp: HasPrefix_def find_None_iff2 split: option.splits dest!: find_Some_iff[THEN iffD1])

lemma TrimSpace_Nil [simp]: "TrimSpace [] = []"
  by (simp add: TrimSpace_def)

lemma HasPrefix_append [simp]: "HasPrefix (p @ s) p"
  by (simp add: HasPrefix_def)

lemma HasPrefix_iff: "HasPrefix s p \<longleftrightarrow> (\<exists>r. s = p @ r)"
  unfolding HasPrefix_def by (metis append_eq_conv_conj append_take_drop_id)

section \<open>package path\<close>

text \<open>
  path.Clean: the slash-separated components without empty and dot ones, each dot-dot cancelling
  the name before it, dropped at the root of a rooted path and kept at the front of a relative one.
\<close>

fun clean_step :: "bool \<Rightarrow> string list \<Rightarrow> string \<Rightarrow> string list" where
  "clean_step rooted out c =
     (if c = [] \<or> c = ''.'' then out
      else if c = ''..'' then
        (if out \<noteq> [] \<and> last out \<noteq> ''..'' then butlast out
         else if rooted then out else out @ [c])
      else out @ [c])"

definition path_rooted :: "string \<Rightarrow> bool" where
  "path_rooted s \<longleftrightarrow> HasPrefix s ''/''"

definition clean_parts :: "string \<Rightarrow> string list" where
  "clean_parts s = foldl (clean_step (path_rooted s)) [] (Split_char (CHR ''/'') s)"

definition path_Clean :: "string \<Rightarrow> string" where
  "path_Clean s =
     (let out = strings_Join (clean_parts s) ''/''
      in if path_rooted s then CHR ''/'' # out else if out = [] then ''.'' else out)"

text \<open>Cleaning is idempotent: the parts it leaves are in the form it produces.\<close>

definition clean_ok :: "bool \<Rightarrow> string list \<Rightarrow> bool" where
  "clean_ok rooted ps \<longleftrightarrow> (\<forall>p \<in> set ps. p \<noteq> [] \<and> p \<noteq> ''.'' \<and> CHR ''/'' \<notin> set p)
     \<and> (\<forall>i < length ps. ps ! i = ''..'' \<longrightarrow> \<not> rooted \<and> (\<forall>j < i. ps ! j = ''..''))"

lemma Split_char_no_sep: "w \<in> set (Split_char sep s) \<Longrightarrow> sep \<notin> set w"
  by (induction s arbitrary: w) (auto split: if_splits list.splits)

lemma Split_char_not_Nil [simp]: "Split_char sep s \<noteq> []"
  by (cases s) (auto split: list.splits)

lemma Split_char_plain: "sep \<notin> set w \<Longrightarrow> Split_char sep w = [w]"
  by (induction w) auto

lemma Split_char_append: "sep \<notin> set w \<Longrightarrow> Split_char sep (w @ sep # s) = w # Split_char sep s"
  by (induction w) auto

lemma Split_char_Join:
  "ps \<noteq> [] \<Longrightarrow> \<forall>p \<in> set ps. sep \<notin> set p \<Longrightarrow> Split_char sep (strings_Join ps [sep]) = ps"
  by (induction ps "[sep]" rule: strings_Join.induct) (auto simp: Split_char_plain Split_char_append)

lemma clean_ok_dots:
  "clean_ok rooted ps \<Longrightarrow> i < length ps \<Longrightarrow> ps ! i = ''..'' \<Longrightarrow> \<not> rooted \<and> (\<forall>j < i. ps ! j = ''..'')"
  unfolding clean_ok_def by blast

lemma clean_ok_prefix: "clean_ok rooted (xs @ ys) \<Longrightarrow> clean_ok rooted xs"
proof -
  assume a: "clean_ok rooted (xs @ ys)"
  have "\<not> rooted \<and> (\<forall>j < i. xs ! j = ''..'')" if "i < length xs" "xs ! i = ''..''" for i
    using clean_ok_dots[OF a, of i] that by (auto simp: nth_append)
  then show ?thesis using a unfolding clean_ok_def by simp
qed

lemma clean_ok_butlast: "clean_ok rooted ps \<Longrightarrow> clean_ok rooted (butlast ps)"
  by (cases ps rule: rev_cases) (auto intro: clean_ok_prefix)

lemma clean_ok_snoc:
  "clean_ok rooted ps \<Longrightarrow> c \<noteq> [] \<Longrightarrow> c \<noteq> ''.'' \<Longrightarrow> CHR ''/'' \<notin> set c \<Longrightarrow>
   (c = ''..'' \<Longrightarrow> \<not> rooted \<and> (ps = [] \<or> last ps = ''..'')) \<Longrightarrow> clean_ok rooted (ps @ [c])"
proof -
  assume a: "clean_ok rooted ps" "c \<noteq> []" "c \<noteq> ''.''" "CHR ''/'' \<notin> set c"
    and d: "c = ''..'' \<Longrightarrow> \<not> rooted \<and> (ps = [] \<or> last ps = ''..'')"
  have "ps ! j = ''..''" if "c = ''..''" "j < length ps" for j
  proof -
    have "last ps = ''..''" "ps \<noteq> []" using d[OF that(1)] that(2) by auto
    then have "ps ! (length ps - 1) = ''..''" by (simp add: last_conv_nth)
    then show ?thesis using a(1) that(2) unfolding clean_ok_def
      by (metis One_nat_def Suc_pred less_Suc_eq diff_less length_greater_0_conv zero_less_one list.size(3) not_less0)
  qed
  then show ?thesis using a d by (auto simp: clean_ok_def nth_append less_Suc_eq)
qed

lemma clean_ok_step: "clean_ok rooted out \<Longrightarrow> CHR ''/'' \<notin> set c \<Longrightarrow> clean_ok rooted (clean_step rooted out c)"
  using clean_ok_butlast[of rooted out] clean_ok_snoc[of rooted out c] by auto

lemma clean_ok_foldl:
  "clean_ok rooted out \<Longrightarrow> \<forall>c \<in> set cs. CHR ''/'' \<notin> set c \<Longrightarrow> clean_ok rooted (foldl (clean_step rooted) out cs)"
  by (induction cs arbitrary: out) (auto simp del: clean_step.simps intro: clean_ok_step)

lemma clean_ok_parts: "clean_ok (path_rooted s) (clean_parts s)"
  unfolding clean_parts_def
  by (rule clean_ok_foldl) (auto simp: clean_ok_def dest: Split_char_no_sep)

lemma foldl_clean_ok: "clean_ok rooted (xs @ ys) \<Longrightarrow> foldl (clean_step rooted) xs ys = xs @ ys"
proof (induction ys arbitrary: xs)
  case (Cons c ys)
  have c: "c \<noteq> []" "c \<noteq> ''.''" using Cons.prems by (auto simp: clean_ok_def)
  have dd: "c = ''..'' \<longrightarrow> \<not> rooted \<and> (xs = [] \<or> last xs = ''..'')"
  proof
    assume "c = ''..''"
    then have "\<not> rooted \<and> (\<forall>j < length xs. (xs @ c # ys) ! j = ''..'')"
      using clean_ok_dots[OF Cons.prems, of "length xs"] by simp
    then show "\<not> rooted \<and> (xs = [] \<or> last xs = ''..'')"
      by (cases "xs = []") (auto simp: last_conv_nth nth_append)
  qed
  have "clean_step rooted xs c = xs @ [c]" using c dd by auto
  then show ?case using Cons.IH[of "xs @ [c]"] Cons.prems by simp
qed simp

lemma clean_parts_Clean: "clean_parts (path_Clean s) = clean_parts s \<and> path_rooted (path_Clean s) = path_rooted s"
proof -
  let ?ps = "clean_parts s"
  have ok: "clean_ok (path_rooted s) ?ps" by (rule clean_ok_parts)
  then have ns: "\<forall>p \<in> set ?ps. CHR ''/'' \<notin> set p" and ne: "\<forall>p \<in> set ?ps. p \<noteq> []" by (auto simp: clean_ok_def)
  have fp: "foldl (clean_step r) [] ?ps = ?ps" if "r = path_rooted s" for r
    using foldl_clean_ok[of r "[]" ?ps] ok that by simp
  show ?thesis
  proof (cases "?ps = []")
    case True
    then show ?thesis
      by (auto simp: path_Clean_def clean_parts_def[of "''/''"] clean_parts_def[of "''.''"] path_rooted_def HasPrefix_def)
  next
    case False
    then have sp: "Split_char (CHR ''/'') (strings_Join ?ps ''/'') = ?ps" using Split_char_Join[of ?ps "CHR ''/''"] ns by simp
    obtain p qs where pq: "?ps = p # qs" "p \<noteq> []" using False ne by (cases ?ps) auto
    have hd: "\<exists>cs. strings_Join ?ps ''/'' = p @ cs" using pq by (cases qs) auto
    then have nr: "\<not> path_rooted (strings_Join ?ps ''/'')" "strings_Join ?ps ''/'' \<noteq> []"
      using pq ns by (cases p; auto simp: path_rooted_def HasPrefix_def)+
    show ?thesis using sp fp nr
      by (cases "path_rooted s") (simp_all add: path_Clean_def clean_parts_def[of "strings_Join _ _"]
          clean_parts_def[of "CHR ''/'' # _"] path_rooted_def[of "CHR ''/'' # _"] HasPrefix_def)
  qed
qed

lemma path_Clean_not_Nil [simp]: "path_Clean s \<noteq> []"
  by (simp add: path_Clean_def Let_def)

lemma path_Clean_idem: "path_Clean (path_Clean s) = path_Clean s"
  unfolding path_Clean_def[of "path_Clean s"] clean_parts_Clean[THEN conjunct1] clean_parts_Clean[THEN conjunct2]
  by (simp add: path_Clean_def)

section \<open>package path/filepath\<close>

record platform =
  ToLower :: "string \<Rightarrow> string"
  EqualFold :: "string \<Rightarrow> string \<Rightarrow> bool"
  IsAbs :: "string \<Rightarrow> bool"
  Clean :: "string \<Rightarrow> string"
  Abs :: "string \<Rightarrow> string res"
  VolumeName :: "string \<Rightarrow> string"
  Base :: "string \<Rightarrow> string"

definition ascii_lower :: "char \<Rightarrow> char" where
  "ascii_lower c = (if CHR ''A'' \<le> c \<and> c \<le> CHR ''Z'' then char_of ((of_char c :: nat) + 32) else c)"

definition unix_platform :: "string \<Rightarrow> platform" where
  "unix_platform cwd =
     \<lparr>ToLower = map ascii_lower,
      EqualFold = (\<lambda>a b. map ascii_lower a = map ascii_lower b),
      IsAbs = path_rooted,
      Clean = path_Clean,
      Abs = (\<lambda>p. Inr (if path_rooted p then path_Clean p else path_Clean (cwd @ ''/'' @ p))),
      VolumeName = (\<lambda>_. []),
      Base = (\<lambda>p. let parts = filter (\<lambda>c. c \<noteq> []) (Split_char (CHR ''/'') p)
                   in if p = [] then ''.'' else if parts = [] then ''/'' else last parts)\<rparr>"

text \<open>file_scope.go samePath: case-insensitive when either path has a volume name.\<close>

definition samePath :: "platform \<Rightarrow> string \<Rightarrow> string \<Rightarrow> bool" where
  "samePath P left right =
     (if VolumeName P left \<noteq> [] \<or> VolumeName P right \<noteq> []
      then EqualFold P (Clean P left) (Clean P right)
      else Clean P left = Clean P right)"

text \<open>config.go validEnvName: letters, digits after the first byte, and underscores.\<close>

fun env_chars :: "bool \<Rightarrow> string \<Rightarrow> bool" where
  "env_chars first [] = True"
| "env_chars first (c # cs) =
     ((c = CHR ''_'' \<or> (CHR ''A'' \<le> c \<and> c \<le> CHR ''Z'') \<or> (CHR ''a'' \<le> c \<and> c \<le> CHR ''z'')
       \<or> (\<not> first \<and> CHR ''0'' \<le> c \<and> c \<le> CHR ''9''))
      \<and> env_chars False cs)"

definition validEnvName :: "string \<Rightarrow> bool" where
  "validEnvName name \<longleftrightarrow> name \<noteq> [] \<and> length name \<le> 128 \<and> env_chars True name"

section \<open>package unicode/utf8\<close>

definition in_range :: "nat \<Rightarrow> nat \<Rightarrow> char \<Rightarrow> bool" where
  "in_range lo hi c \<longleftrightarrow> lo \<le> of_char c \<and> of_char c \<le> (hi :: nat)"

text \<open>
  utf8.ValidString: the lead byte determines how many continuation bytes follow and the range of
  the first of them, which excludes overlong forms, surrogates and values above U+10FFFF.
\<close>

definition tail_ranges :: "char \<Rightarrow> (nat \<times> nat) list option" where
  "tail_ranges c =
     (let cont = (0x80, 0xBF)
      in if in_range 0x00 0x7F c then Some []
         else if in_range 0xC2 0xDF c then Some [cont]
         else if in_range 0xE0 0xE0 c then Some [(0xA0, 0xBF), cont]
         else if in_range 0xED 0xED c then Some [(0x80, 0x9F), cont]
         else if in_range 0xE1 0xEF c then Some [cont, cont]
         else if in_range 0xF0 0xF0 c then Some [(0x90, 0xBF), cont, cont]
         else if in_range 0xF1 0xF3 c then Some [cont, cont, cont]
         else if in_range 0xF4 0xF4 c then Some [(0x80, 0x8F), cont, cont]
         else None)"

function ValidString :: "string \<Rightarrow> bool" where
  "ValidString [] = True"
| "ValidString (c # cs) =
     (case tail_ranges c of
        None \<Rightarrow> False
      | Some rs \<Rightarrow> list_all2 (\<lambda>r d. in_range (fst r) (snd r) d) rs (take (length rs) cs)
                  \<and> ValidString (drop (length rs) cs))"
  by pat_completeness auto
termination by (relation "measure length") auto

lemma ValidString_append: "ValidString a \<Longrightarrow> ValidString b \<Longrightarrow> ValidString (a @ b)"
proof (induction a rule: ValidString.induct)
  case (2 c cs)
  then obtain rs where rs: "tail_ranges c = Some rs" "list_all2 (\<lambda>r d. in_range (fst r) (snd r) d) rs (take (length rs) cs)"
    "ValidString (drop (length rs) cs)" by (auto split: option.splits)
  have "length rs \<le> length cs" using list_all2_lengthD[OF rs(2)] by simp
  then show ?case using rs 2(1)[OF rs(1,3) 2(3)] by simp
qed simp

lemma ValidString_ascii: "\<forall>c \<in> set s. in_range 0x00 0x7F c \<Longrightarrow> ValidString s"
  by (induction s) (simp_all add: tail_ranges_def)

end
