(* ===== verification/Execution_Profile.thy ===== *)
theory Execution_Profile
  imports Go_Text
begin

text \<open>
  internal/harness/execution_profile.go with the configuration types it reads (config.go,
  permissions.go, runtime_policy.go): the validators, the effective settings and the profile a run
  freezes. String-typed Go enums are strings and their constants abbreviations, so the unset value
  is the empty string as in Go.
\<close>

section \<open>Enumerations\<close>

type_synonym PermissionMode = string

abbreviation PermissionNone :: PermissionMode where "PermissionNone \<equiv> ''none''"
abbreviation PermissionAsk :: PermissionMode where "PermissionAsk \<equiv> ''ask''"
abbreviation PermissionWorkspace :: PermissionMode where "PermissionWorkspace \<equiv> ''workspace''"
abbreviation PermissionFull :: PermissionMode where "PermissionFull \<equiv> ''full''"

definition PermissionMode_Validate :: "PermissionMode \<Rightarrow> err" where
  "PermissionMode_Validate mode =
     (if mode \<in> {PermissionNone, PermissionAsk, PermissionWorkspace, PermissionFull} then None
      else Some (ErrorsNew ''harness: permission must be none, ask, workspace or full''))"

type_synonym SandboxMode = string

abbreviation SandboxReadOnly :: SandboxMode where "SandboxReadOnly \<equiv> ''read_only''"
abbreviation SandboxWorkspaceWrite :: SandboxMode where "SandboxWorkspaceWrite \<equiv> ''workspace_write''"
abbreviation SandboxSelectedRoots :: SandboxMode where "SandboxSelectedRoots \<equiv> ''selected_roots''"
abbreviation SandboxHostFull :: SandboxMode where "SandboxHostFull \<equiv> ''host_full''"

definition SandboxMode_Validate :: "SandboxMode \<Rightarrow> err" where
  "SandboxMode_Validate mode =
     (if mode \<in> {SandboxReadOnly, SandboxWorkspaceWrite, SandboxSelectedRoots, SandboxHostFull} then None
      else Some (Errorf ''harness: invalid sandbox mode %q'' [mode] []))"

type_synonym ApprovalPolicy = string

abbreviation ApprovalAsk :: ApprovalPolicy where "ApprovalAsk \<equiv> ''ask''"
abbreviation ApprovalAutoInSandbox :: ApprovalPolicy where "ApprovalAutoInSandbox \<equiv> ''auto_in_sandbox''"
abbreviation ApprovalNeverHost :: ApprovalPolicy where "ApprovalNeverHost \<equiv> ''never_host''"

definition ApprovalPolicy_Validate :: "ApprovalPolicy \<Rightarrow> err" where
  "ApprovalPolicy_Validate policy =
     (if policy \<in> {ApprovalAsk, ApprovalAutoInSandbox, ApprovalNeverHost} then None
      else Some (Errorf ''harness: invalid approval policy %q'' [policy] []))"

type_synonym FileScope = string

abbreviation FileScopeWorkspace :: FileScope where "FileScopeWorkspace \<equiv> ''workspace''"
abbreviation FileScopeWorkspacePlusAllowedRoots :: FileScope where
  "FileScopeWorkspacePlusAllowedRoots \<equiv> ''workspace_plus_allowed_roots''"
abbreviation FileScopeAllNonProtected :: FileScope where "FileScopeAllNonProtected \<equiv> ''all_non_protected''"

definition FileScope_Validate :: "FileScope \<Rightarrow> err" where
  "FileScope_Validate scope =
     (if scope \<in> {FileScopeWorkspace, FileScopeWorkspacePlusAllowedRoots, FileScopeAllNonProtected,
                  ''selected_roots'', ''broker_all'', ''host_all''} then None
      else Some (Errorf ''harness: invalid file scope %q'' [scope] []))"

type_synonym NetworkMode = string

abbreviation NetworkOff :: NetworkMode where "NetworkOff \<equiv> ''off''"
abbreviation NetworkInternet :: NetworkMode where "NetworkInternet \<equiv> ''internet''"
abbreviation NetworkAllowlist :: NetworkMode where "NetworkAllowlist \<equiv> ''allowlist''"
abbreviation NetworkHostInherited :: NetworkMode where "NetworkHostInherited \<equiv> ''host_inherited''"

definition NetworkMode_Validate :: "NetworkMode \<Rightarrow> err" where
  "NetworkMode_Validate mode =
     (if mode \<in> {NetworkOff, NetworkInternet, NetworkAllowlist, NetworkHostInherited} then None
      else Some (Errorf ''harness: invalid network policy %q'' [mode] []))"

type_synonym CommandExecutionMode = string

abbreviation CommandExecutionSandboxed :: CommandExecutionMode where "CommandExecutionSandboxed \<equiv> ''sandboxed''"
abbreviation CommandExecutionHostExplicit :: CommandExecutionMode where
  "CommandExecutionHostExplicit \<equiv> ''host_explicit''"

definition CommandExecutionMode_Validate :: "CommandExecutionMode \<Rightarrow> err" where
  "CommandExecutionMode_Validate mode =
     (if mode \<in> {CommandExecutionSandboxed, CommandExecutionHostExplicit} then None
      else Some (Errorf ''harness: invalid command execution mode %q'' [mode] []))"

type_synonym CommandRuleDecision = string

abbreviation CommandRuleAllow :: CommandRuleDecision where "CommandRuleAllow \<equiv> ''allow''"
abbreviation CommandRuleAsk :: CommandRuleDecision where "CommandRuleAsk \<equiv> ''ask''"
abbreviation CommandRuleDeny :: CommandRuleDecision where "CommandRuleDeny \<equiv> ''deny''"

definition CommandRuleDecision_Validate :: "CommandRuleDecision \<Rightarrow> err" where
  "CommandRuleDecision_Validate decision =
     (if decision \<in> {CommandRuleAllow, CommandRuleAsk, CommandRuleDeny} then None
      else Some (Errorf ''harness: invalid command rule decision %q'' [decision] []))"

section \<open>Configuration records\<close>

record BuiltinToolSettings =
  bt_File :: bool
  bt_CommandRun :: bool
  bt_Network :: bool
  bt_Memory :: bool

record NetworkPolicy =
  np_Mode :: NetworkMode
  np_AllowedDomains :: "string list"

record CommandRule =
  cr_Program :: string
  cr_Args :: "string list"
  cr_Cwd :: string
  cr_Decision :: CommandRuleDecision

record CommandExecutionPolicy =
  cep_Enabled :: bool
  cep_Execution :: CommandExecutionMode
  cep_Rules :: "CommandRule list"

record ServicePolicy =
  sp_Enabled :: bool
  sp_DefaultSeconds :: int
  sp_MaxTotalSeconds :: int
  sp_AllowLocalListen :: bool

record CommandConfig =
  cc_Services :: ServicePolicy
  cc_Enabled :: bool
  cc_TimeoutSecs :: int
  cc_MaxOutput :: int
  cc_InheritEnv :: bool
  cc_AllowedExecutables :: "string list"
  cc_Execution :: CommandExecutionMode
  cc_Rules :: "CommandRule list"

record HTTPConfig =
  hc_Enabled :: bool
  hc_AllowedOrigins :: "string list"
  hc_TimeoutSecs :: int
  hc_MaxOutput :: int

record FileAccessPolicy =
  fp_ComputerFiles :: bool
  fp_ComputerRoots :: "string list"
  fp_BlockedPaths :: "string list"
  fp_Scope :: FileScope

record ExecutionSettings =
  es_PermissionMode :: PermissionMode
  es_SandboxMode :: SandboxMode
  es_FileScope :: FileScope
  es_AdditionalRoots :: "string list"
  es_BlockedPaths :: "string list"
  es_NetworkPolicy :: NetworkPolicy

record ExecutionProfile =
  ep_PermissionMode :: PermissionMode
  ep_ApprovalPolicy :: ApprovalPolicy
  ep_SandboxMode :: SandboxMode
  ep_WorkspaceRoot :: string
  ep_AdditionalRoots :: "string list"
  ep_BlockedPaths :: "string list"
  ep_FileScope :: FileScope
  ep_NetworkPolicy :: NetworkPolicy
  ep_CommandPolicy :: CommandExecutionPolicy
  ep_Generation :: string

record ToolPolicy =
  tp_EnabledTools :: BuiltinToolSettings
  tp_Commands :: CommandConfig
  tp_HTTP :: HTTPConfig
  tp_File :: FileAccessPolicy
  tp_Generation :: string
  tp_Profile :: ExecutionProfile

text \<open>The fields of Config that the execution profile is computed from.\<close>

record Config =
  cfg_Workspace :: string
  cfg_Tools :: BuiltinToolSettings
  cfg_Commands :: CommandConfig
  cfg_Execution :: ExecutionSettings
  cfg_ToolGeneration :: string
  cfg_ComputerFiles :: bool
  cfg_ComputerRoots :: "string list"
  cfg_HTTP :: HTTPConfig

record PermissionSelection =
  ps_OwnerPrivate :: bool
  ps_RemoteLimit :: PermissionMode
  ps_SpaceID :: string
  ps_PersonID :: string
  ps_Entry :: string
  ps_SpaceLimit :: PermissionMode
  ps_PersonLimit :: PermissionMode
  ps_Mode :: PermissionMode
  ps_Source :: string
  ps_ComputerFiles :: bool
  ps_ComputerRoots :: "string list"
  ps_FileScope :: FileScope
  ps_AdditionalRoots :: "string list"
  ps_BlockedPaths :: "string list"
  ps_CommandEnabled :: "bool option"
  ps_ProfileGeneration :: string

section \<open>Validators\<close>

fun domains_check :: "platform \<Rightarrow> string list \<Rightarrow> string list \<Rightarrow> err" where
  "domains_check P seen [] = None"
| "domains_check P seen (raw # rest) =
     (let domain = TrimSpace (ToLower P raw)
      in if domain = [] \<or> length domain > 253 \<or> ContainsAny domain (''/'' @ [CHR 0x5C] @ nul_cr_lf @ '' :'')
            \<or> domain \<in> set seen
         then Some (ErrorsNew ''harness: network allowlist contains an invalid or duplicate domain'')
         else domains_check P (domain # seen) rest)"

definition NetworkPolicy_Validate :: "platform \<Rightarrow> NetworkPolicy \<Rightarrow> err" where
  "NetworkPolicy_Validate P policy =
     first_err
       [NetworkMode_Validate (np_Mode policy),
        if np_Mode policy \<noteq> NetworkAllowlist \<and> length (np_AllowedDomains policy) \<noteq> 0
        then Some (ErrorsNew ''harness: allowed domains require allowlist network policy'') else None,
        if length (np_AllowedDomains policy) > 64
        then Some (ErrorsNew ''harness: at most 64 allowed network domains'') else None,
        domains_check P [] (np_AllowedDomains policy)]"

definition CommandRule_Validate :: "CommandRule \<Rightarrow> err" where
  "CommandRule_Validate rule =
     (let program = TrimSpace (cr_Program rule)
      in first_err
        [if program = [] \<or> length program > 256 \<or> ContainsAny program nul_cr_lf
         then Some (ErrorsNew ''harness: command rule program is invalid'') else None,
         if length (cr_Args rule) > 128
         then Some (ErrorsNew ''harness: command rule has too many arguments'') else None,
         if list_ex (\<lambda>arg. length arg > 32768 \<or> CHR 0x00 \<in> set arg) (cr_Args rule)
         then Some (ErrorsNew ''harness: command rule argument is invalid'') else None,
         if cr_Cwd rule \<noteq> [] \<and> cr_Cwd rule \<noteq> ''workspace'' \<and> cr_Cwd rule \<noteq> ''selected_roots''
         then Some (ErrorsNew ''harness: command rule cwd must be workspace or selected_roots'') else None,
         CommandRuleDecision_Validate (cr_Decision rule)])"

definition CommandExecutionPolicy_Validate :: "CommandExecutionPolicy \<Rightarrow> err" where
  "CommandExecutionPolicy_Validate policy =
     first_err
       ([CommandExecutionMode_Validate (cep_Execution policy),
         if length (cep_Rules policy) > 128
         then Some (ErrorsNew ''harness: at most 128 command rules are allowed'') else None]
        @ map CommandRule_Validate (cep_Rules policy))"

definition absolute_clean_text :: "platform \<Rightarrow> string \<Rightarrow> bool" where
  "absolute_clean_text P path \<longleftrightarrow> IsAbs P path \<and> \<not> ContainsAny path nul_cr_lf"

text \<open>The loop over roots with its seen map, shared by the settings and the profile validators.\<close>

fun roots_check :: "platform \<Rightarrow> string \<Rightarrow> string \<Rightarrow> string list \<Rightarrow> string list \<Rightarrow> err" where
  "roots_check P notAbs dup seen [] = None"
| "roots_check P notAbs dup seen (root # rest) =
     (if \<not> absolute_clean_text P root then Some (ErrorsNew notAbs)
      else let key = ToLower P (Clean P root)
        in if key \<in> set seen then Some (ErrorsNew dup) else roots_check P notAbs dup (key # seen) rest)"

definition ExecutionSettings_validate :: "platform \<Rightarrow> ExecutionSettings \<Rightarrow> err" where
  "ExecutionSettings_validate P s =
     first_err
       [if es_PermissionMode s \<noteq> [] then PermissionMode_Validate (es_PermissionMode s) else None,
        if es_SandboxMode s \<noteq> [] then SandboxMode_Validate (es_SandboxMode s) else None,
        if es_FileScope s \<noteq> [] then FileScope_Validate (es_FileScope s) else None,
        if np_Mode (es_NetworkPolicy s) \<noteq> [] then NetworkPolicy_Validate P (es_NetworkPolicy s) else None,
        if length (es_AdditionalRoots s) > 8
        then Some (ErrorsNew ''harness: at most 8 execution settings roots are allowed'') else None,
        if length (es_BlockedPaths s) > 64
        then Some (ErrorsNew ''harness: at most 64 execution settings blocked paths are allowed'') else None,
        if list_ex (\<lambda>p. \<not> absolute_clean_text P p) (es_BlockedPaths s)
        then Some (ErrorsNew ''harness: execution settings blocked paths must be absolute'') else None,
        roots_check P ''harness: execution settings roots must be absolute''
          ''harness: duplicate execution settings root'' [] (es_AdditionalRoots s)]"

definition ExecutionProfile_Validate :: "platform \<Rightarrow> ExecutionProfile \<Rightarrow> err" where
  "ExecutionProfile_Validate P profile =
     first_err
       [PermissionMode_Validate (ep_PermissionMode profile),
        ApprovalPolicy_Validate (ep_ApprovalPolicy profile),
        SandboxMode_Validate (ep_SandboxMode profile),
        FileScope_Validate (ep_FileScope profile),
        NetworkPolicy_Validate P (ep_NetworkPolicy profile),
        CommandExecutionPolicy_Validate (ep_CommandPolicy profile),
        if \<not> absolute_clean_text P (ep_WorkspaceRoot profile)
        then Some (ErrorsNew ''harness: execution profile workspace root must be absolute'') else None,
        if TrimSpace (ep_Generation profile) = []
        then Some (ErrorsNew ''harness: execution profile generation is required'') else None,
        if length (ep_AdditionalRoots profile) > 8
        then Some (ErrorsNew ''harness: at most 8 execution profile roots are allowed'') else None,
        if length (ep_BlockedPaths profile) > 64
        then Some (ErrorsNew ''harness: at most 64 execution profile blocked paths are allowed'') else None,
        roots_check P ''harness: execution profile roots must be absolute''
          ''harness: duplicate execution profile root'' [] (ep_AdditionalRoots profile),
        if list_ex (\<lambda>p. \<not> absolute_clean_text P p) (ep_BlockedPaths profile)
        then Some (ErrorsNew ''harness: execution profile blocked paths must be absolute'') else None]"

section \<open>Effective settings\<close>

definition defaultBuiltinToolSettings :: BuiltinToolSettings where
  "defaultBuiltinToolSettings = \<lparr>bt_File = True, bt_CommandRun = False, bt_Network = False, bt_Memory = True\<rparr>"

definition effectiveBuiltinToolSettings :: "Config \<Rightarrow> BuiltinToolSettings" where
  "effectiveBuiltinToolSettings config =
     (let tools = cfg_Tools config
      in if tools = \<lparr>bt_File = False, bt_CommandRun = False, bt_Network = False, bt_Memory = False\<rparr>
         then defaultBuiltinToolSettings\<lparr>bt_CommandRun := cc_Enabled (cfg_Commands config),
                bt_Network := hc_Enabled (cfg_HTTP config)\<rparr>
         else tools\<lparr>bt_CommandRun := bt_CommandRun tools \<or> cc_Enabled (cfg_Commands config),
                bt_Network := bt_Network tools \<or> hc_Enabled (cfg_HTTP config)\<rparr>)"

definition defaultExecutionSettings :: "string \<Rightarrow> ExecutionSettings" where
  "defaultExecutionSettings workspace =
     \<lparr>es_PermissionMode = PermissionAsk, es_SandboxMode = SandboxReadOnly, es_FileScope = FileScopeWorkspace,
      es_AdditionalRoots = [], es_BlockedPaths = [],
      es_NetworkPolicy = \<lparr>np_Mode = NetworkOff, np_AllowedDomains = []\<rparr>\<rparr>"

definition effectiveExecutionSettings :: "Config \<Rightarrow> ExecutionSettings" where
  "effectiveExecutionSettings config =
     (let s = cfg_Execution config;
          s = (if es_PermissionMode s = [] then s\<lparr>es_PermissionMode := PermissionAsk\<rparr> else s);
          s = (if es_SandboxMode s = [] then s\<lparr>es_SandboxMode := SandboxReadOnly\<rparr> else s);
          s = (if es_FileScope s = [] then s\<lparr>es_FileScope := FileScopeWorkspace\<rparr> else s)
      in if np_Mode (es_NetworkPolicy s) = []
         then s\<lparr>es_NetworkPolicy := \<lparr>np_Mode = NetworkOff, np_AllowedDomains = []\<rparr>\<rparr> else s)"

definition canonicalFileScope :: "FileScope \<Rightarrow> FileScope" where
  "canonicalFileScope scope =
     (if scope = ''selected_roots'' then FileScopeWorkspacePlusAllowedRoots
      else if scope = ''broker_all'' \<or> scope = ''host_all'' then FileScopeAllNonProtected
      else scope)"

definition EffectiveFileScope :: "Config \<Rightarrow> FileScope" where
  "EffectiveFileScope config =
     (let scope = canonicalFileScope (es_FileScope (effectiveExecutionSettings config))
      in if scope = [] then FileScopeWorkspace else scope)"

definition commandExecutionPolicy :: "Config \<Rightarrow> CommandExecutionPolicy" where
  "commandExecutionPolicy config =
     (let mode = (if cc_Execution (cfg_Commands config) = [] then CommandExecutionSandboxed
                  else cc_Execution (cfg_Commands config))
      in \<lparr>cep_Enabled = cc_Enabled (cfg_Commands config), cep_Execution = mode,
          cep_Rules = cc_Rules (cfg_Commands config)\<rparr>)"

definition effectiveToolGeneration :: "Config \<Rightarrow> string" where
  "effectiveToolGeneration config = (if cfg_ToolGeneration config = [] then ''1'' else cfg_ToolGeneration config)"

text \<open>A path whose Abs fails, or that is blank, is skipped; later duplicates are dropped.\<close>

fun unique_roots_loop :: "platform \<Rightarrow> string list \<Rightarrow> string list \<Rightarrow> string list" where
  "unique_roots_loop P seen [] = []"
| "unique_roots_loop P seen (raw # rest) =
     (case Abs P (Clean P (TrimSpace raw)) of
        Inl e \<Rightarrow> unique_roots_loop P seen rest
      | Inr path \<Rightarrow>
          if path = ''.'' \<or> TrimSpace raw = [] then unique_roots_loop P seen rest
          else let key = ToLower P (Clean P path)
            in if key \<in> set seen then unique_roots_loop P seen rest
               else Clean P path # unique_roots_loop P (key # seen) rest)"

definition uniqueAbsoluteRoots :: "platform \<Rightarrow> string list \<Rightarrow> string list" where
  "uniqueAbsoluteRoots P roots = unique_roots_loop P [] roots"

section \<open>The execution profile\<close>

text \<open>The switch on the permission mode: the profile with approval, sandbox, scope and network set.\<close>

definition profile_for_mode :: "PermissionMode \<Rightarrow> FileScope \<Rightarrow> ExecutionProfile \<Rightarrow> ExecutionProfile res" where
  "profile_for_mode mode scope profile =
     (if mode = PermissionNone then
        Inr (profile\<lparr>ep_ApprovalPolicy := ApprovalAsk, ep_SandboxMode := SandboxReadOnly,
               ep_FileScope := FileScopeWorkspace, ep_AdditionalRoots := [],
               ep_NetworkPolicy := \<lparr>np_Mode = NetworkOff, np_AllowedDomains = []\<rparr>,
               ep_CommandPolicy := (ep_CommandPolicy profile)\<lparr>cep_Enabled := False,
                 cep_Execution := CommandExecutionSandboxed\<rparr>\<rparr>)
      else if mode = PermissionAsk then
        Inr (profile\<lparr>ep_ApprovalPolicy := ApprovalAsk, ep_SandboxMode := SandboxReadOnly, ep_FileScope := scope\<rparr>)
      else if mode = PermissionWorkspace then
        (let p = profile\<lparr>ep_ApprovalPolicy := ApprovalAutoInSandbox, ep_FileScope := scope,
                   ep_NetworkPolicy := \<lparr>np_Mode = NetworkOff, np_AllowedDomains = []\<rparr>\<rparr>
         in if scope = FileScopeWorkspacePlusAllowedRoots \<and> length (ep_AdditionalRoots profile) \<noteq> 0
            then Inr (p\<lparr>ep_SandboxMode := SandboxSelectedRoots\<rparr>)
            else if scope = FileScopeAllNonProtected then Inr (p\<lparr>ep_SandboxMode := SandboxWorkspaceWrite\<rparr>)
            else if scope \<noteq> FileScopeWorkspace then Inl (Sentinel ErrComputerRootsRequired)
            else Inr (p\<lparr>ep_SandboxMode := SandboxWorkspaceWrite\<rparr>))
      else if mode = PermissionFull then
        Inr (profile\<lparr>ep_ApprovalPolicy := ApprovalNeverHost, ep_SandboxMode := SandboxHostFull,
               ep_FileScope := FileScopeAllNonProtected,
               ep_NetworkPolicy := \<lparr>np_Mode = NetworkHostInherited, np_AllowedDomains = []\<rparr>,
               ep_CommandPolicy := (ep_CommandPolicy profile)\<lparr>cep_Execution := CommandExecutionHostExplicit\<rparr>\<rparr>)
      else Inr profile)"

definition profile_mode :: "Config \<Rightarrow> PermissionSelection \<Rightarrow> PermissionMode" where
  "profile_mode config selection =
     (let mode = (if ps_Mode selection = [] then es_PermissionMode (effectiveExecutionSettings config)
                  else ps_Mode selection)
      in if mode = [] then PermissionAsk else mode)"

definition profile_roots :: "platform \<Rightarrow> Config \<Rightarrow> PermissionSelection \<Rightarrow> string list" where
  "profile_roots P config selection =
     (let roots = cfg_ComputerRoots config @ es_AdditionalRoots (effectiveExecutionSettings config);
          roots = (if length (ps_ComputerRoots selection) \<noteq> 0 then ps_ComputerRoots selection else roots);
          roots = (if length (ps_AdditionalRoots selection) \<noteq> 0 then roots @ ps_AdditionalRoots selection else roots)
      in uniqueAbsoluteRoots P roots)"

definition profile_draft ::
    "platform \<Rightarrow> Config \<Rightarrow> PermissionSelection \<Rightarrow> PermissionMode \<Rightarrow> string \<Rightarrow> ExecutionProfile" where
  "profile_draft P config selection mode workspace =
     (let settings = effectiveExecutionSettings config;
          command = commandExecutionPolicy config;
          command = (case ps_CommandEnabled selection of Some b \<Rightarrow> command\<lparr>cep_Enabled := b\<rparr> | None \<Rightarrow> command)
      in \<lparr>ep_PermissionMode = mode, ep_ApprovalPolicy = [], ep_SandboxMode = [],
          ep_WorkspaceRoot = Clean P workspace, ep_AdditionalRoots = profile_roots P config selection,
          ep_BlockedPaths = uniqueAbsoluteRoots P (es_BlockedPaths settings @ ps_BlockedPaths selection),
          ep_FileScope = [], ep_NetworkPolicy = es_NetworkPolicy settings,
          ep_CommandPolicy = command, ep_Generation = effectiveToolGeneration config\<rparr>)"

definition profile_scope :: "Config \<Rightarrow> PermissionSelection \<Rightarrow> FileScope" where
  "profile_scope config selection =
     (let scope = canonicalFileScope (ps_FileScope selection);
          scope = (if scope = [] then canonicalFileScope (es_FileScope (effectiveExecutionSettings config)) else scope)
      in if ps_ComputerFiles selection \<and> scope = FileScopeWorkspace then FileScopeWorkspacePlusAllowedRoots else scope)"

definition profile_finish :: "platform \<Rightarrow> PermissionMode \<Rightarrow> ExecutionProfile \<Rightarrow> ExecutionProfile res" where
  "profile_finish P mode profile =
     (if mode \<noteq> PermissionFull \<and> np_Mode (ep_NetworkPolicy profile) \<noteq> NetworkOff
         \<and> np_Mode (ep_NetworkPolicy profile) \<noteq> NetworkInternet
      then Inl (ErrorsNew ''harness: sandbox network supports only off or internet'')
      else let profile = (if mode \<noteq> PermissionFull
                          then profile\<lparr>ep_NetworkPolicy := (ep_NetworkPolicy profile)\<lparr>np_AllowedDomains := []\<rparr>\<rparr>
                          else profile)
        in case ExecutionProfile_Validate P profile of Some e \<Rightarrow> Inl e | None \<Rightarrow> Inr profile)"

definition buildExecutionProfile :: "platform \<Rightarrow> Config \<Rightarrow> PermissionSelection \<Rightarrow> ExecutionProfile res" where
  "buildExecutionProfile P config selection =
     (let mode = profile_mode config selection
      in case PermissionMode_Validate mode of Some e \<Rightarrow> Inl e | None \<Rightarrow>
        (case Abs P (cfg_Workspace config) of Inl e \<Rightarrow> Inl e | Inr workspace \<Rightarrow>
          (case profile_for_mode mode (profile_scope config selection)
                  (profile_draft P config selection mode workspace) of
             Inl e \<Rightarrow> Inl e
           | Inr profile \<Rightarrow> profile_finish P mode profile)))"

definition executionProfileForConfig :: "platform \<Rightarrow> Config \<Rightarrow> ExecutionProfile res" where
  "executionProfileForConfig P config =
     (let settings = effectiveExecutionSettings config
      in buildExecutionProfile P config
           \<lparr>ps_OwnerPrivate = False, ps_RemoteLimit = [], ps_SpaceID = [], ps_PersonID = [], ps_Entry = [],
            ps_SpaceLimit = [], ps_PersonLimit = [], ps_Mode = es_PermissionMode settings, ps_Source = ''default'',
            ps_ComputerFiles = cfg_ComputerFiles config, ps_ComputerRoots = cfg_ComputerRoots config,
            ps_FileScope = es_FileScope settings, ps_AdditionalRoots = es_AdditionalRoots settings,
            ps_BlockedPaths = [], ps_CommandEnabled = None, ps_ProfileGeneration = []\<rparr>)"

definition commandConfigForProfile :: "CommandConfig \<Rightarrow> ExecutionProfile \<Rightarrow> CommandConfig" where
  "commandConfigForProfile base profile =
     base\<lparr>cc_Enabled := cep_Enabled (ep_CommandPolicy profile),
          cc_Execution := cep_Execution (ep_CommandPolicy profile),
          cc_Rules := cep_Rules (ep_CommandPolicy profile)\<rparr>"

definition toolPolicyForProfile :: "Config \<Rightarrow> ExecutionProfile \<Rightarrow> ToolPolicy" where
  "toolPolicyForProfile config profile =
     (let tools = (if ep_PermissionMode profile = PermissionNone
                   then \<lparr>bt_File = False, bt_CommandRun = False, bt_Network = False, bt_Memory = False\<rparr>
                   else effectiveBuiltinToolSettings config);
          command = commandConfigForProfile (cfg_Commands config) profile
      in \<lparr>tp_EnabledTools = tools,
          tp_Commands = command\<lparr>cc_Enabled := cc_Enabled command \<and> bt_CommandRun tools\<rparr>,
          tp_HTTP = cfg_HTTP config,
          tp_File = \<lparr>fp_ComputerFiles = (ep_FileScope profile \<noteq> FileScopeWorkspace),
                     fp_ComputerRoots = ep_AdditionalRoots profile, fp_BlockedPaths = ep_BlockedPaths profile,
                     fp_Scope = ep_FileScope profile\<rparr>,
          tp_Generation = ep_Generation profile, tp_Profile = profile\<rparr>)"

definition effectiveCommandExecution :: "CommandConfig \<Rightarrow> CommandExecutionMode" where
  "effectiveCommandExecution config =
     (if cc_Execution config = [] then CommandExecutionSandboxed else cc_Execution config)"

definition sameRootList :: "platform \<Rightarrow> string list \<Rightarrow> string list \<Rightarrow> bool" where
  "sameRootList P left right \<longleftrightarrow>
     length left = length right
     \<and> list_all (\<lambda>item. ToLower P (Clean P item) \<in> set (map (\<lambda>i. ToLower P (Clean P i)) left)) right"

section \<open>Lemmas\<close>

lemma PermissionMode_Validate_None:
  "PermissionMode_Validate m = None \<longleftrightarrow> m = PermissionNone \<or> m = PermissionAsk \<or> m = PermissionWorkspace \<or> m = PermissionFull"
  by (simp add: PermissionMode_Validate_def)

lemma build_cases:
  assumes "buildExecutionProfile P config selection = Inr prof"
  obtains mode scope p0 p1 where
    "PermissionMode_Validate mode = None" "mode = profile_mode config selection"
    "ep_PermissionMode p0 = mode" "ep_Generation p0 = effectiveToolGeneration config"
    "profile_for_mode mode scope p0 = Inr p1" "profile_finish P mode p1 = Inr prof"
proof -
  let ?m = "profile_mode config selection"
  obtain ws p1 where "PermissionMode_Validate ?m = None"
    "profile_for_mode ?m (profile_scope config selection) (profile_draft P config selection ?m ws) = Inr p1"
    "profile_finish P ?m p1 = Inr prof"
    using assms unfolding buildExecutionProfile_def Let_def by (auto split: option.splits sum.splits)
  then show ?thesis
    by (intro that[of ?m "profile_draft P config selection ?m ws"]) (simp_all add: profile_draft_def Let_def)
qed

lemma profile_finishD:
  assumes "profile_finish P mode p = Inr prof"
  shows "ExecutionProfile_Validate P prof = None"
    and "mode = PermissionFull \<Longrightarrow> prof = p"
    and "mode \<noteq> PermissionFull \<Longrightarrow> prof = p\<lparr>ep_NetworkPolicy := (ep_NetworkPolicy p)\<lparr>np_AllowedDomains := []\<rparr>\<rparr>
      \<and> np_Mode (ep_NetworkPolicy p) \<in> {NetworkOff, NetworkInternet}"
  using assms by (auto simp: profile_finish_def Let_def split: if_splits option.splits)

lemma profile_for_mode_PermissionMode:
  "profile_for_mode mode scope p = Inr p' \<Longrightarrow> ep_PermissionMode p' = ep_PermissionMode p \<and> ep_Generation p' = ep_Generation p"
  by (auto simp: profile_for_mode_def Let_def split: if_splits)

lemma profile_for_mode_NoneD:
  "profile_for_mode PermissionNone scope p = Inr p' \<Longrightarrow>
     ep_SandboxMode p' = SandboxReadOnly \<and> ep_ApprovalPolicy p' = ApprovalAsk \<and> ep_FileScope p' = FileScopeWorkspace
     \<and> ep_AdditionalRoots p' = [] \<and> np_Mode (ep_NetworkPolicy p') = NetworkOff
     \<and> \<not> cep_Enabled (ep_CommandPolicy p') \<and> cep_Execution (ep_CommandPolicy p') = CommandExecutionSandboxed"
  by (auto simp: profile_for_mode_def)

lemma profile_for_mode_not_Full:
  "profile_for_mode mode scope p = Inr p' \<Longrightarrow> PermissionMode_Validate mode = None \<Longrightarrow> mode \<noteq> PermissionFull \<Longrightarrow>
     ep_SandboxMode p' \<noteq> SandboxHostFull \<and> ep_ApprovalPolicy p' \<noteq> ApprovalNeverHost
     \<and> (mode = PermissionWorkspace \<longrightarrow> np_Mode (ep_NetworkPolicy p') = NetworkOff)"
  by (auto simp: profile_for_mode_def PermissionMode_Validate_None Let_def split: if_splits)

lemma profile_for_mode_Full:
  "profile_for_mode PermissionFull scope p = Inr p' \<Longrightarrow> ep_SandboxMode p' = SandboxHostFull"
  by (auto simp: profile_for_mode_def)

lemma build_profile_facts:
  assumes "buildExecutionProfile P config selection = Inr prof"
  shows "ExecutionProfile_Validate P prof = None
    \<and> (ps_Mode selection \<noteq> [] \<longrightarrow> ep_PermissionMode prof = ps_Mode selection)
    \<and> (ep_SandboxMode prof = SandboxHostFull \<longleftrightarrow> ep_PermissionMode prof = PermissionFull)
    \<and> (ep_PermissionMode prof \<noteq> PermissionFull \<longrightarrow>
         ep_ApprovalPolicy prof \<noteq> ApprovalNeverHost
         \<and> np_Mode (ep_NetworkPolicy prof) \<in> {NetworkOff, NetworkInternet}
         \<and> np_AllowedDomains (ep_NetworkPolicy prof) = [])
    \<and> (ep_PermissionMode prof = PermissionWorkspace \<longrightarrow> np_Mode (ep_NetworkPolicy prof) = NetworkOff)
    \<and> (ep_PermissionMode prof = PermissionNone \<longrightarrow>
         ep_SandboxMode prof = SandboxReadOnly \<and> ep_FileScope prof = FileScopeWorkspace
         \<and> ep_AdditionalRoots prof = [] \<and> np_Mode (ep_NetworkPolicy prof) = NetworkOff
         \<and> \<not> cep_Enabled (ep_CommandPolicy prof))
    \<and> ep_Generation prof \<noteq> []"
proof -
  obtain mode scope p0 p1 where v: "PermissionMode_Validate mode = None" "mode = profile_mode config selection"
    and p0: "ep_PermissionMode p0 = mode" and g0: "ep_Generation p0 = effectiveToolGeneration config"
    and f: "profile_for_mode mode scope p0 = Inr p1"
    and fin: "profile_finish P mode p1 = Inr prof"
    by (rule build_cases[OF assms])
  have m: "ep_PermissionMode p1 = mode" using profile_for_mode_PermissionMode[OF f] p0 by simp
  have "ep_Generation p1 \<noteq> []" using profile_for_mode_PermissionMode[OF f] g0 by (simp add: effectiveToolGeneration_def)
  then have gen: "ep_Generation prof \<noteq> []" using profile_finishD(2,3)[OF fin] by (cases "mode = PermissionFull") auto
  have sel: "ps_Mode selection \<noteq> [] \<longrightarrow> mode = ps_Mode selection" using v(2) by (simp add: profile_mode_def)
  show ?thesis
  proof (cases "mode = PermissionFull")
    case True
    then show ?thesis using profile_finishD(1,2)[OF fin] m sel profile_for_mode_Full[of scope p0 p1] f gen by simp
  next
    case False
    have p: "ep_PermissionMode prof = mode" "ep_SandboxMode prof = ep_SandboxMode p1"
      "ep_ApprovalPolicy prof = ep_ApprovalPolicy p1" "ep_FileScope prof = ep_FileScope p1"
      "ep_AdditionalRoots prof = ep_AdditionalRoots p1" "ep_CommandPolicy prof = ep_CommandPolicy p1"
      "np_Mode (ep_NetworkPolicy prof) = np_Mode (ep_NetworkPolicy p1)" "np_AllowedDomains (ep_NetworkPolicy prof) = []"
      "np_Mode (ep_NetworkPolicy p1) \<in> {NetworkOff, NetworkInternet}"
      using profile_finishD(3)[OF fin False] m by simp_all
    note nf = profile_for_mode_not_Full[OF f v(1) False]
    show ?thesis unfolding p(1-8)
      using profile_finishD(1)[OF fin] p(9) nf sel False profile_for_mode_NoneD[of scope p0 p1] f gen by blast
  qed
qed

section \<open>Properties\<close>

text \<open>
  C12: A profile that is built passes its own validator and grants no more than its permission
  mode: the mode is the requested one, host sandbox and host approval appear in Full mode only,
  every other mode has network off or internet without domain list, Workspace mode has network
  off, and None mode has no roots, no commands and no network.
\<close>

theorem build_profile_no_escalation:
  assumes "buildExecutionProfile P config selection = Inr prof"
  shows "ExecutionProfile_Validate P prof = None
    \<and> (ps_Mode selection \<noteq> [] \<longrightarrow> ep_PermissionMode prof = ps_Mode selection)
    \<and> (ep_SandboxMode prof = SandboxHostFull \<longleftrightarrow> ep_PermissionMode prof = PermissionFull)
    \<and> (ep_PermissionMode prof \<noteq> PermissionFull \<longrightarrow>
         ep_ApprovalPolicy prof \<noteq> ApprovalNeverHost
         \<and> np_Mode (ep_NetworkPolicy prof) \<in> {NetworkOff, NetworkInternet}
         \<and> np_AllowedDomains (ep_NetworkPolicy prof) = [])
    \<and> (ep_PermissionMode prof = PermissionWorkspace \<longrightarrow> np_Mode (ep_NetworkPolicy prof) = NetworkOff)
    \<and> (ep_PermissionMode prof = PermissionNone \<longrightarrow>
         ep_SandboxMode prof = SandboxReadOnly \<and> ep_FileScope prof = FileScopeWorkspace
         \<and> ep_AdditionalRoots prof = [] \<and> np_Mode (ep_NetworkPolicy prof) = NetworkOff
         \<and> \<not> cep_Enabled (ep_CommandPolicy prof))"
  using build_profile_facts[OF assms] by blast

definition sample_config :: Config where
  "sample_config =
     \<lparr>cfg_Workspace = ''/w'', cfg_Tools = \<lparr>bt_File = True, bt_CommandRun = True, bt_Network = False, bt_Memory = True\<rparr>,
      cfg_Commands = \<lparr>cc_Services = \<lparr>sp_Enabled = True, sp_DefaultSeconds = 1800, sp_MaxTotalSeconds = 28800,
           sp_AllowLocalListen = False\<rparr>,
         cc_Enabled = True, cc_TimeoutSecs = 60, cc_MaxOutput = 4096, cc_InheritEnv = False,
         cc_AllowedExecutables = [], cc_Execution = CommandExecutionHostExplicit, cc_Rules = []\<rparr>,
      cfg_Execution = defaultExecutionSettings ''/w'', cfg_ToolGeneration = [],
      cfg_ComputerFiles = False, cfg_ComputerRoots = [],
      cfg_HTTP = \<lparr>hc_Enabled = False, hc_AllowedOrigins = [], hc_TimeoutSecs = 30, hc_MaxOutput = 4096\<rparr>\<rparr>"

definition sample_selection :: "PermissionMode \<Rightarrow> PermissionSelection" where
  "sample_selection mode =
     \<lparr>ps_OwnerPrivate = False, ps_RemoteLimit = [], ps_SpaceID = ''space'', ps_PersonID = [], ps_Entry = [],
      ps_SpaceLimit = [], ps_PersonLimit = [], ps_Mode = mode, ps_Source = ''space'',
      ps_ComputerFiles = False, ps_ComputerRoots = [], ps_FileScope = [], ps_AdditionalRoots = [],
      ps_BlockedPaths = [], ps_CommandEnabled = None, ps_ProfileGeneration = []\<rparr>"

lemma trim_1: "TrimSpace ''1'' = ''1''"
  by (simp add: TrimSpace_def strip_front.simps space_encodings_def HasPrefix_def)

lemma clean_w: "path_Clean ''/w'' = ''/w''"
  by (simp add: path_Clean_def clean_parts_def path_rooted_def HasPrefix_def)

lemma build_sample:
  "mode \<in> {PermissionNone, PermissionAsk, PermissionFull} \<Longrightarrow>
   \<exists>prof. buildExecutionProfile (unix_platform ''/'') sample_config (sample_selection mode) = Inr prof"
  by (auto simp: buildExecutionProfile_def profile_mode_def profile_roots_def profile_draft_def profile_scope_def
      profile_finish_def sample_config_def sample_selection_def effectiveExecutionSettings_def
      defaultExecutionSettings_def PermissionMode_Validate_def unix_platform_def clean_w trim_1 path_rooted_def
      HasPrefix_def uniqueAbsoluteRoots_def commandExecutionPolicy_def effectiveToolGeneration_def
      canonicalFileScope_def profile_for_mode_def ExecutionProfile_Validate_def ApprovalPolicy_Validate_def
      SandboxMode_Validate_def FileScope_Validate_def NetworkPolicy_Validate_def NetworkMode_Validate_def
      CommandExecutionPolicy_Validate_def CommandExecutionMode_Validate_def absolute_clean_text_def ContainsAny_def
      nul_cr_lf_def Let_def)

theorem build_profile_no_escalation_witness:
  "\<exists>prof. buildExecutionProfile (unix_platform ''/'') sample_config (sample_selection PermissionAsk) = Inr prof
     \<and> ep_PermissionMode prof = PermissionAsk \<and> ep_SandboxMode prof \<noteq> SandboxHostFull"
proof -
  obtain prof where b: "buildExecutionProfile (unix_platform ''/'') sample_config (sample_selection PermissionAsk) = Inr prof"
    using build_sample[of PermissionAsk] by auto
  show ?thesis using build_profile_no_escalation[OF b] b by (auto simp: sample_selection_def)
qed

end
