(* ===== verification/Tool_Runner.thy ===== *)
theory Tool_Runner
  imports Execution_Profile
begin

text \<open>
  The tool runners a run is given: the policy view of runtime_policy.go over the base tools, the
  read-only runner of tool_verification.go, the empty runner of space_permissions.go, and the
  approval decision of permissions.go. A runner is its advertised definitions and its Prepare
  function; closures of a prepared tool (Execute, Reject, release) are not represented, only the
  markers the decisions read.
\<close>

section \<open>Tools\<close>

type_synonym ToolEffect = string

abbreviation EffectRead :: ToolEffect where "EffectRead \<equiv> ''read''"
abbreviation EffectModify :: ToolEffect where "EffectModify \<equiv> ''modify''"

record ToolDefinition =
  td_Name :: string
  td_Description :: string
  td_InputSchema :: string
  td_Effect :: ToolEffect

record ToolCall =
  tc_ID :: string
  tc_Name :: string
  tc_Arguments :: string

record PreparedTool =
  pt_Effect :: ToolEffect
  pt_executeTransaction :: bool
  pt_preauthorized :: bool
  pt_workspaceFile :: bool
  pt_approvalRequired :: bool
  pt_userConfirmation :: bool
  pt_ruleAllowed :: bool
  pt_commandDecision :: CommandRuleDecision
  pt_controlProposal :: bool

record ToolRunner =
  tr_Definitions :: "ToolDefinition list"
  tr_Prepare :: "ToolCall \<Rightarrow> PreparedTool res"

definition isFileToolName :: "string \<Rightarrow> bool" where
  "isFileToolName name \<longleftrightarrow>
     name \<in> {''file_list'', ''file_read'', ''file_search'', ''file_edit'', ''file_create'', ''file_delete'',
              ''file_batch_edit'', ''apply_patch'', ''file_export''}"

section \<open>Denied and verification runners\<close>

definition deniedTools :: ToolRunner where
  "deniedTools = \<lparr>tr_Definitions = [], tr_Prepare = (\<lambda>_. Inl (Sentinel ErrPermissionDenied))\<rparr>"

definition verificationToolAllowed :: "ToolDefinition \<Rightarrow> bool" where
  "verificationToolAllowed d \<longleftrightarrow>
     td_Effect d = EffectRead
     \<and> (td_Name d \<in> {''file_list'', ''file_read'', ''file_search'', ''memory_list'', ''memory_read'', ''knowledge_search''}
        \<or> HasPrefix (td_Name d) ''mcp_'')"

definition verification_Definitions :: "ToolRunner \<Rightarrow> ToolDefinition list" where
  "verification_Definitions base = filter verificationToolAllowed (tr_Definitions base)"

definition verification_Prepare :: "ToolRunner \<Rightarrow> ToolCall \<Rightarrow> PreparedTool res" where
  "verification_Prepare base call =
     (if \<not> list_ex (\<lambda>d. td_Name d = tc_Name call) (verification_Definitions base)
      then Inl (Sentinel ErrUnknownResult)
      else case tr_Prepare base call of
             Inl e \<Rightarrow> Inl e
           | Inr p \<Rightarrow>
               if pt_Effect p \<noteq> EffectRead \<or> pt_controlProposal p \<or> pt_executeTransaction p
               then Inl (Sentinel ErrUnknownResult) else Inr p)"

definition verificationTools :: "ToolRunner \<Rightarrow> ToolRunner" where
  "verificationTools base =
     \<lparr>tr_Definitions = verification_Definitions base, tr_Prepare = verification_Prepare base\<rparr>"

section \<open>The policy view\<close>

text \<open>
  The runners a view delegates to are the broker, the command tools and the HTTP tools, each a
  function of the policy field it is built from, and the base runtime tools.
\<close>

record view_base =
  vb_base :: ToolRunner
  vb_broker :: "FileAccessPolicy \<Rightarrow> ToolCall \<Rightarrow> PreparedTool res"
  vb_command :: "CommandConfig \<Rightarrow> ExecutionProfile \<Rightarrow> ToolRunner"
  vb_http :: "HTTPConfig \<Rightarrow> ToolRunner"

fun replace_first :: "string \<Rightarrow> string \<Rightarrow> string \<Rightarrow> string" where
  "replace_first old new [] = []"
| "replace_first old new (c # cs) =
     (if HasPrefix (c # cs) old then new @ drop (length old) (c # cs) else c # replace_first old new cs)"

definition describe_scope :: "ToolPolicy \<Rightarrow> ToolDefinition \<Rightarrow> ToolDefinition" where
  "describe_scope policy d =
     (if isFileToolName (td_Name d)
         \<and> (fp_ComputerFiles (tp_File policy) \<or> fp_Scope (tp_File policy) \<noteq> FileScopeWorkspace)
      then d\<lparr>td_Description := replace_first ''workspace''
               ''workspace or an explicitly authorized computer directory'' (td_Description d)\<rparr>
      else d)"

definition view_Definitions :: "view_base \<Rightarrow> ToolPolicy \<Rightarrow> ToolDefinition list" where
  "view_Definitions B policy =
     (if ep_PermissionMode (tp_Profile policy) = PermissionNone then []
      else let ds = tr_Definitions (vb_base B);
               ds = (if \<not> bt_File (tp_EnabledTools policy) then filter (\<lambda>d. \<not> isFileToolName (td_Name d)) ds else ds);
               ds = filter (\<lambda>d. td_Name d \<noteq> ''http_get'') ds;
               ds = (if bt_Network (tp_EnabledTools policy) \<and> hc_Enabled (tp_HTTP policy)
                     then ds @ tr_Definitions (vb_http B (tp_HTTP policy)) else ds);
               ds = map (describe_scope policy) ds
           in if bt_CommandRun (tp_EnabledTools policy) \<and> cc_Enabled (tp_Commands policy)
              then ds @ tr_Definitions (vb_command B (tp_Commands policy) (tp_Profile policy)) else ds)"

definition view_Prepare :: "view_base \<Rightarrow> ToolPolicy \<Rightarrow> ToolCall \<Rightarrow> PreparedTool res" where
  "view_Prepare B policy call =
     (if ep_PermissionMode (tp_Profile policy) = PermissionNone then Inl (Sentinel ErrPermissionDenied)
      else if tc_Name call = ''command_run'' then
        (if \<not> bt_CommandRun (tp_EnabledTools policy) \<or> \<not> cc_Enabled (tp_Commands policy)
         then Inl (Sentinel ErrToolDisabled)
         else tr_Prepare (vb_command B (tp_Commands policy) (tp_Profile policy)) call)
      else if isFileToolName (tc_Name call) then
        (if \<not> bt_File (tp_EnabledTools policy) then Inl (Sentinel ErrToolDisabled)
         else vb_broker B (tp_File policy) call)
      else if tc_Name call = ''http_get'' \<and> \<not> bt_Network (tp_EnabledTools policy) then Inl (Sentinel ErrToolDisabled)
      else if tc_Name call = ''http_get'' then
        (if \<not> hc_Enabled (tp_HTTP policy) then Inl (Sentinel ErrToolDisabled)
         else tr_Prepare (vb_http B (tp_HTTP policy)) call)
      else tr_Prepare (vb_base B) call)"

text \<open>
  The manager keeps the current view, which is its policy; build fills in a missing generation.
\<close>

definition manager_build :: "ToolPolicy \<Rightarrow> ToolPolicy" where
  "manager_build policy = (if tp_Generation policy = [] then policy\<lparr>tp_Generation := ''1''\<rparr> else policy)"

definition NewToolRuntimeManager :: "platform \<Rightarrow> Config \<Rightarrow> ToolPolicy" where
  "NewToolRuntimeManager P config =
     (let profile = (case executionProfileForConfig P config of
            Inr p \<Rightarrow> p
          | Inl _ \<Rightarrow> \<lparr>ep_PermissionMode = PermissionAsk, ep_ApprovalPolicy = ApprovalAsk,
                     ep_SandboxMode = SandboxReadOnly, ep_WorkspaceRoot = cfg_Workspace config,
                     ep_AdditionalRoots = [], ep_BlockedPaths = [], ep_FileScope = FileScopeWorkspace,
                     ep_NetworkPolicy = \<lparr>np_Mode = NetworkOff, np_AllowedDomains = []\<rparr>,
                     ep_CommandPolicy = commandExecutionPolicy config,
                     ep_Generation = effectiveToolGeneration config\<rparr>)
      in manager_build (toolPolicyForProfile config profile))"

definition manager_Build :: "platform \<Rightarrow> ToolPolicy \<Rightarrow> Config \<Rightarrow> ToolPolicy" where
  "manager_Build P current config =
     (let profile = (case executionProfileForConfig P config of
            Inr p \<Rightarrow> p
          | Inl _ \<Rightarrow> (let p = tp_Profile current
                     in if ep_Generation p = [] then p\<lparr>ep_Generation := effectiveToolGeneration config\<rparr> else p))
      in manager_build (toolPolicyForProfile config profile))"

definition parse_uint64 :: "string \<Rightarrow> 64 word option" where
  "parse_uint64 s =
     (if s = [] then None
      else case atoi_digits 0 s of None \<Rightarrow> None | Some n \<Rightarrow> if n < 2 ^ 64 then Some (word_of_nat n) else None)"

definition nextToolGeneration :: "string \<Rightarrow> string" where
  "nextToolGeneration current =
     (case parse_uint64 current of
        None \<Rightarrow> ''1''
      | Some number \<Rightarrow> if number = 0 then ''1'' else itoa_nat (unat (number + 1)))"

section \<open>Approval\<close>


section \<open>Restrictions of a runner\<close>

text \<open>
  The contract of every wrapper: it advertises only what its base advertises, prepares only what it
  advertises, and what it prepares is what its base prepared. Wrapping composes, and any property
  of the base's prepared tools holds of the wrapper's.
\<close>

locale tool_restriction =
  fixes base :: ToolRunner
    and runner :: ToolRunner
  assumes definitions_subset: "set (tr_Definitions runner) \<subseteq> set (tr_Definitions base)"
    and prepare_advertised: "tr_Prepare runner call = Inr p \<Longrightarrow> tc_Name call \<in> td_Name ` set (tr_Definitions runner)"
    and prepare_delegates: "tr_Prepare runner call = Inr p \<Longrightarrow> tr_Prepare base call = Inr p"
begin

lemma prepared_inherits:
  "(\<And>call p. tr_Prepare base call = Inr p \<Longrightarrow> Q call p) \<Longrightarrow> tr_Prepare runner call = Inr p \<Longrightarrow> Q call p"
  using prepare_delegates by blast

lemma prepared_name_in_base: "tr_Prepare runner call = Inr p \<Longrightarrow> tc_Name call \<in> td_Name ` set (tr_Definitions base)"
  using prepare_advertised definitions_subset by blast

lemma unadvertised_refused:
  "tc_Name call \<notin> td_Name ` set (tr_Definitions runner) \<Longrightarrow> \<exists>e. tr_Prepare runner call = Inl e"
  using prepare_advertised[of call] by (cases "tr_Prepare runner call") auto

lemma restriction_trans:
  assumes "tool_restriction root base"
  shows "tool_restriction root runner"
  using assms definitions_subset prepare_advertised prepare_delegates unfolding tool_restriction_def by blast

end

interpretation denied: tool_restriction base deniedTools for base
  by unfold_locales (auto simp: deniedTools_def)

interpretation verify: tool_restriction base "verificationTools base" for base
  by unfold_locales
    (auto simp: verificationTools_def verification_Definitions_def verification_Prepare_def list_ex_iff
      image_iff intro: sym split: if_splits sum.splits)

section \<open>Lemmas\<close>

lemma td_Name_describe_scope [simp]: "td_Name (describe_scope policy d) = td_Name d"
  by (simp add: describe_scope_def)

lemma verification_prepared:
  "tr_Prepare (verificationTools base) call = Inr p \<Longrightarrow>
     pt_Effect p = EffectRead \<and> \<not> pt_controlProposal p \<and> \<not> pt_executeTransaction p
     \<and> (\<exists>d \<in> set (tr_Definitions base). td_Name d = tc_Name call \<and> verificationToolAllowed d)"
  by (auto simp: verificationTools_def verification_Prepare_def verification_Definitions_def list_ex_iff
      split: if_splits sum.splits)

lemma atoi_digits_itoa_nat_inj: "itoa_nat m = itoa_nat n \<longleftrightarrow> m = n"
  by (metis atoi_digits_itoa_nat option.inject)

lemma parse_uint64_itoa_nat: "n < 2 ^ 64 \<Longrightarrow> parse_uint64 (itoa_nat n) = Some (word_of_nat n)"
  by (simp add: parse_uint64_def)

lemma parse_uint64_1: "parse_uint64 ''1'' = Some 1"
  by (simp add: parse_uint64_def digit_value_def)

lemma view_names:
  assumes "ep_PermissionMode (tp_Profile policy) \<noteq> PermissionNone"
  shows "td_Name ` set (view_Definitions B policy) =
    {n \<in> td_Name ` set (tr_Definitions (vb_base B)). (bt_File (tp_EnabledTools policy) \<or> \<not> isFileToolName n) \<and> n \<noteq> ''http_get''}
    \<union> (if bt_Network (tp_EnabledTools policy) \<and> hc_Enabled (tp_HTTP policy)
        then td_Name ` set (tr_Definitions (vb_http B (tp_HTTP policy))) else {})
    \<union> (if bt_CommandRun (tp_EnabledTools policy) \<and> cc_Enabled (tp_Commands policy)
        then td_Name ` set (tr_Definitions (vb_command B (tp_Commands policy) (tp_Profile policy))) else {})"
proof -
  have i: "td_Name ` describe_scope policy ` S = td_Name ` S" for S by (force simp: image_iff)
  show ?thesis using assms by (auto simp: view_Definitions_def Let_def image_Un i)
qed

section \<open>Properties\<close>

text \<open>
  While an uncertain effect is being verified, the run's tools can only read: whatever the
  base tools are, a call the verification runner prepares is exactly what the base prepared, has
  read effect, is no control proposal and carries no store transaction, and its name is advertised
  by the base and is neither command_run nor a file tool that writes.
\<close>

theorem verification_tools_read_only:
  assumes "tr_Prepare (verificationTools base) call = Inr p"
  shows "tr_Prepare base call = Inr p \<and> pt_Effect p = EffectRead \<and> \<not> pt_controlProposal p
    \<and> \<not> pt_executeTransaction p \<and> tc_Name call \<in> td_Name ` set (tr_Definitions base)
    \<and> tc_Name call \<noteq> ''command_run''
    \<and> (isFileToolName (tc_Name call) \<longrightarrow> tc_Name call \<in> {''file_list'', ''file_read'', ''file_search''})"
proof -
  have "n \<noteq> ''command_run'' \<and> (isFileToolName n \<longrightarrow> n \<in> {''file_list'', ''file_read'', ''file_search''})"
    if "verificationToolAllowed d" "td_Name d = n" for d n
    using that by (auto simp: verificationToolAllowed_def isFileToolName_def HasPrefix_def)
  then show ?thesis
    using verification_prepared[OF assms] verify.prepare_delegates[OF assms] verify.prepared_name_in_base[OF assms]
    by blast
qed

definition sample_prepared :: "ToolEffect \<Rightarrow> PreparedTool" where
  "sample_prepared eff =
     \<lparr>pt_Effect = eff, pt_executeTransaction = False, pt_preauthorized = False, pt_workspaceFile = False,
      pt_approvalRequired = False, pt_userConfirmation = False, pt_ruleAllowed = False,
      pt_commandDecision = [], pt_controlProposal = False\<rparr>"

definition sample_runner :: ToolRunner where
  "sample_runner =
     \<lparr>tr_Definitions = [\<lparr>td_Name = ''file_read'', td_Description = [], td_InputSchema = [], td_Effect = EffectRead\<rparr>,
                       \<lparr>td_Name = ''file_edit'', td_Description = [], td_InputSchema = [], td_Effect = EffectModify\<rparr>,
                       \<lparr>td_Name = ''apply_patch'', td_Description = [], td_InputSchema = [], td_Effect = EffectModify\<rparr>],
      tr_Prepare = (\<lambda>call. if tc_Name call = ''file_read'' then Inr (sample_prepared EffectRead)
                           else if tc_Name call = ''file_edit'' \<or> tc_Name call = ''apply_patch''
                           then Inr (sample_prepared EffectModify)
                           else Inl (ErrorsNew ''unknown tool''))\<rparr>"

theorem verification_tools_read_only_witness:
  "tr_Prepare (verificationTools sample_runner) \<lparr>tc_ID = ''1'', tc_Name = ''file_read'', tc_Arguments = []\<rparr>
     = Inr (sample_prepared EffectRead)
   \<and> ''file_read'' \<in> td_Name ` set (tr_Definitions sample_runner)"
proof -
  let ?c = "\<lparr>tc_ID = ''1'', tc_Name = ''file_read'', tc_Arguments = []\<rparr>"
  have p: "tr_Prepare (verificationTools sample_runner) ?c = Inr (sample_prepared EffectRead)"
    by (simp add: verificationTools_def verification_Prepare_def verification_Definitions_def sample_runner_def
        verificationToolAllowed_def sample_prepared_def)
  show ?thesis using verification_tools_read_only[OF p] p by simp
qed

text \<open>
  The policy view prepares nothing it does not advertise. If the base, command, HTTP and
  broker runners only prepare tools they advertise (the broker only the base's file tools), then
  every call the view prepares names one of the view's definitions; under permission None the view
  advertises nothing and refuses every call with ErrPermissionDenied.
\<close>

theorem view_prepares_advertised:
  assumes base: "\<And>c p. tr_Prepare (vb_base B) c = Inr p \<Longrightarrow> tc_Name c \<in> td_Name ` set (tr_Definitions (vb_base B))"
    and broker: "\<And>F c p. vb_broker B F c = Inr p \<Longrightarrow> tc_Name c \<in> td_Name ` set (tr_Definitions (vb_base B))"
    and command: "\<And>c p. tr_Prepare (vb_command B (tp_Commands policy) (tp_Profile policy)) c = Inr p \<Longrightarrow>
        tc_Name c \<in> td_Name ` set (tr_Definitions (vb_command B (tp_Commands policy) (tp_Profile policy)))"
    and http: "\<And>c p. tr_Prepare (vb_http B (tp_HTTP policy)) c = Inr p \<Longrightarrow>
        tc_Name c \<in> td_Name ` set (tr_Definitions (vb_http B (tp_HTTP policy)))"
  shows "(view_Prepare B policy call = Inr p \<longrightarrow> tc_Name call \<in> td_Name ` set (view_Definitions B policy))
    \<and> (ep_PermissionMode (tp_Profile policy) = PermissionNone \<longrightarrow>
        view_Definitions B policy = [] \<and> view_Prepare B policy call = Inl (Sentinel ErrPermissionDenied))"
proof (cases "ep_PermissionMode (tp_Profile policy) = PermissionNone")
  case True
  then show ?thesis by (simp add: view_Definitions_def view_Prepare_def)
next
  case False
  consider (is_cmd) "tc_Name call = ''command_run''" | (is_file) "isFileToolName (tc_Name call)" "tc_Name call \<noteq> ''command_run''"
    | (is_http) "tc_Name call = ''http_get''"
    | (other) "\<not> isFileToolName (tc_Name call)" "tc_Name call \<noteq> ''http_get''" "tc_Name call \<noteq> ''command_run''"
    by blast
  then have "view_Prepare B policy call = Inr p \<longrightarrow> tc_Name call \<in> td_Name ` set (view_Definitions B policy)"
  proof cases
    case is_cmd
    then show ?thesis unfolding view_names[OF False] using command[of call p] False by (simp add: view_Prepare_def)
  next
    case is_file
    then have "tc_Name call \<noteq> ''http_get''" by (auto simp: isFileToolName_def)
    with is_file show ?thesis unfolding view_names[OF False] using broker[of "tp_File policy" call p] False
      by (simp add: view_Prepare_def)
  next
    case is_http
    then have "\<not> isFileToolName (tc_Name call)" by (simp add: isFileToolName_def)
    with is_http show ?thesis unfolding view_names[OF False] using assms(4)[of call p] False
      by (simp add: view_Prepare_def)
  next
    case other
    then show ?thesis unfolding view_names[OF False] using assms(1)[of call p] False by (simp add: view_Prepare_def)
  qed
  with False show ?thesis by blast
qed

definition sample_view_base :: view_base where
  "sample_view_base =
     \<lparr>vb_base = sample_runner, vb_broker = (\<lambda>F c. tr_Prepare sample_runner c),
      vb_command = (\<lambda>c p. deniedTools), vb_http = (\<lambda>h. deniedTools)\<rparr>"

lemma sample_runner_advertised:
  "tr_Prepare sample_runner c = Inr p \<Longrightarrow> tc_Name c \<in> td_Name ` set (tr_Definitions sample_runner)"
  by (auto simp: sample_runner_def split: if_splits)

theorem view_prepares_advertised_witness:
  "\<exists>policy. view_Prepare sample_view_base policy \<lparr>tc_ID = ''1'', tc_Name = ''file_edit'', tc_Arguments = []\<rparr>
      = Inr (sample_prepared EffectModify)
    \<and> ''file_edit'' \<in> td_Name ` set (view_Definitions sample_view_base policy)"
proof -
  obtain prof where b: "buildExecutionProfile (unix_platform ''/'') sample_config (sample_selection PermissionAsk) = Inr prof"
    using build_sample[of PermissionAsk] by auto
  let ?policy = "toolPolicyForProfile sample_config (prof\<lparr>ep_PermissionMode := PermissionAsk\<rparr>)"
  let ?call = "\<lparr>tc_ID = ''1'', tc_Name = ''file_edit'', tc_Arguments = []\<rparr>"
  have p: "view_Prepare sample_view_base ?policy ?call = Inr (sample_prepared EffectModify)"
    by (simp add: view_Prepare_def toolPolicyForProfile_def Let_def isFileToolName_def sample_view_base_def
        sample_runner_def effectiveBuiltinToolSettings_def sample_config_def)
  have "tc_Name ?call \<in> td_Name ` set (view_Definitions sample_view_base ?policy)"
    using view_prepares_advertised[of sample_view_base ?policy ?call "sample_prepared EffectModify"] p
      sample_runner_advertised
    by (simp add: sample_view_base_def deniedTools_def)
  with p show ?thesis by auto
qed



text \<open>
  Publishing a new tool policy always changes the generation string, also when the stored
  generation is not a number or the 64-bit counter wraps, so a stale generation never compares
  equal to the next one.
\<close>

theorem next_generation_differs: "nextToolGeneration g \<noteq> g"
proof (cases "parse_uint64 g")
  case None
  then show ?thesis using parse_uint64_1 by (auto simp: nextToolGeneration_def)
next
  case (Some w)
  have "parse_uint64 (itoa_nat (unat (w + 1))) = Some (w + 1)"
    using parse_uint64_itoa_nat[of "unat (w + 1)"] unsigned_less[of "w + 1"] by simp
  with Some show ?thesis using parse_uint64_1 by (cases "w = 0") (auto simp: nextToolGeneration_def)
qed

end
