(* ===== verification/File_Policy.thy ===== *)
theory File_Policy
  imports Tool_Runner
begin

text \<open>
  filepolicy.go, private_paths.go and the path decisions of file_scope.go: which computer paths a
  run may name. The operating system's answers (stat, symbolic links, Rel and IsLocal, the
  application's private directories) are the fields of the filesystem record.
\<close>

section \<open>The operating system\<close>

datatype file_kind = Directory | RegularFile | OtherFile

record filesystem =
  fs_canonicalDir :: "string \<Rightarrow> string res"
  fs_Stat :: "string \<Rightarrow> file_kind option"
  fs_reparse :: "string \<Rightarrow> bool"
  fs_Rel :: "string \<Rightarrow> string \<Rightarrow> string res"
  fs_IsLocal :: "string \<Rightarrow> bool"
  fs_EvalSymlinks :: "string \<Rightarrow> string res"
  fs_CanonicalPath :: "string \<Rightarrow> string res"
  fs_PrivateStateDirs :: "string list res"
  fs_KeysFile :: "string res"
  fs_ServiceFile :: string
  fs_Dir :: "string \<Rightarrow> string"
  fs_ToSlash :: "string \<Rightarrow> string"
  fs_VolumeRoot :: "string \<Rightarrow> string"

definition within :: "filesystem \<Rightarrow> string \<Rightarrow> string \<Rightarrow> bool" where
  "within F parent child =
     (case fs_Rel F parent child of Inl _ \<Rightarrow> False | Inr relative \<Rightarrow> relative = ''.'' \<or> fs_IsLocal F relative)"

section \<open>Roots and blocked paths\<close>

fun validate_roots_loop ::
    "platform \<Rightarrow> filesystem \<Rightarrow> err \<Rightarrow> string \<Rightarrow> string list \<Rightarrow> string list \<Rightarrow> err" where
  "validate_roots_loop P F ctxErr data seen [] = None"
| "validate_roots_loop P F ctxErr data seen (raw # rest) =
     (case ctxErr of Some e \<Rightarrow> Some e | None \<Rightarrow>
       (let path = TrimSpace raw
        in if path = [] \<or> \<not> IsAbs P path \<or> ContainsAny path nul_cr_lf
           then Some (ErrorsNew ''harness: computer file roots must be absolute directories'')
           else case fs_canonicalDir F path of
             Inl _ \<Rightarrow> Some (ErrorsNew ''harness: computer file root does not exist'')
           | Inr resolved \<Rightarrow>
               if fs_Stat F resolved \<notin> {Some Directory, Some RegularFile}
               then Some (ErrorsNew ''harness: computer file root must be a directory or regular file'')
               else if fs_reparse F resolved
               then Some (ErrorsNew ''harness: computer file root cannot be a reparse point'')
               else if within F data resolved then Some (Sentinel ErrProtectedPath)
               else let key = ToLower P (Clean P resolved)
                 in if key \<in> set seen then Some (ErrorsNew ''harness: duplicate computer file root'')
                    else validate_roots_loop P F ctxErr data (key # seen) rest))"

definition validateComputerRoots :: "platform \<Rightarrow> filesystem \<Rightarrow> err \<Rightarrow> string \<Rightarrow> string list \<Rightarrow> err" where
  "validateComputerRoots P F ctxErr dataDir roots =
     (if length roots > 8 then Some (ErrorsNew ''harness: at most 8 computer file roots are allowed'')
      else case fs_canonicalDir F dataDir of
             Inl e \<Rightarrow> Some e
           | Inr data \<Rightarrow> validate_roots_loop P F ctxErr data [] roots)"

fun resolve_roots :: "platform \<Rightarrow> filesystem \<Rightarrow> string list \<Rightarrow> string list res" where
  "resolve_roots P F [] = Inr []"
| "resolve_roots P F (raw # rest) =
     (case Abs P (Clean P (TrimSpace raw)) of
        Inl e \<Rightarrow> Inl e
      | Inr resolved \<Rightarrow>
          if fs_Stat F resolved \<notin> {Some Directory, Some RegularFile}
          then Inl (ErrorsNew ''harness: computer file root does not exist'')
          else let final = (case fs_EvalSymlinks F resolved of Inr e \<Rightarrow> e | Inl _ \<Rightarrow> resolved)
            in case resolve_roots P F rest of Inl e \<Rightarrow> Inl e | Inr ps \<Rightarrow> Inr (Clean P final # ps))"

text \<open>Of the sorted roots only those outside the last one kept remain.\<close>

fun keep_outer :: "filesystem \<Rightarrow> string list \<Rightarrow> string list \<Rightarrow> string list" where
  "keep_outer F kept [] = kept"
| "keep_outer F kept (item # rest) =
     keep_outer F (if kept = [] \<or> \<not> within F (last kept) item then kept @ [item] else kept) rest"

definition normalizeComputerRoots :: "platform \<Rightarrow> filesystem \<Rightarrow> err \<Rightarrow> string \<Rightarrow> string list \<Rightarrow> string list res" where
  "normalizeComputerRoots P F ctxErr dataDir roots =
     (case validateComputerRoots P F ctxErr dataDir roots of
        Some e \<Rightarrow> Inl e
      | None \<Rightarrow> (case resolve_roots P F roots of
                  Inl e \<Rightarrow> Inl e
                | Inr result \<Rightarrow> Inr (keep_outer F [] (sort_key (ToLower P) result))))"

fun blocked_loop :: "platform \<Rightarrow> err \<Rightarrow> string list \<Rightarrow> string list \<Rightarrow> string list res" where
  "blocked_loop P ctxErr seen [] = Inr []"
| "blocked_loop P ctxErr seen (raw # rest) =
     (case ctxErr of Some e \<Rightarrow> Inl e | None \<Rightarrow>
       (let path = TrimSpace raw
        in if path = [] \<or> \<not> IsAbs P path \<or> ContainsAny path nul_cr_lf
           then Inl (ErrorsNew ''harness: blocked paths must be absolute'')
           else case Abs P (Clean P path) of
             Inl _ \<Rightarrow> Inl (ErrorsNew ''harness: invalid blocked path'')
           | Inr resolved \<Rightarrow>
               let key = ToLower P (Clean P resolved)
               in if key \<in> set seen then Inl (ErrorsNew ''harness: duplicate blocked path'')
                  else case blocked_loop P ctxErr (key # seen) rest of
                         Inl e \<Rightarrow> Inl e
                       | Inr ps \<Rightarrow> Inr (Clean P resolved # ps)))"

definition normalizeBlockedPaths :: "platform \<Rightarrow> err \<Rightarrow> string list \<Rightarrow> string list res" where
  "normalizeBlockedPaths P ctxErr paths =
     (if length paths > 64 then Inl (ErrorsNew ''harness: at most 64 blocked paths are allowed'')
      else case blocked_loop P ctxErr [] paths of
             Inl e \<Rightarrow> Inl e
           | Inr result \<Rightarrow> Inr (sort_key (ToLower P) result))"

definition sameRootSet :: "platform \<Rightarrow> string list \<Rightarrow> string list \<Rightarrow> bool" where
  "sameRootSet P selected configured \<longleftrightarrow>
     length selected \<noteq> 0 \<and> list_all (\<lambda>root. list_ex (\<lambda>allowed. samePath P root allowed) configured) selected"

definition containsPath :: "platform \<Rightarrow> string list \<Rightarrow> string \<Rightarrow> bool" where
  "containsPath P paths target \<longleftrightarrow> list_ex (\<lambda>path. samePath P path target) paths"

section \<open>Private paths\<close>

definition insidePrivatePath :: "filesystem \<Rightarrow> string list \<Rightarrow> string \<Rightarrow> bool" where
  "insidePrivatePath F paths target \<longleftrightarrow> list_ex (\<lambda>path. path \<noteq> [] \<and> within F path target) paths"

fun appendPrivatePaths :: "platform \<Rightarrow> filesystem \<Rightarrow> string list \<Rightarrow> string list \<Rightarrow> string list" where
  "appendPrivatePaths P F paths [] = paths"
| "appendPrivatePaths P F paths (path # rest) =
     (let path = (case fs_CanonicalPath F path of Inr resolved \<Rightarrow> resolved | Inl _ \<Rightarrow> path)
      in if path = [] \<or> insidePrivatePath F paths path then appendPrivatePaths P F paths rest
         else appendPrivatePaths P F
                (filter (\<lambda>previous. previous \<noteq> [] \<and> \<not> within F path previous) paths @ [Clean P path]) rest)"

definition privateApplicationPaths :: "platform \<Rightarrow> filesystem \<Rightarrow> string \<Rightarrow> string list res" where
  "privateApplicationPaths P F dataDir =
     (case fs_PrivateStateDirs F of Inl e \<Rightarrow> Inl e | Inr paths \<Rightarrow>
       (case fs_KeysFile F of Inl e \<Rightarrow> Inl e | Inr keys \<Rightarrow>
         Inr (appendPrivatePaths P F [] (paths @ [dataDir, keys, fs_ServiceFile F]))))"

definition protectedPath :: "platform \<Rightarrow> filesystem \<Rightarrow> string \<Rightarrow> string \<Rightarrow> bool" where
  "protectedPath P F dataDir target =
     (case Abs P dataDir of Inl _ \<Rightarrow> True | Inr data \<Rightarrow>
       (case Abs P target of Inl _ \<Rightarrow> True | Inr resolved \<Rightarrow>
         (case privateApplicationPaths P F data of Inl _ \<Rightarrow> True | Inr private \<Rightarrow>
           insidePrivatePath F private resolved
           \<or> (case fs_CanonicalPath F resolved of Inl _ \<Rightarrow> False | Inr canonical \<Rightarrow> insidePrivatePath F private canonical)
           \<or> ToLower P (Base P resolved) \<in> {''keys.json'', ''config.json'', ''owner.lock'', ''desktop.json'',
                 ''postgres.json'', ''postgres-maintenance.json'', ''channel-keys.json''})))"

section \<open>External paths\<close>

definition validateExternalPathWithBlocked ::
    "platform \<Rightarrow> filesystem \<Rightarrow> string \<Rightarrow> string list \<Rightarrow> string list \<Rightarrow> string \<Rightarrow> string res" where
  "validateExternalPathWithBlocked P F dataDir roots blocked raw =
     (if \<not> IsAbs P raw then Inl (ErrorsNew ''harness: external file path must be absolute'')
      else case Abs P (Clean P raw) of
             Inl _ \<Rightarrow> Inl (Sentinel ErrProtectedPath)
           | Inr resolved \<Rightarrow>
               if protectedPath P F dataDir resolved then Inl (Sentinel ErrProtectedPath)
               else if list_ex (\<lambda>denied. within F denied resolved) blocked then Inl (Sentinel ErrPathBlocked)
               else if list_ex (\<lambda>root. within F root resolved) roots then Inr resolved
               else Inl (Sentinel ErrPathNotAllowed))"

definition isAbsoluteFilePath :: "platform \<Rightarrow> string \<Rightarrow> bool" where
  "isAbsoluteFilePath P value =
     (let v = TrimSpace value
      in IsAbs P v
         \<or> (length v \<ge> 3 \<and> v ! 1 = CHR '':'' \<and> (v ! 2 = CHR 0x5C \<or> v ! 2 = CHR ''/''))
         \<or> HasPrefix v [CHR 0x5C, CHR 0x5C])"

definition filesystemRoot :: "platform \<Rightarrow> filesystem \<Rightarrow> string \<Rightarrow> string" where
  "filesystemRoot P F target = fs_VolumeRoot F (VolumeName P (Clean P target))"

definition root_candidates :: "platform \<Rightarrow> filesystem \<Rightarrow> string \<Rightarrow> string list \<Rightarrow> string list" where
  "root_candidates P F target roots =
     concat (map (\<lambda>root.
        if samePath P root target \<and> fs_Stat F root = Some RegularFile then [fs_Dir F root]
        else if within F root target then [root] else []) roots)"

definition externalRootFor :: "platform \<Rightarrow> filesystem \<Rightarrow> string \<Rightarrow> string list \<Rightarrow> string" where
  "externalRootFor P F target roots =
     (case sort_key (\<lambda>c. - int (length c)) (root_candidates P F target roots) of
        [] \<Rightarrow> []
      | c # _ \<Rightarrow> Clean P c)"

text \<open>The loop of rewriteExternalCall: the single root and the relative name of every path.\<close>

fun rewrite_paths ::
    "platform \<Rightarrow> filesystem \<Rightarrow> string \<Rightarrow> string list \<Rightarrow> FileScope \<Rightarrow> string list \<Rightarrow> string \<Rightarrow> string list
      \<Rightarrow> (string \<times> (string \<times> string) list) res" where
  "rewrite_paths P F dataDir roots scope blocked rootPath [] = Inr (rootPath, [])"
| "rewrite_paths P F dataDir roots scope blocked rootPath (raw # rest) =
     (let validationRoots = (if scope = FileScopeAllNonProtected then [filesystemRoot P F raw] else roots)
      in case validateExternalPathWithBlocked P F dataDir validationRoots blocked raw of
           Inl e \<Rightarrow> Inl e
         | Inr value \<Rightarrow>
             let root = externalRootFor P F value validationRoots;
                 root = (if root = [] \<and> scope = FileScopeAllNonProtected then filesystemRoot P F value else root)
             in if root = [] then Inl (Sentinel ErrPathNotAllowed)
                else if rootPath \<noteq> [] \<and> \<not> samePath P rootPath root
                then Inl (ErrorsNew ''harness: batch file paths must use one authorized root'')
                else let rootPath' = (if rootPath = [] then root else rootPath)
                  in case fs_Rel F root value of
                       Inl _ \<Rightarrow> Inl (Sentinel ErrPathNotAllowed)
                     | Inr relative \<Rightarrow>
                         if \<not> fs_IsLocal F relative then Inl (Sentinel ErrPathNotAllowed)
                         else (case rewrite_paths P F dataDir roots scope blocked rootPath' rest of
                                 Inl e \<Rightarrow> Inl e
                               | Inr (r, ls) \<Rightarrow>
                                   Inr (r, (path_Clean (fs_ToSlash F relative), Clean P value) # ls)))"

text \<open>
  The decision prepareWithPolicy takes from the paths of a call: keep the call in the workspace,
  refuse it, or serve it from one external root. paths is the result of fileCallPaths, None when
  the arguments do not decode.
\<close>

datatype file_route = WorkspaceRoute | ExternalRoute string "(string \<times> string) list" bool

definition route_file_call ::
    "platform \<Rightarrow> filesystem \<Rightarrow> string \<Rightarrow> string \<Rightarrow> FileAccessPolicy \<Rightarrow> string list option \<Rightarrow> file_route res" where
  "route_file_call P F dataDir workspace policy paths =
     (case paths of None \<Rightarrow> Inr WorkspaceRoute | Some ps \<Rightarrow>
       (if ps = [] \<or> \<not> list_ex (isAbsoluteFilePath P) ps then Inr WorkspaceRoute
        else if list_ex (\<lambda>v. \<not> isAbsoluteFilePath P v) ps
        then Inl (ErrorsNew ''harness: one file operation cannot mix workspace and computer paths'')
        else if \<not> fp_ComputerFiles policy then Inl (Sentinel ErrComputerFilesDisabled)
        else let legacy = (fp_Scope policy = []);
                 scope = canonicalFileScope (if legacy then FileScopeWorkspacePlusAllowedRoots else fp_Scope policy)
          in if scope = FileScopeWorkspace then Inl (Sentinel ErrPathNotAllowed)
             else case FileScope_Validate scope of Some e \<Rightarrow> Inl e | None \<Rightarrow>
               (let roots = (if scope = FileScopeWorkspacePlusAllowedRoots \<and> \<not> containsPath P (fp_ComputerRoots policy) workspace
                             then fp_ComputerRoots policy @ [workspace] else fp_ComputerRoots policy)
                in case rewrite_paths P F dataDir roots scope (fp_BlockedPaths policy) [] ps of
                     Inl e \<Rightarrow> Inl e
                   | Inr (root, labels) \<Rightarrow> Inr (ExternalRoute root labels legacy))))"

section \<open>Lemmas\<close>

lemma validateExternal_ok:
  "validateExternalPathWithBlocked P F dataDir roots blocked raw = Inr resolved \<Longrightarrow>
     \<not> protectedPath P F dataDir resolved \<and> (\<forall>b \<in> set blocked. \<not> within F b resolved)
     \<and> (\<exists>r \<in> set roots. within F r resolved) \<and> Abs P (Clean P raw) = Inr resolved"
  by (auto simp: validateExternalPathWithBlocked_def list_ex_iff split: if_splits sum.splits)

definition reachable_path ::
    "platform \<Rightarrow> filesystem \<Rightarrow> string \<Rightarrow> string list \<Rightarrow> FileScope \<Rightarrow> string list \<Rightarrow> string \<Rightarrow> bool" where
  "reachable_path P F dataDir roots scope blocked raw \<longleftrightarrow>
     (\<exists>value. Abs P (Clean P raw) = Inr value \<and> \<not> protectedPath P F dataDir value
        \<and> (\<forall>b \<in> set blocked. \<not> within F b value)
        \<and> (\<exists>r \<in> set (if scope = FileScopeAllNonProtected then [filesystemRoot P F raw] else roots). within F r value))"

lemma rewrite_paths_ok:
  "rewrite_paths P F dataDir roots scope blocked rootPath ps = Inr (root, labels) \<Longrightarrow>
     (\<forall>raw \<in> set ps. reachable_path P F dataDir roots scope blocked raw) \<and> length labels = length ps"
proof (induction P F dataDir roots scope blocked rootPath ps arbitrary: labels rule: rewrite_paths.induct)
  case (2 P F dataDir roots scope blocked rootPath raw rest)
  let ?vr = "if scope = FileScopeAllNonProtected then [filesystemRoot P F raw] else roots"
  obtain target where v: "validateExternalPathWithBlocked P F dataDir ?vr blocked raw = Inr target"
    using 2(2) by (auto simp: Let_def split: sum.splits)
  have "reachable_path P F dataDir roots scope blocked raw"
    using validateExternal_ok[OF v] unfolding reachable_path_def by blast
  moreover obtain rp ls where
    "rewrite_paths P F dataDir roots scope blocked rp rest = Inr (root, ls)" "length labels = Suc (length ls)"
    "(\<forall>raw \<in> set rest. reachable_path P F dataDir roots scope blocked raw) \<and> length ls = length rest"
    using 2(2) 2(1)[OF _ v] by (auto simp: Let_def v split: sum.splits if_splits)
  ultimately show ?case by simp
qed simp

lemma insidePrivatePath_iff: "insidePrivatePath F paths t \<longleftrightarrow> (\<exists>p \<in> set paths. p \<noteq> [] \<and> within F p t)"
  by (auto simp: insidePrivatePath_def list_ex_iff)

text \<open>What filepath.Rel and filepath.Clean document: containment composes and cleaning keeps it.\<close>

definition containment_laws :: "platform \<Rightarrow> filesystem \<Rightarrow> bool" where
  "containment_laws P F \<longleftrightarrow>
     (\<forall>a b c. within F a b \<longrightarrow> within F b c \<longrightarrow> within F a c)
     \<and> (\<forall>a b. within F (Clean P a) b = within F a b) \<and> (\<forall>a. Clean P a \<noteq> [])"

lemma private_step_keeps:
  assumes laws: "containment_laws P F" and t: "insidePrivatePath F paths t"
  shows "insidePrivatePath F (filter (\<lambda>q. q \<noteq> [] \<and> \<not> within F path q) paths @ [Clean P path]) t"
proof -
  obtain q where q: "q \<in> set paths" "q \<noteq> []" "within F q t" using t by (auto simp: insidePrivatePath_iff)
  show ?thesis
  proof (cases "within F path q")
    case True
    then have "within F (Clean P path) t" using laws q(3) unfolding containment_laws_def by blast
    then show ?thesis using laws by (auto simp: insidePrivatePath_iff containment_laws_def)
  next
    case False
    then show ?thesis using q by (auto simp: insidePrivatePath_iff)
  qed
qed

lemma append_private_keeps:
  assumes laws: "containment_laws P F" and "insidePrivatePath F paths t"
  shows "insidePrivatePath F (appendPrivatePaths P F paths added) t"
  using assms(2)
proof (induction added arbitrary: paths)
  case (Cons path rest)
  then show ?case using private_step_keeps[OF laws] by (simp add: Let_def)
qed simp

lemma append_private_covers:
  assumes laws: "containment_laws P F" and "path \<in> set added" "path \<noteq> []"
    and "\<And>e r. fs_CanonicalPath F path = r \<Longrightarrow> r = Inl e \<or> r = Inr path" and "within F path t"
  shows "insidePrivatePath F (appendPrivatePaths P F paths added) t"
  using assms(2-)
proof (induction added arbitrary: paths)
  case (Cons a rest)
  show ?case
  proof (cases "a = path")
    case True
    have c: "(case fs_CanonicalPath F path of Inr resolved \<Rightarrow> resolved | Inl _ \<Rightarrow> path) = path"
      using Cons.prems(3)[OF refl] by (cases "fs_CanonicalPath F path") auto
    show ?thesis
    proof (cases "insidePrivatePath F paths path")
      case inside: True
      then have "insidePrivatePath F paths t"
        using laws Cons.prems(4) unfolding insidePrivatePath_iff containment_laws_def by blast
      then show ?thesis using append_private_keeps[OF laws] True c inside by (simp add: Let_def)
    next
      case False
      have "insidePrivatePath F (filter (\<lambda>q. q \<noteq> [] \<and> \<not> within F path q) paths @ [Clean P path]) t"
        using laws Cons.prems(4) by (auto simp: insidePrivatePath_iff containment_laws_def)
      then show ?thesis using append_private_keeps[OF laws] True c False Cons.prems(2) by (simp add: Let_def)
    qed
  next
    case False
    then have "path \<in> set rest" using Cons.prems(1) by simp
    then show ?thesis using Cons.IH Cons.prems(2-) by (simp add: Let_def)
  qed
qed simp

section \<open>Properties\<close>

text \<open>
  C11: A file call served outside the workspace names only authorised paths. When the call is
  routed to an external root, computer files are enabled, and every path of the call is absolute
  and resolves to a file that is not protected, is under no blocked path, and lies under an
  authorised root (any path of its volume only when the scope is all_non_protected).
\<close>

theorem external_paths_confined:
  assumes "route_file_call P F dataDir workspace policy (Some ps) = Inr (ExternalRoute root labels legacy)"
  shows "fp_ComputerFiles policy \<and> length labels = length ps
    \<and> (\<forall>raw \<in> set ps. isAbsoluteFilePath P raw
         \<and> (\<exists>target. Abs P (Clean P raw) = Inr target \<and> \<not> protectedPath P F dataDir target
              \<and> (\<forall>b \<in> set (fp_BlockedPaths policy). \<not> within F b target)
              \<and> ((\<exists>r \<in> set (fp_ComputerRoots policy @ [workspace]). within F r target)
                 \<or> (canonicalFileScope (fp_Scope policy) = FileScopeAllNonProtected
                    \<and> within F (filesystemRoot P F raw) target))))"
proof -
  define scope where "scope = canonicalFileScope (if fp_Scope policy = [] then FileScopeWorkspacePlusAllowedRoots else fp_Scope policy)"
  define roots where "roots = (if scope = FileScopeWorkspacePlusAllowedRoots \<and> \<not> containsPath P (fp_ComputerRoots policy) workspace
      then fp_ComputerRoots policy @ [workspace] else fp_ComputerRoots policy)"
  have r: "rewrite_paths P F dataDir roots scope (fp_BlockedPaths policy) [] ps = Inr (root, labels)"
    and c: "fp_ComputerFiles policy" and a: "\<forall>v \<in> set ps. isAbsoluteFilePath P v"
    using assms unfolding route_file_call_def Let_def scope_def[symmetric] roots_def[symmetric]
    by (auto simp: list_ex_iff split: if_splits option.splits sum.splits)
  have rs: "set roots \<subseteq> set (fp_ComputerRoots policy @ [workspace])" by (auto simp: roots_def)
  have sc: "scope = FileScopeAllNonProtected \<Longrightarrow> canonicalFileScope (fp_Scope policy) = FileScopeAllNonProtected"
    by (auto simp: scope_def canonicalFileScope_def split: if_splits)
  show ?thesis
    using rewrite_paths_ok[OF r] c a rs sc unfolding reachable_path_def by (fastforce split: if_splits)
qed

text \<open>A filesystem for slash paths in which every path exists as a directory and has no links.\<close>

definition slash_Rel :: "string \<Rightarrow> string \<Rightarrow> string res" where
  "slash_Rel parent child =
     (let a = clean_parts parent; b = clean_parts child
      in if path_rooted parent = path_rooted child \<and> take (length a) b = a
         then Inr (if drop (length a) b = [] then ''.'' else strings_Join (drop (length a) b) ''/'')
         else Inl (ErrorsNew ''Rel''))"

definition slash_fs :: filesystem where
  "slash_fs =
     \<lparr>fs_canonicalDir = Inr, fs_Stat = (\<lambda>_. Some Directory), fs_reparse = (\<lambda>_. False), fs_Rel = slash_Rel,
      fs_IsLocal = (\<lambda>_. True), fs_EvalSymlinks = Inr, fs_CanonicalPath = Inr, fs_PrivateStateDirs = Inr [''/state''],
      fs_KeysFile = Inr ''/state/keys.json'', fs_ServiceFile = [], fs_Dir = path_Clean, fs_ToSlash = (\<lambda>p. p),
      fs_VolumeRoot = (\<lambda>_. ''/'')\<rparr>"

lemma within_slash_fs:
  "within slash_fs a b \<longleftrightarrow> path_rooted a = path_rooted b \<and> take (length (clean_parts a)) (clean_parts b) = clean_parts a"
  by (auto simp: within_def slash_fs_def slash_Rel_def Let_def)

lemma slash_fs_laws: "containment_laws (unix_platform cwd) slash_fs"
proof -
  have "take (length x) z = x" if "take (length x) y = x" "take (length y) z = y" for x y z :: "string list"
    using that by (metis length_take min.cobounded1 min.absorb_iff1 take_take)
  then show ?thesis
    unfolding containment_laws_def within_slash_fs by (auto simp: unix_platform_def clean_parts_Clean)
qed

theorem external_paths_confined_witness:
  "\<exists>root labels. route_file_call (unix_platform ''/'') slash_fs ''/data'' ''/w''
       \<lparr>fp_ComputerFiles = True, fp_ComputerRoots = [''/m''], fp_BlockedPaths = [''/m/no''],
        fp_Scope = FileScopeWorkspacePlusAllowedRoots\<rparr> (Some [''/m/a''])
     = Inr (ExternalRoute root labels False) \<and> length labels = 1"
proof -
  let ?pol = "\<lparr>fp_ComputerFiles = True, fp_ComputerRoots = [''/m''], fp_BlockedPaths = [''/m/no''],
        fp_Scope = FileScopeWorkspacePlusAllowedRoots\<rparr>"
  let ?r = "route_file_call (unix_platform ''/'') slash_fs ''/data'' ''/w'' ?pol (Some [''/m/a''])"
  have "?r = Inr (ExternalRoute ''/m'' [(''a'', ''/m/a'')] False)"
    by code_simp
  from external_paths_confined[OF this] this show ?thesis by auto
qed

text \<open>
  The program's own data directory is always protected. Under the documented laws of
  filepath.Rel and filepath.Clean, every path inside the data directory is reported protected,
  whatever other private directories exist, so no external file call can name it.
\<close>

theorem data_dir_protected:
  assumes "containment_laws P F" and "Abs P dataDir = Inr data" and "data \<noteq> []"
    and "fs_CanonicalPath F data = Inr data" and "Abs P target = Inr resolved" and "within F data resolved"
  shows "protectedPath P F dataDir target
    \<and> (\<forall>roots blocked raw. validateExternalPathWithBlocked P F dataDir roots blocked raw \<noteq> Inr target)"
proof -
  have "protectedPath P F dataDir target"
  proof (cases "\<exists>ps keys. fs_PrivateStateDirs F = Inr ps \<and> fs_KeysFile F = Inr keys")
    case True
    then obtain ps keys where pk: "fs_PrivateStateDirs F = Inr ps" "fs_KeysFile F = Inr keys" by blast
    have "insidePrivatePath F (appendPrivatePaths P F [] (ps @ [data, keys, fs_ServiceFile F])) resolved"
      using append_private_covers[OF assms(1), of data "ps @ [data, keys, fs_ServiceFile F]" resolved "[]"] assms by simp
    then show ?thesis using assms pk by (simp add: protectedPath_def privateApplicationPaths_def)
  next
    case False
    then show ?thesis
      using assms by (auto simp: protectedPath_def privateApplicationPaths_def split: sum.splits)
  qed
  then show ?thesis using validateExternal_ok by metis
qed

theorem data_dir_protected_witness:
  "protectedPath (unix_platform ''/'') slash_fs ''/data'' ''/data/store/x''"
proof -
  have "within slash_fs ''/data'' ''/data/store/x''" unfolding within_slash_fs
    by (simp add: clean_parts_def path_rooted_def HasPrefix_def)
  moreover have "Abs (unix_platform ''/'') ''/data'' = Inr ''/data''"
    "Abs (unix_platform ''/'') ''/data/store/x'' = Inr ''/data/store/x''" "fs_CanonicalPath slash_fs ''/data'' = Inr ''/data''"
    by (simp_all add: unix_platform_def path_rooted_def HasPrefix_def path_Clean_def clean_parts_def slash_fs_def)
  ultimately show ?thesis
    using data_dir_protected[OF slash_fs_laws, of "''/''" "''/data''" "''/data''" "''/data/store/x''" "''/data/store/x''"]
    by simp
qed

end
