(* ===== verification/Permission.thy ===== *)
theory Permission
  imports File_Policy
begin

text \<open>
  permissions.go and space_permissions.go: the permission a space, a person and the public entrance
  grant, how a run's permission is resolved from them and rechecked before every effect. The meta
  rows of a space or person hold the decoded JSON value, None when the text does not decode; a
  database failure that changes nothing is not represented.
\<close>

section \<open>Ranks\<close>

definition permissionRank :: "PermissionMode \<Rightarrow> int" where
  "permissionRank mode =
     (if mode = PermissionNone then 0 else if mode = PermissionAsk then 1
      else if mode = PermissionWorkspace then 2 else if mode = PermissionFull then 3 else - 1)"

definition lowerPermission :: "PermissionMode \<Rightarrow> PermissionMode \<Rightarrow> PermissionMode" where
  "lowerPermission a b =
     (if permissionRank a < 0 \<or> permissionRank b < 0 then PermissionNone
      else if permissionRank a < permissionRank b then a else b)"

section \<open>Selections\<close>

definition validPersonID :: "string \<Rightarrow> bool" where
  "validPersonID pid \<longleftrightarrow> length pid > 0 \<and> length pid \<le> 512 \<and> \<not> ContainsAny pid nul_cr_lf
     \<and> (HasPrefix pid ''telegram:user:'' \<or> HasPrefix pid ''lark:'' \<or> HasPrefix pid ''qq:'')"

definition PermissionSelection_validate :: "platform \<Rightarrow> PermissionSelection \<Rightarrow> err" where
  "PermissionSelection_validate P s =
     first_err
       [if ps_RemoteLimit s \<noteq> [] \<and> PermissionMode_Validate (ps_RemoteLimit s) \<noteq> None
        then Some (Sentinel ErrPermissionDenied) else None,
        if length (ps_SpaceID s) > 128 \<or> ContainsAny (ps_SpaceID s) nul_cr_lf
        then Some (Sentinel ErrInvalidSpace) else None,
        if ps_PersonID s \<noteq> [] \<and> \<not> validPersonID (ps_PersonID s) then Some (Sentinel ErrPermissionDenied) else None,
        if ps_SpaceLimit s \<noteq> [] \<and> PermissionMode_Validate (ps_SpaceLimit s) \<noteq> None
        then Some (Sentinel ErrPermissionDenied) else None,
        if ps_PersonLimit s \<noteq> [] \<and> PermissionMode_Validate (ps_PersonLimit s) \<noteq> None
        then Some (Sentinel ErrPermissionDenied) else None,
        if ps_Source s \<noteq> ''turn'' \<and> ps_Source s \<noteq> ''space'' \<and> ps_Source s \<noteq> ''default''
        then Some (ErrorsNew ''harness: invalid permission source'') else None,
        PermissionMode_Validate (ps_Mode s),
        if ps_FileScope s \<noteq> [] then FileScope_Validate (ps_FileScope s) else None,
        if length (ps_ComputerRoots s) > 8 \<or> length (ps_AdditionalRoots s) > 8 \<or> length (ps_BlockedPaths s) > 64
        then Some (ErrorsNew ''harness: too many permission roots'') else None,
        if list_ex (\<lambda>root. \<not> IsAbs P root \<or> ContainsAny root nul_cr_lf)
             (ps_ComputerRoots s @ ps_AdditionalRoots s @ ps_BlockedPaths s)
        then Some (ErrorsNew ''harness: permission roots must be absolute'') else None,
        if length (ps_ProfileGeneration s) > 128 \<or> ContainsAny (ps_ProfileGeneration s) nul_cr_lf
        then Some (ErrorsNew ''harness: invalid permission profile generation'') else None]"

record PersonPermission =
  pp_ID :: string
  pp_DisplayName :: string
  pp_Mode :: PermissionMode
  pp_UpdatedAt :: string

record space_row =
  sr_Source :: string
  sr_ChatKind :: string

record perm_store =
  st_spaces :: "string \<rightharpoonup> space_row"
  st_conversations :: "string \<rightharpoonup> string"
  st_spaceMeta :: "string \<rightharpoonup> PermissionSelection option"
  st_personMeta :: "string \<rightharpoonup> PersonPermission option"

text \<open>
  What the service consults besides the store: its configuration, the operating system, the public
  entrance (policy enabled, its ceiling, whether the request came through it), and the commands
  that a reduction stops.
\<close>

record command_row =
  cmd_ID :: string
  cmd_State :: string
  cmd_Permission :: "PermissionSelection option res"

record perm_env =
  pe_platform :: platform
  pe_fs :: filesystem
  pe_config :: Config
  pe_dataDir :: string
  pe_ctxErr :: err
  pe_publicEnabled :: bool
  pe_publicMax :: PermissionMode
  pe_remote :: bool
  pe_remoteEntry :: bool
  pe_commands :: "command_row list res option"
  pe_stop :: "string \<Rightarrow> err"
  pe_runeCount :: "string \<Rightarrow> nat"
  pe_hasControl :: "string \<Rightarrow> bool"
  pe_now :: string

definition GetSpace :: "perm_store \<Rightarrow> string \<Rightarrow> space_row res" where
  "GetSpace st sid =
     (if TrimSpace sid = [] then Inl (Sentinel ErrSpaceNotFound)
      else case st_spaces st sid of
             None \<Rightarrow> Inl (Errorf ''%w: space not found'' [] [Sentinel ErrSpaceNotFound])
           | Some r \<Rightarrow> Inr r)"

definition conversationSpace :: "perm_store \<Rightarrow> string \<Rightarrow> string res" where
  "conversationSpace st cid =
     (case st_conversations st cid of
        None \<Rightarrow> Inl (Errorf ''harness: session %q not found; use sessions to choose one, or omit --session to create one'' [cid] [])
      | Some sid \<Rightarrow> Inr sid)"

definition zero_selection :: PermissionSelection where
  "zero_selection =
     \<lparr>ps_OwnerPrivate = False, ps_RemoteLimit = [], ps_SpaceID = [], ps_PersonID = [], ps_Entry = [],
      ps_SpaceLimit = [], ps_PersonLimit = [], ps_Mode = [], ps_Source = [], ps_ComputerFiles = False,
      ps_ComputerRoots = [], ps_FileScope = [], ps_AdditionalRoots = [], ps_BlockedPaths = [],
      ps_CommandEnabled = None, ps_ProfileGeneration = []\<rparr>"

definition spacePermission :: "perm_env \<Rightarrow> perm_store \<Rightarrow> string \<Rightarrow> PermissionSelection res" where
  "spacePermission E st sid =
     (case GetSpace st sid of Inl e \<Rightarrow> Inl e | Inr _ \<Rightarrow>
       (case st_spaceMeta st sid of
          None \<Rightarrow> Inr (zero_selection\<lparr>ps_SpaceID := sid, ps_Source := ''space'', ps_Mode := PermissionNone\<rparr>)
        | Some None \<Rightarrow> Inl (Sentinel ErrStoreFormat)
        | Some (Some s) \<Rightarrow>
            if PermissionSelection_validate (pe_platform E) s \<noteq> None \<or> ps_Source s \<noteq> ''space'' \<or> ps_SpaceID s \<noteq> sid
            then Inl (Sentinel ErrStoreFormat) else Inr s))"

definition selectedPermission :: "perm_env \<Rightarrow> perm_store \<Rightarrow> string \<Rightarrow> PermissionSelection res" where
  "selectedPermission E st cid =
     (case conversationSpace st cid of Inl e \<Rightarrow> Inl e | Inr sid \<Rightarrow> spacePermission E st sid)"

definition SelectedPermission :: "perm_env \<Rightarrow> perm_store \<Rightarrow> string \<Rightarrow> PermissionSelection res" where
  "SelectedPermission E st cid =
     (case selectedPermission E st cid of
        Inl e \<Rightarrow> Inl e
      | Inr s \<Rightarrow> Inr (s\<lparr>ps_ProfileGeneration := effectiveToolGeneration (pe_config E)\<rparr>))"

section \<open>Stopping commands\<close>

definition stop_matches :: "string \<Rightarrow> string \<Rightarrow> PermissionSelection option \<Rightarrow> bool" where
  "stop_matches spaceID personID p =
     (case p of None \<Rightarrow> False
      | Some s \<Rightarrow> (spaceID \<noteq> [] \<and> ps_SpaceID s = spaceID) \<or> (personID \<noteq> [] \<and> ps_PersonID s = personID))"

fun stop_loop :: "perm_env \<Rightarrow> string \<Rightarrow> string \<Rightarrow> command_row list \<Rightarrow> string list \<times> go_error list" where
  "stop_loop E spaceID personID [] = ([], [])"
| "stop_loop E spaceID personID (c # cs) =
     (let (stopped, errs) = stop_loop E spaceID personID cs
      in if cmd_State c \<noteq> ''running'' \<and> cmd_State c \<noteq> ''stopping'' then (stopped, errs)
         else case cmd_Permission c of
                Inl e \<Rightarrow> (stopped, e # errs)
              | Inr p \<Rightarrow>
                  if stop_matches spaceID personID p
                  then (cmd_ID c # stopped,
                        (case pe_stop E (cmd_ID c) of
                           None \<Rightarrow> errs
                         | Some e \<Rightarrow> Errorf ''command %s: %w'' [cmd_ID c] [e] # errs))
                  else (stopped, errs))"

text \<open>The result is the error and the commands a stop was requested for.\<close>

definition stopPermissionCommands :: "perm_env \<Rightarrow> string \<Rightarrow> string \<Rightarrow> err \<times> string list" where
  "stopPermissionCommands E spaceID personID =
     (case pe_commands E of
        None \<Rightarrow> (None, [])
      | Some (Inl e) \<Rightarrow> (Some e, [])
      | Some (Inr cs) \<Rightarrow>
          let (stopped, errs) = stop_loop E spaceID personID cs
          in (if errs = [] then None else Some (ErrorsJoin errs), stopped))"

section \<open>Changing a grant\<close>

type_synonym perm_result = "err \<times> string list \<times> perm_store"

definition persistSpacePermission :: "perm_env \<Rightarrow> perm_store \<Rightarrow> string \<Rightarrow> PermissionSelection \<Rightarrow> perm_result" where
  "persistSpacePermission E st sid next =
     (case spacePermission E st sid of Inl e \<Rightarrow> (Some e, [], st) | Inr before \<Rightarrow>
       (if PermissionSelection_validate (pe_platform E) next \<noteq> None \<or> ps_SpaceID next \<noteq> sid \<or> ps_Source next \<noteq> ''space''
        then (Some (Sentinel ErrInvalidSpace), [], st)
        else if ps_OwnerPrivate next
                \<and> (case GetSpace st sid of Inl _ \<Rightarrow> True | Inr sp \<Rightarrow> sr_ChatKind sp \<noteq> ''private'')
        then (Some (Sentinel ErrPermissionDenied), [], st)
        else let st' = st\<lparr>st_spaceMeta := (st_spaceMeta st)(sid \<mapsto> Some next)\<rparr>
          in if permissionRank (ps_Mode next) < permissionRank (ps_Mode before)
             then (let (e, stopped) = stopPermissionCommands E sid [] in (e, stopped, st'))
             else (None, [], st')))"

definition SetSpacePermission :: "perm_env \<Rightarrow> perm_store \<Rightarrow> string \<Rightarrow> PermissionMode \<Rightarrow> bool \<Rightarrow> perm_result" where
  "SetSpacePermission E st sid mode confirmed =
     (case PermissionMode_Validate mode of Some e \<Rightarrow> (Some e, [], st) | None \<Rightarrow>
       (case spacePermission E st sid of Inl e \<Rightarrow> (Some e, [], st) | Inr previous \<Rightarrow>
         (if mode = PermissionFull \<and> ps_Mode previous \<noteq> PermissionFull \<and> \<not> confirmed
          then (Some (Sentinel ErrFullAccessConfirmation), [], st)
          else persistSpacePermission E st sid (previous\<lparr>ps_Mode := mode\<rparr>))))"

definition SelectPermission :: "perm_env \<Rightarrow> perm_store \<Rightarrow> string \<Rightarrow> PermissionMode \<Rightarrow> bool \<Rightarrow> perm_result" where
  "SelectPermission E st cid mode confirmed =
     (case PermissionMode_Validate mode of Some e \<Rightarrow> (Some e, [], st) | None \<Rightarrow>
       (case SelectedPermission E st cid of Inl e \<Rightarrow> (Some e, [], st) | Inr selected \<Rightarrow>
         (if mode = PermissionFull \<and> ps_Mode selected \<noteq> PermissionFull \<and> \<not> confirmed
          then (Some (Sentinel ErrFullAccessConfirmation), [], st)
          else persistSpacePermission E st (ps_SpaceID selected)
                 (selected\<lparr>ps_Mode := mode, ps_Source := ''space'',
                           ps_ProfileGeneration := effectiveToolGeneration (pe_config E)\<rparr>))))"

definition files_check :: "perm_env \<Rightarrow> string list \<Rightarrow> err" where
  "files_check E roots =
     (let config = pe_config E; P = pe_platform E
      in if \<not> cfg_ComputerFiles config then Some (Sentinel ErrComputerFilesDisabled)
         else if roots = [] then Some (Sentinel ErrComputerRootsRequired)
         else case validateComputerRoots P (pe_fs E) (pe_ctxErr E) (pe_dataDir E) roots of
                Some e \<Rightarrow> Some e
              | None \<Rightarrow>
                  if list_all (\<lambda>root. list_ex (\<lambda>c. EqualFold P (Clean P root) (Clean P c)) (cfg_ComputerRoots config)) roots
                  then None else Some (Sentinel ErrPathNotAllowed))"

definition files_selection :: "perm_env \<Rightarrow> string \<Rightarrow> PermissionMode \<Rightarrow> bool \<Rightarrow> string list \<Rightarrow> PermissionSelection" where
  "files_selection E sid mode computerFiles roots =
     zero_selection\<lparr>ps_Mode := mode, ps_Source := ''space'', ps_SpaceID := sid,
       ps_ComputerFiles := computerFiles, ps_ComputerRoots := roots,
       ps_FileScope := (if computerFiles then FileScopeWorkspacePlusAllowedRoots else FileScopeWorkspace),
       ps_ProfileGeneration := effectiveToolGeneration (pe_config E)\<rparr>"

definition SelectPermissionWithFiles ::
    "perm_env \<Rightarrow> perm_store \<Rightarrow> string \<Rightarrow> PermissionMode \<Rightarrow> bool \<Rightarrow> bool \<Rightarrow> string list \<Rightarrow> perm_result" where
  "SelectPermissionWithFiles E st cid mode confirmed computerFiles roots =
     (case PermissionMode_Validate mode of Some e \<Rightarrow> (Some e, [], st) | None \<Rightarrow>
       (case SelectedPermission E st cid of Inl e \<Rightarrow> (Some e, [], st) | Inr selected \<Rightarrow>
         (if mode = PermissionFull \<and> ps_Mode selected \<noteq> PermissionFull \<and> \<not> confirmed
          then (Some (Sentinel ErrFullAccessConfirmation), [], st)
          else let roots' = (if computerFiles \<and> roots = [] then cfg_ComputerRoots (pe_config E) else roots)
            in case (if computerFiles then files_check E roots' else None) of
                 Some e \<Rightarrow> (Some e, [], st)
               | None \<Rightarrow> persistSpacePermission E st (ps_SpaceID selected)
                   (files_selection E (ps_SpaceID selected) mode computerFiles roots'))))"

definition prepareExecutionProfileSelection :: "perm_env \<Rightarrow> PermissionSelection \<Rightarrow> PermissionSelection res" where
  "prepareExecutionProfileSelection E selection =
     (let P = pe_platform E; config = pe_config E; s = selection\<lparr>ps_Source := ''space''\<rparr>
      in case PermissionSelection_validate P s of Some e \<Rightarrow> Inl e | None \<Rightarrow>
        (let allowed = cfg_ComputerRoots config @ es_AdditionalRoots (effectiveExecutionSettings config);
             requested = ps_ComputerRoots s @ ps_AdditionalRoots s
         in case (if requested = [] then None
                  else case validateComputerRoots P (pe_fs E) (pe_ctxErr E) (pe_dataDir E) requested of
                         Some e \<Rightarrow> Some e
                       | None \<Rightarrow> if list_all (containsPath P allowed) requested then None
                                else Some (Sentinel ErrPathNotAllowed)) of
              Some e \<Rightarrow> Inl e
            | None \<Rightarrow>
                (case normalizeBlockedPaths P (pe_ctxErr E) (ps_BlockedPaths s) of Inl e \<Rightarrow> Inl e | Inr blocked \<Rightarrow>
                  (let s = s\<lparr>ps_BlockedPaths := blocked, ps_ProfileGeneration := effectiveToolGeneration config\<rparr>;
                       s = (if ps_FileScope s = []
                            then s\<lparr>ps_FileScope := (if requested \<noteq> [] then FileScopeWorkspacePlusAllowedRoots
                                                     else FileScopeWorkspace)\<rparr> else s);
                       s = (if ps_FileScope s \<noteq> FileScopeWorkspace then s\<lparr>ps_ComputerFiles := True\<rparr> else s)
                   in case buildExecutionProfile P config s of Inl e \<Rightarrow> Inl e | Inr _ \<Rightarrow> Inr s))))"

definition SelectExecutionProfile :: "perm_env \<Rightarrow> perm_store \<Rightarrow> string \<Rightarrow> PermissionSelection \<Rightarrow> bool \<Rightarrow> perm_result" where
  "SelectExecutionProfile E st cid selection confirmed =
     (case SelectedPermission E st cid of Inl e \<Rightarrow> (Some e, [], st) | Inr previous \<Rightarrow>
       (if ps_Mode selection = PermissionFull \<and> ps_Mode previous \<noteq> PermissionFull \<and> \<not> confirmed
        then (Some (Sentinel ErrFullAccessConfirmation), [], st)
        else case prepareExecutionProfileSelection E selection of
               Inl e \<Rightarrow> (Some e, [], st)
             | Inr s \<Rightarrow> persistSpacePermission E st (ps_SpaceID previous) (s\<lparr>ps_SpaceID := ps_SpaceID previous\<rparr>)))"

definition PersonPermission_of :: "perm_store \<Rightarrow> string \<Rightarrow> PersonPermission res" where
  "PersonPermission_of st pid =
     (if \<not> validPersonID pid then Inl (Sentinel ErrPermissionDenied)
      else case st_personMeta st pid of
             None \<Rightarrow> Inr \<lparr>pp_ID = pid, pp_DisplayName = [], pp_Mode = PermissionNone, pp_UpdatedAt = []\<rparr>
           | Some None \<Rightarrow> Inl (Sentinel ErrStoreFormat)
           | Some (Some r) \<Rightarrow>
               if pp_ID r \<noteq> pid \<or> PermissionMode_Validate (pp_Mode r) \<noteq> None then Inl (Sentinel ErrStoreFormat)
               else Inr r)"

definition SetPersonPermission ::
    "perm_env \<Rightarrow> perm_store \<Rightarrow> string \<Rightarrow> string \<Rightarrow> PermissionMode \<Rightarrow> bool \<Rightarrow> perm_result" where
  "SetPersonPermission E st pid displayName mode confirmed =
     (if \<not> validPersonID pid \<or> pe_runeCount E displayName > 128 \<or> pe_hasControl E displayName
      then (Some (Sentinel ErrPermissionDenied), [], st)
      else case PermissionMode_Validate mode of Some e \<Rightarrow> (Some e, [], st) | None \<Rightarrow>
        (case PersonPermission_of st pid of Inl e \<Rightarrow> (Some e, [], st) | Inr previous \<Rightarrow>
          (if mode = PermissionFull \<and> pp_Mode previous \<noteq> PermissionFull \<and> \<not> confirmed
           then (Some (Sentinel ErrFullAccessConfirmation), [], st)
           else let st' = st\<lparr>st_personMeta := (st_personMeta st)(pid \<mapsto>
                      Some \<lparr>pp_ID = pid, pp_DisplayName = displayName, pp_Mode = mode, pp_UpdatedAt = pe_now E\<rparr>)\<rparr>
             in if permissionRank mode < permissionRank (pp_Mode previous)
                then (let (e, stopped) = stopPermissionCommands E [] pid in (e, stopped, st'))
                else (None, [], st'))))"

section \<open>Resolving and rechecking\<close>

definition resolvePermission ::
    "perm_env \<Rightarrow> perm_store \<Rightarrow> string \<Rightarrow> PermissionMode \<Rightarrow> bool \<Rightarrow> PermissionSelection res" where
  "resolvePermission E st cid mode confirmed =
     (case selectedPermission E st cid of Inl e \<Rightarrow> Inl e | Inr selected \<Rightarrow>
       (let selected = selected\<lparr>ps_SpaceLimit := ps_Mode selected\<rparr>
        in case GetSpace st (ps_SpaceID selected) of Inl e \<Rightarrow> Inl e | Inr space \<Rightarrow>
          (let selected = selected\<lparr>ps_Entry := sr_Source space\<rparr>
           in case (if mode = [] then Inr selected
                    else case PermissionMode_Validate mode of Some e \<Rightarrow> Inl e | None \<Rightarrow>
                      (if mode = PermissionFull \<and> ps_Mode selected \<noteq> PermissionFull \<and> \<not> confirmed
                       then Inl (Sentinel ErrFullAccessConfirmation)
                       else Inr (selected\<lparr>ps_Mode := lowerPermission (ps_Mode selected) mode, ps_Source := ''turn''\<rparr>))) of
                Inl e \<Rightarrow> Inl e
              | Inr selected \<Rightarrow>
                  (case (if ps_ComputerFiles selected
                         then (case validateComputerRoots (pe_platform E) (pe_fs E) (pe_ctxErr E) (pe_dataDir E)
                                      (ps_ComputerRoots selected) of
                                 Some e \<Rightarrow> Some e
                               | None \<Rightarrow>
                                   if \<not> cfg_ComputerFiles (pe_config E)
                                      \<or> \<not> sameRootSet (pe_platform E) (ps_ComputerRoots selected) (cfg_ComputerRoots (pe_config E))
                                   then Some (Sentinel ErrPathNotAllowed) else None)
                         else None) of
                     Some e \<Rightarrow> Inl e
                   | None \<Rightarrow>
                       (let selected = (if ps_FileScope selected \<noteq> [] \<and> ps_FileScope selected \<noteq> FileScopeWorkspace
                                        then selected\<lparr>ps_ComputerFiles := True\<rparr> else selected)
                        in if pe_remote E \<and> \<not> pe_publicEnabled E then Inl (Sentinel ErrPermissionDenied)
                           else let selected = (if pe_remote E
                                     then selected\<lparr>ps_RemoteLimit := pe_publicMax E,
                                                   ps_Mode := lowerPermission (ps_Mode selected) (pe_publicMax E)\<rparr>
                                     else selected)
                             in case buildExecutionProfile (pe_platform E) (pe_config E) selected of
                                  Inl e \<Rightarrow> Inl e
                                | Inr _ \<Rightarrow> Inr (selected\<lparr>ps_ProfileGeneration := effectiveToolGeneration (pe_config E)\<rparr>))))))"

definition resolveRequestPermission ::
    "perm_env \<Rightarrow> perm_store \<Rightarrow> string \<Rightarrow> string \<Rightarrow> string \<Rightarrow> PermissionSelection res" where
  "resolveRequestPermission E st chat personID entry =
     (case resolvePermission E st chat [] False of Inl e \<Rightarrow> Inl e | Inr s \<Rightarrow>
       (case (if personID = [] then Inr PermissionNone else map_sum (\<lambda>e. e) pp_Mode (PersonPermission_of st personID)) of
          Inl e \<Rightarrow> Inl e
        | Inr personMode \<Rightarrow>
            Inr (s\<lparr>ps_PersonID := personID, ps_Entry := entry, ps_PersonLimit := personMode,
                   ps_Mode := lowerPermission (ps_Mode s) personMode\<rparr>)))"

text \<open>telegramErr is the result of checkTelegramRun; the run names its conversation, [] for none.\<close>

definition checkCurrentPermission ::
    "perm_env \<Rightarrow> perm_store \<Rightarrow> err \<Rightarrow> PermissionSelection option \<Rightarrow> string \<Rightarrow> err" where
  "checkCurrentPermission E st telegramErr permission conversationID =
     (case telegramErr of Some e \<Rightarrow> Some e | None \<Rightarrow>
       (case permission of None \<Rightarrow> None | Some selected \<Rightarrow>
         (if ps_SpaceID selected = [] then None
          else case (if conversationID = [] then None
                     else case conversationSpace st conversationID of
                            Inl e \<Rightarrow> Some e
                          | Inr sid \<Rightarrow> if sid \<noteq> ps_SpaceID selected then Some (Sentinel ErrPermissionRevoked) else None) of
                 Some e \<Rightarrow> Some e
               | None \<Rightarrow>
                   (case spacePermission E st (ps_SpaceID selected) of Inl e \<Rightarrow> Some e | Inr space \<Rightarrow>
                     (if ps_OwnerPrivate selected \<and> \<not> ps_OwnerPrivate space then Some (Sentinel ErrPermissionRevoked)
                      else let current = ps_Mode space;
                               current = (if ps_RemoteLimit selected \<noteq> []
                                          then lowerPermission current (lowerPermission (ps_RemoteLimit selected) (pe_publicMax E))
                                          else current);
                               current = (if pe_remote E \<or> pe_remoteEntry E
                                          then lowerPermission current (pe_publicMax E) else current)
                        in case (if ps_PersonID selected = [] then Inr current
                                 else map_sum (\<lambda>e. e) (\<lambda>p. lowerPermission current (pp_Mode p))
                                        (PersonPermission_of st (ps_PersonID selected))) of
                             Inl e \<Rightarrow> Some e
                           | Inr current \<Rightarrow>
                               if permissionRank current < permissionRank (ps_Mode selected)
                               then Some (Sentinel ErrPermissionRevoked) else None)))))"

section \<open>What a permission opens\<close>

definition LocalSpaceID :: string where
  "LocalSpaceID = ''local''"

definition operationsDenied :: "PermissionSelection option \<Rightarrow> bool" where
  "operationsDenied permission = (case permission of None \<Rightarrow> False | Some s \<Rightarrow> ps_Mode s = PermissionNone)"

definition spaceContext :: "PermissionSelection option \<Rightarrow> bool" where
  "spaceContext permission =
     (case permission of None \<Rightarrow> False | Some s \<Rightarrow> ps_SpaceID s \<noteq> [] \<and> ps_SpaceID s \<noteq> LocalSpaceID)"

definition scopedHistory :: "PermissionSelection option \<Rightarrow> bool" where
  "scopedHistory permission =
     (operationsDenied permission
      \<or> (spaceContext permission \<and> (case permission of None \<Rightarrow> False | Some s \<Rightarrow> \<not> ps_OwnerPrivate s)))"

record Message =
  msg_Role :: string
  msg_Content :: string
  msg_Channel :: string
  msg_Public :: bool
  msg_Attachments :: "string list"
  msg_ToolCalls :: "string list"

definition publicMessages :: "Message list \<Rightarrow> Message list" where
  "publicMessages messages =
     map (\<lambda>m. m\<lparr>msg_ToolCalls := []\<rparr>)
       (filter (\<lambda>m. (msg_Role m = ''user'' \<or> msg_Role m = ''assistant'') \<and> msg_Content m \<noteq> []) messages)"

section \<open>Lemmas\<close>

lemma rank_cases:
  "permissionRank m \<ge> 0 \<longleftrightarrow> PermissionMode_Validate m = None"
  by (auto simp: permissionRank_def PermissionMode_Validate_def)

lemma Validate_PermissionNone [simp]: "PermissionMode_Validate PermissionNone = None"
  by (simp add: PermissionMode_Validate_def)

lemma rank_inj: "permissionRank a = permissionRank b \<Longrightarrow> permissionRank a \<ge> 0 \<Longrightarrow> a = b"
  by (auto simp: permissionRank_def split: if_splits)

lemma rank_None [simp]: "permissionRank PermissionNone = 0"
  by (simp add: permissionRank_def)

lemma rank_lower:
  "permissionRank (lowerPermission a b) =
     (if permissionRank a < 0 \<or> permissionRank b < 0 then 0 else min (permissionRank a) (permissionRank b))"
  by (auto simp: lowerPermission_def)

lemma rank_lower_le:
  "permissionRank (lowerPermission a b) \<le> max 0 (permissionRank a)" "permissionRank (lowerPermission a b) \<le> max 0 (permissionRank b)"
  by (auto simp: rank_lower)

lemma rank_lower_nonneg [simp]: "0 \<le> permissionRank (lowerPermission a b)"
  by (auto simp: rank_lower)

text \<open>Combining limits is a commutative, associative meet, so the order of the checks is irrelevant.\<close>

interpretation lower: abel_semigroup lowerPermission
proof (unfold_locales, goal_cases)
  case (1 a b c)
  show ?case by (rule rank_inj) (auto simp: rank_lower)
next
  case (2 a b)
  show ?case by (rule rank_inj) (auto simp: rank_lower)
qed

lemma spacePermission_mode_valid:
  "spacePermission E st sid = Inr s \<Longrightarrow> 0 \<le> permissionRank (ps_Mode s)"
  by (auto simp: spacePermission_def PermissionSelection_validate_def rank_cases
      split: sum.splits option.splits if_splits)

lemma spacePermission_id: "spacePermission E st sid = Inr s \<Longrightarrow> ps_SpaceID s = sid"
  by (auto simp: spacePermission_def split: sum.splits option.splits if_splits)

lemma PersonPermission_mode_valid:
  "PersonPermission_of st pid = Inr p \<Longrightarrow> 0 \<le> permissionRank (pp_Mode p)"
  by (auto simp: PersonPermission_of_def rank_cases split: option.splits if_splits)

lemma selectedPermission_cases:
  "selectedPermission E st cid = Inr s \<Longrightarrow> \<exists>sid. st_conversations st cid = Some sid \<and> spacePermission E st sid = Inr s"
  by (auto simp: selectedPermission_def conversationSpace_def split: sum.splits option.splits)

lemma SelectedPermission_cases:
  "SelectedPermission E st cid = Inr s \<Longrightarrow>
     \<exists>sid s0. spacePermission E st sid = Inr s0 \<and> ps_Mode s = ps_Mode s0 \<and> ps_SpaceID s = sid"
  using spacePermission_id[of E st]
  by (fastforce simp: SelectedPermission_def dest!: selectedPermission_cases split: sum.splits)

lemma lowered_mode:
  assumes "(if mode = [] then Inr sel
            else case PermissionMode_Validate mode of Some e \<Rightarrow> Inl e | None \<Rightarrow>
              (if mode = PermissionFull \<and> ps_Mode sel \<noteq> PermissionFull \<and> \<not> confirmed
               then Inl (Sentinel ErrFullAccessConfirmation)
               else Inr (sel\<lparr>ps_Mode := lowerPermission (ps_Mode sel) mode, ps_Source := ''turn''\<rparr>))) = Inr m"
  shows "ps_SpaceID m = ps_SpaceID sel" "ps_Mode m = (if mode = [] then ps_Mode sel else lowerPermission (ps_Mode sel) mode)"
    "mode = PermissionFull \<and> \<not> confirmed \<longrightarrow> ps_Mode sel = PermissionFull"
proof -
  have "(mode = [] \<and> m = sel) \<or> (mode \<noteq> [] \<and> m = sel\<lparr>ps_Mode := lowerPermission (ps_Mode sel) mode, ps_Source := ''turn''\<rparr>
      \<and> \<not> (mode = PermissionFull \<and> ps_Mode sel \<noteq> PermissionFull \<and> \<not> confirmed))"
    using assms by (simp split: option.split_asm if_split_asm)
  then show "ps_SpaceID m = ps_SpaceID sel" "ps_Mode m = (if mode = [] then ps_Mode sel else lowerPermission (ps_Mode sel) mode)"
    "mode = PermissionFull \<and> \<not> confirmed \<longrightarrow> ps_Mode sel = PermissionFull" by auto
qed

lemma resolvePermission_ok:
  assumes "resolvePermission E st cid mode confirmed = Inr s"
  shows "\<exists>sid sp. st_conversations st cid = Some sid \<and> spacePermission E st sid = Inr sp \<and> ps_SpaceID s = sid
    \<and> (pe_remote E \<longrightarrow> pe_publicEnabled E \<and> ps_RemoteLimit s = pe_publicMax E)
    \<and> ps_Mode s = (let m = (if mode = [] then ps_Mode sp else lowerPermission (ps_Mode sp) mode)
                   in if pe_remote E then lowerPermission m (pe_publicMax E) else m)
    \<and> (mode = PermissionFull \<and> \<not> confirmed \<longrightarrow> ps_Mode sp = PermissionFull)"
proof -
  obtain sp where sp: "selectedPermission E st cid = Inr sp"
    using assms by (auto simp: resolvePermission_def split: sum.splits)
  then obtain sid where sid: "st_conversations st cid = Some sid" "spacePermission E st sid = Inr sp"
    using selectedPermission_cases by blast
  obtain space where space: "GetSpace st (ps_SpaceID sp) = Inr space"
    using assms by (cases "GetSpace st (ps_SpaceID sp)") (simp_all add: resolvePermission_def Let_def sp)
  let ?sel = "sp\<lparr>ps_SpaceLimit := ps_Mode sp, ps_Entry := sr_Source space\<rparr>"
  let ?mid = "if mode = [] then Inr ?sel
            else case PermissionMode_Validate mode of Some e \<Rightarrow> Inl e | None \<Rightarrow>
              (if mode = PermissionFull \<and> ps_Mode ?sel \<noteq> PermissionFull \<and> \<not> confirmed
               then Inl (Sentinel ErrFullAccessConfirmation)
               else Inr (?sel\<lparr>ps_Mode := lowerPermission (ps_Mode ?sel) mode, ps_Source := ''turn''\<rparr>))"
  have space': "GetSpace st (ps_SpaceID (sp\<lparr>ps_SpaceLimit := ps_Mode sp\<rparr>)) = Inr space" using space by simp
  note a = assms[unfolded resolvePermission_def Let_def sp sum.case space']
  obtain m where m: "?mid = Inr m" using a by (cases ?mid) simp_all
  note b = a[unfolded m sum.case]
  have "ps_SpaceID s = ps_SpaceID m \<and> (pe_remote E \<longrightarrow> pe_publicEnabled E \<and> ps_RemoteLimit s = pe_publicMax E)
      \<and> ps_Mode s = (if pe_remote E then lowerPermission (ps_Mode m) (pe_publicMax E) else ps_Mode m)"
    using b by (simp split: sum.split_asm option.split_asm if_split_asm) auto
  then show ?thesis using lowered_mode[OF m] sid spacePermission_id[OF sid(2)] by (simp add: Let_def)
qed

text \<open>Operations that leave Full out unless confirmed: what they write to the store.\<close>

lemma persist_store:
  "persistSpacePermission E st sid nxt = (e, k, st') \<Longrightarrow>
     st' = st \<or> (st' = st\<lparr>st_spaceMeta := (st_spaceMeta st)(sid \<mapsto> Some nxt)\<rparr>)"
  by (auto simp: persistSpacePermission_def Let_def split: sum.splits if_splits prod.splits)

lemma prepare_mode: "prepareExecutionProfileSelection E s = Inr s' \<Longrightarrow> ps_Mode s' = ps_Mode s"
  by (auto simp: prepareExecutionProfileSelection_def Let_def split: option.splits sum.splits if_splits)

definition no_full :: "perm_store \<Rightarrow> bool" where
  "no_full st \<longleftrightarrow> (\<forall>sid s. st_spaceMeta st sid = Some (Some s) \<longrightarrow> ps_Mode s \<noteq> PermissionFull)
     \<and> (\<forall>pid p. st_personMeta st pid = Some (Some p) \<longrightarrow> pp_Mode p \<noteq> PermissionFull)"

lemma no_full_space: "no_full st \<Longrightarrow> spacePermission E st sid = Inr s \<Longrightarrow> ps_Mode s \<noteq> PermissionFull"
  by (auto simp: spacePermission_def no_full_def split: sum.splits option.splits if_splits)

lemma no_full_persist:
  "no_full st \<Longrightarrow> persistSpacePermission E st sid nxt = (e, k, st') \<Longrightarrow> ps_Mode nxt \<noteq> PermissionFull \<Longrightarrow> no_full st'"
  using persist_store[of E st sid nxt e k st'] by (auto simp: no_full_def split: if_splits)

text \<open>
  Changes of grants without a confirmation, each with the configuration and operating system of
  its own moment, as one transition relation.
\<close>

inductive grant_step :: "perm_store \<Rightarrow> perm_store \<Rightarrow> bool" where
  "SetSpacePermission E st sid mode False = (e, k, st') \<Longrightarrow> grant_step st st'"
| "SelectPermission E st cid mode False = (e, k, st') \<Longrightarrow> grant_step st st'"
| "SelectPermissionWithFiles E st cid mode False files roots = (e, k, st') \<Longrightarrow> grant_step st st'"
| "SelectExecutionProfile E st cid selection False = (e, k, st') \<Longrightarrow> grant_step st st'"
| "SetPersonPermission E st pid name mode False = (e, k, st') \<Longrightarrow> grant_step st st'"

inductive_cases grant_stepE: "grant_step st st'"

lemma no_full_selected: "no_full st \<Longrightarrow> SelectedPermission E st cid = Inr s \<Longrightarrow> ps_Mode s \<noteq> PermissionFull"
  using SelectedPermission_cases no_full_space by metis

lemma no_full_SetSpace: "no_full st \<Longrightarrow> SetSpacePermission E st sid mode False = (e, k, st') \<Longrightarrow> no_full st'"
  using no_full_persist no_full_space
  by (fastforce simp: SetSpacePermission_def split: option.splits sum.splits if_splits)

lemma no_full_Select: "no_full st \<Longrightarrow> SelectPermission E st cid mode False = (e, k, st') \<Longrightarrow> no_full st'"
  using no_full_persist no_full_selected
  by (fastforce simp: SelectPermission_def split: option.splits sum.splits if_splits)

lemma no_full_SelectFiles:
  "no_full st \<Longrightarrow> SelectPermissionWithFiles E st cid mode False files roots = (e, k, st') \<Longrightarrow> no_full st'"
proof -
  assume nf: "no_full st" and r: "SelectPermissionWithFiles E st cid mode False files roots = (e, k, st')"
  have m: "ps_Mode (files_selection E sid mode files rs) = mode" for sid rs by (simp add: files_selection_def)
  show ?thesis
  proof (cases "\<exists>selected. SelectedPermission E st cid = Inr selected")
    case True
    then obtain selected where s: "SelectedPermission E st cid = Inr selected" by blast
    define rs where "rs = (if files \<and> roots = [] then cfg_ComputerRoots (pe_config E) else roots)"
    define c where "c = (if files then files_check E rs else None)"
    have "(e, k, st') = (case PermissionMode_Validate mode of Some e \<Rightarrow> (Some e, [], st)
        | None \<Rightarrow> if mode = PermissionFull then (Some (Sentinel ErrFullAccessConfirmation), [], st)
                 else (case c of Some e \<Rightarrow> (Some e, [], st)
                       | None \<Rightarrow> persistSpacePermission E st (ps_SpaceID selected)
                                  (files_selection E (ps_SpaceID selected) mode files rs)))"
      unfolding r[symmetric] SelectPermissionWithFiles_def Let_def s sum.case rs_def[symmetric] c_def[symmetric]
      using no_full_selected[OF nf s] by simp
    then have "st' = st \<or> (mode \<noteq> PermissionFull \<and>
        persistSpacePermission E st (ps_SpaceID selected) (files_selection E (ps_SpaceID selected) mode files rs) = (e, k, st'))"
      by (cases "PermissionMode_Validate mode"; cases c; cases "mode = PermissionFull") simp_all
    then show ?thesis using nf no_full_persist[OF nf] m by metis
  next
    case False
    then show ?thesis using nf r by (auto simp: SelectPermissionWithFiles_def split: option.splits sum.splits)
  qed
qed

lemma no_full_SelectProfile:
  "no_full st \<Longrightarrow> SelectExecutionProfile E st cid selection False = (e, k, st') \<Longrightarrow> no_full st'"
proof -
  assume nf: "no_full st" and r: "SelectExecutionProfile E st cid selection False = (e, k, st')"
  have "st' = st \<or> (\<exists>previous s. SelectedPermission E st cid = Inr previous
      \<and> \<not> (ps_Mode selection = PermissionFull \<and> ps_Mode previous \<noteq> PermissionFull)
      \<and> prepareExecutionProfileSelection E selection = Inr s
      \<and> persistSpacePermission E st (ps_SpaceID previous) (s\<lparr>ps_SpaceID := ps_SpaceID previous\<rparr>) = (e, k, st'))"
    using r unfolding SelectExecutionProfile_def by (auto split: sum.splits if_split_asm)
  then show ?thesis
  proof
    assume "\<exists>previous s. SelectedPermission E st cid = Inr previous
      \<and> \<not> (ps_Mode selection = PermissionFull \<and> ps_Mode previous \<noteq> PermissionFull)
      \<and> prepareExecutionProfileSelection E selection = Inr s
      \<and> persistSpacePermission E st (ps_SpaceID previous) (s\<lparr>ps_SpaceID := ps_SpaceID previous\<rparr>) = (e, k, st')"
    then obtain previous s where p: "SelectedPermission E st cid = Inr previous"
      "\<not> (ps_Mode selection = PermissionFull \<and> ps_Mode previous \<noteq> PermissionFull)"
      "prepareExecutionProfileSelection E selection = Inr s"
      "persistSpacePermission E st (ps_SpaceID previous) (s\<lparr>ps_SpaceID := ps_SpaceID previous\<rparr>) = (e, k, st')" by blast
    have "ps_Mode s \<noteq> PermissionFull" using prepare_mode[OF p(3)] p(2) no_full_selected[OF nf p(1)] by metis
    then show ?thesis using no_full_persist[OF nf p(4)] by simp
  qed (use nf in simp)
qed

lemma no_full_SetPerson:
  "no_full st \<Longrightarrow> SetPersonPermission E st pid name mode False = (e, k, st') \<Longrightarrow> no_full st'"
  by (auto simp: SetPersonPermission_def PersonPermission_of_def no_full_def Let_def
      split: option.splits sum.splits if_splits prod.splits)

interpretation grants: invariant_system no_full grant_step no_full
proof (unfold_locales, goal_cases)
  case (2 s t)
  then show ?case
    by (auto elim!: grant_stepE dest: no_full_SetSpace no_full_Select no_full_SelectFiles no_full_SelectProfile no_full_SetPerson)
qed

section \<open>Properties\<close>

text \<open>
  C8: A request never runs with more than any of its limits. The permission resolved for a
  platform request is at most the grant of the conversation's space, at most the grant of the
  person who sent it (None when the sender is unknown), and, through the public entrance, at most
  the public ceiling, with the entrance enabled.
\<close>

theorem request_within_limits:
  assumes "resolveRequestPermission E st chat personID entry = Inr s"
  shows "(\<exists>sid sp. st_conversations st chat = Some sid \<and> spacePermission E st sid = Inr sp \<and> ps_SpaceID s = sid
          \<and> permissionRank (ps_Mode s) \<le> permissionRank (ps_Mode sp))
    \<and> (personID = [] \<longrightarrow> ps_Mode s = PermissionNone)
    \<and> (personID \<noteq> [] \<longrightarrow> (\<exists>p. PersonPermission_of st personID = Inr p
          \<and> permissionRank (ps_Mode s) \<le> permissionRank (pp_Mode p)))
    \<and> (pe_remote E \<longrightarrow> pe_publicEnabled E \<and> permissionRank (ps_Mode s) \<le> max 0 (permissionRank (pe_publicMax E)))"
proof -
  obtain s0 m where r: "resolvePermission E st chat [] False = Inr s0"
    and m: "(if personID = [] then Inr PermissionNone else map_sum (\<lambda>e. e) pp_Mode (PersonPermission_of st personID)) = Inr m"
    and s: "ps_Mode s = lowerPermission (ps_Mode s0) m" "ps_SpaceID s = ps_SpaceID s0"
    using assms by (auto simp: resolveRequestPermission_def split: sum.splits)
  obtain sid sp where sp: "st_conversations st chat = Some sid" "spacePermission E st sid = Inr sp" "ps_SpaceID s0 = sid"
    "pe_remote E \<longrightarrow> pe_publicEnabled E"
    "ps_Mode s0 = (if pe_remote E then lowerPermission (ps_Mode sp) (pe_publicMax E) else ps_Mode sp)"
    using resolvePermission_ok[OF r] by auto
  have v: "0 \<le> permissionRank (ps_Mode sp)" by (rule spacePermission_mode_valid[OF sp(2)])
  have "permissionRank (ps_Mode s) \<le> permissionRank (ps_Mode sp)" using v s(1) sp(5) by (auto simp: rank_lower)
  moreover have "personID = [] \<longrightarrow> ps_Mode s = PermissionNone" using m s(1) by (auto simp: lowerPermission_def)
  moreover have "personID \<noteq> [] \<longrightarrow> (\<exists>p. PersonPermission_of st personID = Inr p
      \<and> permissionRank (ps_Mode s) \<le> permissionRank (pp_Mode p))"
    using m s(1) PersonPermission_mode_valid[of st personID]
    by (cases "PersonPermission_of st personID") (auto simp: rank_lower split: if_splits)
  moreover have "pe_remote E \<longrightarrow> permissionRank (ps_Mode s) \<le> max 0 (permissionRank (pe_publicMax E))"
    using s(1) sp(5) by (auto simp: rank_lower)
  ultimately show ?thesis using sp s(2) by auto
qed

definition sample_env :: perm_env where
  "sample_env =
     \<lparr>pe_platform = unix_platform ''/'', pe_fs = slash_fs, pe_config = sample_config, pe_dataDir = ''/data'',
      pe_ctxErr = None, pe_publicEnabled = False, pe_publicMax = PermissionAsk, pe_remote = False, pe_remoteEntry = False,
      pe_commands = Some (Inr [\<lparr>cmd_ID = ''c1'', cmd_State = ''running'',
         cmd_Permission = Inr (Some (sample_selection PermissionFull))\<rparr>]),
      pe_stop = (\<lambda>_. None), pe_runeCount = length, pe_hasControl = (\<lambda>_. False), pe_now = ''t''\<rparr>"

definition sample_store :: "PermissionMode \<Rightarrow> perm_store" where
  "sample_store mode =
     \<lparr>st_spaces = [''space'' \<mapsto> \<lparr>sr_Source = ''telegram'', sr_ChatKind = ''private''\<rparr>],
      st_conversations = [''chat'' \<mapsto> ''space''],
      st_spaceMeta = [''space'' \<mapsto> Some (sample_selection mode)],
      st_personMeta = [''qq:7'' \<mapsto> Some \<lparr>pp_ID = ''qq:7'', pp_DisplayName = ''p'', pp_Mode = PermissionAsk, pp_UpdatedAt = []\<rparr>]\<rparr>"

lemma trim_space: "TrimSpace ''space'' = ''space''"
  by (simp add: TrimSpace_def strip_front.simps space_encodings_def HasPrefix_def)

lemma sample_valid: "mode \<in> {PermissionNone, PermissionAsk, PermissionFull} \<Longrightarrow>
    PermissionSelection_validate (unix_platform ''/'') (sample_selection mode) = None"
  by (auto simp: PermissionSelection_validate_def sample_selection_def ContainsAny_def nul_cr_lf_def PermissionMode_Validate_def)

lemma build_ignores_entry:
  "buildExecutionProfile P c (s\<lparr>ps_SpaceLimit := a, ps_Entry := b\<rparr>) = buildExecutionProfile P c s"
proof -
  let ?s = "s\<lparr>ps_SpaceLimit := a, ps_Entry := b\<rparr>"
  have e: "profile_mode c ?s = profile_mode c s" "profile_scope c ?s = profile_scope c s"
    "\<And>m w. profile_draft P c ?s m w = profile_draft P c s m w"
    by (simp_all add: profile_mode_def profile_scope_def profile_draft_def profile_roots_def Let_def)
  show ?thesis unfolding buildExecutionProfile_def e ..
qed

lemma sample_space:
  "mode \<in> {PermissionNone, PermissionAsk, PermissionFull} \<Longrightarrow>
   spacePermission sample_env (sample_store mode) ''space'' = Inr (sample_selection mode)"
  using sample_valid[of mode]
  by (simp add: spacePermission_def GetSpace_def trim_space sample_store_def sample_env_def)
    (simp add: sample_selection_def)

theorem request_within_limits_witness:
  "\<exists>s. resolveRequestPermission sample_env (sample_store PermissionFull) ''chat'' ''qq:7'' ''e'' = Inr s
     \<and> permissionRank (ps_Mode s) \<le> 1"
proof -
  have sel: "selectedPermission sample_env (sample_store PermissionFull) ''chat'' = Inr (sample_selection PermissionFull)"
    using sample_space[of PermissionFull] by (simp add: selectedPermission_def conversationSpace_def sample_store_def)
  have sp: "GetSpace (sample_store PermissionFull) ''space'' = Inr \<lparr>sr_Source = ''telegram'', sr_ChatKind = ''private''\<rparr>"
    by (simp add: GetSpace_def trim_space sample_store_def)
  have s0: "\<exists>s0. resolvePermission sample_env (sample_store PermissionFull) ''chat'' [] False = Inr s0"
  proof -
    let ?s = "(sample_selection PermissionFull)\<lparr>ps_SpaceLimit := PermissionFull, ps_Entry := ''telegram''\<rparr>"
    obtain prof where "buildExecutionProfile (unix_platform ''/'') sample_config (sample_selection PermissionFull) = Inr prof"
      using build_sample[of PermissionFull] by auto
    then have b: "buildExecutionProfile (unix_platform ''/'') sample_config ?s = Inr prof" by (simp only: build_ignores_entry)
    have "ps_SpaceID (sample_selection PermissionFull) = ''space''" by (simp add: sample_selection_def)
    then show ?thesis using sel sp b unfolding resolvePermission_def
      by (simp add: Let_def sample_env_def) (simp add: sample_selection_def)
  qed
  have "PersonPermission_of (sample_store PermissionFull) ''qq:7''
      = Inr \<lparr>pp_ID = ''qq:7'', pp_DisplayName = ''p'', pp_Mode = PermissionAsk, pp_UpdatedAt = []\<rparr>"
    by (simp add: PersonPermission_of_def validPersonID_def ContainsAny_def nul_cr_lf_def HasPrefix_def sample_store_def
        PermissionMode_Validate_def)
  then obtain s where r: "resolveRequestPermission sample_env (sample_store PermissionFull) ''chat'' ''qq:7'' ''e'' = Inr s"
    and p: "PersonPermission_of (sample_store PermissionFull) ''qq:7''
      = Inr \<lparr>pp_ID = ''qq:7'', pp_DisplayName = ''p'', pp_Mode = PermissionAsk, pp_UpdatedAt = []\<rparr>"
    using s0 by (auto simp: resolveRequestPermission_def)
  show ?thesis using request_within_limits[OF r] p r by (auto simp: permissionRank_def)
qed

text \<open>
  C28: Full access never appears without a confirmation. From a store in which no space and no
  person has Full, no sequence of unconfirmed changes through any of the five entry points, under
  any configuration, produces a space or a person with Full.
\<close>

theorem full_needs_confirmation:
  assumes "no_full st" and "grant_step\<^sup>*\<^sup>* st st'"
  shows "(\<forall>sid s. st_spaceMeta st' sid = Some (Some s) \<longrightarrow> ps_Mode s \<noteq> PermissionFull)
    \<and> (\<forall>pid p. st_personMeta st' pid = Some (Some p) \<longrightarrow> pp_Mode p \<noteq> PermissionFull)"
  using grants.reachable_inv[OF assms] unfolding no_full_def .

theorem full_needs_confirmation_witness:
  "\<exists>st'. grant_step\<^sup>*\<^sup>* (sample_store PermissionAsk) st'
     \<and> st_spaceMeta st' ''space'' = Some (Some (sample_selection PermissionNone))
     \<and> ps_Mode (sample_selection PermissionNone) \<noteq> PermissionFull"
proof -
  let ?st = "sample_store PermissionAsk"
  let ?st' = "?st\<lparr>st_spaceMeta := (st_spaceMeta ?st)(''space'' \<mapsto> Some (sample_selection PermissionNone))\<rparr>"
  have nf: "no_full ?st" by (auto simp: no_full_def sample_store_def sample_selection_def split: if_splits)
  have m: "(sample_selection PermissionAsk)\<lparr>ps_Mode := PermissionNone\<rparr> = sample_selection PermissionNone"
    by (simp add: sample_selection_def)
  have "\<exists>e k. SetSpacePermission sample_env ?st ''space'' PermissionNone False = (e, k, ?st')"
    using sample_space[of PermissionAsk] sample_valid[of PermissionNone]
    by (simp add: SetSpacePermission_def m persistSpacePermission_def sample_env_def[symmetric])
      (simp add: sample_env_def sample_selection_def permissionRank_def stopPermissionCommands_def case_prod_beta)
  then have s: "grant_step\<^sup>*\<^sup>* ?st ?st'" using grant_step.intros(1) by blast
  have "st_spaceMeta ?st' ''space'' = Some (Some (sample_selection PermissionNone))" by simp
  moreover from this have "ps_Mode (sample_selection PermissionNone) \<noteq> PermissionFull"
    using full_needs_confirmation[OF nf s] by blast
  ultimately show ?thesis using s by blast
qed

text \<open>
  C29: A reduction takes effect on runs that are already active. Once a space's grant has been
  set to a mode of lower rank than a run was resolved with, the recheck of that run reports an
  error whatever the other limits are, and the reduction requested a stop of every running or
  stopping command of that space.
\<close>

theorem reduction_revokes:
  assumes set: "SetSpacePermission E st sid mode confirmed = (e, stopped, st')" and changed: "st' \<noteq> st"
    and sel: "ps_SpaceID s = sid" and low: "permissionRank mode < permissionRank (ps_Mode s)"
  shows "checkCurrentPermission E st' telegramErr (Some s) cid \<noteq> None
    \<and> (\<forall>prev cs c. spacePermission E st sid = Inr prev \<and> permissionRank mode < permissionRank (ps_Mode prev)
          \<and> pe_commands E = Some (Inr cs) \<and> c \<in> set cs \<and> cmd_State c \<in> {''running'', ''stopping''}
          \<and> (\<exists>p. cmd_Permission c = Inr (Some p) \<and> ps_SpaceID p = sid) \<longrightarrow> cmd_ID c \<in> set stopped)"
proof -
  have stop: "cmd_ID c \<in> set (fst (stop_loop E sid pid cs))"
    if "c \<in> set cs" "cmd_State c \<in> {''running'', ''stopping''}" "cmd_Permission c = Inr (Some p)" "ps_SpaceID p = sid" "sid \<noteq> []"
    for c cs p pid
    using that by (induction cs) (auto simp: case_prod_beta stop_matches_def Let_def split: sum.splits)
  obtain prev where prev: "spacePermission E st sid = Inr prev" "PermissionMode_Validate mode = None"
    "persistSpacePermission E st sid (prev\<lparr>ps_Mode := mode\<rparr>) = (e, stopped, st')"
    using set changed by (auto simp: SetSpacePermission_def split: option.splits sum.splits if_splits)
  have sid: "sid \<noteq> []" using prev(1) by (auto simp: spacePermission_def GetSpace_def split: if_splits)
  have st': "st' = st\<lparr>st_spaceMeta := (st_spaceMeta st)(sid \<mapsto> Some (prev\<lparr>ps_Mode := mode\<rparr>))\<rparr>"
    using persist_store[OF prev(3)] changed by blast
  have now: "spacePermission E st' sid = Inr (prev\<lparr>ps_Mode := mode\<rparr>)"
    using prev changed by (auto simp: persistSpacePermission_def spacePermission_def st' GetSpace_def Let_def
        split: sum.splits if_splits option.splits prod.splits)
  have "0 \<le> permissionRank mode" using prev(2) rank_cases by simp
  then have low': "permissionRank (lowerPermission mode x) < permissionRank (ps_Mode s)" for x
    using low rank_lower_le(1)[of mode x] by linarith
  have "checkCurrentPermission E st' telegramErr (Some s) cid \<noteq> None"
    using now sel sid low low' low'[unfolded lower.assoc]
    by (auto simp: checkCurrentPermission_def Let_def lower.assoc map_sum_def split: option.splits sum.splits if_splits)
  moreover have "cmd_ID c \<in> set stopped"
    if "permissionRank mode < permissionRank (ps_Mode prev)" "pe_commands E = Some (Inr cs)" "c \<in> set cs"
      "cmd_State c \<in> {''running'', ''stopping''}" "cmd_Permission c = Inr (Some p)" "ps_SpaceID p = sid" for cs c p
    using prev(3) that changed stop[OF that(3-6) sid, of "[]"] prev(1)
    by (auto simp: persistSpacePermission_def stopPermissionCommands_def Let_def case_prod_beta split: if_splits)
  ultimately show ?thesis using prev(1) by auto
qed

theorem reduction_revokes_witness:
  "\<exists>e stopped st'. SetSpacePermission sample_env (sample_store PermissionFull) ''space'' PermissionAsk False = (e, stopped, st')
     \<and> checkCurrentPermission sample_env st' None (Some (sample_selection PermissionFull)) ''chat'' \<noteq> None
     \<and> ''c1'' \<in> set stopped"
proof -
  let ?st = "sample_store PermissionFull"
  let ?st' = "?st\<lparr>st_spaceMeta := (st_spaceMeta ?st)(''space'' \<mapsto> Some (sample_selection PermissionAsk))\<rparr>"
  have m: "(sample_selection PermissionFull)\<lparr>ps_Mode := PermissionAsk\<rparr> = sample_selection PermissionAsk"
    by (simp add: sample_selection_def)
  obtain e k where set: "SetSpacePermission sample_env ?st ''space'' PermissionAsk False = (e, k, ?st')"
    using sample_space[of PermissionFull] sample_valid[of PermissionAsk]
    by (simp add: SetSpacePermission_def m persistSpacePermission_def sample_env_def[symmetric] PermissionMode_Validate_def)
      (simp add: sample_env_def sample_selection_def permissionRank_def stopPermissionCommands_def case_prod_beta)
  have "st_spaceMeta ?st' ''space'' \<noteq> st_spaceMeta ?st ''space''" by (simp add: sample_store_def sample_selection_def)
  then have ch: "?st' \<noteq> ?st" by metis
  have sel: "ps_SpaceID (sample_selection PermissionFull) = ''space''"
    and low: "permissionRank PermissionAsk < permissionRank (ps_Mode (sample_selection PermissionFull))"
    by (simp_all add: sample_selection_def permissionRank_def)
  note r = reduction_revokes[OF set ch sel low]
  have "''c1'' \<in> set k"
    using r sample_space[of PermissionFull] low
    by (fastforce simp: sample_env_def sample_selection_def)
  then show ?thesis using r set by blast
qed

end
