(* ===== verification/Public_Policy.thy ===== *)
theory Public_Policy
  imports Permission
begin

unbundle bit_operations_syntax

text \<open>
  public_policy.go: the policy of the optional public entrance, which addresses it admits, and what
  a remote entry may change or confirm. The part of net/netip it uses is written out: addresses as
  32-bit and 128-bit words with the zone of IPv6, prefixes, and the parsers of both. url_Parse
  stands for net/url, mac for the keyed hash of confirmations.
\<close>

section \<open>package net/netip\<close>

datatype addr = V4 "32 word" | V6 "128 word" string

fun Is6 :: "addr \<Rightarrow> bool" where
  "Is6 (V4 _) = False"
| "Is6 (V6 _ _) = True"

fun zone :: "addr \<Rightarrow> string" where
  "zone (V4 _) = []"
| "zone (V6 _ z) = z"

fun Is4In6 :: "addr \<Rightarrow> bool" where
  "Is4In6 (V4 _) = False"
| "Is4In6 (V6 w _) = (drop_bit 32 w = 0xFFFF)"

fun Unmap :: "addr \<Rightarrow> addr" where
  "Unmap (V4 w) = V4 w"
| "Unmap (V6 w z) = (if drop_bit 32 w = 0xFFFF then V4 (ucast w) else V6 w z)"

fun BitLen :: "addr \<Rightarrow> nat" where
  "BitLen (V4 _) = 32"
| "BitLen (V6 _ _) = 128"

datatype ip_prefix = Prefix (pfx_Addr: addr) (pfx_Bits: nat)

fun withoutZone :: "addr \<Rightarrow> addr" where
  "withoutZone (V4 w) = V4 w"
| "withoutZone (V6 w _) = V6 w []"

definition PrefixFrom :: "addr \<Rightarrow> nat \<Rightarrow> ip_prefix" where
  "PrefixFrom ip bits = Prefix (withoutZone ip) bits"

fun Masked :: "ip_prefix \<Rightarrow> ip_prefix" where
  "Masked (Prefix (V4 w) n) = Prefix (V4 (push_bit (32 - n) (drop_bit (32 - n) w))) n"
| "Masked (Prefix (V6 w z) n) = Prefix (V6 (push_bit (128 - n) (drop_bit (128 - n) w)) []) n"

fun prefix_Contains :: "ip_prefix \<Rightarrow> addr \<Rightarrow> bool" where
  "prefix_Contains (Prefix (V4 p) n) (V4 w) = (drop_bit (32 - n) p = drop_bit (32 - n) w)"
| "prefix_Contains (Prefix (V6 p _) n) (V6 w z) = (z = [] \<and> drop_bit (128 - n) p = drop_bit (128 - n) w)"
| "prefix_Contains _ _ = False"

text \<open>Dotted decimal: four fields of at most 255 without leading zeros.\<close>

definition v4_field :: "string \<Rightarrow> nat option" where
  "v4_field s =
     (if s = [] \<or> (length s > 1 \<and> hd s = CHR ''0'') then None
      else case atoi_digits 0 s of None \<Rightarrow> None | Some n \<Rightarrow> if n \<le> 255 then Some n else None)"

definition v4_fields :: "string \<Rightarrow> int list option" where
  "v4_fields s =
     (let fs = map v4_field (Split_char (CHR ''.'') s)
      in if length fs = 4 \<and> None \<notin> set fs then Some (map (int \<circ> the) fs) else None)"

text \<open>The number with the given digits, most significant first.\<close>

definition digits :: "int \<Rightarrow> int list \<Rightarrow> int" where
  "digits b ds = foldl (\<lambda>a d. a * b + d) 0 ds"

definition hex_val :: "char \<Rightarrow> int option" where
  "hex_val c =
     (if CHR ''0'' \<le> c \<and> c \<le> CHR ''9'' then Some (of_char c - 48)
      else if CHR ''a'' \<le> c \<and> c \<le> CHR ''f'' then Some (of_char c - 87)
      else if CHR ''A'' \<le> c \<and> c \<le> CHR ''F'' then Some (of_char c - 55)
      else None)"

text \<open>
  The loop of parseIPv6: the bytes so far, the position of the ellipsis, the rest of the text. The
  first argument is the number of 16-bit groups that still fit.
\<close>

fun v6_groups :: "nat \<Rightarrow> int list \<Rightarrow> nat option \<Rightarrow> string \<Rightarrow> (int list \<times> nat option) option" where
  "v6_groups 0 ip e s = (if s = [] then Some (ip, e) else None)"
| "v6_groups (Suc n) ip e s =
     (let g = takeWhile (\<lambda>c. hex_val c \<noteq> None) s; r = dropWhile (\<lambda>c. hex_val c \<noteq> None) s;
          acc = digits 16 (map (the \<circ> hex_val) g); ip' = ip @ [acc div 256, acc mod 256]
      in if g = [] \<or> length g > 4 then None
         else case r of
           [] \<Rightarrow> Some (ip', e)
         | c # r' \<Rightarrow>
             if c = CHR ''.'' then
               (if e = None \<and> length ip \<noteq> 12 \<or> length ip + 4 > 16 then None
                else case v4_fields s of None \<Rightarrow> None | Some fs \<Rightarrow> Some (ip @ fs, e))
             else if c \<noteq> CHR '':'' \<or> r' = [] then None
             else if hd r' = CHR '':'' then
               (if e \<noteq> None then None
                else if tl r' = [] then Some (ip', Some (length ip'))
                else v6_groups n ip' (Some (length ip')) (tl r'))
             else v6_groups n ip' e r')"

definition v6_expand :: "int list \<times> nat option \<Rightarrow> int list option" where
  "v6_expand ie =
     (case ie of
        (ip, None) \<Rightarrow> if length ip < 16 then None else Some ip
      | (ip, Some k) \<Rightarrow>
          if length ip < 16 then Some (take k ip @ replicate (16 - length ip) 0 @ drop k ip) else None)"

definition parseIPv6 :: "string \<Rightarrow> addr option" where
  "parseIPv6 text =
     (let s = takeWhile (\<lambda>c. c \<noteq> CHR ''%'') text; z = drop (length s + 1) text
      in if s \<noteq> text \<and> z = [] then None
         else let ell = HasPrefix s ''::''; body = (if ell then drop 2 s else s)
           in if ell \<and> body = [] then Some (V6 0 z)
              else case v6_groups 8 [] (if ell then Some 0 else None) body of
                     None \<Rightarrow> None
                   | Some ie \<Rightarrow> map_option (\<lambda>ip. V6 (word_of_int (digits 256 ip)) z) (v6_expand ie))"

definition ParseAddr :: "string \<Rightarrow> addr option" where
  "ParseAddr s =
     (case dropWhile (\<lambda>c. c \<notin> set ''.:%'') s of
        [] \<Rightarrow> None
      | c # _ \<Rightarrow>
          if c = CHR ''.'' then map_option (\<lambda>fs. V4 (word_of_int (digits 256 fs))) (v4_fields s)
          else if c = CHR '':'' then parseIPv6 s
          else None)"

definition ParsePrefix :: "string \<Rightarrow> ip_prefix option" where
  "ParsePrefix s =
     (let r = takeWhile (\<lambda>c. c \<noteq> CHR ''/'') (rev s); bits = rev r; ip = rev (drop (length r + 1) (rev s))
      in if length r = length s then None
         else case ParseAddr ip of None \<Rightarrow> None | Some a \<Rightarrow>
           (if zone a \<noteq> [] \<or> (length bits > 1 \<and> (hd bits < CHR ''1'' \<or> hd bits > CHR ''9'')) then None
            else case Atoi bits of None \<Rightarrow> None | Some n \<Rightarrow>
              (if n < 0 \<or> n > (if Is6 a then 128 else 32) then None else Some (PrefixFrom a (nat n)))))"

section \<open>The policy\<close>

record PublicSecurityPolicy =
  FailureLock :: bool
  FailureLimit :: int
  FailureWindowMinutes :: int
  LockMinutes :: int
  AutoBlacklist :: bool
  BlacklistAfterLocks :: int
  BlacklistMinutes :: int
  GlobalGuard :: bool
  GlobalFailureLimit :: int
  GlobalWindowMinutes :: int
  GlobalLockMinutes :: int
  AllowlistEnabled :: bool
  Allowlist :: "string list option"
  DenylistEnabled :: bool
  Denylist :: "string list option"
  CookieCheck :: bool
  SessionBinding :: bool

text \<open>A slice is None when nil; ranging over it and its length do not tell nil from empty.\<close>

definition elems :: "'a list option \<Rightarrow> 'a list" where
  "elems xs = (case xs of None \<Rightarrow> [] | Some ys \<Rightarrow> ys)"

record PublicWebConfig =
  Enabled :: bool
  Origin :: string
  Socket :: string
  SocketGroup :: string
  MaxPermission :: PermissionMode
  MaxSessions :: int
  IdleMinutes :: int
  AbsoluteHours :: int
  Security :: PublicSecurityPolicy

definition DefaultPublicWebConfig :: PublicWebConfig where
  "DefaultPublicWebConfig =
     \<lparr>Enabled = False, Origin = [], Socket = ''/run/freeagent-public/web.sock'', SocketGroup = ''freeagent-public'',
      MaxPermission = PermissionFull, MaxSessions = 8, IdleMinutes = 30, AbsoluteHours = 12,
      Security = \<lparr>FailureLock = True, FailureLimit = 5, FailureWindowMinutes = 15, LockMinutes = 30,
        AutoBlacklist = False, BlacklistAfterLocks = 3, BlacklistMinutes = 1440, GlobalGuard = False,
        GlobalFailureLimit = 100, GlobalWindowMinutes = 15, GlobalLockMinutes = 15,
        AllowlistEnabled = False, Allowlist = Some [], DenylistEnabled = False, Denylist = Some [],
        CookieCheck = True, SessionBinding = False\<rparr>\<rparr>"

definition zero_public :: PublicWebConfig where
  "zero_public =
     \<lparr>Enabled = False, Origin = [], Socket = [], SocketGroup = [],
      MaxPermission = [], MaxSessions = 0, IdleMinutes = 0, AbsoluteHours = 0,
      Security = \<lparr>FailureLock = False, FailureLimit = 0, FailureWindowMinutes = 0, LockMinutes = 0,
        AutoBlacklist = False, BlacklistAfterLocks = 0, BlacklistMinutes = 0, GlobalGuard = False,
        GlobalFailureLimit = 0, GlobalWindowMinutes = 0, GlobalLockMinutes = 0,
        AllowlistEnabled = False, Allowlist = None, DenylistEnabled = False, Denylist = None,
        CookieCheck = False, SessionBinding = False\<rparr>\<rparr>"

definition Effective :: "PublicWebConfig \<Rightarrow> PublicWebConfig" where
  "Effective c = (if c = zero_public then DefaultPublicWebConfig else c)"

definition parsePublicPrefix :: "string \<Rightarrow> ip_prefix option" where
  "parsePublicPrefix raw =
     (case ParseAddr raw of
        Some ip \<Rightarrow> Some (PrefixFrom (Unmap ip) (BitLen (Unmap ip)))
      | None \<Rightarrow>
          (case ParsePrefix raw of
             None \<Rightarrow> None
           | Some p \<Rightarrow> if Is4In6 (pfx_Addr p) then None else Some (Masked p)))"

definition PublicIPMatches :: "string \<Rightarrow> string list \<Rightarrow> bool" where
  "PublicIPMatches raw items =
     (case ParseAddr raw of
        None \<Rightarrow> False
      | Some ip \<Rightarrow>
          list_ex (\<lambda>item. case parsePublicPrefix item of None \<Rightarrow> False | Some p \<Rightarrow> prefix_Contains p (Unmap ip)) items)"

definition AllowsIP :: "PublicSecurityPolicy \<Rightarrow> string \<Rightarrow> bool" where
  "AllowsIP s ip =
     (ParseAddr ip \<noteq> None
      \<and> \<not> (DenylistEnabled s \<and> PublicIPMatches ip (elems (Denylist s)))
      \<and> (\<not> AllowlistEnabled s \<or> PublicIPMatches ip (elems (Allowlist s))))"

record url =
  url_Scheme :: string
  url_Host :: string
  url_User :: bool
  url_Path :: string
  url_RawPath :: string
  url_RawQuery :: string
  url_Fragment :: string

definition session_limits :: "PublicWebConfig \<Rightarrow> err" where
  "session_limits c =
     (if PermissionMode_Validate (MaxPermission c) \<noteq> None \<or> MaxSessions c < 1 \<or> MaxSessions c > 8
         \<or> IdleMinutes c < 1 \<or> IdleMinutes c > 120 \<or> AbsoluteHours c < 1 \<or> AbsoluteHours c > 24
         \<or> IdleMinutes c > AbsoluteHours c * 60
      then Some (ErrorsNew ''harness: invalid public Web permission or session limits'') else None)"

definition socket_check :: "platform \<Rightarrow> PublicWebConfig \<Rightarrow> err" where
  "socket_check P c =
     (let s = Socket c; g = SocketGroup c
      in if (\<not> IsAbs P s \<and> \<not> HasPrefix s ''/'') \<or> \<not> HasPrefix s ''/run/''
            \<or> ContainsAny s (nul_cr_lf @ [CHR 0x5C]) \<or> Contains s ''..'' \<or> length s > 100 \<or> g = [] \<or> length g > 64
            \<or> ContainsAny g ('' /'' @ [CHR 0x5C, CHR 0x09, CHR 0x0D, CHR 0x0A, CHR '':''])
         then Some (ErrorsNew ''harness: public Web requires a bounded /run Unix socket and dedicated proxy group'')
         else None)"

definition origin_check :: "platform \<Rightarrow> (string \<Rightarrow> url option) \<Rightarrow> PublicWebConfig \<Rightarrow> err" where
  "origin_check P url_Parse c =
     (if Enabled c \<or> Origin c \<noteq> [] then
        (case url_Parse (Origin c) of
           None \<Rightarrow> Some (ErrorsNew ''harness: public origin must be one lowercase HTTPS origin without a path'')
         | Some u \<Rightarrow>
             if url_Scheme u \<noteq> ''https'' \<or> url_Host u = [] \<or> url_User u \<or> url_Path u \<noteq> [] \<or> url_RawPath u \<noteq> []
                \<or> url_RawQuery u \<noteq> [] \<or> url_Fragment u \<noteq> [] \<or> ToLower P (url_Host u) \<noteq> url_Host u
                \<or> ContainsAny (url_Host u) (nul_cr_lf @ '' '')
             then Some (ErrorsNew ''harness: public origin must be one lowercase HTTPS origin without a path'')
             else None)
      else None)"

definition security_limits :: "PublicSecurityPolicy \<Rightarrow> err" where
  "security_limits s =
     (if FailureLimit s < 1 \<or> FailureLimit s > 100 \<or> FailureWindowMinutes s < 1 \<or> FailureWindowMinutes s > 1440
         \<or> LockMinutes s < 1 \<or> LockMinutes s > 1440 \<or> BlacklistAfterLocks s < 1 \<or> BlacklistAfterLocks s > 100
         \<or> BlacklistMinutes s < 1 \<or> BlacklistMinutes s > 43200
         \<or> GlobalFailureLimit s < 1 \<or> GlobalFailureLimit s > 10000
         \<or> GlobalWindowMinutes s < 1 \<or> GlobalWindowMinutes s > 1440
         \<or> GlobalLockMinutes s < 1 \<or> GlobalLockMinutes s > 1440
         \<or> length (elems (Allowlist s)) > 128 \<or> length (elems (Denylist s)) > 128
         \<or> (AllowlistEnabled s \<and> length (elems (Allowlist s)) = 0)
      then Some (ErrorsNew ''harness: public security settings require finite thresholds and a populated enabled allowlist'')
      else None)"

definition PublicWebConfig_Validate :: "platform \<Rightarrow> (string \<Rightarrow> url option) \<Rightarrow> PublicWebConfig \<Rightarrow> err" where
  "PublicWebConfig_Validate P url_Parse c0 =
     (let c = Effective c0; s = Security c
      in first_err
           ([session_limits c, socket_check P c, origin_check P url_Parse c, security_limits s]
            @ map (\<lambda>raw. if parsePublicPrefix raw = None
                         then Some (ErrorsNew ''harness: public IP list requires numeric addresses or CIDR prefixes'')
                         else None)
                  (elems (Allowlist s) @ elems (Denylist s))))"

section \<open>Remote entries\<close>

record PublicEntry =
  en_Principal :: string
  en_IP :: string

text \<open>The value stored in the context, if any.\<close>

definition PublicEntryFrom :: "PublicEntry option \<Rightarrow> PublicEntry option" where
  "PublicEntryFrom ctx = (case ctx of None \<Rightarrow> None | Some e \<Rightarrow> if en_Principal e \<noteq> [] then Some e else None)"

definition InteractivePrincipal :: "PublicEntry option \<Rightarrow> string \<Rightarrow> string" where
  "InteractivePrincipal ctx local = (case PublicEntryFrom ctx of None \<Rightarrow> local | Some e \<Rightarrow> en_Principal e)"

definition validatePublicControl :: "PublicEntry option \<Rightarrow> PublicWebConfig \<Rightarrow> PublicWebConfig \<Rightarrow> err" where
  "validatePublicControl ctx before0 after0 =
     (case PublicEntryFrom ctx of
        None \<Rightarrow> None
      | Some entry \<Rightarrow>
          let before = Effective before0; after = Effective after0
          in if permissionRank (MaxPermission after) > permissionRank (MaxPermission before)
             then Some (Sentinel ErrPublicLocalConfirmation)
             else if Enabled after \<and> \<not> AllowsIP (Security after) (en_IP entry)
             then Some (Sentinel ErrPublicSourceBlocked)
             else None)"

text \<open>
  The operation's remote principal and the policy it would write: absent, undecodable (Some None) or
  decoded.
\<close>

definition validatePublicOperation ::
    "PublicEntry option \<Rightarrow> PublicWebConfig \<Rightarrow> string \<Rightarrow> PublicWebConfig option option \<Rightarrow> err" where
  "validatePublicOperation ctx current remote after =
     (if (case PublicEntryFrom ctx of None \<Rightarrow> False | Some e \<Rightarrow> remote \<noteq> [] \<and> remote \<noteq> en_Principal e)
      then Some (Sentinel ErrControlUserInteractionRequired)
      else case after of
             None \<Rightarrow> None
           | Some None \<Rightarrow> Some (Sentinel ErrControlStaleRevision)
           | Some (Some p) \<Rightarrow> validatePublicControl ctx current p)"

record Confirmation =
  cf_RunID :: string
  cf_Attempt :: string
  cf_CallID :: string
  cf_Digest :: string
  cf_RemotePrincipal :: string
  cf_RemoteMAC :: string

definition publicConfirmationMAC :: "(string \<Rightarrow> string list \<Rightarrow> string) \<Rightarrow> string \<Rightarrow> Confirmation \<Rightarrow> string" where
  "publicConfirmationMAC mac binding c =
     mac binding [cf_RunID c, cf_Attempt c, cf_CallID c, cf_Digest c, cf_RemotePrincipal c]"

definition bindPublicConfirmation ::
    "(string \<Rightarrow> string list \<Rightarrow> string) \<Rightarrow> string \<Rightarrow> PublicEntry option \<Rightarrow> Confirmation \<Rightarrow> Confirmation" where
  "bindPublicConfirmation mac binding ctx c =
     (case PublicEntryFrom ctx of
        None \<Rightarrow> c
      | Some e \<Rightarrow> let c = c\<lparr>cf_RemotePrincipal := en_Principal e\<rparr>
                  in c\<lparr>cf_RemoteMAC := publicConfirmationMAC mac binding c\<rparr>)"

definition validatePublicConfirmation ::
    "(string \<Rightarrow> string list \<Rightarrow> string) \<Rightarrow> string \<Rightarrow> PublicEntry option \<Rightarrow> Confirmation \<Rightarrow> err" where
  "validatePublicConfirmation mac binding ctx c =
     (case PublicEntryFrom ctx of
        None \<Rightarrow> None
      | Some e \<Rightarrow>
          if cf_RemotePrincipal c \<noteq> en_Principal e \<or> binding = [] \<or> cf_RemoteMAC c \<noteq> publicConfirmationMAC mac binding c
          then Some (Sentinel ErrApprovalChanged) else None)"

text \<open>
  stopPublicCommands over the commands with their state and the permission of the snapshot of their
  run (Inl when the run or its snapshot cannot be read); stop requests a stop. The result is the
  error that ended the loop and the commands whose stop was requested.
\<close>

record public_command =
  pc_ID :: string
  pc_State :: string
  pc_permission :: "PermissionSelection option res"

fun stop_public_loop ::
    "(string \<Rightarrow> err) \<Rightarrow> PublicWebConfig \<Rightarrow> public_command list \<Rightarrow> string list \<Rightarrow> err \<times> string list" where
  "stop_public_loop stop policy [] stopped = (None, stopped)"
| "stop_public_loop stop policy (c # cs) stopped =
     (if pc_State c \<noteq> ''running'' \<and> pc_State c \<noteq> ''stopping'' then stop_public_loop stop policy cs stopped
      else case pc_permission c of
        Inl e \<Rightarrow> (Some e, stopped)
      | Inr None \<Rightarrow> stop_public_loop stop policy cs stopped
      | Inr (Some p) \<Rightarrow>
          if ps_RemoteLimit p \<noteq> [] \<and> permissionRank (MaxPermission policy) < permissionRank (ps_Mode p)
          then (case stop (pc_ID c) of
                  Some e \<Rightarrow> (Some e, stopped @ [pc_ID c])
                | None \<Rightarrow> stop_public_loop stop policy cs (stopped @ [pc_ID c]))
          else stop_public_loop stop policy cs stopped)"

definition stopPublicCommands ::
    "(string \<Rightarrow> err) \<Rightarrow> PublicWebConfig \<Rightarrow> public_command list res option \<Rightarrow> err \<times> string list" where
  "stopPublicCommands stop current commands =
     (case commands of
        None \<Rightarrow> (None, [])
      | Some (Inl e) \<Rightarrow> (Some e, [])
      | Some (Inr cs) \<Rightarrow> stop_public_loop stop (Effective current) cs [])"

section \<open>Which addresses a policy admits\<close>

lemma drop_push_drop: "drop_bit n (push_bit n (drop_bit n (w :: 'a::len word))) = drop_bit n w"
  by (rule bit_word_eqI) (auto simp: bit_simps dest: bit_imp_le_length)

lemma prefix_Contains_Masked: "prefix_Contains (Masked p) ip = prefix_Contains p ip"
  by (cases "(p, ip)" rule: prefix_Contains.cases) (simp_all add: drop_push_drop)

text \<open>An address is in a listed network when the leading bits of the unmapped address agree.\<close>

definition listed :: "addr \<Rightarrow> string \<Rightarrow> bool" where
  "listed ip item =
     (case ParseAddr item of
        Some a \<Rightarrow> withoutZone (Unmap a) = Unmap ip
      | None \<Rightarrow> (case ParsePrefix item of None \<Rightarrow> False
                 | Some p \<Rightarrow> \<not> Is4In6 (pfx_Addr p) \<and> prefix_Contains p (Unmap ip)))"

lemma Contains_host: "prefix_Contains (PrefixFrom a (BitLen a)) ip \<longleftrightarrow> withoutZone a = ip"
  by (cases a; cases ip) (auto simp: PrefixFrom_def)

lemma listed_prefix:
  "listed ip item \<longleftrightarrow> (case parsePublicPrefix item of None \<Rightarrow> False | Some p \<Rightarrow> prefix_Contains p (Unmap ip))"
  by (cases "ParseAddr item"; cases "ParsePrefix item")
    (simp_all add: listed_def parsePublicPrefix_def Contains_host prefix_Contains_Masked)

lemma PublicIPMatches_listed:
  "ParseAddr raw = Some ip \<Longrightarrow> PublicIPMatches raw items \<longleftrightarrow> (\<exists>item\<in>set items. listed ip item)"
  by (simp add: PublicIPMatches_def list_ex_iff listed_prefix)

text \<open>
  Which sources are admitted. An address is admitted exactly when it parses, no entry of an
  enabled denylist covers it and some entry of an enabled allowlist does, where an entry covers an
  address when it is that address or a network with the same leading bits; an IPv4 address and its
  IPv6-mapped spelling are the same source, so the spelling cannot evade a list.\<close>

theorem admitted_sources:
  assumes "ParseAddr raw = Some ip"
  shows "(AllowsIP s raw \<longleftrightarrow>
            (DenylistEnabled s \<longrightarrow> (\<forall>item\<in>set (elems (Denylist s)). \<not> listed ip item))
            \<and> (AllowlistEnabled s \<longrightarrow> (\<exists>item\<in>set (elems (Allowlist s)). listed ip item)))
       \<and> (ParseAddr raw' = Some ip' \<and> Unmap ip' = Unmap ip \<longrightarrow> AllowsIP s raw' = AllowsIP s raw)"
proof -
  have "listed ip' item = listed ip item" if "Unmap ip' = Unmap ip" for item
    using that unfolding listed_def by presburger
  then show ?thesis
    using assms by (auto simp: AllowsIP_def PublicIPMatches_listed[of raw] PublicIPMatches_listed[of raw'])
qed

definition sample_security :: PublicSecurityPolicy where
  "sample_security = (Security DefaultPublicWebConfig)\<lparr>DenylistEnabled := True, Denylist := Some [''10.0.0.0/8'', ''2001:db8::/32'']\<rparr>"

theorem admitted_sources_witness:
  "\<not> AllowsIP sample_security ''10.1.2.3'' \<and> \<not> AllowsIP sample_security ''::ffff:10.1.2.3''"
proof -
  have a: "ParseAddr ''10.1.2.3'' = Some (V4 0x0A010203)" "ParseAddr ''::ffff:10.1.2.3'' = Some (V6 0xFFFF0A010203 [])"
    by code_simp+
  have l: "listed (V4 0x0A010203) ''10.0.0.0/8''" by code_simp
  have u: "Unmap (V6 0xFFFF0A010203 []) = Unmap (V4 0x0A010203)" by code_simp
  have n: "\<not> AllowsIP sample_security ''10.1.2.3''"
    using admitted_sources[OF a(1), of sample_security] l
    by (simp add: sample_security_def elems_def)
  then show ?thesis using admitted_sources[OF a(1), of sample_security "''::ffff:10.1.2.3''"] a(2) u by blast
qed

text \<open>
  An IPv6 address with a zone is in no prefix, so no entry of either list ever covers it: a
  denylist does not stop such a source, an allowlist never admits it.
\<close>

lemma zoned_never_listed:
  assumes "ParseAddr raw = Some (V6 w z)" "z \<noteq> []" "drop_bit 32 w \<noteq> 0xFFFF"
  shows "\<not> PublicIPMatches raw items"
proof -
  have "\<not> prefix_Contains p (V6 w z)" for p
    using assms(2) by (cases "(p, V6 w z)" rule: prefix_Contains.cases) auto
  then show ?thesis using assms by (auto simp: PublicIPMatches_def list_ex_iff split: option.splits)
qed

lemma ParseAddr_samples:
  "ParseAddr ''2001:db8::1%eth0'' = Some (V6 0x20010DB8000000000000000000000001 ''eth0'')"
  "ParseAddr ''::'' = Some (V6 0 [])" "ParseAddr ''1:2:3:4:5:6:7:8'' = Some (V6 0x00010002000300040005000600070008 [])"
  "ParseAddr ''1::2::3'' = None" "ParseAddr ''1.2.3'' = None" "ParseAddr ''1.2.3.04'' = None" "ParseAddr ''1.2.3.256'' = None"
  "ParsePrefix ''10.0.0.0/33'' = None" "ParsePrefix ''::/0'' = Some (Prefix (V6 0 []) 0)"
  by code_simp+

section \<open>What a remote entry can change\<close>

text \<open>One accepted change of the policy by a remote entry.\<close>

inductive remote_change :: "PublicWebConfig \<Rightarrow> PublicWebConfig \<Rightarrow> bool" where
  "en_Principal e \<noteq> [] \<Longrightarrow> validatePublicOperation (Some e) before remote (Some (Some after)) = None
    \<Longrightarrow> remote_change before after"

definition ceiling :: "PublicWebConfig \<Rightarrow> int" where
  "ceiling c = permissionRank (MaxPermission (Effective c))"

lemma remote_change_ceiling:
  assumes "remote_change before after"
  shows "ceiling after \<le> ceiling before \<and>
    (Enabled (Effective after) \<longrightarrow> (\<exists>ip. AllowsIP (Security (Effective after)) ip))"
  using assms
  by cases (auto simp: validatePublicOperation_def validatePublicControl_def PublicEntryFrom_def Let_def ceiling_def
      split: if_splits)

interpretation remote: invariant_system "\<lambda>c. ceiling c \<le> bound" remote_change "\<lambda>c. ceiling c \<le> bound" for bound
  by unfold_locales (use remote_change_ceiling in force)+

text \<open>
  C35: Whatever sequence of policy changes remote administrators get accepted, the permission ceiling
  of remote requests never rises above where it was, and the last change leaves a usable entrance:
  if the entrance is still enabled, some source is admitted.\<close>

theorem remote_never_raises_ceiling:
  assumes "remote_change\<^sup>*\<^sup>* before middle" and "remote_change middle after"
  shows "permissionRank (MaxPermission (Effective after)) \<le> permissionRank (MaxPermission (Effective before))
     \<and> (Enabled (Effective after) \<longrightarrow> (\<exists>ip. AllowsIP (Security (Effective after)) ip))"
proof -
  have "ceiling middle \<le> ceiling before" using remote.reachable_inv[OF _ assms(1)] by blast
  then show ?thesis using remote_change_ceiling[OF assms(2)] unfolding ceiling_def by auto
qed

theorem remote_never_raises_ceiling_witness:
  "\<exists>before after. remote_change before after \<and> MaxPermission after = PermissionAsk
     \<and> permissionRank PermissionAsk \<le> permissionRank (MaxPermission (Effective before))"
proof -
  let ?b = DefaultPublicWebConfig and ?a = "DefaultPublicWebConfig\<lparr>MaxPermission := PermissionAsk\<rparr>"
  have e: "Effective ?b = ?b" "Effective ?a = ?a" by (simp_all add: Effective_def zero_public_def DefaultPublicWebConfig_def)
  have d: "MaxPermission ?b = PermissionFull" "\<not> Enabled ?b" "\<not> permissionRank PermissionFull < permissionRank PermissionAsk"
    by (simp_all add: DefaultPublicWebConfig_def permissionRank_def)
  have s: "remote_change ?b ?a"
    by (rule remote_change.intros[of "\<lparr>en_Principal = ''admin'', en_IP = ''10.0.0.1''\<rparr>" _ "''admin''"])
      (simp_all add: validatePublicOperation_def validatePublicControl_def PublicEntryFrom_def e Let_def d)
  have "permissionRank (MaxPermission (Effective ?a)) \<le> permissionRank (MaxPermission (Effective ?b))"
    using remote_never_raises_ceiling[OF rtranclp.rtrancl_refl s] by blast
  then show ?thesis using s e by (intro exI[of _ ?b] exI[of _ ?a]) simp
qed

text \<open>
  A confirmation that a remote administrator was asked for is bound to that administrator: after
  binding it validates for a remote entry exactly when the entry has the same principal and the
  process has a binding key, and a change of its run, attempt, call, digest or principal that
  changes the keyed hash is refused for every remote entry.\<close>

theorem confirmation_bound_to_principal:
  assumes "PublicEntryFrom ctx = Some e" and "PublicEntryFrom ctx' = Some e'"
    and "c' = bindPublicConfirmation mac key ctx c"
  shows "(validatePublicConfirmation mac key ctx' c' = None \<longleftrightarrow> en_Principal e' = en_Principal e \<and> key \<noteq> [])
     \<and> (cf_RemoteMAC d = cf_RemoteMAC c' \<and> publicConfirmationMAC mac key d \<noteq> publicConfirmationMAC mac key c' \<longrightarrow>
          validatePublicConfirmation mac key ctx' d = Some (Sentinel ErrApprovalChanged))"
  using assms
  by (auto simp: bindPublicConfirmation_def validatePublicConfirmation_def publicConfirmationMAC_def Let_def)

theorem confirmation_bound_to_principal_witness:
  "\<exists>c'. validatePublicConfirmation (\<lambda>k xs. k @ concat xs) ''key'' (Some \<lparr>en_Principal = ''bob'', en_IP = []\<rparr>) c'
          = Some (Sentinel ErrApprovalChanged)
      \<and> validatePublicConfirmation (\<lambda>k xs. k @ concat xs) ''key'' (Some \<lparr>en_Principal = ''eve'', en_IP = []\<rparr>) c' = None"
proof -
  let ?mac = "\<lambda>k xs. k @ concat xs" and ?c = "\<lparr>cf_RunID = ''r'', cf_Attempt = ''a'', cf_CallID = ''c'',
    cf_Digest = ''d'', cf_RemotePrincipal = [], cf_RemoteMAC = []\<rparr>"
  have e: "PublicEntryFrom (Some \<lparr>en_Principal = n, en_IP = []\<rparr>) = Some \<lparr>en_Principal = n, en_IP = []\<rparr>"
    if "n \<noteq> []" for n using that by (simp add: PublicEntryFrom_def)
  let ?c' = "bindPublicConfirmation ?mac ''key'' (Some \<lparr>en_Principal = ''eve'', en_IP = []\<rparr>) ?c"
  have "validatePublicConfirmation ?mac ''key'' (Some \<lparr>en_Principal = ''eve'', en_IP = []\<rparr>) ?c' = None"
    "validatePublicConfirmation ?mac ''key'' (Some \<lparr>en_Principal = ''bob'', en_IP = []\<rparr>) ?c' \<noteq> None"
    using confirmation_bound_to_principal[OF e e refl, of "''eve''" _ ?mac "''key''" ?c] by simp_all
  then show ?thesis
    by (intro exI[of _ ?c']) (auto simp: validatePublicConfirmation_def split: option.splits if_splits)
qed

text \<open>
  Lowering the remote ceiling reaches running work: when stopping the commands reports no error,
  a stop was requested for every running or stopping command of a remote run whose permission is
  above the ceiling now in force, and for no other command.\<close>

theorem public_stop_complete:
  assumes "stopPublicCommands stop current (Some (Inr cs)) = (None, stopped)"
  shows "set stopped = {pc_ID c | c p. c \<in> set cs \<and> pc_State c \<in> {''running'', ''stopping''}
     \<and> pc_permission c = Inr (Some p) \<and> ps_RemoteLimit p \<noteq> []
     \<and> permissionRank (MaxPermission (Effective current)) < permissionRank (ps_Mode p)}"
proof -
  have "stop_public_loop stop policy cs acc = (None, stopped) \<Longrightarrow>
     set stopped = set acc \<union> {pc_ID c | c p. c \<in> set cs \<and> pc_State c \<in> {''running'', ''stopping''}
     \<and> pc_permission c = Inr (Some p) \<and> ps_RemoteLimit p \<noteq> []
     \<and> permissionRank (MaxPermission policy) < permissionRank (ps_Mode p)}" for acc policy
    by (induction stop policy cs acc rule: stop_public_loop.induct)
      (auto split: if_splits sum.splits option.splits)
  from this[of "Effective current" "[]"] show ?thesis using assms by (simp add: stopPublicCommands_def)
qed

theorem public_stop_complete_witness:
  "\<exists>c p stopped. stopPublicCommands (\<lambda>_. None) (DefaultPublicWebConfig\<lparr>MaxPermission := PermissionAsk\<rparr>) (Some (Inr [c])) = (None, stopped)
     \<and> pc_permission c = Inr (Some p) \<and> ps_Mode p = PermissionFull \<and> pc_ID c \<in> set stopped"
proof -
  let ?p = "(sample_selection PermissionFull)\<lparr>ps_RemoteLimit := PermissionFull\<rparr>"
  let ?c = "\<lparr>pc_ID = ''x'', pc_State = ''running'', pc_permission = Inr (Some ?p)\<rparr>"
  let ?cfg = "DefaultPublicWebConfig\<lparr>MaxPermission := PermissionAsk\<rparr>"
  have e: "Effective ?cfg = ?cfg" by (simp add: Effective_def zero_public_def DefaultPublicWebConfig_def)
  have "fst (stopPublicCommands (\<lambda>_. None) ?cfg (Some (Inr [?c]))) = None"
    by (simp add: stopPublicCommands_def)
  then obtain stopped where s: "stopPublicCommands (\<lambda>_. None) ?cfg (Some (Inr [?c])) = (None, stopped)"
    by (metis prod.collapse)
  have m: "ps_Mode ?p = PermissionFull" by (simp add: sample_selection_def)
  then have "''x'' \<in> set stopped"
    using public_stop_complete[OF s] e by (simp add: permissionRank_def)
  then show ?thesis using s m by (intro exI[of _ ?c] exI[of _ ?p] exI[of _ stopped]) simp
qed

end
