(* ===== verification/Public_Auth.thy ===== *)
theory Public_Auth
  imports Public_Policy
begin

text \<open>
  publicweb/auth.go and the checks of publicweb/credential.go: the sessions, login challenges and
  failure counters of the public entrance. Every method is one critical section under Auth.mu with
  one reading of the clock, except Login, whose two sections stand for themselves because the
  password hash runs between them without the lock. Times are nanoseconds, 0 is the zero time. The
  hashes, the event store and the random tokens are parameters.
\<close>

section \<open>State\<close>

text \<open>
  sourceKey: the address, or its /64 for IPv6. The code uses the printed form, which tells apart
  exactly what the values tell apart; NoSource is the empty string of an unparsable address.
\<close>

datatype source = NoSource | Host addr | Net ip_prefix

definition sourceKey :: "string \<Rightarrow> source" where
  "sourceKey raw =
     (case ParseAddr raw of
        None \<Rightarrow> NoSource
      | Some ip \<Rightarrow> let ip = Unmap ip in if Is6 ip then Net (Masked (PrefixFrom ip 64)) else Host ip)"

datatype event_source = Local | Global | From source

record Event =
  ev_At :: int
  ev_Source :: event_source
  ev_Reason :: string

record sourceFailures =
  sf_Since :: int
  sf_Count :: int
  sf_Locks :: int
  sf_Locked :: int
  sf_Blacklisted :: int
  sf_Seen :: int

definition zero_failures :: sourceFailures where
  "zero_failures = \<lparr>sf_Since = 0, sf_Count = 0, sf_Locks = 0, sf_Locked = 0, sf_Blacklisted = 0, sf_Seen = 0\<rparr>"

record challenge =
  ch_IP :: source
  ch_Until :: int

record Session =
  ss_ID :: string
  ss_CSRF :: string
  ss_Created :: int
  ss_Active :: int
  ss_Source :: string
  ss_Agent :: string
  ss_sources :: "string list"

record credential =
  cr_Version :: int
  cr_Memory :: int
  cr_Time :: int
  cr_Threads :: int
  cr_Salt :: string
  cr_Hash :: string
  cr_Generation :: string

text \<open>Cancelled contexts of sessions by session id; hashes counts the occupied slots of the channel.\<close>

record Auth =
  au_credential :: credential
  au_sessions :: "(string, Session) gomap"
  au_cancelled :: "string list"
  au_failures :: "(source, sourceFailures) gomap"
  au_challenges :: "(string, challenge) gomap"
  au_global :: sourceFailures
  au_events :: "Event list"
  au_eventLogError :: bool
  au_hashes :: nat
  au_done :: bool
  au_origin :: string
  au_wasEnabled :: bool

record auth_env =
  ae_tokenHash :: "string \<Rightarrow> string"
  ae_IDKey :: "string \<Rightarrow> string \<Rightarrow> int \<Rightarrow> int \<Rightarrow> int \<Rightarrow> string"
  ae_append :: "(Event \<Rightarrow> bool) option"

definition minutes :: "int \<Rightarrow> int" where
  "minutes n = n * 60 * 1000000000"

definition hours :: "int \<Rightarrow> int" where
  "hours n = n * 3600 * 1000000000"

section \<open>Credentials\<close>

definition credential_ok :: "credential \<Rightarrow> bool" where
  "credential_ok c \<longleftrightarrow> cr_Version c = 1 \<and> cr_Memory c = 64 * 1024 \<and> cr_Time c = 3 \<and> cr_Threads c = 2
     \<and> length (cr_Salt c) = 16 \<and> length (cr_Hash c) = 32 \<and> length (cr_Generation c) = 64"

text \<open>The credential file as decoded, None when it cannot be opened, read or decoded.\<close>

definition loadCredential :: "credential option \<Rightarrow> credential option" where
  "loadCredential stored = (case stored of None \<Rightarrow> None | Some c \<Rightarrow> if credential_ok c then Some c else None)"

definition verify :: "auth_env \<Rightarrow> credential \<Rightarrow> string \<Rightarrow> bool" where
  "verify E c password =
     (if length password < 12 \<or> length password > 1024 then False
      else ae_IDKey E password (cr_Salt c) (cr_Time c) (cr_Memory c) (cr_Threads c) = cr_Hash c)"

definition SetPassword ::
    "auth_env \<Rightarrow> string \<Rightarrow> string \<Rightarrow> err \<Rightarrow> credential option \<Rightarrow> string \<Rightarrow> err \<times> credential option" where
  "SetPassword E salt generation io stored password =
     (if length password < 12 \<or> length password > 1024 \<or> ContainsAny password nul_cr_lf
      then (Some (ErrorsNew ''public Web: password must contain 12-1024 bytes without line breaks''), stored)
      else case io of
        Some e \<Rightarrow> (Some e, stored)
      | None \<Rightarrow>
          (None, Some \<lparr>cr_Version = 1, cr_Memory = 64 * 1024, cr_Time = 3, cr_Threads = 2, cr_Salt = salt,
                       cr_Hash = ae_IDKey E password salt 3 (64 * 1024) 2, cr_Generation = generation\<rparr>))"

section \<open>Events and revocation\<close>

definition eventLocked :: "auth_env \<Rightarrow> int \<Rightarrow> event_source \<Rightarrow> string \<Rightarrow> Auth \<Rightarrow> Auth" where
  "eventLocked E now source reason a =
     (let e = \<lparr>ev_At = now, ev_Source = source, ev_Reason = reason\<rparr>;
          events = au_events a @ [e];
          kept = (if length events > 256 then drop (length events - 256) events else events)
      in a\<lparr>au_events := kept,
           au_eventLogError := (case ae_append E of None \<Rightarrow> au_eventLogError a | Some failed \<Rightarrow> failed e)\<rparr>)"

definition cancel :: "Session \<Rightarrow> Auth \<Rightarrow> Auth" where
  "cancel s a = a\<lparr>au_cancelled := ss_ID s # au_cancelled a\<rparr>"

fun revoke_loop :: "(string, Session) gomap \<Rightarrow> Auth \<Rightarrow> Auth" where
  "revoke_loop [] a = a"
| "revoke_loop ((k, s) # ss) a = revoke_loop ss ((cancel s a)\<lparr>au_sessions := AList.delete k (au_sessions a)\<rparr>)"

definition revokeAllLocked :: "Auth \<Rightarrow> Auth" where
  "revokeAllLocked a = revoke_loop (au_sessions a) a"

text \<open>The least recently active session; the empty key stands for none seen so far.\<close>

fun oldest_session :: "(string, Session) gomap \<Rightarrow> string \<Rightarrow> int \<Rightarrow> string" where
  "oldest_session [] oldest at = oldest"
| "oldest_session ((k, s) # ss) oldest at =
     (if oldest = [] \<or> ss_Active s < at then oldest_session ss k (ss_Active s) else oldest_session ss oldest at)"

definition evictLocked :: "auth_env \<Rightarrow> int \<Rightarrow> Auth \<Rightarrow> Auth" where
  "evictLocked E now a =
     (let oldest = oldest_session (au_sessions a) [] 0
      in case (if oldest = [] then None else map_of (au_sessions a) oldest) of
           None \<Rightarrow> a
         | Some s \<Rightarrow> eventLocked E now Local ''session_lru_evicted''
                       ((cancel s a)\<lparr>au_sessions := AList.delete oldest (au_sessions a)\<rparr>))"

text \<open>
  The loop that evicts until at most limit sessions are left. The first argument bounds its
  iterations, None is running out of them; as many as there are sessions suffice.
\<close>

fun evict_down :: "nat \<Rightarrow> auth_env \<Rightarrow> int \<Rightarrow> int \<Rightarrow> Auth \<Rightarrow> Auth option" where
  "evict_down n E now limit a =
     (if int (length (au_sessions a)) \<le> limit then Some a
      else case n of 0 \<Rightarrow> None | Suc m \<Rightarrow> evict_down m E now limit (evictLocked E now a))"

declare evict_down.simps [simp del]

section \<open>Refresh\<close>

definition blacklisted :: "PublicSecurityPolicy \<Rightarrow> int \<Rightarrow> Auth \<Rightarrow> string \<Rightarrow> bool" where
  "blacklisted s now a ip =
     (AutoBlacklist s
      \<and> (case map_of (au_failures a) (sourceKey ip) of None \<Rightarrow> False | Some f \<Rightarrow> now < sf_Blacklisted f))"

definition expired :: "PublicWebConfig \<Rightarrow> int \<Rightarrow> Session \<Rightarrow> bool" where
  "expired p now s \<longleftrightarrow> now - ss_Active s \<ge> minutes (IdleMinutes p) \<or> now - ss_Created s \<ge> hours (AbsoluteHours p)"

fun refresh_loop :: "auth_env \<Rightarrow> PublicWebConfig \<Rightarrow> int \<Rightarrow> (string, Session) gomap \<Rightarrow> Auth \<Rightarrow> Auth" where
  "refresh_loop E p now [] a = a"
| "refresh_loop E p now ((k, s) # ss) a =
     (let denied = list_ex (\<lambda>ip. \<not> AllowsIP (Security p) ip \<or> blacklisted (Security p) now a ip) (ss_sources s)
      in if expired p now s \<or> denied
         then refresh_loop E p now ss
                (eventLocked E now (From (sourceKey (ss_Source s))) ''session_expired_or_policy_revoked''
                  ((cancel s a)\<lparr>au_sessions := AList.delete k (au_sessions a)\<rparr>))
         else refresh_loop E p now ss a)"

definition drop_challenges :: "int \<Rightarrow> Auth \<Rightarrow> Auth" where
  "drop_challenges now a = a\<lparr>au_challenges := filter (\<lambda>(k, c). now < ch_Until c) (au_challenges a)\<rparr>"

definition drop_failures :: "int \<Rightarrow> Auth \<Rightarrow> Auth" where
  "drop_failures now a =
     a\<lparr>au_failures := filter (\<lambda>(k, f). \<not> (now - sf_Seen f > hours 24 \<and> \<not> now < sf_Locked f \<and> \<not> now < sf_Blacklisted f))
                        (au_failures a)\<rparr>"

definition revoke_check :: "auth_env \<Rightarrow> PublicWebConfig \<Rightarrow> credential option \<Rightarrow> int \<Rightarrow> Auth \<Rightarrow> Auth" where
  "revoke_check E p loaded now a =
     (if (case loaded of None \<Rightarrow> True | Some c \<Rightarrow> cr_Generation c \<noteq> cr_Generation (au_credential a))
         \<or> \<not> Enabled p \<or> Origin p \<noteq> au_origin a
      then revokeAllLocked (if au_sessions a \<noteq> [] then eventLocked E now Local ''sessions_revoked'' a else a)
      else a)"

definition adopt :: "PublicWebConfig \<Rightarrow> credential option \<Rightarrow> Auth \<Rightarrow> Auth" where
  "adopt p loaded a =
     a\<lparr>au_credential := (case loaded of None \<Rightarrow> au_credential a | Some c \<Rightarrow> c),
       au_origin := Origin p, au_wasEnabled := Enabled p, au_done := (au_done a \<or> \<not> Enabled p)\<rparr>"

definition Refresh :: "auth_env \<Rightarrow> PublicWebConfig \<Rightarrow> credential option \<Rightarrow> int \<Rightarrow> Auth \<Rightarrow> Auth option" where
  "Refresh E policy stored now a =
     (let p = Effective policy; loaded = loadCredential stored;
          a = adopt p loaded (revoke_check E p loaded now a);
          a = drop_failures now (drop_challenges now (refresh_loop E p now (au_sessions a) a))
      in evict_down (length (au_sessions a)) E now (MaxSessions p) a)"

section \<open>Admission and challenges\<close>

definition Allowed :: "PublicWebConfig \<Rightarrow> int \<Rightarrow> Auth \<Rightarrow> string \<Rightarrow> bool \<Rightarrow> bool" where
  "Allowed policy now a ip authenticated =
     (let p = Effective policy; s = Security p
      in if \<not> Enabled p \<or> \<not> AllowsIP s ip then False
         else case map_of (au_failures a) (sourceKey ip) of
                None \<Rightarrow> True
              | Some f \<Rightarrow> \<not> ((AutoBlacklist s \<and> now < sf_Blacklisted f)
                            \<or> (\<not> authenticated \<and> FailureLock s \<and> now < sf_Locked f)))"

fun oldest_challenge :: "source \<Rightarrow> (string, challenge) gomap \<Rightarrow> nat \<Rightarrow> string \<Rightarrow> int \<Rightarrow> nat \<times> string" where
  "oldest_challenge src [] n oldest until = (n, oldest)"
| "oldest_challenge src ((k, c) # cs) n oldest until =
     (if ch_IP c = src then
        (if oldest = [] \<or> ch_Until c < until then oldest_challenge src cs (Suc n) k (ch_Until c)
         else oldest_challenge src cs (Suc n) oldest until)
      else oldest_challenge src cs n oldest until)"

definition Challenge ::
    "auth_env \<Rightarrow> PublicWebConfig \<Rightarrow> string \<Rightarrow> int \<Rightarrow> string \<Rightarrow> Auth \<Rightarrow> string res \<times> Auth" where
  "Challenge E policy token now ip a =
     (if \<not> Allowed policy now a ip False then (Inl (ErrorsNew ''login denied''), a)
      else let a = drop_challenges now a;
               (n, oldest) = oldest_challenge (sourceKey ip) (au_challenges a) 0 [] 0;
               a = (if n \<ge> 4 then a\<lparr>au_challenges := AList.delete oldest (au_challenges a)\<rparr> else a)
           in if length (au_challenges a) \<ge> 128 then (Inl (ErrorsNew ''login busy''), a)
              else (Inr token,
                    a\<lparr>au_challenges := AList.update (ae_tokenHash E token)
                         \<lparr>ch_IP = sourceKey ip, ch_Until = now + minutes 2\<rparr> (au_challenges a)\<rparr>))"

definition consumeChallengeLocked :: "auth_env \<Rightarrow> int \<Rightarrow> string \<Rightarrow> string \<Rightarrow> Auth \<Rightarrow> bool \<times> Auth" where
  "consumeChallengeLocked E now token ip a =
     (let key = ae_tokenHash E token
      in ((case map_of (au_challenges a) key of None \<Rightarrow> False | Some c \<Rightarrow> now < ch_Until c \<and> ch_IP c = sourceKey ip),
          a\<lparr>au_challenges := AList.delete key (au_challenges a)\<rparr>))"

section \<open>Failures\<close>

definition count_failure :: "PublicSecurityPolicy \<Rightarrow> int \<Rightarrow> sourceFailures \<Rightarrow> sourceFailures" where
  "count_failure p now f =
     (let f = f\<lparr>sf_Seen := now\<rparr>;
          f = (if now - sf_Since f \<ge> minutes (FailureWindowMinutes p) then f\<lparr>sf_Since := now, sf_Count := 0\<rparr> else f)
      in f\<lparr>sf_Count := sf_Count f + 1\<rparr>)"

definition lock_now :: "PublicSecurityPolicy \<Rightarrow> int \<Rightarrow> sourceFailures \<Rightarrow> bool" where
  "lock_now p now f \<longleftrightarrow> FailureLock p \<and> sf_Count f \<ge> FailureLimit p \<and> \<not> now < sf_Locked f"

definition lock_source :: "PublicSecurityPolicy \<Rightarrow> int \<Rightarrow> sourceFailures \<Rightarrow> sourceFailures" where
  "lock_source p now f =
     (let f = f\<lparr>sf_Locked := now + minutes (LockMinutes p), sf_Locks := sf_Locks f + 1, sf_Count := 0\<rparr>
      in if AutoBlacklist p \<and> sf_Locks f \<ge> BlacklistAfterLocks p
         then f\<lparr>sf_Blacklisted := now + minutes (BlacklistMinutes p)\<rparr> else f)"

definition global_failure :: "auth_env \<Rightarrow> PublicSecurityPolicy \<Rightarrow> int \<Rightarrow> Auth \<Rightarrow> Auth" where
  "global_failure E p now a =
     (let g = au_global a;
          g = (if now - sf_Since g \<ge> minutes (GlobalWindowMinutes p) then g\<lparr>sf_Since := now, sf_Count := 0\<rparr> else g);
          g = g\<lparr>sf_Count := sf_Count g + 1\<rparr>
      in if GlobalGuard p \<and> sf_Count g \<ge> GlobalFailureLimit p
         then eventLocked E now Global ''global_login_paused''
                (a\<lparr>au_global := g\<lparr>sf_Locked := now + minutes (GlobalLockMinutes p), sf_Count := 0\<rparr>\<rparr>)
         else a\<lparr>au_global := g\<rparr>)"

definition source_failure :: "auth_env \<Rightarrow> PublicSecurityPolicy \<Rightarrow> int \<Rightarrow> source \<Rightarrow> sourceFailures \<Rightarrow> Auth \<Rightarrow> Auth" where
  "source_failure E p now key f0 a =
     (let f = count_failure p now f0; a = eventLocked E now (From key) ''login_failed'' a
      in if lock_now p now f
         then let f' = lock_source p now f;
                  a = eventLocked E now (From key) ''source_locked'' a;
                  a = (if AutoBlacklist p \<and> sf_Locks f' \<ge> BlacklistAfterLocks p
                       then eventLocked E now (From key) ''source_blacklisted'' a else a)
              in a\<lparr>au_failures := AList.update key f' (au_failures a)\<rparr>
         else a\<lparr>au_failures := AList.update key f (au_failures a)\<rparr>)"

definition failureLocked :: "auth_env \<Rightarrow> PublicSecurityPolicy \<Rightarrow> int \<Rightarrow> string \<Rightarrow> Auth \<Rightarrow> Auth" where
  "failureLocked E p now ip a =
     (let key = sourceKey ip
      in case map_of (au_failures a) key of
           None \<Rightarrow> if length (au_failures a) \<ge> 512 then a
                   else global_failure E p now (source_failure E p now key zero_failures a)
         | Some f \<Rightarrow> global_failure E p now (source_failure E p now key f a))"

section \<open>Login\<close>

definition globally_paused :: "PublicSecurityPolicy \<Rightarrow> int \<Rightarrow> Auth \<Rightarrow> string \<Rightarrow> bool" where
  "globally_paused s now a ip \<longleftrightarrow>
     GlobalGuard s \<and> now < sf_Locked (au_global a) \<and> \<not> PublicIPMatches ip (elems (Allowlist s))"

text \<open>The first section, up to taking a hash slot: the credential to verify against, or an error.\<close>

definition Login_begin ::
    "auth_env \<Rightarrow> PublicWebConfig \<Rightarrow> int \<Rightarrow> string \<Rightarrow> string \<Rightarrow> Auth \<Rightarrow> credential res \<times> Auth" where
  "Login_begin E policy now ip detection a =
     (let p = Effective policy; s = Security p; denied = Inl (ErrorsNew ''login denied'')
      in if \<not> Allowed policy now a ip False then (denied, a)
         else if length (au_failures a) \<ge> 512 \<and> map_of (au_failures a) (sourceKey ip) = None then (denied, a)
         else if globally_paused s now a ip then (denied, a)
         else let (ok, a) = (if CookieCheck s then consumeChallengeLocked E now detection ip a else (True, a))
           in if \<not> ok then (denied, a)
              else if au_hashes a \<ge> 2 then (Inl (ErrorsNew ''login busy''), a)
              else (Inr (au_credential a), a\<lparr>au_hashes := au_hashes a + 1\<rparr>))"

record new_session =
  ns_token :: string
  ns_ID :: string
  ns_CSRF :: string
  ns_agent :: string

definition issue :: "auth_env \<Rightarrow> int \<Rightarrow> string \<Rightarrow> new_session \<Rightarrow> Auth \<Rightarrow> Session \<times> Auth" where
  "issue E now ip r a =
     (let s = \<lparr>ss_ID = ns_ID r, ss_CSRF = ns_CSRF r, ss_Created = now, ss_Active = now, ss_Source = ip,
               ss_Agent = ae_tokenHash E (ns_agent r), ss_sources = [ip]\<rparr>
      in (s, eventLocked E now (From (sourceKey ip)) ''login_succeeded''
               (a\<lparr>au_sessions := AList.update (ae_tokenHash E (ns_token r)) s (au_sessions a)\<rparr>)))"

text \<open>
  The second section, with the credential c the password was checked against; the slot is given
  back on every path. None is an eviction loop that does not end.
\<close>

definition login_refused :: "PublicWebConfig \<Rightarrow> credential \<Rightarrow> int \<Rightarrow> string \<Rightarrow> Auth \<Rightarrow> bool" where
  "login_refused policy c now ip a =
     (let next = Effective policy; s = Security next
      in \<not> Enabled next \<or> \<not> AllowsIP s ip \<or> cr_Generation c \<noteq> cr_Generation (au_credential a)
         \<or> globally_paused s now a ip
         \<or> (case map_of (au_failures a) (sourceKey ip) of
              None \<Rightarrow> False
            | Some f \<Rightarrow> (FailureLock s \<and> now < sf_Locked f) \<or> (AutoBlacklist s \<and> now < sf_Blacklisted f)))"

definition Login_finish ::
    "auth_env \<Rightarrow> PublicWebConfig \<Rightarrow> PublicWebConfig \<Rightarrow> credential \<Rightarrow> string \<Rightarrow> err \<Rightarrow> int \<Rightarrow> string \<Rightarrow> new_session \<Rightarrow> Auth
       \<Rightarrow> (Session res \<times> Auth) option" where
  "Login_finish E begun policy c password ctxErr now ip r a =
     (let a = a\<lparr>au_hashes := au_hashes a - 1\<rparr>
      in case ctxErr of
           Some e \<Rightarrow> Some (Inl e, a)
         | None \<Rightarrow>
             if \<not> verify E c password
             then Some (Inl (ErrorsNew ''login denied''), failureLocked E (Security (Effective begun)) now ip a)
             else if login_refused policy c now ip a then Some (Inl (ErrorsNew ''login denied''), a)
             else map_option (\<lambda>a. let (s, a) = issue E now ip r a in (Inr s, a))
                    (evict_down (length (au_sessions a)) E now (MaxSessions (Effective policy) - 1) a))"

section \<open>Sessions\<close>

definition drop_session :: "auth_env \<Rightarrow> int \<Rightarrow> event_source \<Rightarrow> string \<Rightarrow> string \<Rightarrow> Session \<Rightarrow> Auth \<Rightarrow> Auth" where
  "drop_session E now src reason key s a =
     eventLocked E now src reason ((cancel s a)\<lparr>au_sessions := AList.delete key (au_sessions a)\<rparr>)"

definition Lookup ::
    "auth_env \<Rightarrow> PublicWebConfig \<Rightarrow> int \<Rightarrow> string \<Rightarrow> string \<Rightarrow> string \<Rightarrow> bool \<Rightarrow> Auth \<Rightarrow> Session option \<times> Auth" where
  "Lookup E policy now token ip agent touch a =
     (let p = Effective policy; key = ae_tokenHash E token
      in if length token \<noteq> 64 \<or> \<not> Allowed policy now a ip True then (None, a)
         else case map_of (au_sessions a) key of
                None \<Rightarrow> (None, a)
              | Some s \<Rightarrow>
                  if expired p now s
                     \<or> (SessionBinding (Security p)
                        \<and> (sourceKey (ss_Source s) \<noteq> sourceKey ip \<or> ss_Agent s \<noteq> ae_tokenHash E agent))
                  then (None, drop_session E now (From (sourceKey ip)) ''session_expired_or_binding_changed'' key s a)
                  else let s = (if touch then s\<lparr>ss_Active := now\<rparr> else s)
                    in if ip \<notin> set (ss_sources s) \<and> length (ss_sources s) \<ge> 16
                       then (None, drop_session E now (From (sourceKey ip)) ''session_source_capacity'' key s a)
                       else let s = s\<lparr>ss_sources := List.insert ip (ss_sources s)\<rparr>
                         in (Some s, a\<lparr>au_sessions := AList.update key s (au_sessions a)\<rparr>))"

definition Logout :: "auth_env \<Rightarrow> int \<Rightarrow> string \<Rightarrow> Auth \<Rightarrow> Auth" where
  "Logout E now token a =
     (let key = ae_tokenHash E token
      in case map_of (au_sessions a) key of
           None \<Rightarrow> a
         | Some s \<Rightarrow> drop_session E now (From (sourceKey (ss_Source s))) ''logout'' key s a)"

definition ResetLocks :: "auth_env \<Rightarrow> int \<Rightarrow> Auth \<Rightarrow> Auth" where
  "ResetLocks E now a = eventLocked E now Local ''locks_reset'' (a\<lparr>au_failures := [], au_global := zero_failures\<rparr>)"

definition VerifyCurrent :: "auth_env \<Rightarrow> string \<Rightarrow> Auth \<Rightarrow> bool" where
  "VerifyCurrent E password a = (au_hashes a < 2 \<and> verify E (au_credential a) password)"

text \<open>ChangePassword writes the credential file; the state in memory changes at the next Refresh.\<close>

definition ChangePassword ::
    "auth_env \<Rightarrow> string \<Rightarrow> string \<Rightarrow> err \<Rightarrow> string \<Rightarrow> string \<Rightarrow> Auth \<Rightarrow> credential option \<Rightarrow> err \<times> credential option" where
  "ChangePassword E salt generation io current new a stored =
     (if au_hashes a \<ge> 2 then (Some (ErrorsNew ''password operation busy''), stored)
      else if \<not> verify E (au_credential a) current
      then (Some (ErrorsNew ''password verification failed''), stored)
      else SetPassword E salt generation io stored new)"

definition NewAuth :: "PublicWebConfig \<Rightarrow> credential option \<Rightarrow> Auth res" where
  "NewAuth policy stored =
     (let p = Effective policy
      in case loadCredential stored of
           None \<Rightarrow> Inl (ErrorsNew ''public Web: administrator credential is missing or invalid'')
         | Some c \<Rightarrow>
             Inr \<lparr>au_credential = c, au_sessions = [], au_cancelled = [], au_failures = [], au_challenges = [],
                  au_global = zero_failures, au_events = [], au_eventLogError = False, au_hashes = 0, au_done = False,
                  au_origin = Origin p, au_wasEnabled = Enabled p\<rparr>)"

section \<open>The operations on each part of the state\<close>

lemma eventLocked_fields [simp]:
  "au_credential (eventLocked E t src r a) = au_credential a"
  "au_sessions (eventLocked E t src r a) = au_sessions a"
  "au_cancelled (eventLocked E t src r a) = au_cancelled a"
  "au_failures (eventLocked E t src r a) = au_failures a"
  "au_challenges (eventLocked E t src r a) = au_challenges a"
  "au_global (eventLocked E t src r a) = au_global a"
  "au_hashes (eventLocked E t src r a) = au_hashes a"
  "au_origin (eventLocked E t src r a) = au_origin a"
  by (simp_all add: eventLocked_def Let_def)

lemma cancel_fields [simp]:
  "au_credential (cancel s a) = au_credential a" "au_sessions (cancel s a) = au_sessions a"
  "au_cancelled (cancel s a) = ss_ID s # au_cancelled a" "au_failures (cancel s a) = au_failures a"
  "au_challenges (cancel s a) = au_challenges a" "au_events (cancel s a) = au_events a"
  "au_hashes (cancel s a) = au_hashes a" "au_origin (cancel s a) = au_origin a"
  "au_global (cancel s a) = au_global a"
  by (simp_all add: cancel_def)

text \<open>What no operation on sessions touches, apart from the bounded event list.\<close>

definition session_frame :: "Auth \<Rightarrow> Auth \<Rightarrow> bool" where
  "session_frame a a' \<longleftrightarrow> au_failures a' = au_failures a \<and> au_challenges a' = au_challenges a
     \<and> au_global a' = au_global a \<and> au_hashes a' = au_hashes a \<and> au_credential a' = au_credential a
     \<and> (length (au_events a) \<le> 256 \<longrightarrow> length (au_events a') \<le> 256)"

text \<open>Sessions are only removed from the table together with a cancellation of their context.\<close>

definition sessions_shrink :: "Auth \<Rightarrow> Auth \<Rightarrow> bool" where
  "sessions_shrink a a' \<longleftrightarrow> set (au_sessions a') \<subseteq> set (au_sessions a)
     \<and> (gm_wf (au_sessions a) \<longrightarrow> gm_wf (au_sessions a'))
     \<and> length (au_sessions a') \<le> length (au_sessions a)
     \<and> set (au_cancelled a) \<subseteq> set (au_cancelled a')
     \<and> (gm_wf (au_sessions a) \<longrightarrow>
          (\<forall>ks\<in>set (au_sessions a). ks \<in> set (au_sessions a') \<or> ss_ID (snd ks) \<in> set (au_cancelled a')))"

definition revoking :: "Auth \<Rightarrow> Auth \<Rightarrow> bool" where
  "revoking a a' \<longleftrightarrow> session_frame a a' \<and> sessions_shrink a a'"

lemma length_events: "length (au_events a) \<le> 256 \<Longrightarrow> length (au_events (eventLocked E t src r a)) \<le> 256"
  by (simp add: eventLocked_def Let_def)

lemma revoking_refl [simp, intro]: "revoking a a"
  by (simp add: revoking_def session_frame_def sessions_shrink_def)

lemma revoking_trans: "revoking a b \<Longrightarrow> revoking b c \<Longrightarrow> revoking a c"
  unfolding revoking_def session_frame_def sessions_shrink_def by (auto; blast)

lemma revoking_event: "revoking a (eventLocked E t src r a)"
  by (simp add: revoking_def session_frame_def sessions_shrink_def length_events)

lemma revoking_delete:
  assumes "(k, s) \<in> set (au_sessions a)"
  shows "revoking a ((cancel s a)\<lparr>au_sessions := AList.delete k (au_sessions a)\<rparr>)"
proof -
  have "ss_ID (snd ks) = ss_ID s" if "gm_wf (au_sessions a)" "ks \<in> set (au_sessions a)" "fst ks = k" for ks
    using that assms by (metis eq_key_imp_eq_value prod.collapse)
  then show ?thesis
    by (auto simp: revoking_def session_frame_def sessions_shrink_def set_delete_gm length_delete_le)
qed

lemma drop_session_eq: "eventLocked E t src r ((cancel s a)\<lparr>au_sessions := AList.delete k (au_sessions a)\<rparr>)
    = drop_session E t src r k s a"
  by (simp add: drop_session_def)

lemma revoking_drop: "(k, s) \<in> set (au_sessions a) \<Longrightarrow> revoking a (drop_session E t src r k s a)"
  unfolding drop_session_def by (rule revoking_trans[OF revoking_delete revoking_event])

lemma revoke_loop_all:
  "set ss \<subseteq> set (au_sessions a) \<Longrightarrow> gm_wf ss \<Longrightarrow> revoking a (revoke_loop ss a)
     \<and> set (au_sessions (revoke_loop ss a)) = {ks \<in> set (au_sessions a). fst ks \<notin> fst ` set ss}"
proof (induction ss a rule: revoke_loop.induct)
  case (2 k s ss a)
  let ?b = "(cancel s a)\<lparr>au_sessions := AList.delete k (au_sessions a)\<rparr>"
  have "set ss \<subseteq> set (au_sessions ?b)" using 2(2,3) by (force simp: set_delete_gm)
  moreover have "gm_wf ss" using 2(3) by simp
  ultimately have IH: "revoking ?b (revoke_loop ss ?b)"
    "set (au_sessions (revoke_loop ss ?b)) = {ks \<in> set (au_sessions ?b). fst ks \<notin> fst ` set ss}"
    using 2(1) by blast+
  have "revoking a ?b" using 2(2) by (intro revoking_delete) simp
  then show ?case using IH by (auto intro: revoking_trans simp: set_delete_gm)
qed simp

lemma revokeAllLocked_empty:
  assumes "gm_wf (au_sessions a)"
  shows "revoking a (revokeAllLocked a)" "au_sessions (revokeAllLocked a) = []"
proof -
  have "set (au_sessions (revokeAllLocked a)) = {}"
    using revoke_loop_all[OF subset_refl assms] unfolding revokeAllLocked_def by auto
  then show "au_sessions (revokeAllLocked a) = []" by simp
  show "revoking a (revokeAllLocked a)"
    using revoke_loop_all[of "au_sessions a" a] assms unfolding revokeAllLocked_def by blast
qed

lemma oldest_session_in: "oldest_session ss o1 at \<in> insert o1 (fst ` set ss)"
  by (induction ss o1 at rule: oldest_session.induct) auto

lemma oldest_session_found:
  "ss \<noteq> [] \<Longrightarrow> [] \<notin> fst ` set ss \<Longrightarrow> oldest_session ss [] at \<in> fst ` set ss"
proof (cases ss)
  case (Cons ks ss')
  then show ?thesis using oldest_session_in[of ss' "fst ks" "ss_Active (snd ks)"] by (cases ks) auto
qed simp

lemma length_delete_in: "gm_wf m \<Longrightarrow> k \<in> fst ` set m \<Longrightarrow> Suc (length (AList.delete k m)) = length m"
proof (induction m)
  case (Cons p m)
  show ?case
  proof (cases "fst p = k")
    case True
    then have "AList.delete k (p # m) = m" using Cons.prems(1) by (cases p) (simp add: delete_fresh)
    then show ?thesis by simp
  next
    case False
    then have "Suc (length (AList.delete k m)) = length m" using Cons by simp
    then show ?thesis using False by (cases p) simp
  qed
qed simp

lemma evictLocked_length:
  assumes "gm_wf (au_sessions a)" "[] \<notin> fst ` set (au_sessions a)" "au_sessions a \<noteq> []"
  shows "Suc (length (au_sessions (evictLocked E t a))) = length (au_sessions a)"
proof -
  let ?k = "oldest_session (au_sessions a) [] 0"
  have k: "?k \<in> fst ` set (au_sessions a)" using oldest_session_found[OF assms(3,2)] .
  then obtain s where "map_of (au_sessions a) ?k = Some s" by (metis map_of_eq_None_iff not_Some_eq)
  moreover have "?k \<noteq> []" using k assms(2) by metis
  ultimately show ?thesis using length_delete_in[OF assms(1) k] by (simp add: evictLocked_def Let_def)
qed

lemma revoking_evict: "revoking a (evictLocked E t a)"
  unfolding evictLocked_def Let_def
  by (auto split: option.split if_splits simp: drop_session_eq intro: revoking_drop map_of_SomeD)

lemma revoking_keys: "revoking a b \<Longrightarrow> fst ` set (au_sessions b) \<subseteq> fst ` set (au_sessions a)"
  unfolding revoking_def sessions_shrink_def by blast

lemma evict_down_ok:
  "evict_down n E t limit a = Some b \<Longrightarrow> revoking a b \<and> int (length (au_sessions b)) \<le> limit"
proof (induction n arbitrary: a)
  case 0
  then show ?case by (subst (asm) evict_down.simps) (auto split: if_splits)
next
  case (Suc n)
  then show ?case
    by (subst (asm) evict_down.simps) (auto split: if_splits intro: revoking_trans[OF revoking_evict])
qed

text \<open>The eviction loop ends with at most the limit whenever the limit is not negative.\<close>

lemma evict_down_total:
  "gm_wf (au_sessions a) \<Longrightarrow> [] \<notin> fst ` set (au_sessions a) \<Longrightarrow> 0 \<le> limit \<Longrightarrow> length (au_sessions a) \<le> n \<Longrightarrow>
     \<exists>b. evict_down n E t limit a = Some b"
proof (induction n arbitrary: a)
  case 0
  then show ?case by (subst evict_down.simps) simp
next
  case (Suc n)
  show ?case
  proof (cases "int (length (au_sessions a)) \<le> limit")
    case True
    then show ?thesis by (subst evict_down.simps) simp
  next
    case False
    let ?b = "evictLocked E t a"
    have ne: "au_sessions a \<noteq> []" using False Suc.prems(3) by auto
    have "gm_wf (au_sessions ?b)" "[] \<notin> fst ` set (au_sessions ?b)"
      using revoking_evict[of a E t] revoking_keys[OF revoking_evict[of a E t]] Suc.prems(1,2)
      by (auto simp: revoking_def sessions_shrink_def)
    moreover have "length (au_sessions ?b) \<le> n"
      using evictLocked_length[OF Suc.prems(1,2) ne, of E t] Suc.prems(4) by simp
    ultimately have "\<exists>c. evict_down n E t limit ?b = Some c" using Suc.IH Suc.prems(3) by blast
    then show ?thesis using False by (subst evict_down.simps) simp
  qed
qed

lemma revoking_refresh_loop:
  "set ss \<subseteq> set (au_sessions a) \<Longrightarrow> gm_wf ss \<Longrightarrow> revoking a (refresh_loop E p t ss a)"
proof (induction E p t ss a rule: refresh_loop.induct)
  case (2 E p t k s ss a)
  let ?src = "From (sourceKey (ss_Source s))" and ?r = "''session_expired_or_policy_revoked''"
  let ?denied = "list_ex (\<lambda>ip. \<not> AllowsIP (Security p) ip \<or> blacklisted (Security p) t a ip) (ss_sources s)"
  have in_a: "(k, s) \<in> set (au_sessions a)" "set ss \<subseteq> set (au_sessions a)" "gm_wf ss" using 2(3,4) by auto
  show ?case
  proof (cases "expired p t s \<or> ?denied")
    case True
    have "set ss \<subseteq> set (au_sessions (drop_session E t ?src ?r k s a))"
      using in_a(2) 2(4) by (force simp: drop_session_def set_delete_gm)
    then have "revoking (drop_session E t ?src ?r k s a) (refresh_loop E p t ss (drop_session E t ?src ?r k s a))"
      using 2(1)[OF refl True] in_a(3) by (simp add: drop_session_eq)
    then show ?thesis using True revoking_trans[OF revoking_drop[OF in_a(1)]]
      by (simp add: drop_session_eq)
  next
    case False
    then show ?thesis using 2(2)[OF refl False in_a(2,3)] by simp
  qed
qed simp

text \<open>Everything the entrance keeps is bounded.\<close>

definition sessions_ok :: "(string, Session) gomap \<Rightarrow> bool" where
  "sessions_ok ss \<longleftrightarrow> gm_wf ss \<and> [] \<notin> fst ` set ss \<and> length ss \<le> 8
     \<and> (\<forall>ks\<in>set ss. length (ss_sources (snd ks)) \<le> 16)"

definition failures_ok :: "(source, sourceFailures) gomap \<Rightarrow> bool" where
  "failures_ok fs \<longleftrightarrow> gm_wf fs \<and> length fs \<le> 512"

abbreviation of_source :: "source \<Rightarrow> (string, challenge) gomap \<Rightarrow> (string, challenge) gomap" where
  "of_source src cs \<equiv> filter (\<lambda>kc. ch_IP (snd kc) = src) cs"

definition challenges_ok :: "(string, challenge) gomap \<Rightarrow> bool" where
  "challenges_ok cs \<longleftrightarrow> gm_wf cs \<and> [] \<notin> fst ` set cs \<and> length cs \<le> 128 \<and> (\<forall>src. length (of_source src cs) \<le> 4)"

definition auth_ok :: "Auth \<Rightarrow> bool" where
  "auth_ok a \<longleftrightarrow> sessions_ok (au_sessions a) \<and> failures_ok (au_failures a) \<and> challenges_ok (au_challenges a)
     \<and> length (au_events a) \<le> 256"

lemma revoking_ok: "revoking a b \<Longrightarrow> auth_ok a \<Longrightarrow> auth_ok b"
  unfolding revoking_def session_frame_def sessions_shrink_def auth_ok_def sessions_ok_def by (auto; force)

lemma challenges_ok_filter:
  assumes a: "challenges_ok cs"
  shows "challenges_ok (filter P cs)"
proof -
  have le: "length (of_source src (filter P cs)) \<le> 4" for src
  proof -
    have eq: "of_source src (filter P cs) = filter P (of_source src cs)"
      unfolding filter_filter by (rule filter_cong[OF refl]) auto
    have "length (of_source src cs) \<le> 4" using a by (simp add: challenges_ok_def)
    then show ?thesis unfolding eq using length_filter_le[of P "of_source src cs"] by linarith
  qed
  have "length (filter P cs) \<le> 128"
    using a length_filter_le[of P cs] unfolding challenges_ok_def by linarith
  then show ?thesis using a le unfolding challenges_ok_def by auto
qed

lemma delete_filter: "AList.delete k m = filter (\<lambda>p. fst p \<noteq> k) m"
  by (auto simp: AList.delete_eq intro: filter_cong)

lemma challenges_ok_delete: "challenges_ok cs \<Longrightarrow> challenges_ok (AList.delete k cs)"
  by (simp add: delete_filter challenges_ok_filter)

lemma failures_ok_filter: "failures_ok fs \<Longrightarrow> failures_ok (filter P fs)"
  using le_trans[OF length_filter_le[of P fs], of 512] by (simp add: failures_ok_def)

lemma drop_ok: "auth_ok a \<Longrightarrow> auth_ok (drop_challenges t a)" "auth_ok a \<Longrightarrow> auth_ok (drop_failures t a)"
  by (auto simp: auth_ok_def drop_challenges_def drop_failures_def intro: challenges_ok_filter failures_ok_filter)

lemma oldest_challenge_count:
  "fst (oldest_challenge src cs n o1 u) = n + length (of_source src cs)"
  by (induction src cs n o1 u rule: oldest_challenge.induct) auto

lemma oldest_challenge_in:
  "snd (oldest_challenge src cs n o1 u) \<in> insert o1 (fst ` set (of_source src cs))"
  by (induction src cs n o1 u rule: oldest_challenge.induct) auto

lemma oldest_challenge_found:
  "of_source src cs \<noteq> [] \<Longrightarrow> [] \<notin> fst ` set cs \<Longrightarrow>
     snd (oldest_challenge src cs n [] u) \<in> fst ` set (of_source src cs)"
proof (induction cs)
  case (Cons kc cs)
  obtain k c where kc: "kc = (k, c)" by (cases kc)
  show ?case using Cons oldest_challenge_in[of src cs "Suc n" k "ch_Until c"] by (auto simp: kc)
qed simp

lemma of_source_delete_in:
  assumes "gm_wf cs" "k \<in> fst ` set (of_source src cs)"
  shows "Suc (length (of_source src (AList.delete k cs))) = length (of_source src cs)"
proof -
  have "of_source src (AList.delete k cs) = AList.delete k (of_source src cs)"
    by (simp add: delete_filter conj_commute)
  then show ?thesis using length_delete_in[of "of_source src cs" k] assms by simp
qed

lemma of_source_update_le:
  "length (of_source src (AList.update k c cs)) \<le> (if ch_IP c = src then 1 else 0) + length (of_source src cs)"
  by (induction cs) auto

text \<open>A source keeps at most four challenges, because its oldest one makes room.\<close>

lemma Challenge_challenges:
  assumes ok: "challenges_ok cs" and h: "h \<noteq> []"
    and cs': "cs' = (if fst (oldest_challenge src cs 0 [] 0) \<ge> 4
                     then AList.delete (snd (oldest_challenge src cs 0 [] 0)) cs else cs)"
    and room: "length cs' < 128"
  shows "challenges_ok (AList.update h \<lparr>ch_IP = src, ch_Until = u\<rparr> cs')"
proof -
  let ?c = "\<lparr>ch_IP = src, ch_Until = u\<rparr>"
  have ok': "challenges_ok cs'" using ok by (simp add: cs' challenges_ok_delete)
  have le: "length (of_source src' cs) \<le> 4" for src' using ok by (simp add: challenges_ok_def)
  have "length (of_source src cs') < 4"
  proof (cases "length (of_source src cs) \<ge> 4")
    case True
    then have "of_source src cs \<noteq> []" by auto
    then have "snd (oldest_challenge src cs 0 [] 0) \<in> fst ` set (of_source src cs)"
      using oldest_challenge_found ok unfolding challenges_ok_def by blast
    then have "Suc (length (of_source src (AList.delete (snd (oldest_challenge src cs 0 [] 0)) cs))) = length (of_source src cs)"
      using of_source_delete_in ok unfolding challenges_ok_def by blast
    then show ?thesis using le[of src] True by (simp add: cs' oldest_challenge_count)
  qed (simp add: cs' oldest_challenge_count)
  then have "length (of_source src' (AList.update h ?c cs')) \<le> 4" for src'
    using of_source_update_le[of src' h ?c cs'] ok' by (cases "src' = src") (auto simp: challenges_ok_def dest: spec[of _ src'])
  moreover have "length (AList.update h ?c cs') \<le> 128" using room by (simp add: length_update)
  moreover have "fst ` set (AList.update h ?c cs') = insert h (fst ` set cs')" by (simp add: dom_update)
  ultimately show ?thesis using ok' h unfolding challenges_ok_def by auto
qed

lemma Challenge_ok:
  assumes "auth_ok a" "ae_tokenHash E token \<noteq> []" "Challenge E p token t ip a = (r, b)"
  shows "auth_ok b"
proof (cases "Allowed p t a ip False")
  case True
  let ?d = "drop_challenges t a"
  let ?o = "oldest_challenge (sourceKey ip) (au_challenges ?d) 0 [] 0"
  define cs where "cs = (if fst ?o \<ge> 4 then AList.delete (snd ?o) (au_challenges ?d) else au_challenges ?d)"
  have d: "auth_ok ?d" by (rule drop_ok(1)[OF assms(1)])
  have b: "b = ?d\<lparr>au_challenges := cs\<rparr> \<or>
     (length cs < 128 \<and> b = ?d\<lparr>au_challenges := AList.update (ae_tokenHash E token) \<lparr>ch_IP = sourceKey ip, ch_Until = t + minutes 2\<rparr> cs\<rparr>)"
    using assms(3) True by (auto simp: Challenge_def Let_def cs_def split: prod.splits if_splits)
  have "challenges_ok cs" using d by (simp add: cs_def auth_ok_def challenges_ok_delete)
  moreover have "length cs < 128 \<Longrightarrow> challenges_ok (AList.update (ae_tokenHash E token) \<lparr>ch_IP = sourceKey ip, ch_Until = u\<rparr> cs)" for u
    using Challenge_challenges[OF _ assms(2) cs_def] d by (simp add: auth_ok_def)
  ultimately show ?thesis using b d by (auto simp: auth_ok_def)
qed (use assms in \<open>simp add: Challenge_def\<close>)

text \<open>What the failure counters touch: everything else of the state stays, the events stay bounded.\<close>

definition failure_frame :: "Auth \<Rightarrow> Auth \<Rightarrow> bool" where
  "failure_frame a b \<longleftrightarrow> au_sessions b = au_sessions a \<and> au_cancelled b = au_cancelled a
     \<and> au_challenges b = au_challenges a \<and> au_hashes b = au_hashes a \<and> au_credential b = au_credential a
     \<and> (length (au_events a) \<le> 256 \<longrightarrow> length (au_events b) \<le> 256)"

lemma source_failure_frame: "failure_frame a (source_failure E p t key f a)"
  unfolding failure_frame_def source_failure_def Let_def by (simp add: length_events)

lemma source_failure_failures:
  "au_failures (source_failure E p t key f a) =
     AList.update key (let g = count_failure p t f in if lock_now p t g then lock_source p t g else g) (au_failures a)"
  unfolding source_failure_def Let_def by simp

lemma global_failure_frame:
  "failure_frame a (global_failure E p t a)" "au_failures (global_failure E p t a) = au_failures a"
  unfolding failure_frame_def global_failure_def Let_def by (simp_all add: length_events)

lemma failure_frame_trans: "failure_frame a b \<Longrightarrow> failure_frame b c \<Longrightarrow> failure_frame a c"
  unfolding failure_frame_def by simp

lemma failureLocked_frame: "failure_frame a (failureLocked E p t ip a)"
proof -
  have refl: "failure_frame a a" by (simp add: failure_frame_def)
  have both: "failure_frame a (global_failure E p t (source_failure E p t k f a))" for k f
    by (rule failure_frame_trans[OF source_failure_frame global_failure_frame(1)])
  show ?thesis unfolding failureLocked_def Let_def using refl both by (simp split: option.split)
qed

lemma failures_ok_update:
  "failures_ok fs \<Longrightarrow> length fs < 512 \<or> k \<in> fst ` set fs \<Longrightarrow> failures_ok (AList.update k f fs)"
  by (auto simp: failures_ok_def length_update)

lemma failureLocked_failures: "failures_ok (au_failures a) \<Longrightarrow> failures_ok (au_failures (failureLocked E p t ip a))"
  unfolding failureLocked_def Let_def
  by (auto split: option.split simp: global_failure_frame source_failure_failures
      intro!: failures_ok_update dest: map_of_SomeD intro: rev_image_eqI)

lemma failureLocked_ok: "auth_ok a \<Longrightarrow> auth_ok (failureLocked E p t ip a)"
  using failureLocked_frame[of a E p t ip] failureLocked_failures[of a E p t ip]
  unfolding auth_ok_def failure_frame_def by simp

lemma Login_begin_ok: "auth_ok a \<Longrightarrow> Login_begin E p t ip d a = (r, b) \<Longrightarrow> auth_ok b"
  unfolding Login_begin_def Let_def consumeChallengeLocked_def
  by (auto split: if_splits prod.splits simp: auth_ok_def challenges_ok_delete)

lemma issue_ok:
  assumes "auth_ok a" "int (length (au_sessions a)) \<le> 7" "ae_tokenHash E (ns_token r) \<noteq> []" "issue E t ip r a = (s, b)"
  shows "auth_ok b"
proof -
  have "length (au_sessions a) \<le> 7" using assms(2) by linarith
  then have "sessions_ok (AList.update (ae_tokenHash E (ns_token r)) s (au_sessions a))"
    if "length (ss_sources s) \<le> 16" for s
    using assms(1,3) that
    by (auto simp: auth_ok_def sessions_ok_def length_update set_update_gm image_iff dom_update)
  then show ?thesis using assms(1,4)
    by (auto simp: issue_def Let_def auth_ok_def length_events)
qed

lemma hashes_ok [simp]: "auth_ok (a\<lparr>au_hashes := n\<rparr>) = auth_ok a"
  by (simp add: auth_ok_def)

lemma Login_finish_cases:
  assumes "Login_finish E begun p c pw ctx t ip r a = Some (res, b)"
  defines "a' \<equiv> a\<lparr>au_hashes := au_hashes a - 1\<rparr>"
  obtains (refused) e where "res = Inl e" "b = a'"
    | (failed) e where "res = Inl e" "\<not> verify E c pw" "b = failureLocked E (Security (Effective begun)) t ip a'"
    | (issued) d s where "res = Inr s" "ctx = None" "verify E c pw" "\<not> login_refused p c t ip a'"
        "evict_down (length (au_sessions a')) E t (MaxSessions (Effective p) - 1) a' = Some d" "issue E t ip r d = (s, b)"
proof (cases "ctx = None \<and> verify E c pw \<and> \<not> login_refused p c t ip a'")
  case True
  then obtain d where "evict_down (length (au_sessions a')) E t (MaxSessions (Effective p) - 1) a' = Some d"
    "res = Inr (fst (issue E t ip r d))" "b = snd (issue E t ip r d)"
    using assms(1) unfolding Login_finish_def Let_def a'_def by (auto simp: case_prod_beta)
  then show ?thesis using True issued[of "fst (issue E t ip r d)" d] by simp
next
  case False
  then show ?thesis using assms(1) refused failed unfolding Login_finish_def Let_def a'_def
    by (auto split: option.splits if_splits)
qed

lemma Login_finish_ok:
  assumes "auth_ok a" "session_limits (Effective p) = None" "ae_tokenHash E (ns_token r) \<noteq> []"
    and fin: "Login_finish E begun p c pw ctx t ip r a = Some (res, b)"
  shows "auth_ok b"
proof -
  have ms: "MaxSessions (Effective p) \<le> 8" using assms(2) by (auto simp: session_limits_def split: if_splits)
  let ?a = "a\<lparr>au_hashes := au_hashes a - 1\<rparr>"
  have a: "auth_ok ?a" using assms(1) by simp
  from fin show ?thesis
  proof (cases rule: Login_finish_cases)
    case (issued d s)
    have "auth_ok d" "int (length (au_sessions d)) \<le> 7"
      using evict_down_ok[OF issued(5)] revoking_ok[OF _ a] ms by auto
    then show ?thesis using issue_ok assms(3) issued(6) by blast
  qed (use a failureLocked_ok in auto)
qed

lemma Lookup_cases:
  assumes "Lookup E p t token ip agent touch a = (r, b)"
  obtains (same) "r = None" "b = a"
    | (gone) s src why where "r = None" "map_of (au_sessions a) (ae_tokenHash E token) = Some s"
        "ss_ID (snd (ae_tokenHash E token, s)) = ss_ID s"
        "\<exists>s'. ss_ID s' = ss_ID s \<and> b = drop_session E t src why (ae_tokenHash E token) s' a"
    | (found) s s' where "map_of (au_sessions a) (ae_tokenHash E token) = Some s" "r = Some s'"
        "b = a\<lparr>au_sessions := AList.update (ae_tokenHash E token) s' (au_sessions a)\<rparr>" "ss_ID s' = ss_ID s"
        "length (ss_sources s) \<le> 16 \<longrightarrow> length (ss_sources s') \<le> 16"
        "length token = 64" "Allowed p t a ip True" "\<not> expired (Effective p) t s"
        "SessionBinding (Security (Effective p)) \<longrightarrow> sourceKey (ss_Source s) = sourceKey ip \<and> ss_Agent s = ae_tokenHash E agent"
        "ip \<in> set (ss_sources s')" "ss_Created s' = ss_Created s" "ss_Active s' = (if touch then t else ss_Active s)"
        "set (ss_sources s) \<subseteq> set (ss_sources s')" "ss_Source s' = ss_Source s"
proof (cases "length token \<noteq> 64 \<or> \<not> Allowed p t a ip True \<or> map_of (au_sessions a) (ae_tokenHash E token) = None")
  case True
  then show ?thesis using assms same by (auto simp: Lookup_def Let_def split: if_splits)
next
  case False
  then obtain s where s: "map_of (au_sessions a) (ae_tokenHash E token) = Some s" by auto
  let ?bad = "expired (Effective p) t s \<or> (SessionBinding (Security (Effective p))
     \<and> (sourceKey (ss_Source s) \<noteq> sourceKey ip \<or> ss_Agent s \<noteq> ae_tokenHash E agent))"
  show ?thesis
  proof (cases ?bad)
    case True
    then have "r = None" "b = drop_session E t (From (sourceKey ip)) ''session_expired_or_binding_changed'' (ae_tokenHash E token) s a"
      using assms False s by (auto simp: Lookup_def Let_def)
    then show ?thesis using gone[of s] s by force
  next
    case good: False
    let ?s = "if touch then s\<lparr>ss_Active := t\<rparr> else s"
    show ?thesis
    proof (cases "ip \<notin> set (ss_sources ?s) \<and> length (ss_sources ?s) \<ge> 16")
      case True
      then have "r = None" "b = drop_session E t (From (sourceKey ip)) ''session_source_capacity'' (ae_tokenHash E token) ?s a"
        using assms False s good by (auto simp: Lookup_def Let_def)
      moreover have "ss_ID ?s = ss_ID s" by simp
      ultimately show ?thesis using gone[of s] s by (metis snd_conv)
    next
      case room: False
      let ?s' = "?s\<lparr>ss_sources := List.insert ip (ss_sources ?s)\<rparr>"
      have "r = Some ?s'" "b = a\<lparr>au_sessions := AList.update (ae_tokenHash E token) ?s' (au_sessions a)\<rparr>"
        using assms False s good room by (auto simp: Lookup_def Let_def)
      moreover have f: "ss_sources ?s = ss_sources s" "ss_ID ?s = ss_ID s" "ss_Created ?s = ss_Created s"
        "ss_Active ?s = (if touch then t else ss_Active s)" "ss_Source ?s = ss_Source s" by simp_all
      moreover have "length (ss_sources s) \<le> 16 \<longrightarrow> length (ss_sources ?s') \<le> 16"
        using room unfolding f(1) by (auto simp: List.insert_def f(1))
      ultimately show ?thesis
        using s good False by (intro found[of s ?s']) (simp_all add: subset_insertI del: if_split)
    qed
  qed
qed

section \<open>The entrance as a system\<close>

text \<open>
  The state of the entrance with the logins whose password is being hashed (the policy and
  credential they started with, and their address) and the credential file.
\<close>

record auth_sys =
  sy_auth :: Auth
  sy_pending :: "(PublicWebConfig \<times> credential \<times> string) list"
  sy_file :: "credential option"

inductive auth_step :: "auth_env \<Rightarrow> auth_sys \<Rightarrow> auth_sys \<Rightarrow> bool" for E where
  refresh: "session_limits (Effective p) = None \<Longrightarrow> Refresh E p (sy_file y) t (sy_auth y) = Some b \<Longrightarrow>
    auth_step E y (y\<lparr>sy_auth := b\<rparr>)"
| challenge: "Challenge E p token t ip (sy_auth y) = (r, b) \<Longrightarrow> auth_step E y (y\<lparr>sy_auth := b\<rparr>)"
| begin_fail: "Login_begin E p t ip d (sy_auth y) = (Inl e, b) \<Longrightarrow> auth_step E y (y\<lparr>sy_auth := b\<rparr>)"
| begin_hash: "Login_begin E p t ip d (sy_auth y) = (Inr c, b) \<Longrightarrow>
    auth_step E y (y\<lparr>sy_auth := b, sy_pending := (p, c, ip) # sy_pending y\<rparr>)"
| finish: "(begun, c, ip) \<in> set (sy_pending y) \<Longrightarrow> session_limits (Effective p) = None \<Longrightarrow>
    ae_tokenHash E (ns_token r) \<notin> fst ` set (au_sessions (sy_auth y)) \<Longrightarrow>
    Login_finish E begun p c pw ctx t ip r (sy_auth y) = Some (res, b) \<Longrightarrow>
    auth_step E y (y\<lparr>sy_auth := b, sy_pending := remove1 (begun, c, ip) (sy_pending y)\<rparr>)"
| lookup: "Lookup E p t token ip agent touch (sy_auth y) = (r, b) \<Longrightarrow> auth_step E y (y\<lparr>sy_auth := b\<rparr>)"
| logout: "auth_step E y (y\<lparr>sy_auth := Logout E t token (sy_auth y)\<rparr>)"
| reset: "auth_step E y (y\<lparr>sy_auth := ResetLocks E t (sy_auth y)\<rparr>)"
| password: "ChangePassword E salt gen io current new (sy_auth y) (sy_file y) = (e, f) \<Longrightarrow>
    auth_step E y (y\<lparr>sy_file := f\<rparr>)"

text \<open>No session leaves the table without its context being cancelled.\<close>

definition session_ids :: "Auth \<Rightarrow> string set" where
  "session_ids a = (\<lambda>ks. ss_ID (snd ks)) ` set (au_sessions a)"

definition accounted :: "Auth \<Rightarrow> Auth \<Rightarrow> bool" where
  "accounted a b \<longleftrightarrow> set (au_cancelled a) \<subseteq> set (au_cancelled b)
     \<and> session_ids a \<subseteq> session_ids b \<union> set (au_cancelled b)"

lemma accounted_trans: "accounted a b \<Longrightarrow> accounted b c \<Longrightarrow> accounted a c"
  unfolding accounted_def by blast

lemma accounted_same: "au_sessions b = au_sessions a \<Longrightarrow> au_cancelled b = au_cancelled a \<Longrightarrow> accounted a b"
  by (simp add: accounted_def session_ids_def)

lemma accounted_revoking: "revoking a b \<Longrightarrow> gm_wf (au_sessions a) \<Longrightarrow> accounted a b"
proof -
  assume r: "revoking a b" and wf: "gm_wf (au_sessions a)"
  have "ss_ID (snd ks) \<in> session_ids b \<union> set (au_cancelled b)" if "ks \<in> set (au_sessions a)" for ks
    using r wf that unfolding revoking_def sessions_shrink_def session_ids_def by blast
  moreover have "set (au_cancelled a) \<subseteq> set (au_cancelled b)" using r by (simp add: revoking_def sessions_shrink_def)
  ultimately show ?thesis unfolding accounted_def session_ids_def by blast
qed

lemma auth_ok_wf: "auth_ok a \<Longrightarrow> gm_wf (au_sessions a)"
  by (simp add: auth_ok_def sessions_ok_def)

lemma revoking_revoke_check:
  assumes "gm_wf (au_sessions a)"
  shows "revoking a (revoke_check E p loaded t a)"
proof -
  let ?ev = "eventLocked E t Local ''sessions_revoked'' a"
  have "revoking a (revokeAllLocked ?ev)"
    by (rule revoking_trans[OF revoking_event revokeAllLocked_empty(1)]) (use assms in simp)
  then show ?thesis unfolding revoke_check_def using revokeAllLocked_empty(1)[OF assms] by simp
qed

lemma Refresh_stages:
  assumes "Refresh E p stored t a = Some b" and wf: "gm_wf (au_sessions a)"
  defines "c \<equiv> revoke_check E (Effective p) (loadCredential stored) t a"
  defines "d \<equiv> adopt (Effective p) (loadCredential stored) c"
  defines "e \<equiv> refresh_loop E (Effective p) t (au_sessions d) d"
  shows "revoking a c" "au_sessions d = au_sessions c" "au_cancelled d = au_cancelled c" "revoking d e"
    "revoking (drop_failures t (drop_challenges t e)) b" "int (length (au_sessions b)) \<le> MaxSessions (Effective p)"
proof -
  show ac: "revoking a c" unfolding c_def by (rule revoking_revoke_check[OF wf])
  have "gm_wf (au_sessions d)" using ac wf by (simp add: d_def adopt_def revoking_def sessions_shrink_def)
  then show "revoking d e" unfolding e_def by (rule revoking_refresh_loop[OF subset_refl])
  show "au_sessions d = au_sessions c" "au_cancelled d = au_cancelled c" by (simp_all add: d_def adopt_def)
  have "evict_down (length (au_sessions (drop_failures t (drop_challenges t e)))) E t (MaxSessions (Effective p))
      (drop_failures t (drop_challenges t e)) = Some b"
    using assms(1) by (simp add: Refresh_def Let_def c_def d_def e_def)
  then show "revoking (drop_failures t (drop_challenges t e)) b" "int (length (au_sessions b)) \<le> MaxSessions (Effective p)"
    using evict_down_ok by blast+
qed

lemma Refresh_ok:
  assumes "auth_ok a" "Refresh E p stored t a = Some b"
  shows "auth_ok b \<and> accounted a b"
proof -
  note s = Refresh_stages[OF assms(2) auth_ok_wf[OF assms(1)]]
  let ?c = "revoke_check E (Effective p) (loadCredential stored) t a"
  let ?d = "adopt (Effective p) (loadCredential stored) ?c"
  let ?e = "refresh_loop E (Effective p) t (au_sessions ?d) ?d"
  let ?f = "drop_failures t (drop_challenges t ?e)"
  have "auth_ok ?c" by (rule revoking_ok[OF s(1) assms(1)])
  then have d: "auth_ok ?d" by (simp add: adopt_def auth_ok_def)
  have e: "auth_ok ?e" by (rule revoking_ok[OF s(4) d])
  then have f: "auth_ok ?f" using drop_ok by blast
  have "accounted ?e ?f" by (rule accounted_same) (simp_all add: drop_failures_def drop_challenges_def)
  moreover have "accounted a ?c" by (rule accounted_revoking[OF s(1) auth_ok_wf[OF assms(1)]])
  moreover have "accounted ?c ?d" by (rule accounted_same) (simp_all add: s(2,3))
  moreover have "accounted ?d ?e" by (rule accounted_revoking[OF s(4) auth_ok_wf[OF d]])
  moreover have "accounted ?f b" by (rule accounted_revoking[OF s(5) auth_ok_wf[OF f]])
  ultimately show ?thesis using revoking_ok[OF s(5) f] accounted_trans by blast
qed

lemma Lookup_ok:
  assumes "auth_ok a" "Lookup E p t token ip agent touch a = (r, b)"
  shows "auth_ok b \<and> accounted a b \<and> au_hashes b = au_hashes a"
  using assms(2)
proof (cases rule: Lookup_cases)
  case (gone s src why)
  then obtain s' where s': "ss_ID s' = ss_ID s" "b = drop_session E t src why (ae_tokenHash E token) s' a" by blast
  have "auth_ok b" using assms(1) s'(2)
    by (auto simp: drop_session_def auth_ok_def sessions_ok_def length_events set_delete_gm
        intro: le_trans[OF length_delete_le])
  moreover have "ss_ID (snd ks) = ss_ID s" if "ks \<in> set (au_sessions a)" "fst ks = ae_tokenHash E token" for ks
    using gone(2) that auth_ok_wf[OF assms(1)] by (metis map_of_is_SomeI option.inject prod.collapse)
  ultimately show ?thesis using s' by (auto simp: accounted_def session_ids_def drop_session_def set_delete_gm)
next
  case (found s s')
  have "length (ss_sources s) \<le> 16" using found(1) assms(1) map_of_SomeD
    by (fastforce simp: auth_ok_def sessions_ok_def)
  then have "auth_ok b" using assms(1) found(1,3,5) map_of_SomeD[OF found(1)]
    by (auto simp: auth_ok_def sessions_ok_def set_update_gm length_update image_iff dom_update)
  moreover have "ss_ID (snd ks) = ss_ID s'" if "ks \<in> set (au_sessions a)" "fst ks = ae_tokenHash E token" for ks
    using found(1,4) that auth_ok_wf[OF assms(1)] by (metis map_of_is_SomeI option.inject prod.collapse)
  ultimately show ?thesis using found(3) auth_ok_wf[OF assms(1)]
    by (auto simp: accounted_def session_ids_def set_update_gm image_iff)
qed (use assms(1) in \<open>auto simp: accounted_def session_ids_def\<close>)

lemma Logout_ok: "auth_ok a \<Longrightarrow> auth_ok (Logout E t token a) \<and> accounted a (Logout E t token a)
    \<and> au_hashes (Logout E t token a) = au_hashes a"
proof -
  assume a: "auth_ok a"
  have r: "revoking a (Logout E t token a)"
    unfolding Logout_def Let_def by (auto split: option.split intro: revoking_drop map_of_SomeD)
  then show ?thesis using revoking_ok[OF r a] accounted_revoking[OF r auth_ok_wf[OF a]]
    by (simp add: revoking_def session_frame_def)
qed

lemma Login_finish_accounted:
  assumes "auth_ok a" "ae_tokenHash E (ns_token r) \<notin> fst ` set (au_sessions a)"
    "Login_finish E begun p c pw ctx t ip r a = Some (res, b)"
  shows "accounted a b \<and> au_hashes b = au_hashes a - 1"
  using assms(3)
proof (cases rule: Login_finish_cases)
  case (failed e)
  then show ?thesis using failureLocked_frame by (auto simp: failure_frame_def accounted_def session_ids_def)
next
  case (issued d s)
  let ?a = "a\<lparr>au_hashes := au_hashes a - 1\<rparr>"
  have r: "revoking ?a d" using evict_down_ok[OF issued(5)] by blast
  have "accounted ?a d" by (rule accounted_revoking[OF r]) (use auth_ok_wf[OF assms(1)] in simp)
  moreover have "accounted d b"
  proof -
    have fresh: "ae_tokenHash E (ns_token r) \<notin> fst ` set (au_sessions d)" using revoking_keys[OF r] assms(2) by auto
    have "set (au_sessions d) \<subseteq> set (au_sessions b)" "au_cancelled b = au_cancelled d"
      using issued(6) by (auto simp: issue_def Let_def update_fresh[OF fresh])
    then show ?thesis unfolding accounted_def session_ids_def by auto
  qed
  moreover have "accounted a ?a" by (simp add: accounted_def session_ids_def)
  moreover have "au_hashes b = au_hashes a - 1" using r issued(6)
    by (auto simp: issue_def Let_def revoking_def session_frame_def)
  ultimately show ?thesis using accounted_trans by blast
qed (simp add: accounted_def session_ids_def)

definition sys_ok :: "auth_sys \<Rightarrow> bool" where
  "sys_ok y \<longleftrightarrow> auth_ok (sy_auth y) \<and> au_hashes (sy_auth y) = length (sy_pending y) \<and> length (sy_pending y) \<le> 2"

definition opened :: "auth_sys \<Rightarrow> bool" where
  "opened y \<longleftrightarrow> (\<exists>p. NewAuth p (sy_file y) = Inr (sy_auth y)) \<and> sy_pending y = []"

lemma NewAuth_ok: "NewAuth p f = Inr a \<Longrightarrow> auth_ok a \<and> au_hashes a = 0"
  by (auto simp: NewAuth_def auth_ok_def sessions_ok_def failures_ok_def challenges_ok_def Let_def split: option.splits)

lemma opened_ok: "opened y \<Longrightarrow> sys_ok y"
  using NewAuth_ok by (auto simp: opened_def sys_ok_def)

lemma Refresh_hashes: "gm_wf (au_sessions a) \<Longrightarrow> Refresh E p stored t a = Some b \<Longrightarrow> au_hashes b = au_hashes a"
  using Refresh_stages[of E p stored t a b]
  by (simp add: revoking_def session_frame_def adopt_def drop_failures_def drop_challenges_def)

lemma Challenge_fields:
  "Challenge E p token t ip a = (r, b) \<Longrightarrow>
     au_sessions b = au_sessions a \<and> au_cancelled b = au_cancelled a \<and> au_hashes b = au_hashes a"
  unfolding Challenge_def Let_def drop_challenges_def by (auto split: if_splits prod.splits)

lemma Login_begin_fields:
  "Login_begin E p t ip d a = (r, b) \<Longrightarrow> au_sessions b = au_sessions a \<and> au_cancelled b = au_cancelled a
     \<and> (case r of Inl _ \<Rightarrow> au_hashes b = au_hashes a | Inr _ \<Rightarrow> au_hashes a < 2 \<and> au_hashes b = au_hashes a + 1)"
  unfolding Login_begin_def Let_def consumeChallengeLocked_def by (auto split: if_splits prod.splits)

lemma ResetLocks_ok: "auth_ok a \<Longrightarrow> auth_ok (ResetLocks E t a) \<and> accounted a (ResetLocks E t a)
    \<and> au_hashes (ResetLocks E t a) = au_hashes a"
  by (simp add: ResetLocks_def auth_ok_def failures_ok_def length_events accounted_def session_ids_def)

lemma auth_step_ok:
  assumes "\<And>s. ae_tokenHash E s \<noteq> []" "sys_ok y" "auth_step E y z"
  shows "sys_ok z \<and> accounted (sy_auth y) (sy_auth z)"
  using assms(3)
proof cases
  case (refresh p t b)
  have a: "auth_ok (sy_auth y)" using assms(2) by (simp add: sys_ok_def)
  then show ?thesis using refresh assms(2) Refresh_ok[OF a refresh(3)] Refresh_hashes[OF auth_ok_wf[OF a] refresh(3)]
    by (simp add: sys_ok_def)
next
  case (challenge p token t ip r b)
  then show ?thesis using assms(1,2) Challenge_ok[of "sy_auth y" E token] Challenge_fields[OF challenge(2)]
    by (simp add: sys_ok_def accounted_same)
next
  case (begin_fail p t ip d e b)
  then show ?thesis using assms(2) Login_begin_ok[OF _ begin_fail(2)] Login_begin_fields[OF begin_fail(2)]
    by (simp add: sys_ok_def accounted_same)
next
  case (begin_hash p t ip d c b)
  then show ?thesis using assms(2) Login_begin_ok[OF _ begin_hash(2)] Login_begin_fields[OF begin_hash(2)]
    by (simp add: sys_ok_def accounted_same)
next
  case (finish begun c ip p r pw ctx t res b)
  have a: "auth_ok (sy_auth y)" using assms(2) by (simp add: sys_ok_def)
  show ?thesis using finish assms(2) Login_finish_ok[OF a finish(3) assms(1) finish(5)]
      Login_finish_accounted[OF a finish(4,5)]
    by (auto simp add: sys_ok_def length_remove1)
next
  case (lookup p t token ip agent touch r b)
  then show ?thesis using assms(2) Lookup_ok[OF _ lookup(2)] by (simp add: sys_ok_def)
next
  case (logout t token)
  then show ?thesis using assms(2) Logout_ok by (simp add: sys_ok_def)
next
  case (reset t)
  then show ?thesis using assms(2) ResetLocks_ok by (simp add: sys_ok_def)
next
  case (password salt gen io current new e f)
  then show ?thesis using assms(2) by (simp add: sys_ok_def accounted_same)
qed

text \<open>A token hash that never yields the empty key, as a hexadecimal SHA-256 does not.\<close>

definition hash_nonempty :: "auth_env \<Rightarrow> bool" where
  "hash_nonempty E \<longleftrightarrow> (\<forall>s. ae_tokenHash E s \<noteq> [])"

interpretation entrance: invariant_system opened "\<lambda>y z. hash_nonempty E \<and> auth_step E y z" sys_ok for E
  by unfold_locales (auto simp: hash_nonempty_def intro: opened_ok auth_step_ok[THEN conjunct1])

lemma auth_steps: "hash_nonempty E \<Longrightarrow> (auth_step E)\<^sup>*\<^sup>* y z \<Longrightarrow> (\<lambda>y z. hash_nonempty E \<and> auth_step E y z)\<^sup>*\<^sup>* y z"
  by simp

lemma reachable_accounted:
  assumes "hash_nonempty E" "sys_ok y" "(auth_step E)\<^sup>*\<^sup>* y z"
  shows "accounted (sy_auth y) (sy_auth z)"
  using assms(3)
proof (induction rule: rtranclp_induct)
  case base
  then show ?case by (simp add: accounted_def)
next
  case (step z1 z2)
  have "sys_ok z1" using entrance.steps_inv[OF auth_steps[OF assms(1) step(1)] assms(2)] .
  then show ?case using auth_step_ok[of E z1 z2] assms(1) step(2,3) accounted_trans
    unfolding hash_nonempty_def by blast
qed

section \<open>Properties\<close>

text \<open>
  C14: Whatever clients do, the public entrance keeps bounded state: at most 8 sessions with at most 16
  source addresses each, at most 512 failing sources, at most 128 login challenges and 4 of any
  one source, at most 256 events and at most two password hashes at a time.\<close>

theorem auth_bounded:
  assumes "hash_nonempty E" and "opened y" and "(auth_step E)\<^sup>*\<^sup>* y z"
  shows "length (au_sessions (sy_auth z)) \<le> 8
     \<and> (\<forall>ks\<in>set (au_sessions (sy_auth z)). length (ss_sources (snd ks)) \<le> 16)
     \<and> length (au_failures (sy_auth z)) \<le> 512
     \<and> length (au_challenges (sy_auth z)) \<le> 128
     \<and> length (filter (\<lambda>kc. ch_IP (snd kc) = src) (au_challenges (sy_auth z))) \<le> 4
     \<and> length (au_events (sy_auth z)) \<le> 256
     \<and> length (sy_pending z) \<le> 2"
  using entrance.reachable_inv[OF assms(2) auth_steps[OF assms(1,3)]]
  by (simp add: sys_ok_def auth_ok_def sessions_ok_def failures_ok_def challenges_ok_def)

text \<open>
  No session is lost: from any reachable state on, every session that was in the table is still
  there or its context has been cancelled, so a revoked, evicted or expired session stops its
  readers.\<close>

theorem sessions_accounted:
  assumes "hash_nonempty E" and "opened y" and "(auth_step E)\<^sup>*\<^sup>* y z" and "(auth_step E)\<^sup>*\<^sup>* z w"
    and "(k, s) \<in> set (au_sessions (sy_auth z))"
  shows "(\<exists>k' s'. (k', s') \<in> set (au_sessions (sy_auth w)) \<and> ss_ID s' = ss_ID s) \<or> ss_ID s \<in> set (au_cancelled (sy_auth w))"
proof -
  have "sys_ok z" by (rule entrance.reachable_inv[OF assms(2) auth_steps[OF assms(1,3)]])
  from reachable_accounted[OF assms(1) this assms(4)] have
    "session_ids (sy_auth z) \<subseteq> session_ids (sy_auth w) \<union> set (au_cancelled (sy_auth w))" by (simp add: accounted_def)
  moreover have "ss_ID s \<in> session_ids (sy_auth z)" using assms(5) by (force simp: session_ids_def)
  ultimately show ?thesis by (force simp: session_ids_def)
qed

lemma login_issues:
  assumes "Login_finish E begun p c pw ctx t ip r a = Some (Inr s, b)"
  shows "map_of (au_sessions b) (ae_tokenHash E (ns_token r)) = Some s"
  using assms by (cases rule: Login_finish_cases) (auto simp: issue_def Let_def update_conv)

text \<open>
  C10: A session is issued only for the current credential and policy. When the second half of a login
  returns a session, the password verified against a credential of the generation now in force,
  the entrance is enabled and admits the address, neither the source nor the entrance is locked,
  and the new session is in the table, which respects the configured maximum.\<close>

theorem login_guarded:
  assumes "Login_finish E begun p c pw ctx t ip r a = Some (Inr s, b)"
  shows "verify E c pw \<and> cr_Generation c = cr_Generation (au_credential a)
     \<and> Enabled (Effective p) \<and> AllowsIP (Security (Effective p)) ip
     \<and> \<not> globally_paused (Security (Effective p)) t a ip
     \<and> (\<forall>f. map_of (au_failures a) (sourceKey ip) = Some f \<longrightarrow>
          (FailureLock (Security (Effective p)) \<longrightarrow> sf_Locked f \<le> t)
          \<and> (AutoBlacklist (Security (Effective p)) \<longrightarrow> sf_Blacklisted f \<le> t))
     \<and> map_of (au_sessions b) (ae_tokenHash E (ns_token r)) = Some s
     \<and> int (length (au_sessions b)) \<le> MaxSessions (Effective p)"
  using assms
proof (cases rule: Login_finish_cases)
  case (issued d s')
  have "int (length (au_sessions d)) \<le> MaxSessions (Effective p) - 1" using evict_down_ok[OF issued(5)] by blast
  then have "int (length (au_sessions b)) \<le> MaxSessions (Effective p)"
    using issued(6) by (auto simp: issue_def Let_def length_update)
  then show ?thesis using issued(1,3,4) login_issues[OF assms]
    by (auto simp: login_refused_def Let_def globally_paused_def split: option.splits)
qed simp_all

text \<open>
  A login challenge is used at most once. Under the cookie check, the first half of a login goes on
  only with an unexpired challenge issued to the same source, and removes it: a second login with
  the same token is refused unless the token is issued again.\<close>

theorem challenge_single_use:
  assumes "Login_begin E p t ip d a = (Inr c, b)" and "CookieCheck (Security (Effective p))"
  shows "(\<exists>ch. map_of (au_challenges a) (ae_tokenHash E d) = Some ch \<and> t < ch_Until ch \<and> ch_IP ch = sourceKey ip)
     \<and> (CookieCheck (Security (Effective p')) \<longrightarrow> (\<exists>e. fst (Login_begin E p' t' ip' d b) = Inl e))"
proof -
  have "map_of (au_challenges b) (ae_tokenHash E d) = None"
    and ch: "\<exists>ch. map_of (au_challenges a) (ae_tokenHash E d) = Some ch \<and> t < ch_Until ch \<and> ch_IP ch = sourceKey ip"
    using assms by (auto simp: Login_begin_def Let_def consumeChallengeLocked_def delete_conv
        split: if_splits option.splits)
  then have "\<exists>e. fst (Login_begin E p' t' ip' d b) = Inl e" if "CookieCheck (Security (Effective p'))"
    using that by (simp add: Login_begin_def Let_def consumeChallengeLocked_def)
  then show ?thesis using ch by blast
qed

text \<open>
  C32: A session is only honoured within its limits. When Lookup returns a session, the token names it
  in the table, the address is admitted and not blacklisted, the session is neither idle nor older
  than the configured limits, a bound session is used by the same source and agent, and the
  address is now one of its recorded sources.\<close>

theorem lookup_sound:
  assumes "Lookup E p t token ip agent touch a = (Some s', b)"
  shows "\<exists>s. map_of (au_sessions a) (ae_tokenHash E token) = Some s \<and> ss_ID s' = ss_ID s
     \<and> Enabled (Effective p) \<and> AllowsIP (Security (Effective p)) ip \<and> \<not> blacklisted (Security (Effective p)) t a ip
     \<and> t - ss_Active s < minutes (IdleMinutes (Effective p)) \<and> t - ss_Created s < hours (AbsoluteHours (Effective p))
     \<and> (SessionBinding (Security (Effective p)) \<longrightarrow>
          sourceKey (ss_Source s) = sourceKey ip \<and> ss_Agent s = ae_tokenHash E agent)
     \<and> ip \<in> set (ss_sources s') \<and> map_of (au_sessions b) (ae_tokenHash E token) = Some s'"
  using assms
proof (cases rule: Lookup_cases)
  case (found s s'')
  have al: "Enabled (Effective p)" "AllowsIP (Security (Effective p)) ip" "\<not> blacklisted (Security (Effective p)) t a ip"
    using found(7) by (auto simp: Allowed_def blacklisted_def Let_def split: if_splits option.splits)
  have ex: "t - ss_Active s < minutes (IdleMinutes (Effective p))" "t - ss_Created s < hours (AbsoluteHours (Effective p))"
    using found(8) by (auto simp: expired_def)
  have "map_of (au_sessions b) (ae_tokenHash E token) = Some s'" using found(2,3) by (simp add: update_conv)
  then show ?thesis using found(1,2,4,9,10) al ex by blast
qed simp_all

text \<open>Successive failed logins of one address.\<close>

definition failures_at :: "auth_env \<Rightarrow> PublicSecurityPolicy \<Rightarrow> string \<Rightarrow> int list \<Rightarrow> Auth \<Rightarrow> Auth" where
  "failures_at E p ip ts a = foldl (\<lambda>a t. failureLocked E p t ip a) a ts"

lemma failureLocked_entry:
  assumes "map_of (au_failures a) (sourceKey ip) = Some f \<or> map_of (au_failures a) (sourceKey ip) = None \<and> f = zero_failures \<and> length (au_failures a) < 512"
  shows "map_of (au_failures (failureLocked E p t ip a)) (sourceKey ip) =
     Some (let g = count_failure p t f in if lock_now p t g then lock_source p t g else g)"
  using assms by (auto simp: failureLocked_def Let_def global_failure_frame source_failure_failures update_conv)

lemma count_failures:
  assumes p: "FailureLock p" "security_limits p = None"
    and t0: "minutes (FailureWindowMinutes p) \<le> t0" "map_of (au_failures a) (sourceKey ip) = None" "length (au_failures a) < 512"
  shows "ts \<noteq> [] \<Longrightarrow> hd ts = t0 \<Longrightarrow> \<forall>t\<in>set ts. t0 \<le> t \<and> t < t0 + minutes (FailureWindowMinutes p) \<Longrightarrow>
     int (length ts) < FailureLimit p \<Longrightarrow>
     \<exists>f. map_of (au_failures (failures_at E p ip ts a)) (sourceKey ip) = Some f
        \<and> sf_Count f = int (length ts) \<and> sf_Since f = t0 \<and> sf_Locked f = 0"
proof (induction ts rule: rev_induct)
  case (snoc t ts)
  have lim: "1 \<le> FailureLimit p" "1 \<le> FailureWindowMinutes p" using p(2) by (auto simp: security_limits_def split: if_splits)
  have pos: "0 < minutes (FailureWindowMinutes p)" using lim by (simp add: minutes_def)
  show ?case
  proof (cases "ts = []")
    case True
    then have t: "t = t0" using snoc.prems by simp
    have "count_failure p t0 zero_failures = \<lparr>sf_Since = t0, sf_Count = 1, sf_Locks = 0, sf_Locked = 0, sf_Blacklisted = 0, sf_Seen = t0\<rparr>"
      using t0(1) by (simp add: count_failure_def zero_failures_def Let_def)
    moreover have "1 < FailureLimit p" using snoc.prems(4) True by simp
    ultimately show ?thesis
      using failureLocked_entry[of a ip zero_failures E p t0] t0(2,3) True t
      by (simp add: failures_at_def Let_def lock_now_def)
  next
    case False
    have "hd ts = t0" "\<forall>t\<in>set ts. t0 \<le> t \<and> t < t0 + minutes (FailureWindowMinutes p)" "int (length ts) < FailureLimit p"
      using snoc.prems False by auto
    then obtain f where f: "map_of (au_failures (failures_at E p ip ts a)) (sourceKey ip) = Some f"
        "sf_Count f = int (length ts)" "sf_Since f = t0" "sf_Locked f = 0"
      using snoc.IH False by blast
    have t: "t0 \<le> t" "t < t0 + minutes (FailureWindowMinutes p)" using snoc.prems by auto
    have "count_failure p t f = f\<lparr>sf_Seen := t, sf_Count := sf_Count f + 1\<rparr>"
      using t f(3) by (simp add: count_failure_def Let_def)
    moreover have "\<not> FailureLimit p \<le> sf_Count f + 1" using snoc.prems(4) f(2) by simp
    ultimately show ?thesis
      using failureLocked_entry[OF disjI1[OF f(1)], of E p t] f
      by (simp add: failures_at_def Let_def lock_now_def)
  qed
qed simp

text \<open>
  Guessing locks the source. As many failed logins from a source without history as the failure
  limit, within the failure window, lock the source: until the lock expires it is admitted to no
  login, and a login attempt is refused without changing anything.\<close>

theorem lockout_after_limit:
  assumes "FailureLock p" and "security_limits p = None"
    and "map_of (au_failures a) (sourceKey ip) = None" and "length (au_failures a) < 512"
    and "int (length ts) = FailureLimit p" and "minutes (FailureWindowMinutes p) \<le> hd ts"
    and "\<forall>t\<in>set ts. hd ts \<le> t \<and> t < hd ts + minutes (FailureWindowMinutes p)"
    and "b = failures_at E p ip ts a"
    and "FailureLock (Security (Effective policy))" and "now < last ts + minutes (LockMinutes p)"
  shows "\<not> Allowed policy now b ip False
     \<and> Login_begin E policy now ip detection b = (Inl (ErrorsNew ''login denied''), b)"
proof -
  have lim: "1 \<le> FailureLimit p" "1 \<le> FailureWindowMinutes p" using assms(2) by (auto simp: security_limits_def split: if_splits)
  then obtain us t where ts: "ts = us @ [t]" using assms(5) by (cases ts rule: rev_cases) auto
  let ?u = "failures_at E p ip us a"
  have pos: "0 < minutes (FailureWindowMinutes p)" using lim by (simp add: minutes_def)
  have tge: "0 \<le> t" "hd ts \<le> t" "t < hd ts + minutes (FailureWindowMinutes p)" using assms(6,7) ts pos by force+
  have entry: "\<exists>f. map_of (au_failures (failureLocked E p t ip ?u)) (sourceKey ip) = Some f \<and> sf_Locked f = t + minutes (LockMinutes p)"
  proof (cases "us = []")
    case True
    then have "failures_at E p ip us a = a" "hd ts = t" by (simp_all add: failures_at_def ts)
    moreover have "FailureLimit p = 1" using assms(5) ts True by simp
    moreover have "lock_now p t (count_failure p t zero_failures)"
      using \<open>hd ts = t\<close> \<open>FailureLimit p = 1\<close> assms(1,6) tge(1)
      by (simp add: lock_now_def count_failure_def zero_failures_def Let_def)
    ultimately show ?thesis using failureLocked_entry[of a ip zero_failures E p t] assms(3,4)
      by (simp add: Let_def lock_source_def)
  next
    case False
    then have "hd us = hd ts" "int (length us) < FailureLimit p" "FailureLimit p = int (length us) + 1"
      using ts assms(5) by auto
    then obtain f where f: "map_of (au_failures ?u) (sourceKey ip) = Some f" "sf_Count f = int (length us)"
        "sf_Since f = hd ts" "sf_Locked f = 0"
      using count_failures[OF assms(1,2,6,3,4) False] assms(7) ts by auto
    have "count_failure p t f = f\<lparr>sf_Seen := t, sf_Count := sf_Count f + 1\<rparr>"
      using tge f(3) by (simp add: count_failure_def Let_def)
    then have "lock_now p t (count_failure p t f)"
      using f(2,4) assms(1) tge(1) \<open>FailureLimit p = int (length us) + 1\<close> by (simp add: lock_now_def)
    then show ?thesis using failureLocked_entry[OF disjI1[OF f(1)], of E p t] by (simp add: Let_def lock_source_def)
  qed
  have b: "b = failureLocked E p t ip ?u" using assms(8) ts by (simp add: failures_at_def)
  have "\<not> Allowed policy now b ip False"
    using entry assms(9,10) ts unfolding b by (auto simp: Allowed_def Let_def)
  then show ?thesis by (simp add: Login_begin_def Let_def)
qed

text \<open>
  C33: Revocation is complete. A refresh that finds the credential unreadable or of another generation,
  the entrance disabled or its origin changed empties the session table and cancels every session
  it held; afterwards the current credential is the stored one if it is readable.\<close>

theorem refresh_revokes:
  assumes "auth_ok a" and "Refresh E p stored t a = Some b"
    and "(\<forall>c. loadCredential stored = Some c \<longrightarrow> cr_Generation c \<noteq> cr_Generation (au_credential a))
         \<or> \<not> Enabled (Effective p) \<or> Origin (Effective p) \<noteq> au_origin a"
  shows "au_sessions b = [] \<and> (\<forall>(k, s)\<in>set (au_sessions a). ss_ID s \<in> set (au_cancelled b))
     \<and> (\<forall>c. loadCredential stored = Some c \<longrightarrow> au_credential b = c)"
proof -
  note st = Refresh_stages[OF assms(2) auth_ok_wf[OF assms(1)]]
  let ?c = "revoke_check E (Effective p) (loadCredential stored) t a"
  have "au_sessions ?c = []"
    using assms(3) revokeAllLocked_empty(2) auth_ok_wf[OF assms(1)]
    by (auto simp: revoke_check_def split: option.splits)
  then have none: "au_sessions b = []" using st(2,4,5)
    by (auto simp: revoking_def sessions_shrink_def drop_failures_def drop_challenges_def)
  have "session_ids a \<subseteq> set (au_cancelled b)"
    using Refresh_ok[OF assms(1,2)] none by (simp add: accounted_def session_ids_def)
  moreover have "au_credential b = c" if "loadCredential stored = Some c" for c
    using st(4,5) that by (simp add: revoking_def session_frame_def drop_failures_def drop_challenges_def adopt_def)
  ultimately show ?thesis using none by (auto simp: session_ids_def)
qed

text \<open>
  C34: The eviction loops end. With a validated policy, Refresh and the second half of a login return on
  every state the entrance can be in, and leave at most the configured number of sessions.\<close>

theorem eviction_terminates:
  assumes "auth_ok a" and "session_limits (Effective p) = None"
  shows "(\<exists>b. Refresh E p stored t a = Some b \<and> int (length (au_sessions b)) \<le> MaxSessions (Effective p))
     \<and> (\<exists>r b. Login_finish E begun p c pw ctx t ip new a = Some (r, b))"
proof -
  have ms: "1 \<le> MaxSessions (Effective p)" using assms(2) by (auto simp: session_limits_def split: if_splits)
  let ?c = "revoke_check E (Effective p) (loadCredential stored) t a"
  let ?d = "adopt (Effective p) (loadCredential stored) ?c"
  let ?e = "refresh_loop E (Effective p) t (au_sessions ?d) ?d"
  let ?f = "drop_failures t (drop_challenges t ?e)"
  have wf: "gm_wf (au_sessions a)" by (rule auth_ok_wf[OF assms(1)])
  have "auth_ok ?c" by (rule revoking_ok[OF revoking_revoke_check[OF wf] assms(1)])
  then have d: "auth_ok ?d" by (simp add: adopt_def auth_ok_def)
  have "auth_ok ?f" using drop_ok revoking_ok[OF revoking_refresh_loop[OF subset_refl auth_ok_wf[OF d]] d] by blast
  then have "\<exists>b. evict_down (length (au_sessions ?f)) E t (MaxSessions (Effective p)) ?f = Some b"
    using ms by (intro evict_down_total) (auto simp: auth_ok_def sessions_ok_def)
  then obtain b where b: "Refresh E p stored t a = Some b" by (auto simp: Refresh_def Let_def)
  have "\<exists>b. evict_down (length (au_sessions a)) E t (MaxSessions (Effective p) - 1) (a\<lparr>au_hashes := n\<rparr>) = Some b" for n
    using evict_down_total[of "a\<lparr>au_hashes := n\<rparr>" "MaxSessions (Effective p) - 1" "length (au_sessions a)" E t] ms assms(1)
    by (simp add: auth_ok_def sessions_ok_def)
  then have "\<exists>r b. Login_finish E begun p c pw ctx t ip new a = Some (r, b)"
    unfolding Login_finish_def Let_def by (fastforce split: option.split simp: case_prod_beta)
  then show ?thesis using b Refresh_stages(6)[OF b wf] by blast
qed

section \<open>Witnesses\<close>

text \<open>A concrete environment: a prefixed token as its hash, the salted password as its key.\<close>

definition sample_auth_env :: auth_env where
  "sample_auth_env = \<lparr>ae_tokenHash = (\<lambda>s. CHR ''h'' # s), ae_IDKey = (\<lambda>pw salt t m p. take 32 (salt @ pw)), ae_append = None\<rparr>"

definition sample_credential :: "char \<Rightarrow> credential" where
  "sample_credential g =
     \<lparr>cr_Version = 1, cr_Memory = 64 * 1024, cr_Time = 3, cr_Threads = 2, cr_Salt = ''0123456789abcdef'',
      cr_Hash = ''0123456789abcdefcorrect horse bt'', cr_Generation = replicate 64 g\<rparr>"

definition sample_public :: PublicWebConfig where
  "sample_public = DefaultPublicWebConfig\<lparr>Enabled := True, Origin := ''https://a''\<rparr>"

definition sample_auth :: Auth where
  "sample_auth = (case NewAuth sample_public (Some (sample_credential (CHR ''1''))) of Inr a \<Rightarrow> a)"

abbreviation sample_time :: int where
  "sample_time \<equiv> 1800000000000000000"

definition sample_challenged :: Auth where
  "sample_challenged = snd (Challenge sample_auth_env sample_public ''nonce'' sample_time ''10.0.0.1'' sample_auth)"

definition sample_hashing :: Auth where
  "sample_hashing = snd (Login_begin sample_auth_env sample_public sample_time ''10.0.0.1'' ''nonce'' sample_challenged)"

definition sample_new :: new_session where
  "sample_new = \<lparr>ns_token = replicate 64 CHR ''t'', ns_ID = ''id'', ns_CSRF = ''csrf'', ns_agent = ''browser''\<rparr>"

definition sample_finish :: "(Session res \<times> Auth) option" where
  "sample_finish = Login_finish sample_auth_env sample_public sample_public (sample_credential (CHR ''1''))
     ''correct horse bt'' None sample_time ''10.0.0.1'' sample_new sample_hashing"

lemma sample_steps_evaluated:
  "fst (Login_begin sample_auth_env sample_public sample_time ''10.0.0.1'' ''nonce'' sample_challenged) = Inr (sample_credential (CHR ''1''))"
  "case sample_finish of Some (Inr s, b) \<Rightarrow> ss_ID s = ''id'' \<and> length (au_sessions b) = 1 | _ \<Rightarrow> False"
  "au_sessions sample_hashing = []" "session_limits (Effective sample_public) = None"
  "CookieCheck (Security (Effective sample_public))" "security_limits (Security sample_public) = None"
  by code_simp+

definition sample_sys :: auth_sys where
  "sample_sys = \<lparr>sy_auth = sample_auth, sy_pending = [], sy_file = Some (sample_credential (CHR ''1''))\<rparr>"

lemma sample_NewAuth: "NewAuth sample_public (Some (sample_credential (CHR ''1''))) = Inr sample_auth"
  by (simp add: sample_auth_def NewAuth_def Let_def loadCredential_def credential_ok_def sample_credential_def)

lemma sample_opened: "opened sample_sys"
  using sample_NewAuth by (auto simp: opened_def sample_sys_def)

lemma sample_hash: "hash_nonempty sample_auth_env"
  by (simp add: hash_nonempty_def sample_auth_env_def)

lemma sample_finished: "\<exists>s b. sample_finish = Some (Inr s, b) \<and> length (au_sessions b) = 1"
proof (cases sample_finish)
  case (Some rb)
  obtain x b where rb: "rb = (x, b)" by (cases rb)
  show ?thesis using sample_steps_evaluated(2) unfolding Some rb by (cases x) auto
qed (use sample_steps_evaluated(2) in simp)

lemma sample_reached:
  assumes "sample_finish = Some (Inr s, b)"
  shows "(auth_step sample_auth_env)\<^sup>*\<^sup>* sample_sys (sample_sys\<lparr>sy_auth := b\<rparr>)"
proof -
  let ?c = "sample_credential (CHR ''1'')"
  let ?y1 = "sample_sys\<lparr>sy_auth := sample_challenged\<rparr>"
  let ?y2 = "?y1\<lparr>sy_auth := sample_hashing, sy_pending := (sample_public, ?c, ''10.0.0.1'') # sy_pending ?y1\<rparr>"
  have "auth_step sample_auth_env sample_sys ?y1"
    using auth_step.challenge[OF prod.collapse[symmetric], of sample_auth_env sample_sys sample_public "''nonce''" sample_time "''10.0.0.1''"]
    by (simp add: sample_challenged_def sample_sys_def)
  moreover have "auth_step sample_auth_env ?y1 ?y2"
    by (rule auth_step.begin_hash[of _ _ sample_time _ "''nonce''"])
      (use sample_steps_evaluated(1) in \<open>simp add: sample_hashing_def prod_eq_iff\<close>)
  moreover have "auth_step sample_auth_env ?y2 (?y2\<lparr>sy_auth := b, sy_pending := remove1 (sample_public, ?c, ''10.0.0.1'') (sy_pending ?y2)\<rparr>)"
    by (rule auth_step.finish[of sample_public ?c "''10.0.0.1''" _ sample_public _ sample_new "''correct horse bt''" None sample_time "Inr s"])
      (use sample_steps_evaluated(3,4) assms in \<open>simp_all add: sample_finish_def\<close>)
  moreover have "?y2\<lparr>sy_auth := b, sy_pending := remove1 (sample_public, ?c, ''10.0.0.1'') (sy_pending ?y2)\<rparr> = sample_sys\<lparr>sy_auth := b\<rparr>"
    by (simp add: sample_sys_def)
  ultimately show ?thesis by (metis (no_types, lifting) converse_rtranclp_into_rtranclp rtranclp.rtrancl_refl)
qed

theorem auth_bounded_witness:
  "\<exists>s b. sample_finish = Some (Inr s, b) \<and> au_sessions b \<noteq> [] \<and> length (au_sessions b) \<le> 8"
proof -
  obtain s b where b: "sample_finish = Some (Inr s, b)" "length (au_sessions b) = 1" using sample_finished by blast
  have "length (au_sessions b) \<le> 8"
    using auth_bounded[OF sample_hash sample_opened sample_reached[OF b(1)]] by simp
  moreover have "au_sessions b \<noteq> []" using b(2) by auto
  ultimately show ?thesis using b(1) by blast
qed

theorem login_guarded_witness:
  "\<exists>s b. sample_finish = Some (Inr s, b) \<and> map_of (au_sessions b) (ae_tokenHash sample_auth_env (ns_token sample_new)) = Some s"
proof -
  obtain s b where b: "sample_finish = Some (Inr s, b)" using sample_finished by blast
  then show ?thesis using login_guarded[OF b[unfolded sample_finish_def]] by blast
qed

theorem sessions_accounted_witness:
  "\<exists>s b. sample_finish = Some (Inr s, b) \<and>
     ss_ID s \<in> set (au_cancelled (Logout sample_auth_env sample_time (ns_token sample_new) b))
       \<union> session_ids (Logout sample_auth_env sample_time (ns_token sample_new) b)"
proof -
  obtain s b where b: "sample_finish = Some (Inr s, b)" using sample_finished by blast
  let ?z = "sample_sys\<lparr>sy_auth := b\<rparr>"
  let ?w = "?z\<lparr>sy_auth := Logout sample_auth_env sample_time (ns_token sample_new) (sy_auth ?z)\<rparr>"
  have "(ae_tokenHash sample_auth_env (ns_token sample_new), s) \<in> set (au_sessions (sy_auth ?z))"
    using login_issues[OF b[unfolded sample_finish_def]] by (simp add: map_of_SomeD)
  moreover have "(auth_step sample_auth_env)\<^sup>*\<^sup>* ?z ?w" by (rule r_into_rtranclp, rule auth_step.logout)
  ultimately have "(\<exists>k' s'. (k', s') \<in> set (au_sessions (sy_auth ?w)) \<and> ss_ID s' = ss_ID s) \<or> ss_ID s \<in> set (au_cancelled (sy_auth ?w))"
    using sessions_accounted[OF sample_hash sample_opened sample_reached[OF b]] by blast
  then show ?thesis using b by (force simp: session_ids_def)
qed

theorem challenge_single_use_witness:
  "\<exists>e. fst (Login_begin sample_auth_env sample_public sample_time ''10.0.0.1'' ''nonce'' sample_hashing) = Inl e"
proof -
  have "Login_begin sample_auth_env sample_public sample_time ''10.0.0.1'' ''nonce'' sample_challenged
      = (Inr (sample_credential (CHR ''1'')), sample_hashing)"
    using sample_steps_evaluated(1) by (simp add: sample_hashing_def prod_eq_iff)
  from challenge_single_use[OF this sample_steps_evaluated(5)] show ?thesis using sample_steps_evaluated(5) by blast
qed

definition sample_session_auth :: Auth where
  "sample_session_auth = (case sample_finish of Some (_, b) \<Rightarrow> b)"

lemma sample_lookup_evaluated:
  "case fst (Lookup sample_auth_env sample_public sample_time (replicate 64 CHR ''t'') ''10.0.0.2'' ''browser'' True sample_session_auth) of
     Some s \<Rightarrow> ss_ID s = ''id'' | None \<Rightarrow> False"
  by code_simp

theorem lookup_sound_witness:
  "\<exists>s b. Lookup sample_auth_env sample_public sample_time (replicate 64 CHR ''t'') ''10.0.0.2'' ''browser'' True sample_session_auth = (Some s, b)
     \<and> ''10.0.0.2'' \<in> set (ss_sources s)"
proof -
  obtain s b where l: "Lookup sample_auth_env sample_public sample_time (replicate 64 CHR ''t'') ''10.0.0.2'' ''browser'' True sample_session_auth = (Some s, b)"
    using sample_lookup_evaluated by (auto split: option.splits simp: prod_eq_iff)
  then show ?thesis using lookup_sound[OF l] by blast
qed

theorem lockout_after_limit_witness:
  "\<not> Allowed sample_public (sample_time + 10)
       (failures_at sample_auth_env (Security sample_public) ''10.0.0.9'' (map (\<lambda>i. sample_time + i) [0..4]) sample_auth) ''10.0.0.9'' False"
proof -
  have f: "au_failures sample_auth = []" by code_simp
  have s: "FailureLock (Security sample_public)" "FailureLock (Security (Effective sample_public))"
    "FailureLimit (Security sample_public) = 5" "FailureWindowMinutes (Security sample_public) = 15"
    "LockMinutes (Security sample_public) = 30" by code_simp+
  have ts: "map (\<lambda>i. sample_time + i) [0..4] = [sample_time, sample_time + 1, sample_time + 2, sample_time + 3, sample_time + 4]"
    by (simp add: upto.simps)
  show ?thesis
    using lockout_after_limit[OF s(1) sample_steps_evaluated(6) _ _ _ _ _ refl s(2),
        of sample_auth "''10.0.0.9''" "map (\<lambda>i. sample_time + i) [0..4]" "sample_time + 10" sample_auth_env]
    unfolding ts s by (simp add: f minutes_def s)
qed

lemma sample_session_ok: "auth_ok sample_session_auth"
proof -
  obtain s b where b: "sample_finish = Some (Inr s, b)" using sample_finished by blast
  have "sys_ok (sample_sys\<lparr>sy_auth := b\<rparr>)"
    by (rule entrance.reachable_inv[OF sample_opened auth_steps[OF sample_hash sample_reached[OF b]]])
  then show ?thesis unfolding sample_session_auth_def b by (simp add: sys_ok_def)
qed

theorem refresh_revokes_witness:
  "\<exists>b. Refresh sample_auth_env sample_public (Some (sample_credential (CHR ''2''))) sample_time sample_session_auth = Some b
     \<and> au_sessions b = []"
proof -
  have e: "case Refresh sample_auth_env sample_public (Some (sample_credential (CHR ''2''))) sample_time sample_session_auth of Some _ \<Rightarrow> True | None \<Rightarrow> False"
    "cr_Generation (sample_credential (CHR ''2'')) \<noteq> cr_Generation (au_credential sample_session_auth)"
    by code_simp+
  then obtain b where b: "Refresh sample_auth_env sample_public (Some (sample_credential (CHR ''2''))) sample_time sample_session_auth = Some b"
    by (auto split: option.splits)
  have "\<forall>c. loadCredential (Some (sample_credential (CHR ''2''))) = Some c \<longrightarrow> cr_Generation c \<noteq> cr_Generation (au_credential sample_session_auth)"
    using e(2) by (auto simp: loadCredential_def split: if_splits)
  then show ?thesis using refresh_revokes[OF sample_session_ok b] b by blast
qed

theorem eviction_terminates_witness:
  "\<exists>b. Refresh sample_auth_env sample_public None sample_time sample_session_auth = Some b"
  using eviction_terminates[OF sample_session_ok sample_steps_evaluated(4)] by blast

end
