(* ===== verification/Command_Policy.thy ===== *)
theory Command_Policy
  imports File_Policy
begin

text \<open>
  The decisions of commands.go and command_service.go that precede a launch: which rule applies to
  a command, which execution backend it may use, whether its executable is allowed, the bounds of a
  service and the extension of its deadline. Times are nanoseconds; canonicalCommandPath, which asks
  the operating system, is an argument.
\<close>

section \<open>Rules\<close>

record commandArguments =
  ca_Command :: string
  ca_Args :: "string list"
  ca_Cwd :: string
  ca_Check :: bool
  ca_Background :: bool
  ca_Mode :: string
  ca_DurationSeconds :: int
  ca_ReadyText :: string
  ca_ReadyTimeout :: int

definition commandRuleMatches ::
    "platform \<Rightarrow> (string \<Rightarrow> string res) \<Rightarrow> CommandRule \<Rightarrow> string \<Rightarrow> string \<Rightarrow> commandArguments \<Rightarrow> bool" where
  "commandRuleMatches P canonicalCommandPath rule requested resolved args =
     (let program = TrimSpace (cr_Program rule)
      in if (if IsAbs P program
             then \<not> samePath P program resolved
                  \<and> (case canonicalCommandPath program of Inl _ \<Rightarrow> True | Inr c \<Rightarrow> \<not> samePath P c resolved)
             else \<not> EqualFold P program (Base P requested) \<and> \<not> EqualFold P program (Base P resolved))
         then False
         else if cr_Cwd rule = ''workspace'' \<and> ca_Cwd args \<noteq> [] \<and> ca_Cwd args \<noteq> ''.'' then False
         else if cr_Cwd rule = ''selected_roots'' then False
         else cr_Args rule = [] \<or> cr_Args rule = ca_Args args)"

text \<open>The loop, with the decision so far as its accumulator.\<close>

fun decision_loop :: "(CommandRule \<Rightarrow> bool) \<Rightarrow> CommandRuleDecision \<Rightarrow> CommandRule list \<Rightarrow> CommandRuleDecision" where
  "decision_loop matches decision [] = decision"
| "decision_loop matches decision (rule # rules) =
     (if \<not> matches rule then decision_loop matches decision rules
      else if cr_Decision rule = CommandRuleDeny then CommandRuleDeny
      else if cr_Decision rule = CommandRuleAsk then decision_loop matches CommandRuleAsk rules
      else if cr_Decision rule = CommandRuleAllow
      then decision_loop matches (if decision = [] then CommandRuleAllow else decision) rules
      else decision_loop matches decision rules)"

definition commandRuleDecision ::
    "platform \<Rightarrow> (string \<Rightarrow> string res) \<Rightarrow> CommandRule list \<Rightarrow> string \<Rightarrow> string \<Rightarrow> commandArguments \<Rightarrow> CommandRuleDecision" where
  "commandRuleDecision P canonicalCommandPath rules requested resolved args =
     decision_loop (\<lambda>rule. commandRuleMatches P canonicalCommandPath rule requested resolved args) [] rules"

section \<open>Backend and allowlist\<close>

definition executionMode :: "CommandConfig \<Rightarrow> ExecutionProfile \<Rightarrow> CommandExecutionMode" where
  "executionMode config profile =
     (if cc_Execution config = [] \<and> ep_Generation profile = [] then CommandExecutionHostExplicit
      else effectiveCommandExecution config)"

definition validateExecutionBackend :: "CommandConfig \<Rightarrow> ExecutionProfile \<Rightarrow> err" where
  "validateExecutionBackend config profile =
     (let mode = executionMode config profile
      in if mode = CommandExecutionHostExplicit then
           (if ep_Generation profile \<noteq> [] \<and> ep_SandboxMode profile \<noteq> SandboxHostFull
            then Some (Sentinel ErrHostExecutionRequiresFull) else None)
         else if mode = CommandExecutionSandboxed then None
         else Some (ErrorsNew ''harness: invalid command execution backend''))"

definition normalizeCommandPath :: "platform \<Rightarrow> string \<Rightarrow> string res" where
  "normalizeCommandPath P raw =
     (if ContainsAny raw nul_cr_lf \<or> \<not> IsAbs P raw then Inl (ErrorsNew ''command path must be absolute'')
      else let normalized = Clean P raw
        in if normalized = ''.'' \<or> length normalized > 4096 then Inl (ErrorsNew ''command path is invalid'')
           else Inr normalized)"

definition commandAllowed :: "platform \<Rightarrow> (string \<Rightarrow> string res) \<Rightarrow> string \<Rightarrow> string list \<Rightarrow> bool" where
  "commandAllowed P canonicalCommandPath command allowed =
     (allowed = []
      \<or> list_ex (\<lambda>path. samePath P command path
           \<or> (case canonicalCommandPath path of Inl _ \<Rightarrow> False | Inr c \<Rightarrow> samePath P command c)) allowed)"

section \<open>Services\<close>

definition serviceHardLimit :: int where
  "serviceHardLimit = 28800"

definition DefaultServicePolicy :: ServicePolicy where
  "DefaultServicePolicy = \<lparr>sp_Enabled = True, sp_DefaultSeconds = 1800, sp_MaxTotalSeconds = serviceHardLimit,
     sp_AllowLocalListen = False\<rparr>"

definition ServicePolicy_Validate :: "ServicePolicy \<Rightarrow> err" where
  "ServicePolicy_Validate p =
     (if sp_DefaultSeconds p < 0 \<or> sp_MaxTotalSeconds p < 0 \<or> sp_MaxTotalSeconds p > serviceHardLimit
      then Some (ErrorsNew ''service policy cannot exceed the 28800 second product hard limit'')
      else if sp_Enabled p \<and> (sp_DefaultSeconds p < 1 \<or> sp_DefaultSeconds p > sp_MaxTotalSeconds p
                 \<or> sp_MaxTotalSeconds p > serviceHardLimit)
      then Some (ErrorsNew ''service duration must be finite: 1 <= default <= maximum <= 28800 seconds'')
      else None)"

text \<open>valid_utf8 is unicode/utf8.ValidString; the result carries the arguments as updated.\<close>

definition serviceArguments ::
    "(string \<Rightarrow> bool) \<Rightarrow> CommandConfig \<Rightarrow> ExecutionProfile \<Rightarrow> commandArguments \<Rightarrow> commandArguments res" where
  "serviceArguments valid_utf8 config profile args =
     (if ca_Mode args \<noteq> [] \<and> ca_Mode args \<noteq> ''background'' \<and> ca_Mode args \<noteq> ''service''
      then Inl (ErrorsNew ''invalid command mode'')
      else let args = (if ca_Mode args = ''background'' then args\<lparr>ca_Background := True\<rparr> else args)
        in if ca_Mode args \<noteq> ''service'' then
             (if ca_DurationSeconds args \<noteq> 0 \<or> ca_ReadyText args \<noteq> [] \<or> ca_ReadyTimeout args \<noteq> 0
              then Inl (ErrorsNew ''duration/readiness require service mode'') else Inr args)
           else let p = cc_Services config
             in if \<not> sp_Enabled p then Inl (ErrorsNew ''service mode is disabled'')
                else case ServicePolicy_Validate p of Some e \<Rightarrow> Inl e | None \<Rightarrow>
                  (if \<not> sp_AllowLocalListen p
                   then Inl (ErrorsNew ''service mode requires explicit commands.services.allow_local_listen; Full does not enforce a loopback-only listener'')
                   else if executionMode config profile \<noteq> CommandExecutionHostExplicit
                   then Inl (Errorf ''NOT_SUPPORTED: sandbox service host loopback is unavailable; explicitly select Full/host to run a service: %w''
                               [] [Sentinel ErrSandboxUnsupported])
                   else let args = (if ca_DurationSeconds args = 0 then args\<lparr>ca_DurationSeconds := sp_DefaultSeconds p\<rparr> else args)
                     in if ca_DurationSeconds args < 1 \<or> ca_DurationSeconds args > sp_MaxTotalSeconds p
                        then Inl (ErrorsNew ''service duration exceeds finite total limit'')
                        else if length (ca_ReadyText args) > 1024 \<or> \<not> valid_utf8 (ca_ReadyText args)
                                \<or> CHR 0x00 \<in> set (ca_ReadyText args)
                        then Inl (ErrorsNew ''ready_text must be a UTF-8 literal of at most 1024 bytes'')
                        else if ca_ReadyText args \<noteq> [] then
                          (let args = (if ca_ReadyTimeout args = 0
                                       then args\<lparr>ca_ReadyTimeout := min 60 (ca_DurationSeconds args)\<rparr> else args)
                           in if ca_ReadyTimeout args < 1 \<or> ca_ReadyTimeout args > 300
                                 \<or> ca_ReadyTimeout args > ca_DurationSeconds args
                              then Inl (ErrorsNew ''readiness timeout must be 1..300 and within service duration'')
                              else Inr (args\<lparr>ca_Background := True\<rparr>))
                        else if ca_ReadyTimeout args \<noteq> 0
                        then Inl (ErrorsNew ''ready timeout requires literal ready text'')
                        else Inr (args\<lparr>ca_Background := True\<rparr>)))"

section \<open>Extending a service\<close>

record CommandExtension =
  ce_ID :: string
  ce_Revision :: int
  ce_ExpiresAt :: string
  ce_RequestKey :: string

text \<open>
  The part of a running command the extension reads and writes: its record (times parsed) and its
  monotonic deadline.
\<close>

record service_process =
  sv_Mode :: string
  sv_State :: string
  sv_Revision :: int
  sv_ExpiresAt :: int
  sv_MaxExpiresAt :: int
  sv_Extensions :: "CommandExtension list"
  sv_deadline :: int

definition finiteExtensionDeadline :: "int \<Rightarrow> int \<Rightarrow> int \<Rightarrow> int \<Rightarrow> int \<Rightarrow> int res" where
  "finiteExtensionDeadline now deadline old maxWall target =
     (if \<not> now < deadline then Inl (ErrorsNew ''service deadline already reached'')
      else if \<not> target > old \<or> target > maxWall
      then Inl (ErrorsNew ''extension must increase expiry within original total limit'')
      else Inr (deadline + (target - old)))"

text \<open>
  extend for a command this owner runs; parse is time.Parse of the requested expiry and saveErr the
  result of saving the new record. The result is the error, if any, and the process afterwards.
\<close>

definition extend ::
    "(string \<Rightarrow> int res) \<Rightarrow> err \<Rightarrow> int \<Rightarrow> service_process \<Rightarrow> CommandExtension \<Rightarrow> err \<times> service_process" where
  "extend parse saveErr now p request =
     (if ce_ID request = [] \<or> ce_Revision request < 1 \<or> ce_RequestKey request = [] \<or> length (ce_RequestKey request) > 128
      then (Some (ErrorsNew ''extension requires id, revision, target expiry and bounded request key''), p)
      else case parse (ce_ExpiresAt request) of Inl e \<Rightarrow> (Some e, p) | Inr target \<Rightarrow>
        (case find (\<lambda>saved. ce_RequestKey saved = ce_RequestKey request) (sv_Extensions p) of
           Some saved \<Rightarrow>
             if saved \<noteq> request then (Some (ErrorsNew ''extension request key reused with different content''), p)
             else (None, p)
         | None \<Rightarrow>
             if sv_Mode p \<noteq> ''service'' \<or> sv_State p \<noteq> ''running'' \<or> \<not> now < sv_deadline p
             then (Some (ErrorsNew ''service expiry or stopping already began''), p)
             else if ce_Revision request \<noteq> sv_Revision p
             then (Some (ErrorsNew ''stale command revision; read and preview again''), p)
             else if length (sv_Extensions p) \<ge> 64
             then (Some (ErrorsNew ''finite extension receipt limit reached (64); existing deadline unchanged''), p)
             else case finiteExtensionDeadline now (sv_deadline p) (sv_ExpiresAt p) (sv_MaxExpiresAt p) target of
                    Inl e \<Rightarrow> (Some e, p)
                  | Inr deadline \<Rightarrow>
                      (case saveErr of Some e \<Rightarrow> (Some e, p) | None \<Rightarrow>
                        (None, p\<lparr>sv_Revision := sv_Revision p + 1, sv_ExpiresAt := target,
                                 sv_Extensions := sv_Extensions p @ [request], sv_deadline := deadline\<rparr>))))"

section \<open>Lemmas\<close>

definition decided :: "(CommandRule \<Rightarrow> bool) \<Rightarrow> CommandRule list \<Rightarrow> CommandRuleDecision \<Rightarrow> bool" where
  "decided matches rules d \<longleftrightarrow> (\<exists>r \<in> set rules. matches r \<and> cr_Decision r = d)"

lemma decision_loop_spec:
  "acc \<in> {[], CommandRuleAllow, CommandRuleAsk} \<Longrightarrow>
   decision_loop m acc rules =
     (if decided m rules CommandRuleDeny then CommandRuleDeny
      else if acc = CommandRuleAsk \<or> decided m rules CommandRuleAsk then CommandRuleAsk
      else if acc = CommandRuleAllow \<or> decided m rules CommandRuleAllow then CommandRuleAllow else [])"
proof (induction rules arbitrary: acc)
  case Nil
  then show ?case by (auto simp: decided_def)
next
  case (Cons r rules)
  have d: "decided m (r # rules) x \<longleftrightarrow> (m r \<and> cr_Decision r = x) \<or> decided m rules x" for x by (auto simp: decided_def)
  show ?case using Cons.prems Cons.IH[of acc] Cons.IH[of CommandRuleAsk] Cons.IH[of CommandRuleAllow]
    unfolding d by (auto split: if_splits)
qed

text \<open>A budget that no sequence of extensions can exceed.\<close>

definition service_ok :: "int \<Rightarrow> service_process \<Rightarrow> bool" where
  "service_ok slack p \<longleftrightarrow> sv_deadline p - sv_ExpiresAt p = slack \<and> sv_ExpiresAt p \<le> sv_MaxExpiresAt p
     \<and> length (sv_Extensions p) \<le> 64"

inductive extend_step :: "service_process \<Rightarrow> service_process \<Rightarrow> bool" where
  "extend parse saveErr now p request = (e, p') \<Longrightarrow> extend_step p p'"

inductive_cases extend_stepE: "extend_step p p'"

lemma extend_cases:
  "extend parse saveErr now p request = (e, p') \<Longrightarrow>
     p' = p \<or> (\<exists>target. p' = p\<lparr>sv_Revision := sv_Revision p + 1, sv_ExpiresAt := target,
          sv_Extensions := sv_Extensions p @ [request], sv_deadline := sv_deadline p + (target - sv_ExpiresAt p)\<rparr>
        \<and> sv_ExpiresAt p < target \<and> target \<le> sv_MaxExpiresAt p \<and> length (sv_Extensions p) < 64
        \<and> now < sv_deadline p \<and> sv_State p = ''running'')"
  by (auto simp: extend_def finiteExtensionDeadline_def split: if_splits sum.splits option.splits)

lemma service_ok_step: "service_ok slack p \<Longrightarrow> extend_step p p' \<Longrightarrow> service_ok slack p' \<and> sv_MaxExpiresAt p' = sv_MaxExpiresAt p"
  by (auto simp: service_ok_def elim!: extend_stepE dest!: extend_cases)

interpretation extension: invariant_system
  "\<lambda>p. service_ok slack p \<and> sv_MaxExpiresAt p = limit" extend_step "\<lambda>p. service_ok slack p \<and> sv_MaxExpiresAt p = limit"
  for slack limit
  by unfold_locales (auto dest: service_ok_step)

section \<open>Properties\<close>

text \<open>
  The decision on a command does not depend on the order of its rules: deny if any matching
  rule denies, else ask if any matching rule asks, else allow if any matching rule allows, else no
  decision; so adding an allow rule can never override an explicit deny or ask.
\<close>

theorem rule_decision_order_free:
  "commandRuleDecision P canon rules requested resolved args =
     (let m = (\<lambda>d. \<exists>r \<in> set rules. commandRuleMatches P canon r requested resolved args \<and> cr_Decision r = d)
      in if m CommandRuleDeny then CommandRuleDeny
         else if m CommandRuleAsk then CommandRuleAsk
         else if m CommandRuleAllow then CommandRuleAllow else [])"
  unfolding commandRuleDecision_def by (subst decision_loop_spec) (auto simp: decided_def Let_def)

text \<open>
  C31: Commands run on the host only in Full mode. For the command configuration that the profile
  of a run yields, a backend check that passes with host execution implies that the profile's
  permission mode is Full.
\<close>

theorem host_execution_needs_full:
  assumes "buildExecutionProfile P config selection = Inr prof"
    and "cc = commandConfigForProfile base prof"
    and "validateExecutionBackend cc prof = None" and "executionMode cc prof \<noteq> CommandExecutionSandboxed"
  shows "executionMode cc prof = CommandExecutionHostExplicit \<and> ep_PermissionMode prof = PermissionFull"
proof -
  have iff: "ep_SandboxMode prof = SandboxHostFull \<longleftrightarrow> ep_PermissionMode prof = PermissionFull"
    and gen: "ep_Generation prof \<noteq> []"
    using build_profile_facts[OF assms(1)] by blast+
  show ?thesis using assms(3,4) iff gen
    by (auto simp: validateExecutionBackend_def Let_def split: if_splits)
qed

theorem host_execution_needs_full_witness:
  "\<exists>prof. buildExecutionProfile (unix_platform ''/'') sample_config (sample_selection PermissionFull) = Inr prof
     \<and> executionMode (commandConfigForProfile (cfg_Commands sample_config) prof) prof = CommandExecutionHostExplicit
     \<and> ep_PermissionMode prof = PermissionFull"
proof -
  obtain prof where b: "buildExecutionProfile (unix_platform ''/'') sample_config (sample_selection PermissionFull) = Inr prof"
    using build_sample[of PermissionFull] by auto
  have f: "ep_PermissionMode prof = PermissionFull" "ep_SandboxMode prof = SandboxHostFull"
    using build_profile_facts[OF b] by (simp_all add: sample_selection_def)
  have x: "cep_Execution (ep_CommandPolicy prof) = CommandExecutionHostExplicit"
    using b by (auto simp: sample_selection_def buildExecutionProfile_def profile_mode_def profile_for_mode_def
        profile_finish_def Let_def split: option.splits sum.splits if_splits)
  let ?cc = "commandConfigForProfile (cfg_Commands sample_config) prof"
  have m: "executionMode ?cc prof = CommandExecutionHostExplicit"
    using x by (simp add: executionMode_def commandConfigForProfile_def effectiveCommandExecution_def)
  have v: "validateExecutionBackend ?cc prof = None" using m f by (simp add: validateExecutionBackend_def)
  show ?thesis using host_execution_needs_full[OF b refl v] m b by auto
qed

text \<open>
  No sequence of extension requests renews a service beyond its original total limit: the
  deadline never moves past the initial deadline plus what was left between the recorded expiry
  and the original maximum, at most 64 extensions are recorded, and each accepted extension moves
  the deadline exactly as far as the recorded expiry, whatever the wall clock does.
\<close>

theorem service_extension_bounded:
  assumes "sv_ExpiresAt p \<le> sv_MaxExpiresAt p" and "length (sv_Extensions p) \<le> 64" and "extend_step\<^sup>*\<^sup>* p p'"
  shows "sv_deadline p' \<le> sv_deadline p + (sv_MaxExpiresAt p - sv_ExpiresAt p)
    \<and> sv_deadline p' - sv_deadline p = sv_ExpiresAt p' - sv_ExpiresAt p
    \<and> sv_ExpiresAt p' \<le> sv_MaxExpiresAt p \<and> length (sv_Extensions p') \<le> 64"
proof -
  have "service_ok (sv_deadline p - sv_ExpiresAt p) p \<and> sv_MaxExpiresAt p = sv_MaxExpiresAt p"
    using assms(1,2) by (simp add: service_ok_def)
  from extension.reachable_inv[OF this assms(3)] show ?thesis by (auto simp: service_ok_def)
qed

theorem service_extension_bounded_witness:
  "\<exists>p p'. extend_step\<^sup>*\<^sup>* p p' \<and> sv_deadline p = 100 \<and> sv_deadline p' = 130 \<and> sv_ExpiresAt p' \<le> sv_MaxExpiresAt p"
proof -
  define p where "p = \<lparr>sv_Mode = ''service'', sv_State = ''running'', sv_Revision = 1, sv_ExpiresAt = 1000,
    sv_MaxExpiresAt = 2000, sv_Extensions = [], sv_deadline = 100\<rparr>"
  define r where "r = \<lparr>ce_ID = ''c'', ce_Revision = 1, ce_ExpiresAt = ''t'', ce_RequestKey = ''k''\<rparr>"
  define p' where "p' = p\<lparr>sv_Revision := 2, sv_ExpiresAt := 1030, sv_Extensions := [r], sv_deadline := 130\<rparr>"
  have "extend (\<lambda>_. Inr 1030) None 50 p r = (None, p')"
    by (simp add: extend_def p_def r_def p'_def finiteExtensionDeadline_def)
  then have s: "extend_step\<^sup>*\<^sup>* p p'" using extend_step.intros by blast
  have "sv_ExpiresAt p' \<le> sv_MaxExpiresAt p"
    using service_extension_bounded[OF _ _ s] by (simp add: p_def)
  then show ?thesis using s by (intro exI[of _ p] exI[of _ p']) (simp add: p_def p'_def)
qed

end
