(* ===== verification/Collaboration_Plan.thy ===== *)
theory Collaboration_Plan
  imports Tool_Runner
begin

text \<open>
  collaboration_plan.go with the plan-level validators of collaboration_results.go: the plan a
  parent run executes, its validation (including the search for dependency cycles), the tools a
  child is assigned and the file subtrees they are confined to. What the validation asks of the
  rest of the program (the configuration validator, the memory policy) are fields of plan_env.
\<close>

section \<open>Plans\<close>

record ParentBudget =
  pb_MaxChildren :: int
  pb_MaxModelCalls :: int
  pb_MaxToolCalls :: int
  pb_MaxOutputBytes :: int
  pb_MaxConcurrentChildren :: int
  pb_MaxActiveSeconds :: int

definition ParentBudget_validate :: "ParentBudget \<Rightarrow> err" where
  "ParentBudget_validate b =
     (if pb_MaxChildren b < 1 \<or> pb_MaxChildren b > 16
         \<or> pb_MaxConcurrentChildren b < 1 \<or> pb_MaxConcurrentChildren b > 4
         \<or> pb_MaxConcurrentChildren b > pb_MaxChildren b
         \<or> pb_MaxModelCalls b < 1 \<or> pb_MaxModelCalls b > 1000
         \<or> pb_MaxToolCalls b < 1 \<or> pb_MaxToolCalls b > 1000
         \<or> pb_MaxOutputBytes b < 1024 \<or> pb_MaxOutputBytes b > 64 * 2 ^ 20
         \<or> pb_MaxActiveSeconds b < 1 \<or> pb_MaxActiveSeconds b > 3600
      then Some (ErrorsNew ''harness: invalid finite parent execution limits'') else None)"

record ChildBudget =
  cb_MaxSteps :: int
  cb_MaxSeconds :: int
  cb_MaxOutputBytes :: int
  cb_MaxCallOutputBytes :: int

record EvidenceRequirement =
  er_Kind :: string
  er_Target :: string

record ResultReference =
  rr_Source :: string
  rr_Scope :: string
  rr_Offset :: int
  rr_MaxBytes :: int

record RoleProfile =
  rp_Instructions :: string
  rp_ModelID :: string
  rp_Tools :: "string list"
  rp_Paths :: "string list"
  rp_OutputFormat :: string
  rp_Acceptance :: string
  rp_RequiredEvidence :: "EvidenceRequirement list"
  rp_Budget :: ChildBudget
  rp_Memory :: string

record ChildSpec =
  cs_Name :: string
  cs_Role :: string
  cs_Objective :: string
  cs_Context :: string
  cs_DependsOn :: "string list"
  cs_Results :: "ResultReference list"

record CollaborationPlan =
  cp_Objective :: string
  cp_Budget :: ParentBudget
  cp_Roles :: "(string, RoleProfile) gomap"
  cp_Children :: "ChildSpec list"
  cp_Parallel :: bool
  cp_MaxReplans :: int
  cp_Synthesis :: bool

section \<open>Assigned tools\<close>

record assignedTools =
  at_base :: ToolRunner
  at_definitions :: "ToolDefinition list"
  at_names :: "(string, ToolEffect) gomap"
  at_paths :: "string list"

definition scopePath :: "string \<Rightarrow> string res" where
  "scopePath raw =
     (let v = ReplaceAll_char (CHR 0x5C) (CHR ''/'') raw; clean = path_Clean v
      in if v = [] \<or> Contains v '':'' \<or> HasPrefix v ''/'' \<or> clean = ''..'' \<or> HasPrefix clean ''../''
            \<or> CHR 0x00 \<in> set v
         then Inl (ErrorsNew ''harness: authorized paths must be workspace-relative subtrees'')
         else Inr clean)"

fun assign_paths :: "string list \<Rightarrow> string list \<Rightarrow> string list res" where
  "assign_paths acc [] = Inr acc"
| "assign_paths acc (v # vs) =
     (case scopePath v of
        Inl _ \<Rightarrow> Inl (ErrorsNew ''harness: invalid or duplicate scope'')
      | Inr clean \<Rightarrow>
          if clean \<in> set acc then Inl (ErrorsNew ''harness: invalid or duplicate scope'')
          else assign_paths (acc @ [clean]) vs)"

text \<open>The map of the advertised definitions by name: the last definition of a name wins.\<close>

definition available :: "ToolRunner \<Rightarrow> string \<Rightarrow> ToolDefinition option" where
  "available base name = map_of (map (\<lambda>d. (td_Name d, d)) (rev (tr_Definitions base))) name"

fun assign_tools :: "assignedTools \<Rightarrow> string list \<Rightarrow> assignedTools res" where
  "assign_tools selected [] = Inr selected"
| "assign_tools selected (name # names) =
     (case available (at_base selected) name of
        None \<Rightarrow> Inl (ErrorsNew ''harness: unassigned, duplicate or delegating tool'')
      | Some definition \<Rightarrow>
          if map_of (at_names selected) name \<noteq> None \<or> Contains name ''delegate'' \<or> Contains name ''agent''
          then Inl (ErrorsNew ''harness: unassigned, duplicate or delegating tool'')
          else if HasPrefix name ''file_'' \<and> at_paths selected = []
          then Inl (ErrorsNew ''harness: file tools require explicit path authorization'')
          else assign_tools (selected\<lparr>at_names := AList.update name (td_Effect definition) (at_names selected),
                                      at_definitions := at_definitions selected @ [definition]\<rparr>) names)"

definition newAssignedTools :: "ToolRunner \<Rightarrow> RoleProfile \<Rightarrow> assignedTools res" where
  "newAssignedTools base role =
     (if length (rp_Tools role) > 32 \<or> length (rp_Paths role) > 16
      then Inl (ErrorsNew ''harness: too many assigned tools or paths'')
      else case assign_paths [] (rp_Paths role) of
             Inl e \<Rightarrow> Inl e
           | Inr paths \<Rightarrow>
               assign_tools \<lparr>at_base = base, at_definitions = [], at_names = [], at_paths = paths\<rparr> (rp_Tools role))"

definition allows :: "assignedTools \<Rightarrow> string \<Rightarrow> bool" where
  "allows tools v =
     (case scopePath v of
        Inl _ \<Rightarrow> False
      | Inr c \<Rightarrow> list_ex (\<lambda>pre. pre = ''.'' \<or> c = pre \<or> HasPrefix c (pre @ ''/'')) (at_paths tools))"

text \<open>
  decode stands for json.Unmarshal of the scoped arguments: the path and the paths of the changes.
\<close>

definition assigned_Prepare ::
    "(string \<Rightarrow> (string \<times> string list) option) \<Rightarrow> assignedTools \<Rightarrow> ToolCall \<Rightarrow> PreparedTool res" where
  "assigned_Prepare decode tools call =
     (case map_of (at_names tools) (tc_Name call) of
        None \<Rightarrow> Inl (ErrorsNew ''harness: tool was not assigned to this child'')
      | Some effect \<Rightarrow>
          (case (if HasPrefix (tc_Name call) ''file_'' then
                   (case decode (tc_Arguments call) of
                      None \<Rightarrow> Some (ErrorsNew ''harness: invalid scoped arguments'')
                    | Some (path, changes) \<Rightarrow>
                        if (if tc_Name call = ''file_batch_edit'' then list_all (allows tools) changes else allows tools path)
                        then None else Some (ErrorsNew ''harness: file outside authorized subtree''))
                 else None) of
             Some e \<Rightarrow> Inl e
           | None \<Rightarrow>
               (case tr_Prepare (at_base tools) call of
                  Inl e \<Rightarrow> Inl e
                | Inr prepared \<Rightarrow>
                    if pt_Effect prepared \<noteq> effect
                    then Inl (ErrorsNew ''harness: adapter effect changed from selected definition'')
                    else Inr prepared)))"

definition assigned_runner ::
    "(string \<Rightarrow> (string \<times> string list) option) \<Rightarrow> assignedTools \<Rightarrow> ToolRunner" where
  "assigned_runner decode tools =
     \<lparr>tr_Definitions = at_definitions tools, tr_Prepare = assigned_Prepare decode tools\<rparr>"

definition parallelSafe :: "ToolRunner \<Rightarrow> RoleProfile \<Rightarrow> bool" where
  "parallelSafe base role =
     (list_all (\<lambda>name. name \<in> {''file_read'', ''file_list'', ''file_search''}) (rp_Tools role)
      \<and> (case newAssignedTools base role of
           Inl _ \<Rightarrow> False
         | Inr selected \<Rightarrow> list_all (\<lambda>d. td_Effect d = EffectRead) (at_definitions selected)))"

section \<open>Validation of roles and children\<close>

fun references_loop :: "ChildSpec \<Rightarrow> ResultReference list \<Rightarrow> int \<Rightarrow> ResultReference list \<Rightarrow> int res" where
  "references_loop child seen tot [] = Inr tot"
| "references_loop child seen tot (ref # refs) =
     (if rr_Source ref = cs_Name child \<or> rr_Source ref \<notin> set (cs_DependsOn child) \<or> ref \<in> set seen
         \<or> rr_Scope ref \<notin> {''output'', ''summary'', ''findings'', ''references'', ''artifacts'', ''questions'', ''evidence''}
         \<or> rr_Offset ref < 0 \<or> rr_Offset ref > 2 ^ 20 \<or> rr_MaxBytes ref < 1 \<or> rr_MaxBytes ref > 32768
      then Inl (Sentinel ErrResultReference)
      else references_loop child (ref # seen) (tot + rr_MaxBytes ref) refs)"

definition validateResultReferences :: "ChildSpec \<Rightarrow> err" where
  "validateResultReferences child =
     (if length (cs_Results child) > 16 then Some (Sentinel ErrResultReference)
      else case references_loop child [] (int (length (cs_Context child))) (cs_Results child) of
             Inl e \<Rightarrow> Some e
           | Inr tot \<Rightarrow> if tot > 32768 then Some (Sentinel ErrContextLimit) else None)"

fun requirements_loop :: "EvidenceRequirement list \<Rightarrow> EvidenceRequirement list \<Rightarrow> err" where
  "requirements_loop seen [] = None"
| "requirements_loop seen (r # rs) =
     (if er_Kind r \<notin> {''read'', ''file_change'', ''command'', ''check'', ''http''} \<or> TrimSpace (er_Target r) = []
         \<or> length (er_Target r) > 4096 \<or> r \<in> set seen
      then Some (ErrorsNew ''harness: execution requirements need a supported kind and exact target'')
      else requirements_loop (r # seen) rs)"

definition validateEvidenceRequirements :: "EvidenceRequirement list \<Rightarrow> err" where
  "validateEvidenceRequirements rs =
     (if length rs > 16 then Some (ErrorsNew ''harness: too many execution requirements'')
      else requirements_loop [] rs)"

definition requirement_check :: "RoleProfile \<Rightarrow> assignedTools \<Rightarrow> EvidenceRequirement \<Rightarrow> err" where
  "requirement_check role tools r =
     (let has = (\<lambda>n. n \<in> set (rp_Tools role))
      in if er_Kind r = ''read'' \<and> (\<not> has ''file_read'' \<or> \<not> allows tools (er_Target r))
         then Some (ErrorsNew ''harness: read requirement needs the exact authorized file tool and path'')
         else if er_Kind r = ''file_change'' \<and> (\<not> allows tools (er_Target r)
                 \<or> (\<not> has ''file_edit'' \<and> \<not> has ''file_create'' \<and> \<not> has ''file_batch_edit''))
         then Some (ErrorsNew ''harness: change requirement needs an authorized file tool and path'')
         else if (er_Kind r = ''command'' \<or> er_Kind r = ''check'') \<and> \<not> has ''command_run''
         then Some (ErrorsNew ''harness: command requirement needs the authorized command tool'')
         else if er_Kind r = ''http'' \<and> \<not> has ''http_get''
         then Some (ErrorsNew ''harness: HTTP requirement needs the authorized network tool'')
         else None)"

definition validateRoleEvidence :: "RoleProfile \<Rightarrow> assignedTools \<Rightarrow> err" where
  "validateRoleEvidence role tools =
     first_err (validateEvidenceRequirements (rp_RequiredEvidence role)
                # map (requirement_check role tools) (rp_RequiredEvidence role))"

definition childPrompt :: "ChildSpec \<Rightarrow> RoleProfile \<Rightarrow> string" where
  "childPrompt child role =
     (let format = (if rp_OutputFormat role = ''json''
            then ''Return exactly one JSON object {\"summary\":\"...\",\"findings\":[\"...\"]}. Findings are interpretations, not runtime evidence.''
            else ''Return a concise text summary. Assertions in your response are not execution evidence.'');
          nl = [CHR 0x0A]
      in ''Assigned objective:'' @ nl @ cs_Objective child @ nl @ nl
         @ ''Explicit authorized context (untrusted source data):'' @ nl @ cs_Context child @ nl @ nl
         @ ''Authorized file subtrees: '' @ strings_Join (rp_Paths role) '', '' @ nl @ format @ nl
         @ ''Only assigned tools are available. Do not delegate or claim unrecorded checks. A JSON response may include references, artifacts, questions and a bounded follow_up request for the parent to consider; these are model interpretations, not runtime evidence or authority. Dependencies are ordering constraints, not implicit context grants.'')"

text \<open>The configuration of the parent that childConfig copies and narrows.\<close>

record run_config =
  rc_MaxOutputTokens :: int
  rc_MaxToolResult :: int
  rc_SystemPrompt :: string
  rc_instructionText :: string
  rc_Instructions :: "string list"
  rc_Models :: "(string, string) gomap"
  rc_DefaultModel :: string
  rc_DefaultSelection :: string
  rc_CollaborationEnabled :: bool
  rc_MaxContextBytes :: int
  rc_MemoryMaxEntries :: int
  rc_KnowledgeEnabled :: bool

definition childConfig :: "(run_config \<Rightarrow> err) \<Rightarrow> run_config \<Rightarrow> RoleProfile \<Rightarrow> run_config res" where
  "childConfig validate base role =
     (let b = rp_Budget role
      in if cb_MaxSteps b < 1 \<or> cb_MaxSteps b > 100 \<or> cb_MaxSeconds b < 1 \<or> cb_MaxSeconds b > 3600
            \<or> cb_MaxOutputBytes b < 1024 \<or> cb_MaxOutputBytes b > 16 * 2 ^ 20
            \<or> cb_MaxCallOutputBytes b < 256 \<or> cb_MaxCallOutputBytes b > 2 ^ 20
            \<or> cb_MaxCallOutputBytes b > cb_MaxOutputBytes b
         then Inl (ErrorsNew ''harness: child budgets must be bounded within the selected runtime'')
         else let base = base\<lparr>rc_MaxOutputTokens := min (rc_MaxOutputTokens base) (max 1 (cb_MaxCallOutputBytes b div 8)),
                              rc_MaxToolResult := min (rc_MaxToolResult base) (cb_MaxCallOutputBytes b),
                              rc_SystemPrompt := rp_Instructions role, rc_instructionText := [], rc_Instructions := []\<rparr>
           in if rp_ModelID role \<noteq> [] \<and> map_of (rc_Models base) (rp_ModelID role) = None
              then Inl (ErrorsNew ''harness: role model must belong to the configured model pool'')
              else let base = (if rp_ModelID role \<noteq> [] then base\<lparr>rc_DefaultModel := rp_ModelID role\<rparr> else base);
                       base = base\<lparr>rc_CollaborationEnabled := False, rc_DefaultSelection := rc_DefaultModel base\<rparr>
                in case validate base of Some e \<Rightarrow> Inl e | None \<Rightarrow> Inr base)"

text \<open>What Service and the memory package answer to plan validation.\<close>

record memory_policy =
  mp_Entries :: nat
  mp_Knowledge :: nat
  mp_enabled :: bool
  mp_TaskPrivate :: bool
  mp_Shared :: bool

record plan_env =
  pv_runtime :: bool
  pv_validate :: "run_config \<Rightarrow> err"
  pv_config :: run_config
  pv_tools :: ToolRunner
  pv_memory :: "string \<Rightarrow> memory_policy res"

definition model_tools :: "run_config \<Rightarrow> string" where
  "model_tools c = (case map_of (rc_Models c) (rc_DefaultModel c) of None \<Rightarrow> [] | Some t \<Rightarrow> t)"

definition role_check :: "plan_env \<Rightarrow> string \<times> RoleProfile \<Rightarrow> err" where
  "role_check V nr =
     (let name = fst nr; role = snd nr
      in if \<not> validEnvName name \<or> length name > 64 \<or> length (rp_Instructions role) > 32768
            \<or> (rp_OutputFormat role \<noteq> ''text'' \<and> rp_OutputFormat role \<noteq> ''json'')
            \<or> (rp_Acceptance role \<noteq> [] \<and> rp_Acceptance role \<noteq> ''analysis'' \<and> rp_Acceptance role \<noteq> ''execution'')
         then Some (ErrorsNew ''harness: invalid role name, instructions or output format'')
         else case childConfig (pv_validate V) (pv_config V) role of Inl e \<Rightarrow> Some e | Inr config \<Rightarrow>
           (if rp_Tools role \<noteq> [] \<and> model_tools config = ''none'' then Some (Sentinel ErrModelCapability)
            else case pv_memory V (rp_Memory role) of Inl e \<Rightarrow> Some e | Inr policy \<Rightarrow>
              (if int (mp_Entries policy) > rc_MemoryMaxEntries config
                  \<or> (mp_Knowledge policy \<noteq> 0 \<and> \<not> rc_KnowledgeEnabled config)
               then Some (Sentinel ErrMemoryDenied)
               else if mp_enabled policy \<and> model_tools config = ''none''
                       \<and> (mp_TaskPrivate policy \<or> mp_Shared policy \<or> mp_Knowledge policy \<noteq> 0)
               then Some (Sentinel ErrModelCapability)
               else case newAssignedTools (pv_tools V) role of Inl e \<Rightarrow> Some e
                      | Inr tools \<Rightarrow> validateRoleEvidence role tools)))"

fun dependencies_ok :: "string list \<Rightarrow> string \<Rightarrow> string list \<Rightarrow> string list \<Rightarrow> bool" where
  "dependencies_ok names self seen [] = True"
| "dependencies_ok names self seen (d # ds) =
     (d \<in> set names \<and> d \<noteq> self \<and> d \<notin> set seen \<and> dependencies_ok names self (d # seen) ds)"

definition child_check :: "plan_env \<Rightarrow> CollaborationPlan \<Rightarrow> ChildSpec \<Rightarrow> err" where
  "child_check V plan child =
     (case map_of (cp_Roles plan) (cs_Role child) of
        None \<Rightarrow> Some (ErrorsNew ''harness: invalid or duplicate child'')
      | Some role \<Rightarrow>
          if \<not> validEnvName (cs_Name child) \<or> length (cs_Name child) > 64 \<or> TrimSpace (cs_Objective child) = []
             \<or> length (cs_Objective child) + length (cs_Context child) > 32768
          then Some (ErrorsNew ''harness: invalid or duplicate child'')
          else if \<not> dependencies_ok (map cs_Name (cp_Children plan)) (cs_Name child) [] (cs_DependsOn child)
          then Some (ErrorsNew ''harness: dependencies must name distinct other children'')
          else case validateResultReferences child of Some e \<Rightarrow> Some e | None \<Rightarrow>
            (if int (length (childPrompt child role)) > rc_MaxContextBytes (pv_config V) div 2
             then Some (Sentinel ErrContextLimit) else None))"

section \<open>The search for cycles\<close>

type_synonym dep_graph = "(string, string list) gomap"

definition deps :: "dep_graph \<Rightarrow> string \<Rightarrow> string list" where
  "deps g name = (case map_of g name of None \<Rightarrow> [] | Some ds \<Rightarrow> ds)"

text \<open>
  The recursive closure visit with its two captured maps: visiting as a set, visited as the list of
  finished names, latest first. The result tells whether a cycle was met. The first argument bounds
  the depth of the recursion, None is running out of it; a plan with n children never needs more
  than n + 1.
\<close>

fun visit :: "nat \<Rightarrow> dep_graph \<Rightarrow> string \<Rightarrow> string set \<Rightarrow> string list \<Rightarrow> (bool \<times> string set \<times> string list) option"
and visit_all :: "nat \<Rightarrow> dep_graph \<Rightarrow> string list \<Rightarrow> string set \<Rightarrow> string list \<Rightarrow> (bool \<times> string set \<times> string list) option" where
  "visit 0 g name visiting visited = None"
| "visit (Suc n) g name visiting visited =
     (if name \<in> visiting then Some (True, visiting, visited)
      else if name \<in> set visited then Some (False, visiting, visited)
      else case visit_all n g (deps g name) (insert name visiting) visited of
             None \<Rightarrow> None
           | Some (True, visiting', visited') \<Rightarrow> Some (True, visiting', visited')
           | Some (False, visiting', visited') \<Rightarrow> Some (False, visiting' - {name}, name # visited'))"
| "visit_all n g [] visiting visited = Some (False, visiting, visited)"
| "visit_all n g (d # ds) visiting visited =
     (case visit n g d visiting visited of
        None \<Rightarrow> None
      | Some (True, visiting', visited') \<Rightarrow> Some (True, visiting', visited')
      | Some (False, visiting', visited') \<Rightarrow> visit_all n g ds visiting' visited')"

definition plan_graph :: "CollaborationPlan \<Rightarrow> dep_graph" where
  "plan_graph plan = map (\<lambda>c. (cs_Name c, cs_DependsOn c)) (cp_Children plan)"

definition cycle_check :: "CollaborationPlan \<Rightarrow> err" where
  "cycle_check plan =
     (case visit_all (length (cp_Children plan) + 1) (plan_graph plan) (map cs_Name (cp_Children plan)) {} [] of
        Some (False, _, _) \<Rightarrow> None
      | _ \<Rightarrow> Some (ErrorsNew ''harness: cyclic child dependencies''))"

definition bounded_plan :: "CollaborationPlan \<Rightarrow> err" where
  "bounded_plan plan =
     (if TrimSpace (cp_Objective plan) = [] \<or> length (cp_Objective plan) > 32768
         \<or> length (cp_Children plan) < 1 \<or> int (length (cp_Children plan)) > pb_MaxChildren (cp_Budget plan)
         \<or> length (cp_Roles plan) < 1 \<or> length (cp_Roles plan) > 16
         \<or> cp_MaxReplans plan < 0 \<or> cp_MaxReplans plan > 4
      then Some (ErrorsNew ''harness: invalid bounded collaboration plan'') else None)"

definition distinct_children :: "CollaborationPlan \<Rightarrow> err" where
  "distinct_children plan =
     (if distinct (map cs_Name (cp_Children plan)) then None else Some (ErrorsNew ''harness: duplicate child''))"

definition plan_validate :: "plan_env \<Rightarrow> CollaborationPlan \<Rightarrow> err" where
  "plan_validate V plan =
     (if \<not> pv_runtime V then Some (ErrorsNew ''harness: collaboration requires a configured task runtime'')
      else first_err
        ([pv_validate V (pv_config V), ParentBudget_validate (cp_Budget plan), bounded_plan plan]
         @ map (role_check V) (cp_Roles plan)
         @ [distinct_children plan]
         @ map (child_check V plan) (cp_Children plan)
         @ [cycle_check plan]))"

section \<open>The accepted dependencies are a partial order\<close>


text \<open>Finished names in the order they were finished, latest first: each after what it depends on.\<close>

fun topo :: "dep_graph \<Rightarrow> string list \<Rightarrow> bool" where
  "topo g [] = True"
| "topo g (n # vd) = (set (deps g n) \<subseteq> set vd \<and> n \<notin> set vd \<and> topo g vd)"

lemma visit_sound:
  "visit n g x vg vd = Some (False, vg', vd') \<Longrightarrow> topo g vd \<Longrightarrow> vg \<inter> set vd = {} \<Longrightarrow>
     vg' = vg \<and> topo g vd' \<and> vg \<inter> set vd' = {} \<and> set vd \<subseteq> set vd' \<and> x \<in> set vd'"
  "visit_all n g ds vg vd = Some (False, vg', vd') \<Longrightarrow> topo g vd \<Longrightarrow> vg \<inter> set vd = {} \<Longrightarrow>
     vg' = vg \<and> topo g vd' \<and> vg \<inter> set vd' = {} \<and> set vd \<subseteq> set vd' \<and> set ds \<subseteq> set vd'"
proof (induction n g x vg vd and n g ds vg vd arbitrary: vg' vd' and vg' vd' rule: visit_visit_all.induct)
  case (2 n g name visiting visited)
  show ?case
  proof (cases "name \<in> visiting \<or> name \<in> set visited")
    case True
    then show ?thesis using 2 by (auto split: if_splits)
  next
    case False
    then obtain vg1 vd1 where all: "visit_all n g (deps g name) (insert name visiting) visited = Some (False, vg1, vd1)"
      and res: "vg' = vg1 - {name}" "vd' = name # vd1"
      using 2(2) by (auto split: option.splits bool.splits)
    have "insert name visiting \<inter> set visited = {}" using 2(4) False by blast
    from 2(1)[OF _ _ all 2(3) this] False show ?thesis unfolding res by auto
  qed
next
  case (4 n g d ds visiting visited)
  from 4(3) obtain vg1 vd1 where one: "visit n g d visiting visited = Some (False, vg1, vd1)"
    and rest: "visit_all n g ds vg1 vd1 = Some (False, vg', vd')"
    by (auto split: option.splits bool.splits)
  have h: "vg1 = visiting" "topo g vd1" "visiting \<inter> set vd1 = {}" "set visited \<subseteq> set vd1" "d \<in> set vd1"
    using 4(1)[OF one 4(4,5)] by auto
  have "vg' = vg1 \<and> topo g vd' \<and> vg1 \<inter> set vd' = {} \<and> set vd1 \<subseteq> set vd' \<and> set ds \<subseteq> set vd'"
    by (rule 4(2)[OF one refl refl refl rest h(2)]) (use h in blast)
  then show ?case using h by auto
qed auto





text \<open>The outer loop of validate over the whole graph, with the fuel cycle_check gives it.\<close>

lemma cycle_check_None_topo:
  assumes "cycle_check plan = None"
  obtains vd where "topo (plan_graph plan) vd" "set (map cs_Name (cp_Children plan)) \<subseteq> set vd"
proof -
  from assms obtain vg vd where
    "visit_all (length (cp_Children plan) + 1) (plan_graph plan) (map cs_Name (cp_Children plan)) {} [] = Some (False, vg, vd)"
    unfolding cycle_check_def by (auto split: option.splits bool.splits prod.splits)
  from visit_sound(2)[OF this] have "topo (plan_graph plan) vd \<and> set (map cs_Name (cp_Children plan)) \<subseteq> set vd"
    by simp
  then show thesis using that by blast
qed

definition closed_plan :: "CollaborationPlan \<Rightarrow> bool" where
  "closed_plan plan \<longleftrightarrow>
     list_all (\<lambda>c. set (cs_DependsOn c) \<subseteq> set (map cs_Name (cp_Children plan))) (cp_Children plan)"

lemma deps_plan_graph: "d \<in> set (deps (plan_graph plan) n) \<Longrightarrow>
    \<exists>c\<in>set (cp_Children plan). cs_Name c = n \<and> d \<in> set (cs_DependsOn c)"
  unfolding deps_def plan_graph_def by (auto split: option.splits dest!: map_of_SomeD[OF sym])

lemma deps_plan_child:
  "distinct (map cs_Name (cp_Children plan)) \<Longrightarrow> c \<in> set (cp_Children plan) \<Longrightarrow>
     deps (plan_graph plan) (cs_Name c) = cs_DependsOn c"
  unfolding deps_def plan_graph_def
  by (subst map_of_eq_Some_iff[THEN iffD2, of _ _ "cs_DependsOn c"]) (auto simp: o_def)



lemma dependencies_ok_iff:
  "dependencies_ok names self seen ds \<longleftrightarrow>
     set ds \<subseteq> set names \<and> self \<notin> set ds \<and> distinct ds \<and> set ds \<inter> set seen = {}"
  by (induction ds arbitrary: seen) auto

lemma plan_validate_checks:
  "plan_validate V plan = None \<longleftrightarrow>
     pv_runtime V \<and> pv_validate V (pv_config V) = None \<and> ParentBudget_validate (cp_Budget plan) = None
     \<and> bounded_plan plan = None \<and> (\<forall>nr\<in>set (cp_Roles plan). role_check V nr = None)
     \<and> distinct_children plan = None \<and> (\<forall>c\<in>set (cp_Children plan). child_check V plan c = None)
     \<and> cycle_check plan = None"
  unfolding plan_validate_def by (simp add: ball_Un del: first_err.simps) blast

lemma plan_validate_distinct: "plan_validate V plan = None \<Longrightarrow> distinct (map cs_Name (cp_Children plan))"
  by (auto simp: plan_validate_checks distinct_children_def split: if_splits)

lemma child_check_deps:
  "child_check V plan c = None \<Longrightarrow>
     dependencies_ok (map cs_Name (cp_Children plan)) (cs_Name c) [] (cs_DependsOn c)"
  unfolding child_check_def by (auto split: option.splits if_splits)

lemma plan_validate_closed: "plan_validate V plan = None \<Longrightarrow> closed_plan plan"
  unfolding plan_validate_checks closed_plan_def list_all_iff
  using child_check_deps[of V plan] by (auto simp: dependencies_ok_iff)

lemma topo_filter: "topo g vd \<Longrightarrow> (\<And>n. n \<in> S \<Longrightarrow> set (deps g n) \<subseteq> S) \<Longrightarrow> topo g (filter (\<lambda>n. n \<in> S) vd)"
  by (induction vd) auto

lemma topo_schedule: "topo g vd \<Longrightarrow> i < length vd \<Longrightarrow> set (deps g (rev vd ! i)) \<subseteq> set (take i (rev vd))"
proof (induction vd)
  case (Cons n vd)
  then show ?case by (cases "i < length vd") (auto simp: nth_append less_Suc_eq)
qed simp

lemma topo_distinct: "topo g vd \<Longrightarrow> distinct vd"
  by (induction vd) auto

text \<open>
  An accepted plan can be scheduled: its children are distinct and stand in some order in which
  every child comes after all the children it depends on.\<close>

theorem accepted_plan_schedulable:
  assumes "plan_validate V plan = None"
  shows "\<exists>order. distinct order \<and> set order = set (map cs_Name (cp_Children plan))
     \<and> (\<forall>c\<in>set (cp_Children plan). \<forall>i<length order. order ! i = cs_Name c \<longrightarrow> set (cs_DependsOn c) \<subseteq> set (take i order))"
proof -
  let ?N = "set (map cs_Name (cp_Children plan))" and ?g = "plan_graph plan"
  have "cycle_check plan = None" using assms by (simp add: plan_validate_checks)
  then obtain vd where t: "topo ?g vd" "?N \<subseteq> set vd" by (rule cycle_check_None_topo)
  have cl: "set (deps ?g n) \<subseteq> ?N" if "n \<in> ?N" for n
    using deps_plan_graph plan_validate_closed[OF assms] unfolding closed_plan_def list_all_iff by fast
  let ?vd = "filter (\<lambda>n. n \<in> ?N) vd"
  have t': "topo ?g ?vd" by (rule topo_filter[OF t(1)]) (use cl in blast)
  have s: "set ?vd = ?N" using t(2) by auto
  have "set (cs_DependsOn c) \<subseteq> set (take i (rev ?vd))"
    if "c \<in> set (cp_Children plan)" "i < length (rev ?vd)" "rev ?vd ! i = cs_Name c" for c i
    using topo_schedule[OF t', of i] deps_plan_child[OF plan_validate_distinct[OF assms] that(1)] that(2,3) by simp
  then show ?thesis using topo_distinct[OF t'] s by (intro exI[of _ "rev ?vd"]) simp
qed

section \<open>Confinement of a child's tools\<close>










lemma assign_paths_scopes:
  "assign_paths acc vs = Inr paths \<Longrightarrow> set paths \<subseteq> set acc \<union> {c. \<exists>v\<in>set vs. scopePath v = Inr c}"
  by (induction acc vs rule: assign_paths.induct) (fastforce split: sum.splits if_splits)+

lemma available_Some: "available base name = Some d \<Longrightarrow> d \<in> set (tr_Definitions base) \<and> td_Name d = name"
  by (auto simp: available_def dest!: map_of_SomeD)

text \<open>What assigning tools keeps and establishes.\<close>

definition assigned_ok :: "assignedTools \<Rightarrow> bool" where
  "assigned_ok t \<longleftrightarrow> set (at_definitions t) \<subseteq> set (tr_Definitions (at_base t))
     \<and> (\<forall>n e. map_of (at_names t) n = Some e \<longrightarrow>
          \<not> Contains n ''delegate'' \<and> \<not> Contains n ''agent''
          \<and> (\<exists>d\<in>set (at_definitions t). td_Name d = n \<and> td_Effect d = e))"

lemma assign_tools_ok:
  "assign_tools t names = Inr u \<Longrightarrow> assigned_ok t \<Longrightarrow>
     assigned_ok u \<and> at_base u = at_base t \<and> at_paths u = at_paths t
     \<and> fst ` set (at_names u) \<subseteq> fst ` set (at_names t) \<union> set names"
proof (induction t names rule: assign_tools.induct)
  case (2 selected name names)
  from 2(2) obtain d where d: "available (at_base selected) name = Some d"
    and g: "\<not> (map_of (at_names selected) name \<noteq> None \<or> Contains name ''delegate'' \<or> Contains name ''agent'')"
      "\<not> (HasPrefix name ''file_'' \<and> at_paths selected = [])"
    by (auto split: option.splits if_splits)
  let ?s = "selected\<lparr>at_names := AList.update name (td_Effect d) (at_names selected),
                     at_definitions := at_definitions selected @ [d]\<rparr>"
  have r: "assign_tools ?s names = Inr u" using 2(2) d g by (auto split: if_splits)
  have ok: "assigned_ok ?s" using 2(3) available_Some[OF d] g
    unfolding assigned_ok_def by (auto simp: update_conv)
  from 2(1)[OF d g r ok] show ?case by (auto simp: dom_update)
qed simp

lemma newAssignedTools_ok:
  assumes "newAssignedTools base role = Inr t"
  shows "assigned_ok t" "at_base t = base" "fst ` set (at_names t) \<subseteq> set (rp_Tools role)"
    "\<And>c. c \<in> set (at_paths t) \<Longrightarrow> \<exists>v\<in>set (rp_Paths role). scopePath v = Inr c"
proof -
  let ?start = "\<lambda>ps. \<lparr>at_base = base, at_definitions = [], at_names = [], at_paths = ps\<rparr>"
  from assms obtain ps where ps: "assign_paths [] (rp_Paths role) = Inr ps"
    and ts: "assign_tools (?start ps) (rp_Tools role) = Inr t"
    unfolding newAssignedTools_def by (auto split: if_splits sum.splits)
  have "assigned_ok (?start ps)" by (simp add: assigned_ok_def)
  note r = assign_tools_ok[OF ts this]
  show "assigned_ok t" "at_base t = base" "fst ` set (at_names t) \<subseteq> set (rp_Tools role)" using r by simp_all
  show "\<exists>v\<in>set (rp_Paths role). scopePath v = Inr c" if "c \<in> set (at_paths t)" for c
    using assign_paths_scopes[OF ps] r that by auto
qed


lemma assigned_Prepare_Inr:
  assumes "assigned_Prepare decode t call = Inr p"
  obtains e where "map_of (at_names t) (tc_Name call) = Some e" "tr_Prepare (at_base t) call = Inr p" "pt_Effect p = e"
    "HasPrefix (tc_Name call) ''file_'' \<longrightarrow>
       (\<exists>path changes. decode (tc_Arguments call) = Some (path, changes)
         \<and> (if tc_Name call = ''file_batch_edit'' then list_all (allows t) changes else allows t path))"
  using assms unfolding assigned_Prepare_def
  by (auto split: option.splits sum.splits if_splits prod.splits)

text \<open>The tools a child of the given role gets: none when the assignment is refused.\<close>

definition child_tools ::
    "(string \<Rightarrow> (string \<times> string list) option) \<Rightarrow> ToolRunner \<Rightarrow> RoleProfile \<Rightarrow> ToolRunner" where
  "child_tools decode base role =
     (case newAssignedTools base role of Inl _ \<Rightarrow> deniedTools | Inr t \<Rightarrow> assigned_runner decode t)"

lemma child_tools_Inr:
  assumes "tr_Prepare (child_tools decode base role) call = Inr p"
  obtains t where "newAssignedTools base role = Inr t" "assigned_Prepare decode t call = Inr p"
  using assms unfolding child_tools_def assigned_runner_def by (auto split: sum.splits simp: deniedTools_def)

interpretation assigned: tool_restriction base "child_tools decode base role" for decode base role
proof
  show "set (tr_Definitions (child_tools decode base role)) \<subseteq> set (tr_Definitions base)"
    using newAssignedTools_ok(1,2)[of base role]
    by (auto simp: child_tools_def assigned_runner_def assigned_ok_def deniedTools_def split: sum.splits)
next
  fix call p assume "tr_Prepare (child_tools decode base role) call = Inr p"
  then obtain t where t: "newAssignedTools base role = Inr t" "assigned_Prepare decode t call = Inr p"
    by (rule child_tools_Inr)
  from t(2) obtain e where e: "map_of (at_names t) (tc_Name call) = Some e" "tr_Prepare (at_base t) call = Inr p"
    by (rule assigned_Prepare_Inr)
  then show "tr_Prepare base call = Inr p" using newAssignedTools_ok(2)[OF t(1)] by simp
  obtain d where "d \<in> set (at_definitions t)" "td_Name d = tc_Name call"
    using newAssignedTools_ok(1)[OF t(1)] e(1) unfolding assigned_ok_def by blast
  then show "tc_Name call \<in> td_Name ` set (tr_Definitions (child_tools decode base role))"
    by (auto simp: child_tools_def assigned_runner_def t(1) intro: rev_image_eqI)
qed


text \<open>
  The prefix test leaves one file tool out: a patch is prepared without regard to the authorized
  subtrees.
\<close>

lemma apply_patch_unscoped:
  assumes "tc_Name call = ''apply_patch''"
  shows "assigned_Prepare decode (t\<lparr>at_paths := ps\<rparr>) call = assigned_Prepare decode t call"
  using assms by (simp add: assigned_Prepare_def HasPrefix_def split: option.split)

text \<open>
  A child never runs with more than its parent. The configuration built for a role keeps the
  parent's context and memory limits and model pool, lowers or keeps the output and tool-result
  limits, stays inside the model pool and cannot itself collaborate.\<close>

theorem child_config_narrows:
  assumes "childConfig validate base role = Inr c"
  shows "rc_MaxOutputTokens c \<le> rc_MaxOutputTokens base \<and> rc_MaxToolResult c \<le> rc_MaxToolResult base
     \<and> rc_MaxToolResult c \<le> 2 ^ 20 \<and> rc_Models c = rc_Models base \<and> \<not> rc_CollaborationEnabled c
     \<and> rc_MaxContextBytes c = rc_MaxContextBytes base \<and> rc_MemoryMaxEntries c = rc_MemoryMaxEntries base
     \<and> (rc_DefaultModel c = rc_DefaultModel base \<or> rc_DefaultModel c \<in> fst ` set (rc_Models base))
     \<and> rc_DefaultSelection c = rc_DefaultModel c \<and> validate c = None"
  using assms unfolding childConfig_def Let_def
  by (auto split: if_splits option.splits simp: dom_map_of_conv_image_fst[symmetric])

section \<open>Witnesses\<close>

definition sample_run_config :: run_config where
  "sample_run_config =
     \<lparr>rc_MaxOutputTokens = 4096, rc_MaxToolResult = 65536, rc_SystemPrompt = [], rc_instructionText = [],
      rc_Instructions = [], rc_Models = [(''main'', ''native'')], rc_DefaultModel = ''main'',
      rc_DefaultSelection = ''main'', rc_CollaborationEnabled = True, rc_MaxContextBytes = 65536,
      rc_MemoryMaxEntries = 16, rc_KnowledgeEnabled = False\<rparr>"

definition sample_plan_env :: plan_env where
  "sample_plan_env =
     \<lparr>pv_runtime = True, pv_validate = (\<lambda>_. None), pv_config = sample_run_config, pv_tools = sample_runner,
      pv_memory = (\<lambda>_. Inr \<lparr>mp_Entries = 0, mp_Knowledge = 0, mp_enabled = False, mp_TaskPrivate = False, mp_Shared = False\<rparr>)\<rparr>"

definition sample_role :: RoleProfile where
  "sample_role =
     \<lparr>rp_Instructions = [], rp_ModelID = ''main'', rp_Tools = [''file_read''], rp_Paths = [''docs''],
      rp_OutputFormat = ''text'', rp_Acceptance = [],
      rp_RequiredEvidence = [\<lparr>er_Kind = ''read'', er_Target = ''docs/a.md''\<rparr>],
      rp_Budget = \<lparr>cb_MaxSteps = 4, cb_MaxSeconds = 60, cb_MaxOutputBytes = 4096, cb_MaxCallOutputBytes = 1024\<rparr>,
      rp_Memory = []\<rparr>"

definition sample_child :: "string \<Rightarrow> string list \<Rightarrow> ChildSpec" where
  "sample_child name ds =
     \<lparr>cs_Name = name, cs_Role = ''reader'', cs_Objective = ''read'', cs_Context = [], cs_DependsOn = ds,
      cs_Results = map (\<lambda>d. \<lparr>rr_Source = d, rr_Scope = ''summary'', rr_Offset = 0, rr_MaxBytes = 1024\<rparr>) ds\<rparr>"

definition sample_plan :: "ChildSpec list \<Rightarrow> CollaborationPlan" where
  "sample_plan children =
     \<lparr>cp_Objective = ''survey'',
      cp_Budget = \<lparr>pb_MaxChildren = 4, pb_MaxModelCalls = 20, pb_MaxToolCalls = 20, pb_MaxOutputBytes = 65536,
                   pb_MaxConcurrentChildren = 2, pb_MaxActiveSeconds = 600\<rparr>,
      cp_Roles = [(''reader'', sample_role)], cp_Children = children,
      cp_Parallel = False, cp_MaxReplans = 1, cp_Synthesis = False\<rparr>"

definition sample_children :: "ChildSpec list" where
  "sample_children = [sample_child ''c'' [''a'', ''b''], sample_child ''a'' [], sample_child ''b'' [''a'']]"


lemmas sample_plan_defs =
  sample_run_config_def sample_plan_env_def sample_role_def sample_child_def sample_plan_def sample_children_def

lemma sample_TrimSpace: "TrimSpace ''survey'' \<noteq> []" "TrimSpace ''read'' \<noteq> []" "TrimSpace ''docs/a.md'' \<noteq> []"
  by code_simp+

lemma sample_assigned:
  "case newAssignedTools sample_runner sample_role of Inl _ \<Rightarrow> False | Inr t \<Rightarrow> allows t ''docs/a.md''"
  by code_simp

lemma sample_role_check: "role_check sample_plan_env (''reader'', sample_role) = None"
proof -
  obtain t where t: "newAssignedTools sample_runner sample_role = Inr t" "allows t ''docs/a.md''"
    using sample_assigned by (auto split: sum.splits)
  have "validateRoleEvidence sample_role t = None"
    using t(2) sample_TrimSpace(3)
    by (simp add: validateRoleEvidence_def validateEvidenceRequirements_def requirement_check_def sample_role_def)
  then show ?thesis using t(1)
    by (simp add: role_check_def childConfig_def Let_def model_tools_def sample_plan_env_def sample_run_config_def
        validEnvName_def) (simp add: sample_role_def)
qed

lemma sample_child_checks:
  "child \<in> set sample_children \<Longrightarrow> child_check sample_plan_env (sample_plan sample_children) child = None"
  using sample_TrimSpace(2)
  by (auto simp: sample_plan_defs child_check_def validEnvName_def validateResultReferences_def childPrompt_def Let_def)

lemma sample_plan_accepted: "plan_validate sample_plan_env (sample_plan sample_children) = None"
proof -
  have "cycle_check (sample_plan sample_children) = None" by code_simp
  moreover have "bounded_plan (sample_plan sample_children) = None"
    "ParentBudget_validate (cp_Budget (sample_plan sample_children)) = None"
    "distinct_children (sample_plan sample_children) = None"
    using sample_TrimSpace(1)
    by (simp_all add: bounded_plan_def ParentBudget_validate_def distinct_children_def sample_plan_defs)
  ultimately show ?thesis
    using sample_role_check sample_child_checks
    by (simp add: plan_validate_checks sample_plan_def) (simp add: sample_plan_env_def)
qed



theorem accepted_plan_schedulable_witness:
  "\<exists>order. set order = {''a'', ''b'', ''c''} \<and> distinct order"
  using accepted_plan_schedulable[OF sample_plan_accepted]
  by (auto simp: sample_plan_def sample_children_def sample_child_def insert_commute)




theorem child_config_narrows_witness:
  "\<exists>c. childConfig (\<lambda>_. None) sample_run_config sample_role = Inr c \<and> \<not> rc_CollaborationEnabled c"
proof -
  obtain c where "childConfig (\<lambda>_. None) sample_run_config sample_role = Inr c"
    by (simp add: childConfig_def Let_def sample_run_config_def sample_role_def)
  then show ?thesis using child_config_narrows by blast
qed

end
