(* ===== verification/Store_Model.thy ===== *)
theory Store_Model
  imports Collaboration_Plan
begin

text \<open>
  The rows of internal/harness/store.go, collaboration_budget.go, model_recovery.go and
  input_queue.go, the tables they live in (postgres_schema.sql) and the statements the Go code
  runs on them: an UPDATE is a map over the rows that match, RowsAffected counts them, and a
  statement that breaks a key, a CHECK or the index of active runs fails. A table is the list of
  its rows in insertion order, so the per-run sequence number of an attempt is its position. The
  rows of fa.meta are one field per key prefix and hold the decoded value; the text columns that
  hold JSON stay text and are decoded by functions of the environment. Time stamps that are only
  displayed are left out.

  A database statement may also fail for reasons of its own (a lost connection). Every operation
  runs in one transaction and such a failure rolls it back, so it is the operation not happening.
\<close>

section \<open>Rows\<close>

type_synonym AttachmentRef = string

record ModelRecovery =
  mr_Root :: string
  mr_Previous :: string
  mr_Number :: int
  mr_Reason :: string
  mr_Fingerprint :: string

record ModelMessage =
  mm_Role :: string
  mm_Content :: string
  mm_Name :: string
  mm_ToolCallID :: string
  mm_ToolCalls :: "ToolCall list"
  mm_Attachments :: "AttachmentRef list"
  mm_ProviderItems :: "string list"
  mm_Deferred :: bool
  mm_Public :: bool

definition message :: "string \<Rightarrow> string \<Rightarrow> ModelMessage" where
  "message role content =
     \<lparr>mm_Role = role, mm_Content = content, mm_Name = [], mm_ToolCallID = [], mm_ToolCalls = [],
      mm_Attachments = [], mm_ProviderItems = [], mm_Deferred = False, mm_Public = False\<rparr>"

record ModelRequest =
  mq_Recovery :: "ModelRecovery option"
  mq_ModelID :: string
  mq_ModelRevision :: string
  mq_Purpose :: string
  mq_Messages :: "ModelMessage list"

record ToolOutcome =
  ou_Status :: string
  ou_Dispatched :: bool
  ou_CompletionKnown :: bool
  ou_Truncated :: bool

record ToolReceipt =
  rt_Kind :: string
  rt_Status :: string
  rt_Path :: string
  rt_AfterHash :: string
  rt_Truncated :: bool

record ToolResult =
  tl_Attachments :: "AttachmentRef list"
  tl_Outcome :: "ToolOutcome option"
  tl_Truncated :: bool
  tl_Content :: string
  tl_IsError :: bool
  tl_Receipts :: "ToolReceipt list"

definition failed_result :: "string \<Rightarrow> ToolResult" where
  "failed_result content =
     \<lparr>tl_Attachments = [], tl_Outcome = None, tl_Truncated = False, tl_Content = content,
      tl_IsError = True, tl_Receipts = []\<rparr>"

record CallError =
  ce_Certain :: bool
  ce_Message :: string
  ce_Category :: string
  ce_RetryAfterMS :: int

record ModelResponse =
  ms_Content :: string
  ms_ToolCalls :: "ToolCall list"
  ms_ProviderItems :: "string list"
  ms_Failure :: "CallError option"

record Conversation =
  cv_ID :: string
  cv_Workspace :: string
  cv_SpaceID :: string
  cv_LastMessage :: int

record Run =
  rn_ID :: string
  rn_ConversationID :: string
  rn_RequestKey :: string
  rn_Prompt :: string
  rn_ConfigJSON :: string
  rn_Status :: string
  rn_StopReason :: string
  rn_Steps :: int
  rn_ElapsedMS :: int
  rn_Output :: string
  rn_ActiveSince :: string

record Attempt =
  am_ID :: string
  am_RunID :: string
  am_Kind :: string
  am_CallID :: string
  am_Status :: string
  am_RequestJSON :: string
  am_ResponseJSON :: string

record message_row =
  mg_ID :: int
  mg_ConversationID :: string
  mg_RunID :: "string option"
  mg_RequestKey :: string
  mg_Body :: ModelMessage

record PendingInput =
  pi_Key :: string
  pi_Action :: string
  pi_Status :: string
  pi_MessageID :: int
  pi_ConversationID :: string
  pi_TargetRun :: string
  pi_RunID :: string
  pi_Principal :: string
  pi_Person :: string
  pi_Attachments :: "AttachmentRef list"
  pi_Channel :: "string option"
  pi_Remote :: "string option"
  pi_Authority :: string

subsection \<open>The collaboration overlay\<close>

record CollaborationUsage =
  us_ModelCalls :: int
  us_ToolCalls :: int
  us_OutputBytes :: int
  us_ActiveChildren :: int
  us_Replans :: int

record childRecord =
  ch_Spec :: ChildSpec
  ch_RunID :: string
  ch_Control :: string
  ch_OutputBytes :: int
  ch_Retired :: bool
  ch_ResultsReady :: bool

record outputReservation =
  or_Child :: string
  or_Bytes :: int
  or_Observed :: int
  or_Final :: bool

record CollaborationSettings =
  st_Child :: ChildBudget

record collaborationRecord =
  co_ParentID :: string
  co_Plan :: CollaborationPlan
  co_Control :: string
  co_Usage :: CollaborationUsage
  co_Children :: "childRecord list"
  co_Active :: "string list"
  co_Reservations :: "(string, outputReservation) gomap"
  co_Settings :: "CollaborationSettings option"
  co_Planning :: bool
  co_Single :: bool
  co_Revision :: int
  co_ReplanAttempt :: string
  co_SynthesisAttempt :: string
  co_SynthesisDigest :: string

section \<open>The store\<close>

record store =
  db_conversations :: "Conversation list"
  db_runs :: "Run list"
  db_attempts :: "Attempt list"
  db_messages :: "message_row list"
  db_times :: "string list"
  db_maintenance :: "string list"
  db_direct :: "string list"
  db_branch :: "(string, string) gomap"
  db_limit_next :: "(string, string) gomap"
  db_replaced :: "(string, string) gomap"
  db_verified :: "(string, string \<times> string) gomap"
  db_retry :: "(string, ModelRecovery) gomap"
  db_rounds :: "(string, string \<times> string \<times> int) gomap"
  db_inputs :: "(string \<times> string, PendingInput) gomap"
  db_paused :: "(string, string) gomap"
  db_controlled :: "(string, string) gomap"
  db_collaboration :: "(string, collaborationRecord) gomap"

definition empty_store :: store where
  "empty_store =
     \<lparr>db_conversations = [], db_runs = [], db_attempts = [], db_messages = [], db_times = [],
      db_maintenance = [], db_direct = [], db_branch = [], db_limit_next = [], db_replaced = [],
      db_verified = [], db_retry = [], db_rounds = [], db_inputs = [], db_paused = [],
      db_controlled = [], db_collaboration = []\<rparr>"

section \<open>Statements\<close>

definition sql_violation :: go_error where
  "sql_violation = ErrorsNew ''sql: constraint violation''"

definition upd :: "('a \<Rightarrow> bool) \<Rightarrow> ('a \<Rightarrow> 'a) \<Rightarrow> 'a list \<Rightarrow> 'a list" where
  "upd P f xs = map (\<lambda>x. if P x then f x else x) xs"

definition RowsAffected :: "('a \<Rightarrow> bool) \<Rightarrow> 'a list \<Rightarrow> nat" where
  "RowsAffected P xs = length (filter P xs)"

definition get_conversation :: "store \<Rightarrow> string \<Rightarrow> Conversation option" where
  "get_conversation db chat = find (\<lambda>c. cv_ID c = chat) (db_conversations db)"

definition get_run :: "store \<Rightarrow> string \<Rightarrow> Run option" where
  "get_run db rid = find (\<lambda>r. rn_ID r = rid) (db_runs db)"

definition get_attempt :: "store \<Rightarrow> string \<Rightarrow> Attempt option" where
  "get_attempt db aid = find (\<lambda>a. am_ID a = aid) (db_attempts db)"

definition run_attempts :: "store \<Rightarrow> string \<Rightarrow> Attempt list" where
  "run_attempts db run = filter (\<lambda>a. am_RunID a = run) (db_attempts db)"

definition run_statuses :: "string list" where
  "run_statuses = [''running'', ''waiting_confirmation'', ''completed'', ''stopped'', ''unknown'',
                   ''limited'', ''failed'', ''abandoned'']"

definition settledLimitPrefix :: string where
  "settledLimitPrefix = ''settled_limit:''"

definition active_run :: "Run \<Rightarrow> bool" where
  "active_run r \<longleftrightarrow>
     rn_Status r \<in> {''running'', ''waiting_confirmation'', ''stopped'', ''unknown''}
     \<or> (rn_Status r = ''limited'' \<and> take 14 (rn_StopReason r) \<noteq> settledLimitPrefix)"

definition run_table_ok :: "Run list \<Rightarrow> bool" where
  "run_table_ok rs \<longleftrightarrow>
     distinct (map rn_ID rs)
     \<and> distinct (map (\<lambda>r. (rn_ConversationID r, rn_RequestKey r)) rs)
     \<and> distinct (map rn_ConversationID (filter active_run rs))
     \<and> list_all (\<lambda>r. rn_Status r \<in> set run_statuses \<and> 0 \<le> rn_Steps r \<and> 0 \<le> rn_ElapsedMS r) rs"

definition put_runs :: "Run list \<Rightarrow> store \<Rightarrow> store res" where
  "put_runs rs db = (if run_table_ok rs then Inr (db\<lparr>db_runs := rs\<rparr>) else Inl sql_violation)"

definition update_runs :: "(Run \<Rightarrow> bool) \<Rightarrow> (Run \<Rightarrow> Run) \<Rightarrow> store \<Rightarrow> store res" where
  "update_runs P f db = put_runs (upd P f (db_runs db)) db"

definition insert_run :: "Run \<Rightarrow> store \<Rightarrow> store res" where
  "insert_run r db =
     (if get_conversation db (rn_ConversationID r) = None then Inl sql_violation
      else put_runs (db_runs db @ [r]) db)"

definition update_attempts :: "(Attempt \<Rightarrow> bool) \<Rightarrow> (Attempt \<Rightarrow> Attempt) \<Rightarrow> store \<Rightarrow> store" where
  "update_attempts P f db = db\<lparr>db_attempts := upd P f (db_attempts db)\<rparr>"

definition insert_attempt :: "Attempt \<Rightarrow> store \<Rightarrow> store res" where
  "insert_attempt a db =
     (if get_run db (am_RunID a) = None \<or> get_attempt db (am_ID a) \<noteq> None
         \<or> am_Kind a \<notin> {''model'', ''tool'', ''workflow''}
         \<or> am_Status a \<notin> {''pending'', ''dispatched'', ''finished'', ''unknown''}
      then Inl sql_violation
      else Inr (db\<lparr>db_attempts := db_attempts db @ [a]\<rparr>))"

text \<open>
  The trigger b_message_sequence takes the identifier of a new message from the counter of the
  conversation; the foreign keys want the conversation, and the run in that conversation.
\<close>

definition insert_row :: "string \<Rightarrow> string option \<Rightarrow> ModelMessage \<Rightarrow> store \<Rightarrow> (int \<times> store) res" where
  "insert_row chat run body db =
     (case get_conversation db chat of
        None \<Rightarrow> Inl sql_violation
      | Some c \<Rightarrow>
          if (case run of None \<Rightarrow> False
              | Some rid \<Rightarrow> \<forall>r \<in> set (db_runs db). \<not> (rn_ID r = rid \<and> rn_ConversationID r = chat))
          then Inl sql_violation
          else let n = cv_LastMessage c + 1
               in Inr (n, db\<lparr>db_messages := db_messages db
                              @ [\<lparr>mg_ID = n, mg_ConversationID = chat, mg_RunID = run,
                                  mg_RequestKey = [], mg_Body = body\<rparr>],
                              db_conversations := upd (\<lambda>c. cv_ID c = chat) (\<lambda>c. c\<lparr>cv_LastMessage := n\<rparr>)
                                                    (db_conversations db)\<rparr>))"

definition insertMessage :: "Run \<Rightarrow> ModelMessage \<Rightarrow> store \<Rightarrow> store res" where
  "insertMessage run body db =
     (case insert_row (rn_ConversationID run) (Some (rn_ID run)) body db of
        Inl e \<Rightarrow> Inl e | Inr (_, db') \<Rightarrow> Inr db')"

text \<open>An INSERT of a key of fa.meta that exists already fails.\<close>

definition insert_key :: "string \<Rightarrow> string list \<Rightarrow> string list res" where
  "insert_key k ks = (if k \<in> set ks then Inl sql_violation else Inr (ks @ [k]))"

definition insert_meta :: "'k \<Rightarrow> 'v \<Rightarrow> ('k, 'v) gomap \<Rightarrow> ('k, 'v) gomap res" where
  "insert_meta k v m = (if map_of m k \<noteq> None then Inl sql_violation else Inr (m @ [(k, v)]))"

definition controlledParent :: "store \<Rightarrow> string \<Rightarrow> string" where
  "controlledParent db run = (case map_of (db_controlled db) run of None \<Rightarrow> [] | Some p \<Rightarrow> p)"

definition lockExecutionTx :: "store \<Rightarrow> string \<Rightarrow> err" where
  "lockExecutionTx db run =
     (let parent = controlledParent db run
      in if parent \<noteq> [] \<and> map_of (db_collaboration db) parent = None then Some (Sentinel ErrNoRows)
         else case get_run db run of
                None \<Rightarrow> Some (Sentinel ErrNoRows)
              | Some r \<Rightarrow> if get_conversation db (rn_ConversationID r) = None then Some (Sentinel ErrNoRows) else None)"

text \<open>
  resolvedAttemptSQL: an unknown model call that a later model attempt of the run replaced, or a
  tool call whose effect was verified to have happened.
\<close>

definition resolvedAttempt :: "store \<Rightarrow> Attempt \<Rightarrow> bool" where
  "resolvedAttempt db a \<longleftrightarrow>
     (am_Kind a = ''model''
      \<and> (case map_of (db_replaced db) (am_ID a) of
           None \<Rightarrow> False
         | Some new \<Rightarrow> list_ex (\<lambda>b. am_ID b = new \<and> am_RunID b = am_RunID a \<and> am_Kind b = ''model'') (db_attempts db)))
     \<or> (am_Kind a = ''tool'' \<and> map_of (db_verified db) (am_ID a) = Some (am_RunID a, ''happened''))"

definition unsettled_attempts :: "store \<Rightarrow> string \<Rightarrow> nat" where
  "unsettled_attempts db run =
     RowsAffected (\<lambda>a. am_RunID a = run \<and> am_Status a \<in> {''pending'', ''dispatched'', ''unknown''}
                        \<and> \<not> resolvedAttempt db a) (db_attempts db)"

definition pendingSteer :: "store \<Rightarrow> string \<Rightarrow> bool" where
  "pendingSteer db run \<longleftrightarrow>
     list_ex (\<lambda>(_, i). pi_TargetRun i = run \<and> pi_Status i = ''pending'' \<and> pi_Action i = ''steer'') (db_inputs db)"

section \<open>Lemmas on tables\<close>

lemma length_upd [simp]: "length (upd P f xs) = length xs"
  by (simp add: upd_def)

lemma upd_Nil [simp]: "upd P f [] = []"
  by (simp add: upd_def)

lemma upd_Cons [simp]: "upd P f (x # xs) = (if P x then f x else x) # upd P f xs"
  by (simp add: upd_def)

lemma upd_append [simp]: "upd P f (xs @ ys) = upd P f xs @ upd P f ys"
  by (simp add: upd_def)

lemma map_upd: "(\<And>x. P x \<Longrightarrow> k (f x) = k x) \<Longrightarrow> map k (upd P f xs) = map k xs"
  by (induction xs) auto

lemma set_upd: "y \<in> set (upd P f xs) \<longleftrightarrow> (\<exists>x \<in> set xs. y = (if P x then f x else x))"
  by (auto simp: upd_def)

lemma find_None_iff_set: "find P xs = None \<longleftrightarrow> (\<forall>x \<in> set xs. \<not> P x)"
  by (induction xs) auto

lemma find_SomeD: "find P xs = Some x \<Longrightarrow> x \<in> set xs \<and> P x"
  by (induction xs) (auto split: if_splits)

lemma find_distinct:
  "distinct (map k xs) \<Longrightarrow> x \<in> set xs \<Longrightarrow> find (\<lambda>y. k y = k x) xs = Some x"
  by (induction xs) (auto simp: image_iff)

lemma find_upd:
  "(\<And>x. P x \<Longrightarrow> k (f x) = k x)
   \<Longrightarrow> find (\<lambda>y. k y = i) (upd P f xs) = map_option (\<lambda>x. if P x then f x else x) (find (\<lambda>y. k y = i) xs)"
  by (induction xs) auto

lemma RowsAffected_0: "RowsAffected P xs = 0 \<longleftrightarrow> (\<forall>x \<in> set xs. \<not> P x)"
  by (simp add: RowsAffected_def filter_empty_conv)

lemma RowsAffected_1_ex:
  assumes "RowsAffected P xs = 1" shows "\<exists>x \<in> set xs. P x"
  using assms RowsAffected_0[of P xs] by force

lemma get_runD: "get_run db rid = Some r \<Longrightarrow> r \<in> set (db_runs db) \<and> rn_ID r = rid"
  unfolding get_run_def by (drule find_SomeD) simp

lemma get_attemptD: "get_attempt db aid = Some a \<Longrightarrow> a \<in> set (db_attempts db) \<and> am_ID a = aid"
  unfolding get_attempt_def by (drule find_SomeD) simp

lemma get_run_iff:
  assumes "distinct (map rn_ID (db_runs db))"
  shows "get_run db rid = Some r \<longleftrightarrow> r \<in> set (db_runs db) \<and> rn_ID r = rid"
proof
  assume "r \<in> set (db_runs db) \<and> rn_ID r = rid"
  then show "get_run db rid = Some r"
    using find_distinct[OF assms, of r] by (simp add: get_run_def)
qed (rule get_runD)

end
