(* ===== verification/Collaboration_Budget.thy ===== *)
theory Collaboration_Budget
  imports Store_Model
begin

text \<open>
  internal/harness/collaboration_budget.go and callguard.go: the call guard of a collaboration.
  Reserve charges a model or tool call to the shared budget before it is dispatched, Record
  replaces the reservation by what the call really produced, recoverCollaborationLeases clears
  the active children after a restart; with activate and deactivate of collaboration.go, which
  keep the list of active children. The guard is the Go interface callGuard as a record of its
  two methods, and what the ledger relies on is the locale lawful_guard.
\<close>

section \<open>The guard interface\<close>

record callGuard =
  g_Reserve :: "store \<Rightarrow> Attempt \<Rightarrow> store res"
  g_Record :: "store \<Rightarrow> Attempt \<Rightarrow> int \<Rightarrow> bool \<Rightarrow> err \<times> store"

fun isOutputLimit :: "go_error \<Rightarrow> bool" where
  "isOutputLimit (ErrorsJoin es) = (es \<noteq> [] \<and> list_all isOutputLimit es)"
| "isOutputLimit (Errorf _ _ es) = (es \<noteq> [] \<and> list_all isOutputLimit es)"
| "isOutputLimit (Sentinel s) = (s = ErrChildBudget \<or> s = ErrParentBudget)"
| "isOutputLimit (ErrorsNew _) = False"

section \<open>Loading and saving the record\<close>

text \<open>
  What the guard reads through other code: the JSON of a model request and of the second message
  of a planning request (revision and digest), the age of a time stamp in milliseconds, the size
  of the encoded record, and the check of the results delivered to a child.
\<close>

record guard_env =
  ge_request :: "string \<Rightarrow> ModelRequest option"
  ge_input :: "string \<Rightarrow> (int \<times> string) option"
  ge_since :: "string \<Rightarrow> int option"
  ge_size :: "collaborationRecord \<Rightarrow> int"
  ge_delivered :: "store \<Rightarrow> collaborationRecord \<Rightarrow> childRecord \<Rightarrow> err"

definition loadCollaboration :: "guard_env \<Rightarrow> store \<Rightarrow> string \<Rightarrow> collaborationRecord res" where
  "loadCollaboration E db parent =
     (case map_of (db_collaboration db) parent of
        None \<Rightarrow> Inl (Sentinel ErrNoRows)
      | Some r \<Rightarrow>
          if ge_size E r > 2097152 \<or> co_ParentID r \<noteq> parent \<or> co_Revision r < 1
          then Inl (ErrorsNew ''harness: invalid collaboration record'') else Inr r)"

definition saveCollaboration :: "guard_env \<Rightarrow> store \<Rightarrow> collaborationRecord \<Rightarrow> store res" where
  "saveCollaboration E db r =
     (if ge_size E r > 2097152 then Inl (ErrorsNew ''harness: collaboration record exceeds limit'')
      else Inr (db\<lparr>db_collaboration := AList.update (co_ParentID r) r (db_collaboration db)\<rparr>))"

definition activeElapsed :: "guard_env \<Rightarrow> Run \<Rightarrow> int" where
  "activeElapsed E run =
     rn_ElapsedMS run
     + (if rn_ActiveSince run = [] then 0
        else case ge_since E (rn_ActiveSince run) of None \<Rightarrow> 0 | Some ms \<Rightarrow> max 0 ms)"

definition checkUncontrolled :: "store \<Rightarrow> string \<Rightarrow> err" where
  "checkUncontrolled db chat =
     (if RowsAffected (\<lambda>r. rn_ConversationID r = chat \<and> map_of (db_controlled db) (rn_ID r) \<noteq> None
                            \<and> rn_Status r \<notin> {''completed'', ''failed'', ''abandoned''}) (db_runs db) \<noteq> 0
      then Some (Sentinel ErrControlledRun) else None)"

abbreviation child_name :: "childRecord \<Rightarrow> string" where
  "child_name c \<equiv> cs_Name (ch_Spec c)"

definition zero_child :: childRecord where
  "zero_child =
     \<lparr>ch_Spec = \<lparr>cs_Name = [], cs_Role = [], cs_Objective = [], cs_Context = [], cs_DependsOn = [], cs_Results = []\<rparr>,
      ch_RunID = [], ch_Control = [], ch_OutputBytes = 0, ch_Retired = False, ch_ResultsReady = False\<rparr>"

definition recordChild :: "collaborationRecord \<Rightarrow> string \<Rightarrow> childRecord" where
  "recordChild r name = (case find (\<lambda>c. child_name c = name) (co_Children r) of None \<Rightarrow> zero_child | Some c \<Rightarrow> c)"

text \<open>Indexing the Go map of roles with an unknown name answers the zero profile.\<close>

definition zero_budget :: ChildBudget where
  "zero_budget = \<lparr>cb_MaxSteps = 0, cb_MaxSeconds = 0, cb_MaxOutputBytes = 0, cb_MaxCallOutputBytes = 0\<rparr>"

definition role_budget :: "collaborationRecord \<Rightarrow> string \<Rightarrow> ChildBudget" where
  "role_budget r role = (case map_of (cp_Roles (co_Plan r)) role of None \<Rightarrow> zero_budget | Some p \<Rightarrow> rp_Budget p)"

section \<open>Reserve\<close>

definition planning_request :: "guard_env \<Rightarrow> Attempt \<Rightarrow> bool" where
  "planning_request E a \<longleftrightarrow>
     (case ge_request E (am_RequestJSON a) of None \<Rightarrow> False | Some q \<Rightarrow> mq_Purpose q = ''planning'')"

definition second_message :: "ModelRequest \<Rightarrow> string option" where
  "second_message q = (if length (mq_Messages q) < 2 then None else Some (mm_Content (mq_Messages q ! 1)))"

definition children_completed :: "store \<Rightarrow> collaborationRecord \<Rightarrow> bool" where
  "children_completed db r \<longleftrightarrow>
     list_all (\<lambda>c. ch_Retired c
                    \<or> (ch_Control c = ''running''
                        \<and> (case get_run db (ch_RunID c) of None \<Rightarrow> False | Some run \<Rightarrow> rn_Status run = ''completed'')))
       (co_Children r)"

text \<open>The checks of a model call of the parent itself, by the purpose of the request.\<close>

definition parent_call :: "guard_env \<Rightarrow> store \<Rightarrow> collaborationRecord \<Rightarrow> Attempt \<Rightarrow> ModelRequest \<Rightarrow> collaborationRecord res" where
  "parent_call E db r a q =
     (if mq_Purpose q = ''planning'' then
        if \<not> co_Planning r then Inl (Sentinel ErrControlledRun)
        else if RowsAffected (\<lambda>b. am_RunID b = co_ParentID r \<and> am_Kind b = ''model'' \<and> planning_request E b)
                  (db_attempts db) \<noteq> 0
             then Inl (ErrorsNew ''harness: planning has already been dispatched; use the saved result'')
        else Inr r
      else if mq_Purpose q = ''replanning'' then
        if co_Planning r \<or> co_Single r \<or> us_Replans (co_Usage r) \<ge> cp_MaxReplans (co_Plan r)
        then Inl (Sentinel ErrParentBudget)
        else if co_ReplanAttempt r \<noteq> []
        then Inl (ErrorsNew ''harness: use the saved replanning attempt before another dispatch'')
        else (case Option.bind (second_message q) (ge_input E) of
                None \<Rightarrow> Inl (Sentinel ErrStoreFormat)
              | Some (revision, _) \<Rightarrow>
                  if revision \<noteq> co_Revision r then Inl (Sentinel ErrPlanRevision)
                  else Inr (r\<lparr>co_Usage := (co_Usage r)\<lparr>us_Replans := us_Replans (co_Usage r) + 1\<rparr>,
                              co_ReplanAttempt := am_ID a\<rparr>))
      else if mq_Purpose q = ''synthesis'' then
        if co_Planning r \<or> co_Single r \<or> \<not> cp_Synthesis (co_Plan r) \<or> co_SynthesisAttempt r \<noteq> []
           \<or> co_Active r \<noteq> []
        then Inl (Sentinel ErrControlledRun)
        else (case Option.bind (second_message q) (ge_input E) of
                None \<Rightarrow> Inl (Sentinel ErrPlanRevision)
              | Some (revision, digest) \<Rightarrow>
                  if revision \<noteq> co_Revision r \<or> length digest \<noteq> 64 then Inl (Sentinel ErrPlanRevision)
                  else if \<not> children_completed db r then Inl (Sentinel ErrControlledRun)
                  else Inr (r\<lparr>co_SynthesisAttempt := am_ID a, co_SynthesisDigest := digest\<rparr>))
      else Inr r)"

definition parent_limit :: "collaborationRecord \<Rightarrow> ChildBudget" where
  "parent_limit r =
     (let most = pb_MaxOutputBytes (cp_Budget (co_Plan r))
      in zero_budget\<lparr>cb_MaxOutputBytes := most,
           cb_MaxCallOutputBytes := (case co_Settings r of None \<Rightarrow> min most 16384
                                     | Some s \<Rightarrow> cb_MaxCallOutputBytes (st_Child s))\<rparr>)"

text \<open>
  The child is a pointer into the list of children: the first record of that name is charged.
\<close>

fun charge_child :: "string \<Rightarrow> int \<Rightarrow> childRecord list \<Rightarrow> childRecord list" where
  "charge_child name n [] = []"
| "charge_child name n (c # cs) =
     (if child_name c = name then c\<lparr>ch_OutputBytes := ch_OutputBytes c + n\<rparr> # cs else c # charge_child name n cs)"

definition count_call :: "ParentBudget \<Rightarrow> string \<Rightarrow> CollaborationUsage \<Rightarrow> CollaborationUsage res" where
  "count_call budget kind u =
     (if kind = ''model'' then
        if us_ModelCalls u \<ge> pb_MaxModelCalls budget then Inl (Sentinel ErrParentBudget)
        else Inr (u\<lparr>us_ModelCalls := us_ModelCalls u + 1\<rparr>)
      else if kind = ''tool'' then
        if us_ToolCalls u \<ge> pb_MaxToolCalls budget then Inl (Sentinel ErrParentBudget)
        else Inr (u\<lparr>us_ToolCalls := us_ToolCalls u + 1\<rparr>)
      else Inl (ErrorsNew ''harness: unsupported budgeted call kind''))"

definition reserved :: "collaborationRecord \<Rightarrow> childRecord option \<Rightarrow> Attempt \<Rightarrow> ChildBudget \<Rightarrow> collaborationRecord res" where
  "reserved r child a limit =
     (let budget = cp_Budget (co_Plan r); n = cb_MaxCallOutputBytes limit; u = co_Usage r
      in if (case child of None \<Rightarrow> False | Some c \<Rightarrow> n > cb_MaxOutputBytes limit - ch_OutputBytes c)
         then Inl (Sentinel ErrChildBudget)
         else if n > pb_MaxOutputBytes budget - us_OutputBytes u then Inl (Sentinel ErrParentBudget)
         else case count_call budget (am_Kind a) u of
                Inl e \<Rightarrow> Inl e
              | Inr u' \<Rightarrow>
                  let name = (case child of None \<Rightarrow> [] | Some c \<Rightarrow> child_name c)
                  in Inr (r\<lparr>co_Usage := u'\<lparr>us_OutputBytes := us_OutputBytes u' + n\<rparr>,
                            co_Children := (case child of None \<Rightarrow> co_Children r
                                            | Some c \<Rightarrow> charge_child name n (co_Children r)),
                            co_Reservations := AList.update (am_ID a)
                              \<lparr>or_Child = name, or_Bytes = n, or_Observed = 0, or_Final = False\<rparr> (co_Reservations r)\<rparr>))"

definition reserveCollaborationCall ::
    "guard_env \<Rightarrow> store \<Rightarrow> collaborationRecord \<Rightarrow> childRecord option \<Rightarrow> Attempt \<Rightarrow> ChildBudget \<Rightarrow> store res" where
  "reserveCollaborationCall E db r child a limit =
     (case reserved r child a limit of Inl e \<Rightarrow> Inl e | Inr r' \<Rightarrow> saveCollaboration E db r')"

definition reserve_parent :: "guard_env \<Rightarrow> store \<Rightarrow> collaborationRecord \<Rightarrow> Attempt \<Rightarrow> store res" where
  "reserve_parent E db r a =
     (if am_RunID a \<noteq> co_ParentID r then Inl (Sentinel ErrControlledRun)
      else if am_Kind a = ''model'' then
        (case ge_request E (am_RequestJSON a) of
           None \<Rightarrow> Inl (Sentinel ErrStoreFormat)
         | Some q \<Rightarrow>
             (case parent_call E db r a q of
                Inl e \<Rightarrow> Inl e
              | Inr r' \<Rightarrow> reserveCollaborationCall E db r' None a (parent_limit r')))
      else reserveCollaborationCall E db r None a (parent_limit r))"

definition reserve_child :: "guard_env \<Rightarrow> store \<Rightarrow> collaborationRecord \<Rightarrow> string \<Rightarrow> Attempt \<Rightarrow> store res" where
  "reserve_child E db r name a =
     (case find (\<lambda>c. child_name c = name) (co_Children r) of
        None \<Rightarrow> Inl (Sentinel ErrChildPaused)
      | Some c \<Rightarrow>
          if ch_RunID c \<noteq> am_RunID a \<or> ch_Control c \<noteq> ''running'' \<or> ch_Retired c
          then Inl (Sentinel ErrChildPaused)
          else if cs_Results (ch_Spec c) \<noteq> [] \<and> \<not> ch_ResultsReady c then Inl (Sentinel ErrResultReference)
          else (case ge_delivered E db r c of
                  Some e \<Rightarrow> Inl e
                | None \<Rightarrow>
                    if name \<notin> set (co_Active r)
                       \<or> int (length (co_Active r)) > pb_MaxConcurrentChildren (cp_Budget (co_Plan r))
                    then Inl (Sentinel ErrParentBudget)
                    else reserveCollaborationCall E db r (Some c) a (role_budget r (cs_Role (ch_Spec c)))))"

definition Reserve :: "guard_env \<Rightarrow> string \<Rightarrow> string \<Rightarrow> store \<Rightarrow> Attempt \<Rightarrow> store res" where
  "Reserve E parentID childName db a =
     (case loadCollaboration E db parentID of
        Inl e \<Rightarrow> Inl e
      | Inr r \<Rightarrow>
          if co_Control r \<noteq> ''running'' then Inl (Sentinel ErrChildPaused)
          else (case get_run db parentID of
                  None \<Rightarrow> Inl (Sentinel ErrNoRows)
                | Some parent \<Rightarrow>
                    if activeElapsed E parent \<ge> pb_MaxActiveSeconds (cp_Budget (co_Plan r)) * 1000
                    then Inl (Sentinel ErrTimeLimit)
                    else if childName = [] then reserve_parent E db r a
                    else reserve_child E db r childName a))"

section \<open>Record\<close>

definition billed :: "outputReservation \<Rightarrow> int \<Rightarrow> bool \<Rightarrow> int" where
  "billed ov bytes final =
     (let observed = max (or_Observed ov) bytes in if final then observed else max (or_Bytes ov) observed)"

definition settled :: "collaborationRecord \<Rightarrow> string \<Rightarrow> string \<Rightarrow> outputReservation \<Rightarrow> int \<Rightarrow> bool \<Rightarrow> collaborationRecord" where
  "settled r childName aid ov bytes final =
     (let delta = billed ov bytes final - or_Bytes ov
      in r\<lparr>co_Usage := (co_Usage r)\<lparr>us_OutputBytes := us_OutputBytes (co_Usage r) + delta\<rparr>,
           co_Children := upd (\<lambda>c. child_name c = childName) (\<lambda>c. c\<lparr>ch_OutputBytes := ch_OutputBytes c + delta\<rparr>) (co_Children r),
           co_Reservations := AList.update aid
             (ov\<lparr>or_Observed := max (or_Observed ov) bytes, or_Bytes := billed ov bytes final, or_Final := final\<rparr>)
             (co_Reservations r)\<rparr>)"

definition record_limit :: "collaborationRecord \<Rightarrow> string \<Rightarrow> ChildBudget" where
  "record_limit r childName =
     (if childName \<noteq> [] then role_budget r (cs_Role (ch_Spec (recordChild r childName)))
      else case co_Settings r of
             Some s \<Rightarrow> st_Child s
           | None \<Rightarrow> zero_budget\<lparr>cb_MaxCallOutputBytes := min (pb_MaxOutputBytes (cp_Budget (co_Plan r))) 16384\<rparr>)"

definition overrun :: "collaborationRecord \<Rightarrow> string \<Rightarrow> int \<Rightarrow> err" where
  "overrun r childName observed =
     (let limit = record_limit r childName
      in if observed > cb_MaxCallOutputBytes limit
            \<or> (childName \<noteq> [] \<and> ch_OutputBytes (recordChild r childName) > cb_MaxOutputBytes limit)
         then Some (Sentinel ErrChildBudget)
         else if us_OutputBytes (co_Usage r) > pb_MaxOutputBytes (cp_Budget (co_Plan r))
         then Some (Sentinel ErrParentBudget)
         else None)"

definition cancelled_run :: "Run \<Rightarrow> Run" where
  "cancelled_run r = r\<lparr>rn_Status := ''abandoned'',
     rn_StopReason := ''collaboration cancelled; saved results and UNKNOWN retained''\<rparr>"

definition abandon_cancelled :: "string \<Rightarrow> store \<Rightarrow> store res" where
  "abandon_cancelled parent db = update_runs (\<lambda>r. rn_ID r = parent) cancelled_run db"

definition Record :: "guard_env \<Rightarrow> string \<Rightarrow> string \<Rightarrow> store \<Rightarrow> Attempt \<Rightarrow> int \<Rightarrow> bool \<Rightarrow> err \<times> store" where
  "Record E parentID childName db a bytes final =
     (case loadCollaboration E db parentID of
        Inl e \<Rightarrow> (Some e, db)
      | Inr r \<Rightarrow>
          (case map_of (co_Reservations r) (am_ID a) of
             None \<Rightarrow>
               if am_Kind a = ''tool'' \<and> am_Status a = ''pending'' then (None, db)
               else (Some (ErrorsNew ''harness: missing or settled output reservation''), db)
           | Some ov \<Rightarrow>
               if or_Child ov \<noteq> childName \<or> or_Final ov
               then (Some (ErrorsNew ''harness: missing or settled output reservation''), db)
               else let r' = settled r childName (am_ID a) ov bytes final
                    in case saveCollaboration E db r' of
                         Inl e \<Rightarrow> (Some e, db)
                       | Inr db' \<Rightarrow>
                           (case (if final \<and> childName = [] \<and> co_Control r' = ''cancelled''
                                  then abandon_cancelled (co_ParentID r') db' else Inr db') of
                              Inl e \<Rightarrow> (Some e, db)
                            | Inr db'' \<Rightarrow> (overrun r' childName (max (or_Observed ov) bytes), db''))))"

definition collaborationGuard :: "guard_env \<Rightarrow> string \<Rightarrow> string \<Rightarrow> callGuard" where
  "collaborationGuard E parentID childName =
     \<lparr>g_Reserve = Reserve E parentID childName, g_Record = Record E parentID childName\<rparr>"

definition recordOutput :: "callGuard option \<Rightarrow> store \<Rightarrow> Attempt \<Rightarrow> int \<Rightarrow> bool \<Rightarrow> err \<times> store" where
  "recordOutput guard db a bytes final =
     (case guard of
        None \<Rightarrow> (None, db)
      | Some g \<Rightarrow> (case g_Record g db a bytes final of
                     (None, db') \<Rightarrow> (None, db')
                   | (Some e, db') \<Rightarrow> (Some (ErrorsJoin [e]), db')))"

section \<open>Active children\<close>

definition change :: "guard_env \<Rightarrow> string \<Rightarrow> (collaborationRecord \<Rightarrow> collaborationRecord res) \<Rightarrow> store \<Rightarrow> err \<times> store" where
  "change E parentID edit db =
     (case loadCollaboration E db parentID of
        Inl e \<Rightarrow> (Some e, db)
      | Inr r \<Rightarrow> (case edit r of
                   Inl e \<Rightarrow> (Some e, db)
                 | Inr r' \<Rightarrow> (case saveCollaboration E db r' of Inl e \<Rightarrow> (Some e, db) | Inr db' \<Rightarrow> (None, db'))))"

definition with_active :: "string list \<Rightarrow> collaborationRecord \<Rightarrow> collaborationRecord" where
  "with_active names r =
     r\<lparr>co_Active := names, co_Usage := (co_Usage r)\<lparr>us_ActiveChildren := int (length names)\<rparr>\<rparr>"

definition activate_edit :: "string list \<Rightarrow> int option \<Rightarrow> collaborationRecord \<Rightarrow> collaborationRecord res" where
  "activate_edit names revision r =
     (let budget = cp_Budget (co_Plan r)
      in if revision \<noteq> None \<and> revision \<noteq> Some (co_Revision r) then Inl (Sentinel ErrPlanRevision)
         else if co_Control r \<noteq> ''running'' then Inl (Sentinel ErrChildPaused)
         else if int (length (co_Active r) + length names) > pb_MaxConcurrentChildren budget
         then Inl (Sentinel ErrParentBudget)
         else if us_ModelCalls (co_Usage r) \<ge> pb_MaxModelCalls budget
                 \<or> us_OutputBytes (co_Usage r) \<ge> pb_MaxOutputBytes budget
         then Inl (Sentinel ErrParentBudget)
         else if list_ex (\<lambda>name. let c = recordChild r name
                                  in ch_RunID c = [] \<or> ch_Control c \<noteq> ''running'' \<or> ch_Retired c
                                     \<or> name \<in> set (co_Active r)) names
         then Inl (Sentinel ErrChildPaused)
         else Inr (with_active (co_Active r @ names) r))"

definition activate :: "guard_env \<Rightarrow> string \<Rightarrow> string list \<Rightarrow> int option \<Rightarrow> store \<Rightarrow> err \<times> store" where
  "activate E parentID names revision = change E parentID (activate_edit names revision)"

definition deactivate :: "guard_env \<Rightarrow> string \<Rightarrow> string \<Rightarrow> store \<Rightarrow> err \<times> store" where
  "deactivate E parentID name =
     change E parentID (\<lambda>r. Inr (with_active (filter (\<lambda>v. v \<noteq> name) (co_Active r)) r))"

fun save_all :: "guard_env \<Rightarrow> collaborationRecord list \<Rightarrow> store \<Rightarrow> store res" where
  "save_all E [] db = Inr db"
| "save_all E (r # rs) db = (case saveCollaboration E db r of Inl e \<Rightarrow> Inl e | Inr db' \<Rightarrow> save_all E rs db')"

definition recoverCollaborationLeases :: "guard_env \<Rightarrow> store \<Rightarrow> store res" where
  "recoverCollaborationLeases E db =
     (if list_ex (\<lambda>(k, r). ge_size E r > 2097152 \<or> k \<noteq> co_ParentID r) (db_collaboration db)
      then Inl (Sentinel ErrStoreFormat)
      else save_all E (map (\<lambda>(_, r). with_active [] r) (db_collaboration db)) db)"

section \<open>Accounting\<close>

text \<open>The sum of a weight over the reservations, and how an assignment changes it.\<close>

definition weight :: "('v \<Rightarrow> int) \<Rightarrow> ('k, 'v) gomap \<Rightarrow> int" where
  "weight w m = sum_list (map (w \<circ> snd) m)"

lemma weight_simps [simp]:
  "weight w [] = 0" "weight w (p # m) = w (snd p) + weight w m" "weight w (m @ m') = weight w m + weight w m'"
  by (simp_all add: weight_def)

lemma weight_fresh: "map_of m k = None \<Longrightarrow> weight w (AList.update k v m) = weight w m + w v"
  by (simp add: update_fresh map_of_eq_None_iff)

lemma weight_update:
  "gm_wf m \<Longrightarrow> map_of m k = Some u \<Longrightarrow> weight w (AList.update k v m) = weight w m + (w v - w u)"
  by (induction m) auto

abbreviation bytes_of :: "string \<Rightarrow> outputReservation \<Rightarrow> int" where
  "bytes_of name v \<equiv> (if or_Child v = name then or_Bytes v else 0)"

definition reservation_ok :: "outputReservation \<Rightarrow> bool" where
  "reservation_ok v \<longleftrightarrow> (if or_Final v then or_Bytes v = or_Observed v else or_Observed v \<le> max 0 (or_Bytes v))"

definition within_calls :: "collaborationRecord \<Rightarrow> bool" where
  "within_calls r \<longleftrightarrow>
     us_ModelCalls (co_Usage r) \<le> pb_MaxModelCalls (cp_Budget (co_Plan r))
     \<and> us_ToolCalls (co_Usage r) \<le> pb_MaxToolCalls (cp_Budget (co_Plan r))
     \<and> us_Replans (co_Usage r) \<le> cp_MaxReplans (co_Plan r)
     \<and> (co_Active r \<noteq> [] \<longrightarrow> int (length (co_Active r)) \<le> pb_MaxConcurrentChildren (cp_Budget (co_Plan r)))
     \<and> us_ActiveChildren (co_Usage r) = int (length (co_Active r))"

definition sums_ok :: "collaborationRecord \<Rightarrow> bool" where
  "sums_ok r \<longleftrightarrow>
     us_OutputBytes (co_Usage r) = weight or_Bytes (co_Reservations r)
     \<and> (\<forall>c \<in> set (co_Children r). ch_OutputBytes c = weight (bytes_of (child_name c)) (co_Reservations r))
     \<and> us_ModelCalls (co_Usage r) + us_ToolCalls (co_Usage r) = int (length (co_Reservations r))"

definition names_ok :: "collaborationRecord \<Rightarrow> bool" where
  "names_ok r \<longleftrightarrow> gm_wf (co_Reservations r) \<and> distinct (map child_name (co_Children r))
     \<and> [] \<notin> child_name ` set (co_Children r) \<and> (\<forall>(_, v) \<in> set (co_Reservations r). reservation_ok v)"

definition accounted :: "collaborationRecord \<Rightarrow> bool" where
  "accounted r \<longleftrightarrow> names_ok r \<and> sums_ok r \<and> within_calls r"

lemma charge_child_names [simp]: "map child_name (charge_child name n cs) = map child_name cs"
  by (induction cs) auto

lemma charge_child_image [simp]: "child_name ` set (charge_child name n cs) = child_name ` set cs"
  by (metis charge_child_names list.set_map)

lemma charge_child_set:
  "distinct (map child_name cs) \<Longrightarrow> c \<in> set (charge_child name n cs)
   \<Longrightarrow> \<exists>d \<in> set cs. child_name d = child_name c
         \<and> ch_OutputBytes c = ch_OutputBytes d + (if child_name d = name then n else 0)"
proof (induction cs)
  case (Cons d ds)
  show ?case
  proof (cases "child_name d = name")
    case True
    then have "c = d\<lparr>ch_OutputBytes := ch_OutputBytes d + n\<rparr> \<or> (c \<in> set ds \<and> child_name c \<noteq> name)"
      using Cons.prems by (auto simp: image_iff)
    then show ?thesis using True by auto
  next
    case False
    then show ?thesis using Cons by (cases "c = d") auto
  qed
qed simp

lemma count_call_cases:
  assumes "count_call budget kind u = Inr u'"
  shows "us_OutputBytes u' = us_OutputBytes u" "us_ActiveChildren u' = us_ActiveChildren u"
    "us_Replans u' = us_Replans u" "us_ModelCalls u' + us_ToolCalls u' = us_ModelCalls u + us_ToolCalls u + 1"
    "us_ModelCalls u \<le> pb_MaxModelCalls budget \<Longrightarrow> us_ModelCalls u' \<le> pb_MaxModelCalls budget"
    "us_ToolCalls u \<le> pb_MaxToolCalls budget \<Longrightarrow> us_ToolCalls u' \<le> pb_MaxToolCalls budget"
    "kind = ''model'' \<or> kind = ''tool''"
  using assms by (auto simp: count_call_def split: if_splits)

text \<open>What a successful reservation writes.\<close>

definition entry :: "childRecord option \<Rightarrow> ChildBudget \<Rightarrow> outputReservation" where
  "entry child limit =
     \<lparr>or_Child = (case child of None \<Rightarrow> [] | Some c \<Rightarrow> child_name c), or_Bytes = cb_MaxCallOutputBytes limit,
      or_Observed = 0, or_Final = False\<rparr>"

lemma entry_simps [simp]:
  "or_Child (entry child limit) = (case child of None \<Rightarrow> [] | Some c \<Rightarrow> child_name c)"
  "or_Bytes (entry child limit) = cb_MaxCallOutputBytes limit" "reservation_ok (entry child limit)"
  by (simp_all add: entry_def reservation_ok_def)

lemma reserved_cases:
  assumes "reserved r child a limit = Inr r'"
  obtains u where "count_call (cp_Budget (co_Plan r)) (am_Kind a) (co_Usage r) = Inr u"
    "r' = r\<lparr>co_Usage := u\<lparr>us_OutputBytes := us_OutputBytes u + cb_MaxCallOutputBytes limit\<rparr>,
            co_Children := (case child of None \<Rightarrow> co_Children r
                            | Some c \<Rightarrow> charge_child (child_name c) (cb_MaxCallOutputBytes limit) (co_Children r)),
            co_Reservations := AList.update (am_ID a) (entry child limit) (co_Reservations r)\<rparr>"
    "us_OutputBytes (co_Usage r) + cb_MaxCallOutputBytes limit \<le> pb_MaxOutputBytes (cp_Budget (co_Plan r))"
    "case child of None \<Rightarrow> True | Some c \<Rightarrow> ch_OutputBytes c + cb_MaxCallOutputBytes limit \<le> cb_MaxOutputBytes limit"
  using assms
  by (auto simp: reserved_def Let_def entry_def split: if_splits sum.splits option.splits)

lemma reserved_accounted:
  assumes res: "reserved r child a limit = Inr r'" and acc: "accounted r"
    and fresh: "map_of (co_Reservations r) (am_ID a) = None"
    and child: "\<And>c. child = Some c \<Longrightarrow> c \<in> set (co_Children r)"
  shows "accounted r'"
proof -
  obtain u where u: "count_call (cp_Budget (co_Plan r)) (am_Kind a) (co_Usage r) = Inr u"
    and r': "r' = r\<lparr>co_Usage := u\<lparr>us_OutputBytes := us_OutputBytes u + cb_MaxCallOutputBytes limit\<rparr>,
            co_Children := (case child of None \<Rightarrow> co_Children r
                            | Some c \<Rightarrow> charge_child (child_name c) (cb_MaxCallOutputBytes limit) (co_Children r)),
            co_Reservations := AList.update (am_ID a) (entry child limit) (co_Reservations r)\<rparr>"
    using res by (rule reserved_cases)
  note counts = count_call_cases[OF u]
  have names: "names_ok r" and sums: "sums_ok r" and within: "within_calls r"
    using acc by (simp_all add: accounted_def)
  have up: "co_Reservations r' = co_Reservations r @ [(am_ID a, entry child limit)]"
    using fresh by (simp add: r' update_fresh map_of_eq_None_iff)
  have "names_ok r'"
    using names fresh unfolding names_ok_def up
    by (auto simp: r' map_of_eq_None_iff split: option.split)
  moreover have "ch_OutputBytes c = weight (bytes_of (child_name c)) (co_Reservations r')"
    if c: "c \<in> set (co_Children r')" for c
  proof (cases child)
    case None
    then have "c \<in> set (co_Children r)" using c by (simp add: r')
    then show ?thesis using sums names None unfolding sums_ok_def names_ok_def up by (auto simp: image_iff)
  next
    case (Some d)
    have "c \<in> set (charge_child (child_name d) (cb_MaxCallOutputBytes limit) (co_Children r))"
      using c Some by (simp add: r')
    then obtain e where e: "e \<in> set (co_Children r)" "child_name e = child_name c"
        "ch_OutputBytes c = ch_OutputBytes e + (if child_name e = child_name d then cb_MaxCallOutputBytes limit else 0)"
      using charge_child_set names unfolding names_ok_def by blast
    then show ?thesis using sums Some unfolding sums_ok_def up by auto
  qed
  then have "sums_ok r'"
    using sums counts(1,4) unfolding sums_ok_def up by (auto simp: r')
  moreover have "within_calls r'"
    using within counts(2,3,5,6) unfolding within_calls_def r' by simp
  ultimately show ?thesis by (simp add: accounted_def)
qed

lemma parent_call_cases:
  assumes "parent_call E db r a q = Inr r'"
  shows "r' = r
     \<or> (us_Replans (co_Usage r) < cp_MaxReplans (co_Plan r)
         \<and> r' = r\<lparr>co_Usage := (co_Usage r)\<lparr>us_Replans := us_Replans (co_Usage r) + 1\<rparr>, co_ReplanAttempt := am_ID a\<rparr>)
     \<or> (\<exists>digest. co_SynthesisAttempt r = [] \<and> children_completed db r
         \<and> r' = r\<lparr>co_SynthesisAttempt := am_ID a, co_SynthesisDigest := digest\<rparr>)"
  using assms unfolding parent_call_def by (auto split: if_split_asm option.split_asm)

lemma parent_call_same:
  assumes "parent_call E db r a q = Inr r'"
  shows "co_ParentID r' = co_ParentID r" "co_Reservations r' = co_Reservations r" "co_Children r' = co_Children r"
    "co_Plan r' = co_Plan r" "us_OutputBytes (co_Usage r') = us_OutputBytes (co_Usage r)"
    "accounted r \<Longrightarrow> accounted r'" "co_Control r' = co_Control r" "co_Active r' = co_Active r"
  using parent_call_cases[OF assms]
  by (auto simp: accounted_def names_ok_def sums_ok_def within_calls_def)

lemma settled_same [simp]:
  "co_Control (settled r name aid v bytes final) = co_Control r"
  "co_ParentID (settled r name aid v bytes final) = co_ParentID r"
  "co_Plan (settled r name aid v bytes final) = co_Plan r"
  by (simp_all add: settled_def Let_def)

lemma settled_accounted:
  assumes acc: "accounted r" and v: "map_of (co_Reservations r) aid = Some v"
    and child: "or_Child v = name" and bytes: "0 \<le> bytes"
  shows "accounted (settled r name aid v bytes final)"
proof -
  let ?r = "settled r name aid v bytes final"
  let ?v = "v\<lparr>or_Observed := max (or_Observed v) bytes, or_Bytes := billed v bytes final, or_Final := final\<rparr>"
  have names: "names_ok r" and sums: "sums_ok r" and within: "within_calls r"
    using acc by (simp_all add: accounted_def)
  have wf: "gm_wf (co_Reservations r)" using names by (simp add: names_ok_def)
  have w: "weight f (AList.update aid ?v (co_Reservations r)) = weight f (co_Reservations r) + (f ?v - f v)" for f
    by (rule weight_update[OF wf v])
  have len: "length (AList.update aid ?v (co_Reservations r)) = length (co_Reservations r)"
    using v by (simp add: length_update) (metis map_of_eq_None_iff option.distinct(1))
  have ok: "reservation_ok ?v"
    by (auto simp: reservation_ok_def billed_def Let_def)
  have kids: "map child_name (co_Children ?r) = map child_name (co_Children r)"
    by (simp add: settled_def Let_def map_upd)
  have "names_ok ?r"
    using names ok kids unfolding names_ok_def
    by (simp add: settled_def Let_def set_update_gm flip: set_map)
  moreover have "ch_OutputBytes c = weight (bytes_of (child_name c)) (co_Reservations ?r)"
    if "c \<in> set (co_Children ?r)" for c
  proof -
    have "\<exists>d \<in> set (co_Children r).
        c = (if child_name d = name then d\<lparr>ch_OutputBytes := ch_OutputBytes d + (billed v bytes final - or_Bytes v)\<rparr> else d)"
      using that by (simp add: settled_def Let_def set_upd)
    then obtain d where d: "d \<in> set (co_Children r)"
        "c = (if child_name d = name then d\<lparr>ch_OutputBytes := ch_OutputBytes d + (billed v bytes final - or_Bytes v)\<rparr> else d)"
      by blast
    then have "ch_OutputBytes d = weight (bytes_of (child_name d)) (co_Reservations r)"
      using sums by (simp add: sums_ok_def)
    then show ?thesis using d(2) child by (simp add: settled_def Let_def w)
  qed
  moreover have "us_OutputBytes (co_Usage ?r) = weight or_Bytes (co_Reservations ?r)"
    "us_ModelCalls (co_Usage ?r) + us_ToolCalls (co_Usage ?r) = int (length (co_Reservations ?r))"
    using sums by (simp_all add: sums_ok_def settled_def Let_def w len)
  ultimately have "names_ok ?r" "sums_ok ?r" by (simp_all add: sums_ok_def)
  moreover have "within_calls ?r"
    using within by (simp add: within_calls_def settled_def Let_def)
  ultimately show ?thesis by (simp add: accounted_def)
qed

section \<open>The overlay of a store\<close>

definition overlay_ok :: "store \<Rightarrow> bool" where
  "overlay_ok db \<longleftrightarrow>
     gm_wf (db_collaboration db) \<and> (\<forall>(p, r) \<in> set (db_collaboration db). co_ParentID r = p \<and> accounted r)"

definition reserved_ids :: "store \<Rightarrow> string set" where
  "reserved_ids db = (\<Union>(_, r) \<in> set (db_collaboration db). fst ` set (co_Reservations r))"

definition save_record :: "collaborationRecord \<Rightarrow> store \<Rightarrow> store" where
  "save_record r db = db\<lparr>db_collaboration := AList.update (co_ParentID r) r (db_collaboration db)\<rparr>"

lemma saveCollaboration_Inr: "saveCollaboration E db r = Inr db' \<Longrightarrow> db' = save_record r db"
  by (auto simp: saveCollaboration_def save_record_def split: if_splits)

lemma loadCollaboration_Inr:
  assumes "loadCollaboration E db p = Inr r"
  shows "(p, r) \<in> set (db_collaboration db)" "map_of (db_collaboration db) p = Some r" "co_ParentID r = p"
  using assms by (auto simp: loadCollaboration_def map_of_SomeD split: option.splits if_splits)

lemma save_record_overlay:
  assumes "overlay_ok db" "accounted r"
  shows "overlay_ok (save_record r db)"
  using assms by (auto simp: overlay_ok_def save_record_def set_update_gm)

lemma save_record_reserved:
  assumes "overlay_ok db" "map_of (db_collaboration db) (co_ParentID r) = Some r0"
    and "fst ` set (co_Reservations r) = X \<union> fst ` set (co_Reservations r0)"
  shows "reserved_ids (save_record r db) = X \<union> reserved_ids db"
proof -
  have wf: "gm_wf (db_collaboration db)" using assms(1) by (simp add: overlay_ok_def)
  have split: "set (db_collaboration db)
     = insert (co_ParentID r, r0) {p \<in> set (db_collaboration db). fst p \<noteq> co_ParentID r}"
    by (rule set_split_gm[OF wf assms(2)])
  have "reserved_ids db = fst ` set (co_Reservations r0)
     \<union> (\<Union>(_, r) \<in> {p \<in> set (db_collaboration db). fst p \<noteq> co_ParentID r}. fst ` set (co_Reservations r))"
    (is "_ = _ \<union> \<Union>(?f ` ?S)")
  proof -
    have "reserved_ids db = \<Union>(?f ` insert (co_ParentID r, r0) ?S)"
      unfolding reserved_ids_def by (rule arg_cong[OF split])
    then show ?thesis by simp
  qed
  moreover have "reserved_ids (save_record r db) = fst ` set (co_Reservations r)
     \<union> (\<Union>(_, r) \<in> {p \<in> set (db_collaboration db). fst p \<noteq> co_ParentID r}. fst ` set (co_Reservations r))"
    unfolding reserved_ids_def save_record_def by (simp add: set_update_gm[OF wf])
  ultimately show ?thesis by (simp only: assms(3) Un_assoc)
qed

text \<open>Every successful Reserve is one reservation on the record of the parent.\<close>

lemma Reserve_cases:
  assumes "Reserve E parent name db a = Inr db'"
  obtains r r1 child limit r' where "loadCollaboration E db parent = Inr r" "co_Control r = ''running''"
    "r1 = r \<and> name \<noteq> [] \<or> name = [] \<and> (r1 = r \<or> (\<exists>q. parent_call E db r a q = Inr r1))"
    "reserved r1 child a limit = Inr r'" "db' = save_record r' db"
    "\<And>c. child = Some c \<Longrightarrow> c \<in> set (co_Children r) \<and> child_name c = name \<and> name \<in> set (co_Active r)
        \<and> ch_Control c = ''running'' \<and> ch_RunID c = am_RunID a \<and> limit = role_budget r (cs_Role (ch_Spec c))"
    "child = None \<Longrightarrow> name = [] \<and> am_RunID a = parent"
proof -
  obtain r where load: "loadCollaboration E db parent = Inr r" and run: "co_Control r = ''running''"
    and go: "(if name = [] then reserve_parent E db r a else reserve_child E db r name a) = Inr db'"
    using assms by (auto simp: Reserve_def split: sum.splits option.splits if_splits)
  show thesis
  proof (cases "name = []")
    case True
    then obtain r1 where r1: "r1 = r \<or> (\<exists>q. parent_call E db r a q = Inr r1)" "am_RunID a = co_ParentID r"
      "reserveCollaborationCall E db r1 None a (parent_limit r1) = Inr db'"
      using go by (auto simp: reserve_parent_def split: if_splits sum.splits option.splits)
    then obtain r' where "reserved r1 None a (parent_limit r1) = Inr r'" "db' = save_record r' db"
      by (auto simp: reserveCollaborationCall_def split: sum.splits dest: saveCollaboration_Inr)
    then show thesis
      using that[of r r1 None "parent_limit r1" r'] load run r1 True loadCollaboration_Inr(3)[OF load] by auto
  next
    case False
    then obtain c where c: "find (\<lambda>c. child_name c = name) (co_Children r) = Some c" "ch_RunID c = am_RunID a"
      "ch_Control c = ''running''" "name \<in> set (co_Active r)"
      "reserveCollaborationCall E db r (Some c) a (role_budget r (cs_Role (ch_Spec c))) = Inr db'"
      using go by (auto simp: reserve_child_def split: if_splits sum.splits option.splits)
    then obtain r' where "reserved r (Some c) a (role_budget r (cs_Role (ch_Spec c))) = Inr r'" "db' = save_record r' db"
      by (auto simp: reserveCollaborationCall_def split: sum.splits dest: saveCollaboration_Inr)
    note r' = this
    have in_name: "c \<in> set (co_Children r) \<and> child_name c = name" using find_SomeD[OF c(1)] by simp
    show thesis
      by (rule that[OF load run _ r'(1,2)]) (simp_all add: False c(2-4) in_name)
  qed
qed

lemma reserved_same:
  assumes "reserved r child a limit = Inr r'"
  shows "co_ParentID r' = co_ParentID r" "co_Plan r' = co_Plan r"
    "co_Reservations r' = AList.update (am_ID a) (entry child limit) (co_Reservations r)"
    "us_OutputBytes (co_Usage r') \<le> pb_MaxOutputBytes (cp_Budget (co_Plan r))"
    "am_Kind a = ''model'' \<or> am_Kind a = ''tool''"
  using assms by (auto elim!: reserved_cases dest: count_call_cases)

lemma Reserve_overlay:
  assumes res: "Reserve E parent name db a = Inr db'" and ok: "overlay_ok db"
    and fresh: "am_ID a \<notin> reserved_ids db"
  shows "overlay_ok db'" "reserved_ids db' = insert (am_ID a) (reserved_ids db)"
proof -
  obtain r r1 child limit r' where r: "loadCollaboration E db parent = Inr r"
    and r1: "r1 = r \<and> name \<noteq> [] \<or> name = [] \<and> (r1 = r \<or> (\<exists>q. parent_call E db r a q = Inr r1))"
    and r': "reserved r1 child a limit = Inr r'" and db': "db' = save_record r' db"
    and child: "\<And>c. child = Some c \<Longrightarrow> c \<in> set (co_Children r)"
    using res by (elim Reserve_cases) blast
  have mem: "(parent, r) \<in> set (db_collaboration db)" by (rule loadCollaboration_Inr(1)[OF r])
  then have acc: "accounted r" using ok by (auto simp: overlay_ok_def)
  have same: "co_ParentID r1 = parent" "co_Reservations r1 = co_Reservations r" "co_Children r1 = co_Children r" "accounted r1"
    using r1 parent_call_same[of E db r a _ r1] loadCollaboration_Inr(3)[OF r] acc by auto
  have "map_of (co_Reservations r1) (am_ID a) = None"
    using fresh mem same(2) by (force simp: reserved_ids_def map_of_eq_None_iff)
  then have "accounted r'"
    using reserved_accounted[OF r' same(4)] child same(3) by auto
  then show "overlay_ok db'" using ok by (simp add: db' save_record_overlay)
  have pid: "co_ParentID r' = parent" and rs: "co_Reservations r' = AList.update (am_ID a) (entry child limit) (co_Reservations r)"
    using reserved_same[OF r'] same by simp_all
  have keys: "fst ` set (co_Reservations r') = {am_ID a} \<union> fst ` set (co_Reservations r)"
    by (simp add: rs)
  have "map_of (db_collaboration db) (co_ParentID r') = Some r"
    by (simp add: pid loadCollaboration_Inr(2)[OF r])
  from save_record_reserved[OF ok this keys]
  show "reserved_ids db' = insert (am_ID a) (reserved_ids db)" by (simp add: db')
qed

lemma Reserve_frame: "Reserve E parent name db a = Inr db' \<Longrightarrow> \<exists>m. db' = db\<lparr>db_collaboration := m\<rparr>"
  by (elim Reserve_cases) (auto simp: save_record_def)

lemma Reserve_kind: "Reserve E parent name db a = Inr db' \<Longrightarrow> am_Kind a = ''model'' \<or> am_Kind a = ''tool''"
  by (elim Reserve_cases) (rule reserved_same(5))

text \<open>Record either leaves the store alone or settles the reservation of the attempt.\<close>

lemma Record_cases:
  assumes "Record E parent name db a bytes final = (e, db')"
  obtains "db' = db" "\<And>x. e = Some x \<Longrightarrow> \<not> isOutputLimit x \<or> loadCollaboration E db parent = Inl x"
      "\<And>r v. e = None \<Longrightarrow> loadCollaboration E db parent = Inr r \<Longrightarrow> map_of (co_Reservations r) (am_ID a) \<noteq> Some v"
  | r v where "loadCollaboration E db parent = Inr r" "map_of (co_Reservations r) (am_ID a) = Some v"
      "or_Child v = name" "\<not> or_Final v"
      "db' = save_record (settled r name (am_ID a) v bytes final) db
       \<or> final \<and> name = [] \<and> co_Control r = ''cancelled''
         \<and> abandon_cancelled (co_ParentID r) (save_record (settled r name (am_ID a) v bytes final) db) = Inr db'"
      "e = overrun (settled r name (am_ID a) v bytes final) name (max (or_Observed v) bytes)"
      "ge_size E (settled r name (am_ID a) v bytes final) \<le> 2097152"
proof (cases "\<exists>r v. loadCollaboration E db parent = Inr r \<and> map_of (co_Reservations r) (am_ID a) = Some v
        \<and> or_Child v = name \<and> \<not> or_Final v")
  case False
  then have "db' = db" "\<And>x. e = Some x \<Longrightarrow> \<not> isOutputLimit x \<or> loadCollaboration E db parent = Inl x"
    "\<And>r v. e = None \<Longrightarrow> loadCollaboration E db parent = Inr r \<Longrightarrow> map_of (co_Reservations r) (am_ID a) \<noteq> Some v"
    using assms by (auto simp: Record_def split: sum.splits option.splits if_splits)
  then show thesis by (rule that(1))
next
  case True
  then obtain r v where r: "loadCollaboration E db parent = Inr r" "map_of (co_Reservations r) (am_ID a) = Some v"
    "or_Child v = name" "\<not> or_Final v" by blast
  let ?r = "settled r name (am_ID a) v bytes final"
  show thesis
  proof (cases "saveCollaboration E db ?r")
    case (Inl x)
    then have "e = Some x" "db' = db" using assms by (simp_all add: Record_def r Let_def)
    moreover have "\<not> isOutputLimit x" using Inl by (auto simp: saveCollaboration_def split: if_splits)
    ultimately show thesis by (intro that(1)) auto
  next
    case (Inr db1)
    then have db1: "db1 = save_record ?r db" by (rule saveCollaboration_Inr)
    have size: "ge_size E ?r \<le> 2097152" using Inr by (simp add: saveCollaboration_def split: if_splits)
    show thesis
    proof (cases "final \<and> name = [] \<and> co_Control r = ''cancelled''")
      case False
      then have "e = overrun ?r name (max (or_Observed v) bytes)" "db' = save_record ?r db"
        using assms Inr db1 by (auto simp: Record_def r Let_def)
      then show thesis using size by (intro that(2)[OF r]) auto
    next
      case cancelled: True
      show thesis
      proof (cases "abandon_cancelled (co_ParentID r) (save_record ?r db)")
        case (Inl x)
        then have "e = Some x" "db' = db" using assms Inr cancelled db1 by (simp_all add: Record_def r Let_def)
        moreover have "\<not> isOutputLimit x"
          using Inl by (auto simp: abandon_cancelled_def update_runs_def put_runs_def sql_violation_def split: if_splits)
        ultimately show thesis by (intro that(1)) auto
      next
        case ab: (Inr db2)
        then have "e = overrun ?r name (max (or_Observed v) bytes)" "db' = db2"
          using assms Inr cancelled db1 by (simp_all add: Record_def r Let_def)
        then show thesis using cancelled ab size by (intro that(2)[OF r]) auto
      qed
    qed
  qed
qed

lemma settled_keys:
  assumes "map_of (co_Reservations r) aid = Some v"
  shows "fst ` set (co_Reservations (settled r name aid v bytes final)) = {} \<union> fst ` set (co_Reservations r)"
  using map_of_SomeD[OF assms] by (force simp: settled_def Let_def)

lemma abandon_cancelled_frame:
  "abandon_cancelled p db = Inr db'
   \<Longrightarrow> db' = db\<lparr>db_runs := upd (\<lambda>r. rn_ID r = p)
         cancelled_run
         (db_runs db)\<rparr> \<and> run_table_ok (db_runs db')"
  by (auto simp: abandon_cancelled_def update_runs_def put_runs_def split: if_splits)

lemma Record_overlay:
  assumes rec: "Record E parent name db a bytes final = (e, db')" and ok: "overlay_ok db" and bytes: "0 \<le> bytes"
  shows "overlay_ok db' \<and> reserved_ids db' = reserved_ids db"
  using rec
proof (cases rule: Record_cases)
  case 1
  then show ?thesis using ok by simp
next
  case (2 r v)
  let ?r = "settled r name (am_ID a) v bytes final"
  have acc: "accounted r" using ok loadCollaboration_Inr(1)[OF 2(1)] by (auto simp: overlay_ok_def)
  have "accounted ?r" by (rule settled_accounted[OF acc 2(2,3) bytes])
  then have saved: "overlay_ok (save_record ?r db)" by (rule save_record_overlay[OF ok])
  have "map_of (db_collaboration db) (co_ParentID ?r) = Some r"
    using loadCollaboration_Inr[OF 2(1)] by simp
  from save_record_reserved[OF ok this settled_keys[OF 2(2)]]
  have "reserved_ids (save_record ?r db) = reserved_ids db" by simp
  moreover have "db_collaboration db' = db_collaboration (save_record ?r db)"
    using 2(5) by (auto dest!: abandon_cancelled_frame)
  ultimately show ?thesis using saved by (simp add: overlay_ok_def reserved_ids_def)
qed

lemma Record_frame:
  assumes "Record E parent name db a bytes final = (e, db')"
  shows "\<exists>m rs. db' = db\<lparr>db_collaboration := m, db_runs := rs\<rparr>
     \<and> (rs = db_runs db
        \<or> run_table_ok rs \<and> rs = upd (\<lambda>r. rn_ID r = parent)
           cancelled_run
           (db_runs db))"
  using assms
proof (cases rule: Record_cases)
  case 1
  then show ?thesis by (intro exI[of _ "db_collaboration db"] exI[of _ "db_runs db"]) simp
next
  case (2 r v)
  let ?s = "save_record (settled r name (am_ID a) v bytes final) db"
  have p: "co_ParentID r = parent" by (rule loadCollaboration_Inr(3)[OF 2(1)])
  show ?thesis
    using 2(5) abandon_cancelled_frame[of parent ?s db'] p
    by (intro exI[of _ "db_collaboration ?s"] exI[of _ "db_runs db'"]) (auto simp: save_record_def)
qed

section \<open>What the ledger relies on\<close>

text \<open>
  A guard writes only to the overlay, except that it may abandon a cancelled parent; it keeps the
  overlay accounted, and a reservation adds exactly the attempt it was made for.
\<close>

locale lawful_guard =
  fixes g :: callGuard
  assumes reserve_frame: "g_Reserve g db a = Inr db' \<Longrightarrow> \<exists>m. db' = db\<lparr>db_collaboration := m\<rparr>"
    and reserve_kind: "g_Reserve g db a = Inr db' \<Longrightarrow> am_Kind a = ''model'' \<or> am_Kind a = ''tool''"
    and reserve_overlay: "g_Reserve g db a = Inr db' \<Longrightarrow> overlay_ok db \<Longrightarrow> am_ID a \<notin> reserved_ids db
           \<Longrightarrow> overlay_ok db' \<and> reserved_ids db' = insert (am_ID a) (reserved_ids db)"
    and record_frame: "g_Record g db a bytes final = (e, db') \<Longrightarrow>
           \<exists>m rs. db' = db\<lparr>db_collaboration := m, db_runs := rs\<rparr>
             \<and> (rs = db_runs db
                \<or> run_table_ok rs \<and> (\<exists>p. rs = upd (\<lambda>r. rn_ID r = p)
                    cancelled_run
                    (db_runs db)))"
    and record_overlay: "g_Record g db a bytes final = (e, db') \<Longrightarrow> overlay_ok db \<Longrightarrow> 0 \<le> bytes
           \<Longrightarrow> overlay_ok db' \<and> reserved_ids db' = reserved_ids db"
begin

lemma recordOutput_overlay:
  assumes "recordOutput (Some g) db a bytes final = (e, db')" "overlay_ok db" "0 \<le> bytes"
  shows "overlay_ok db' \<and> reserved_ids db' = reserved_ids db"
proof -
  obtain e' where "g_Record g db a bytes final = (e', db')"
    using assms(1) by (auto simp: recordOutput_def split: prod.splits option.splits)
  then show ?thesis using assms(2,3) by (rule record_overlay)
qed

end

interpretation collab: lawful_guard "collaborationGuard E parentID childName" for E parentID childName
proof unfold_locales
  fix db db' a bytes final e
  let ?g = "collaborationGuard E parentID childName"
  show "\<exists>m. db' = db\<lparr>db_collaboration := m\<rparr>" if "g_Reserve ?g db a = Inr db'"
    using that by (simp add: collaborationGuard_def Reserve_frame)
  show "am_Kind a = ''model'' \<or> am_Kind a = ''tool''" if "g_Reserve ?g db a = Inr db'"
    using that by (simp add: collaborationGuard_def Reserve_kind)
  show "overlay_ok db' \<and> reserved_ids db' = insert (am_ID a) (reserved_ids db)"
    if "g_Reserve ?g db a = Inr db'" "overlay_ok db" "am_ID a \<notin> reserved_ids db"
    using that Reserve_overlay by (simp add: collaborationGuard_def)
  show "overlay_ok db' \<and> reserved_ids db' = reserved_ids db"
    if "g_Record ?g db a bytes final = (e, db')" "overlay_ok db" "0 \<le> bytes"
    using that Record_overlay[of E parentID childName db a bytes final e db'] by (simp add: collaborationGuard_def)
  show "\<exists>m rs. db' = db\<lparr>db_collaboration := m, db_runs := rs\<rparr>
             \<and> (rs = db_runs db
                \<or> run_table_ok rs \<and> (\<exists>p. rs = upd (\<lambda>r. rn_ID r = p)
                    cancelled_run
                    (db_runs db)))"
    if "g_Record ?g db a bytes final = (e, db')"
    using that by (auto simp: collaborationGuard_def dest!: Record_frame)
qed

section \<open>Reservations stay within the budget\<close>

lemma charge_child_find:
  "find (\<lambda>c. child_name c = name) (charge_child name n cs)
   = map_option (\<lambda>c. c\<lparr>ch_OutputBytes := ch_OutputBytes c + n\<rparr>) (find (\<lambda>c. child_name c = name) cs)"
  by (induction cs) auto

lemma reserved_child_bytes:
  assumes res: "reserved r (Some c) a limit = Inr r'" and c: "c \<in> set (co_Children r)" and names: "names_ok r"
  shows "ch_OutputBytes (recordChild r' (child_name c)) = ch_OutputBytes c + cb_MaxCallOutputBytes limit"
    "ch_OutputBytes (recordChild r' (child_name c)) \<le> cb_MaxOutputBytes limit"
    "cs_Role (ch_Spec (recordChild r' (child_name c))) = cs_Role (ch_Spec c)"
proof -
  have "find (\<lambda>d. child_name d = child_name c) (co_Children r) = Some c"
    using names c by (intro find_distinct) (simp_all add: names_ok_def)
  then have child: "recordChild r' (child_name c) = c\<lparr>ch_OutputBytes := ch_OutputBytes c + cb_MaxCallOutputBytes limit\<rparr>"
    using res by (elim reserved_cases) (simp add: recordChild_def charge_child_find)
  show "ch_OutputBytes (recordChild r' (child_name c)) = ch_OutputBytes c + cb_MaxCallOutputBytes limit"
    "cs_Role (ch_Spec (recordChild r' (child_name c))) = cs_Role (ch_Spec c)"
    by (simp_all add: child)
  show "ch_OutputBytes (recordChild r' (child_name c)) \<le> cb_MaxOutputBytes limit"
    using res child by (elim reserved_cases) simp
qed

lemma role_budget_cong: "co_Plan r' = co_Plan r \<Longrightarrow> role_budget r' = role_budget r"
  by (rule ext) (simp add: role_budget_def)

lemma map_of_save_record [simp]:
  "map_of (db_collaboration (save_record r db)) p
   = (if p = co_ParentID r then Some r else map_of (db_collaboration db) p)"
  by (simp add: save_record_def update_conv')

text \<open>
  C4: A call is charged before it is dispatched: when the guard lets a call pass, the
  collaboration is running, the reservation is part of the stored usage, the usage including it is
  within the output, model call, tool call and replanning limits of the plan, and for a child the
  call belongs to its run, the child is active and its output including the reservation is within
  the budget of its role.\<close>

theorem reserve_within_budget:
  assumes "overlay_ok db" "am_ID a \<notin> reserved_ids db" "Reserve E parent name db a = Inr db'"
  shows "\<exists>r. map_of (db_collaboration db') parent = Some r \<and> co_Control r = ''running''
     \<and> map_of (co_Reservations r) (am_ID a) \<noteq> None
     \<and> us_OutputBytes (co_Usage r) = weight or_Bytes (co_Reservations r)
     \<and> us_OutputBytes (co_Usage r) \<le> pb_MaxOutputBytes (cp_Budget (co_Plan r))
     \<and> us_ModelCalls (co_Usage r) \<le> pb_MaxModelCalls (cp_Budget (co_Plan r))
     \<and> us_ToolCalls (co_Usage r) \<le> pb_MaxToolCalls (cp_Budget (co_Plan r))
     \<and> us_Replans (co_Usage r) \<le> cp_MaxReplans (co_Plan r)
     \<and> (name \<noteq> [] \<longrightarrow> name \<in> set (co_Active r) \<and> ch_RunID (recordChild r name) = am_RunID a
          \<and> ch_OutputBytes (recordChild r name) \<le> cb_MaxOutputBytes (role_budget r (cs_Role (ch_Spec (recordChild r name)))))"
  using assms(3)
proof (rule Reserve_cases)
  fix r r1 child limit r'
  assume load: "loadCollaboration E db parent = Inr r" and run: "co_Control r = ''running''"
    and r1: "r1 = r \<and> name \<noteq> [] \<or> name = [] \<and> (r1 = r \<or> (\<exists>q. parent_call E db r a q = Inr r1))"
    and res: "reserved r1 child a limit = Inr r'" and db': "db' = save_record r' db"
    and child: "\<And>c. child = Some c \<Longrightarrow> c \<in> set (co_Children r) \<and> child_name c = name \<and> name \<in> set (co_Active r)
        \<and> ch_Control c = ''running'' \<and> ch_RunID c = am_RunID a \<and> limit = role_budget r (cs_Role (ch_Spec c))"
    and none: "child = None \<Longrightarrow> name = [] \<and> am_RunID a = parent"
  have acc: "accounted r" using assms(1) loadCollaboration_Inr(1)[OF load] by (auto simp: overlay_ok_def)
  have r1same: "co_ParentID r1 = parent" "co_Plan r1 = co_Plan r" "co_Control r1 = ''running''" "accounted r1"
    using r1 parent_call_same[of E db r a _ r1] loadCollaboration_Inr(3)[OF load] acc run by auto
  have r'same: "co_ParentID r' = parent" "co_Plan r' = co_Plan r" "co_Control r' = ''running''" "co_Active r' = co_Active r1"
    using reserved_same[OF res] r1same res by (auto elim: reserved_cases)
  have "overlay_ok db'" by (rule Reserve_overlay(1)[OF assms(3,1,2)])
  moreover have here: "map_of (db_collaboration db') parent = Some r'" by (simp add: db' r'same)
  ultimately have "accounted r'" by (auto simp: overlay_ok_def dest: map_of_SomeD)
  then have "sums_ok r'" "within_calls r'" by (simp_all add: accounted_def)
  moreover have "us_OutputBytes (co_Usage r') \<le> pb_MaxOutputBytes (cp_Budget (co_Plan r'))"
    using reserved_same(4)[OF res] r1same r'same by simp
  moreover have "map_of (co_Reservations r') (am_ID a) \<noteq> None"
    by (simp add: reserved_same(3)[OF res] update_conv')
  moreover have "name \<in> set (co_Active r') \<and> ch_RunID (recordChild r' name) = am_RunID a
      \<and> ch_OutputBytes (recordChild r' name) \<le> cb_MaxOutputBytes (role_budget r' (cs_Role (ch_Spec (recordChild r' name))))"
    if "name \<noteq> []"
  proof -
    obtain c where c: "child = Some c" using none \<open>name \<noteq> []\<close> by (cases child) auto
    have eq: "r1 = r" using r1 \<open>name \<noteq> []\<close> by simp
    have "c \<in> set (co_Children r1)" "names_ok r1" using child[OF c] eq acc by (simp_all add: accounted_def)
    note bytes = reserved_child_bytes[OF res[unfolded c] this]
    have "find (\<lambda>d. child_name d = child_name c) (co_Children r) = Some c"
      using acc child[OF c] by (intro find_distinct) (simp_all add: accounted_def names_ok_def)
    then have "ch_RunID (recordChild r' name) = am_RunID a"
      using res[unfolded c] child[OF c] eq by (elim reserved_cases) (simp add: recordChild_def charge_child_find)
    then show ?thesis
      using bytes child[OF c] r'same eq role_budget_cong[of r' r] by simp
  qed
  ultimately show ?thesis
    using here r'same(3) by (intro exI[of _ r']) (simp add: sums_ok_def within_calls_def)
qed

section \<open>Records are final\<close>

text \<open>
  C22: Recording the final output of a call happens once and loses nothing. When the guard stores
  it, the reservation is replaced by the larger of the observed sizes and marked final, the usage
  is again the sum of the reservations, also when a limit is exceeded and reported; nil is
  returned only within every limit; and every later Record of the same attempt fails with an
  error that is no output limit and changes nothing.\<close>

theorem record_settles_once:
  assumes ok: "overlay_ok db" and bytes: "0 \<le> bytes"
    and load: "loadCollaboration E db parent = Inr r" and v: "map_of (co_Reservations r) (am_ID a) = Some v"
    and unsettled: "\<not> or_Final v" and child: "or_Child v = name"
    and rec: "Record E parent name db a bytes True = (e, db')" and kept: "e = None \<or> isOutputLimit (the e)"
  shows "\<exists>r' v'. map_of (db_collaboration db') parent = Some r' \<and> map_of (co_Reservations r') (am_ID a) = Some v'
     \<and> or_Final v' \<and> or_Bytes v' = max (or_Observed v) bytes
     \<and> us_OutputBytes (co_Usage r') = weight or_Bytes (co_Reservations r')
     \<and> us_OutputBytes (co_Usage r') = us_OutputBytes (co_Usage r) + (max (or_Observed v) bytes - or_Bytes v)
     \<and> (e = None \<longleftrightarrow> or_Bytes v' \<le> cb_MaxCallOutputBytes (record_limit r' name)
            \<and> (name \<noteq> [] \<longrightarrow> ch_OutputBytes (recordChild r' name) \<le> cb_MaxOutputBytes (record_limit r' name))
            \<and> us_OutputBytes (co_Usage r') \<le> pb_MaxOutputBytes (cp_Budget (co_Plan r')))
     \<and> (\<forall>n f. \<exists>x. Record E parent name db' a n f = (Some x, db') \<and> \<not> isOutputLimit x)"
  using rec
proof (cases rule: Record_cases)
  case 1
  then show ?thesis using kept load v by (cases e) auto
next
  case (2 r0 v0)
  have [simp]: "r0 = r" "v0 = v" using 2(1,2) load v by simp_all
  let ?r = "settled r name (am_ID a) v bytes True"
  let ?v = "v\<lparr>or_Observed := max (or_Observed v) bytes, or_Bytes := max (or_Observed v) bytes, or_Final := True\<rparr>"
  have pid: "co_ParentID r = parent" by (rule loadCollaboration_Inr(3)[OF load])
  have acc: "accounted r" using ok loadCollaboration_Inr(1)[OF load] by (auto simp: overlay_ok_def)
  have "accounted ?r" by (rule settled_accounted[OF acc v child bytes])
  then have sums: "us_OutputBytes (co_Usage ?r) = weight or_Bytes (co_Reservations ?r)"
    by (simp add: accounted_def sums_ok_def)
  have here: "map_of (db_collaboration db') parent = Some ?r"
    using 2(5) pid by (auto dest!: abandon_cancelled_frame)
  have v': "map_of (co_Reservations ?r) (am_ID a) = Some ?v"
    by (simp add: settled_def Let_def update_conv' billed_def)
  have rev: "co_Revision ?r = co_Revision r" by (simp add: settled_def Let_def)
  have load': "loadCollaboration E db' parent = Inr ?r"
    using 2(7) load by (auto simp: loadCollaboration_def here pid rev split: option.splits if_splits)
  have again: "Record E parent name db' a n f = (Some (ErrorsNew ''harness: missing or settled output reservation''), db')" for n f
    by (simp add: Record_def load' v')
  have usage: "us_OutputBytes (co_Usage ?r) = us_OutputBytes (co_Usage r) + (max (or_Observed v) bytes - or_Bytes v)"
    by (simp add: settled_def Let_def billed_def)
  have "e = None \<longleftrightarrow> max (or_Observed v) bytes \<le> cb_MaxCallOutputBytes (record_limit ?r name)
            \<and> (name \<noteq> [] \<longrightarrow> ch_OutputBytes (recordChild ?r name) \<le> cb_MaxOutputBytes (record_limit ?r name))
            \<and> us_OutputBytes (co_Usage ?r) \<le> pb_MaxOutputBytes (cp_Budget (co_Plan ?r))"
    using 2(6) by (auto simp: overrun_def Let_def split: if_splits)
  then show ?thesis
    using here v' sums usage again by (intro exI[of _ ?r] exI[of _ ?v]) simp
qed

section \<open>Active children\<close>

lemma with_active_accounted:
  "accounted r \<Longrightarrow> names \<noteq> [] \<longrightarrow> int (length names) \<le> pb_MaxConcurrentChildren (cp_Budget (co_Plan r))
   \<Longrightarrow> accounted (with_active names r)"
  by (simp add: accounted_def names_ok_def sums_ok_def within_calls_def with_active_def)

lemma with_active_reservations [simp]:
  "co_Reservations (with_active names r) = co_Reservations r" "co_ParentID (with_active names r) = co_ParentID r"
  by (simp_all add: with_active_def)

lemma change_overlay:
  assumes "change E parent edit db = (e, db')" and ok: "overlay_ok db"
    and edit: "\<And>r r'. edit r = Inr r' \<Longrightarrow> accounted r \<Longrightarrow> accounted r' \<and> co_ParentID r' = co_ParentID r
                  \<and> co_Reservations r' = co_Reservations r"
  shows "overlay_ok db' \<and> reserved_ids db' = reserved_ids db \<and> (\<exists>m. db' = db\<lparr>db_collaboration := m\<rparr>)"
proof (cases "db' = db")
  case True
  then show ?thesis using ok by (simp add: exI[of _ "db_collaboration db"])
next
  case False
  then obtain r r' where r: "loadCollaboration E db parent = Inr r" "edit r = Inr r'" "db' = save_record r' db"
    using assms(1) by (auto simp: change_def split: sum.splits dest: saveCollaboration_Inr)
  have "accounted r" using ok loadCollaboration_Inr(1)[OF r(1)] by (auto simp: overlay_ok_def)
  note r' = edit[OF r(2) this]
  have "map_of (db_collaboration db) (co_ParentID r') = Some r" using loadCollaboration_Inr[OF r(1)] r' by simp
  from save_record_reserved[OF ok this, of "{}"] show ?thesis
    using r' ok save_record_overlay[of db r'] by (auto simp: r(3) save_record_def)
qed

lemma activate_overlay:
  "activate E parent names revision db = (e, db') \<Longrightarrow> overlay_ok db
   \<Longrightarrow> overlay_ok db' \<and> reserved_ids db' = reserved_ids db \<and> (\<exists>m. db' = db\<lparr>db_collaboration := m\<rparr>)"
  unfolding activate_def
  by (erule change_overlay) (auto simp: activate_edit_def Let_def split: if_splits intro: with_active_accounted)

lemma deactivate_overlay:
  "deactivate E parent name db = (e, db') \<Longrightarrow> overlay_ok db
   \<Longrightarrow> overlay_ok db' \<and> reserved_ids db' = reserved_ids db \<and> (\<exists>m. db' = db\<lparr>db_collaboration := m\<rparr>)"
  unfolding deactivate_def
proof (erule change_overlay)
  fix r r' assume "Inr (with_active (filter (\<lambda>v. v \<noteq> name) (co_Active r)) r) = (Inr r' :: collaborationRecord res)" "accounted r"
  note r' = this
  have "int (length (filter (\<lambda>v. v \<noteq> name) (co_Active r))) \<le> int (length (co_Active r))"
    by (simp add: length_filter_le)
  moreover have "co_Active r \<noteq> [] \<longrightarrow> int (length (co_Active r)) \<le> pb_MaxConcurrentChildren (cp_Budget (co_Plan r))"
    using r'(2) by (simp add: accounted_def within_calls_def)
  ultimately have "filter (\<lambda>v. v \<noteq> name) (co_Active r) \<noteq> []
      \<longrightarrow> int (length (filter (\<lambda>v. v \<noteq> name) (co_Active r))) \<le> pb_MaxConcurrentChildren (cp_Budget (co_Plan r))"
    by (cases "co_Active r = []") (simp, linarith)
  from with_active_accounted[OF r'(2) this]
  show "accounted r' \<and> co_ParentID r' = co_ParentID r \<and> co_Reservations r' = co_Reservations r"
    using r'(1) by auto
qed

lemma save_all_frame: "save_all E rs db = Inr db' \<Longrightarrow> \<exists>m. db' = db\<lparr>db_collaboration := m\<rparr>"
proof (induction rs arbitrary: db)
  case Nil
  then show ?case by (auto intro: exI[of _ "db_collaboration db"])
next
  case (Cons r rs)
  then obtain db1 where "saveCollaboration E db r = Inr db1" "save_all E rs db1 = Inr db'"
    by (auto split: sum.splits)
  then obtain m where "db' = db1\<lparr>db_collaboration := m\<rparr>" "db1 = save_record r db"
    using Cons.IH saveCollaboration_Inr by blast
  then show ?case by (auto simp: save_record_def)
qed

lemma save_all_overlay:
  "save_all E rs db = Inr db' \<Longrightarrow> overlay_ok db
   \<Longrightarrow> \<forall>r \<in> set rs. accounted r \<and> (\<exists>r0. map_of (db_collaboration db) (co_ParentID r) = Some r0
                                       \<and> co_Reservations r0 = co_Reservations r)
   \<Longrightarrow> overlay_ok db' \<and> reserved_ids db' = reserved_ids db"
proof (induction rs arbitrary: db)
  case (Cons r rs)
  then obtain db1 where db1: "db1 = save_record r db" "save_all E rs db1 = Inr db'"
    by (auto split: sum.splits dest: saveCollaboration_Inr)
  obtain r0 where r0: "map_of (db_collaboration db) (co_ParentID r) = Some r0" "co_Reservations r0 = co_Reservations r"
    using Cons.prems(3) by auto
  have "overlay_ok db1" using Cons.prems(2,3) by (simp add: db1(1) save_record_overlay)
  moreover have "reserved_ids db1 = reserved_ids db"
    using save_record_reserved[OF Cons.prems(2) r0(1), of "{}"] r0(2) by (simp add: db1(1))
  moreover have "\<forall>ra \<in> set rs. accounted ra \<and> (\<exists>r0. map_of (db_collaboration db1) (co_ParentID ra) = Some r0
       \<and> co_Reservations r0 = co_Reservations ra)"
  proof
    fix ra assume "ra \<in> set rs"
    then obtain r2 where "accounted ra" "map_of (db_collaboration db) (co_ParentID ra) = Some r2"
      "co_Reservations r2 = co_Reservations ra" using Cons.prems(3) by auto
    then show "accounted ra \<and> (\<exists>r0. map_of (db_collaboration db1) (co_ParentID ra) = Some r0
       \<and> co_Reservations r0 = co_Reservations ra)"
      using r0 by (cases "co_ParentID ra = co_ParentID r") (simp_all add: db1(1))
  qed
  ultimately show ?case using Cons.IH[OF db1(2)] by simp
qed simp

lemma recoverCollaborationLeases_overlay:
  assumes "recoverCollaborationLeases E db = Inr db'" and ok: "overlay_ok db"
  shows "overlay_ok db' \<and> reserved_ids db' = reserved_ids db \<and> (\<exists>m. db' = db\<lparr>db_collaboration := m\<rparr>)"
proof -
  have save: "save_all E (map (\<lambda>(_, r). with_active [] r) (db_collaboration db)) db = Inr db'"
    using assms(1) by (auto simp: recoverCollaborationLeases_def split: if_splits)
  have "accounted (with_active [] r) \<and> map_of (db_collaboration db) (co_ParentID (with_active [] r)) = Some r"
    if "(p, r) \<in> set (db_collaboration db)" for p r
    using ok that by (auto simp: overlay_ok_def intro!: with_active_accounted)
  then have "\<forall>r \<in> set (map (\<lambda>(_, r). with_active [] r) (db_collaboration db)).
      accounted r \<and> (\<exists>r0. map_of (db_collaboration db) (co_ParentID r) = Some r0 \<and> co_Reservations r0 = co_Reservations r)"
    by fastforce
  from save_all_overlay[OF save ok this] save_all_frame[OF save] show ?thesis by simp
qed

section \<open>Witnesses\<close>

definition sample_usage :: CollaborationUsage where
  "sample_usage = \<lparr>us_ModelCalls = 0, us_ToolCalls = 0, us_OutputBytes = 0, us_ActiveChildren = 1, us_Replans = 0\<rparr>"

definition sample_record :: collaborationRecord where
  "sample_record =
     \<lparr>co_ParentID = ''p'', co_Plan = sample_plan sample_children, co_Control = ''running'', co_Usage = sample_usage,
      co_Children = [zero_child\<lparr>ch_Spec := sample_child ''a'' [], ch_RunID := ''r1'', ch_Control := ''running''\<rparr>],
      co_Active = [''a''], co_Reservations = [], co_Settings = None, co_Planning = False, co_Single = False,
      co_Revision = 1, co_ReplanAttempt = [], co_SynthesisAttempt = [], co_SynthesisDigest = []\<rparr>"

definition sample_run :: "string \<Rightarrow> Run" where
  "sample_run i =
     \<lparr>rn_ID = i, rn_ConversationID = ''c'' @ i, rn_RequestKey = ''k'', rn_Prompt = ''go'', rn_ConfigJSON = ''{}'',
      rn_Status = ''running'', rn_StopReason = [], rn_Steps = 0, rn_ElapsedMS = 0, rn_Output = [], rn_ActiveSince = []\<rparr>"

definition sample_budget_store :: store where
  "sample_budget_store = empty_store\<lparr>db_runs := [sample_run ''p'', sample_run ''r1''], db_collaboration := [(''p'', sample_record)]\<rparr>"

definition sample_guard_env :: guard_env where
  "sample_guard_env = \<lparr>ge_request = (\<lambda>_. None), ge_input = (\<lambda>_. None), ge_since = (\<lambda>_. None), ge_size = (\<lambda>_. 1000),
     ge_delivered = (\<lambda>_ _ _. None)\<rparr>"

definition sample_attempt :: Attempt where
  "sample_attempt = \<lparr>am_ID = ''t1'', am_RunID = ''r1'', am_Kind = ''tool'', am_CallID = ''call'', am_Status = ''pending'',
     am_RequestJSON = ''{}'', am_ResponseJSON = []\<rparr>"

lemmas sample_budget_defs = sample_usage_def sample_record_def sample_run_def sample_budget_store_def
  sample_guard_env_def sample_attempt_def sample_plan_defs empty_store_def zero_child_def

lemma sample_overlay: "overlay_ok sample_budget_store" "am_ID sample_attempt \<notin> reserved_ids sample_budget_store"
  by (simp_all add: overlay_ok_def accounted_def names_ok_def sums_ok_def within_calls_def reserved_ids_def sample_budget_defs)

definition sample_reserved :: store where
  "sample_reserved = (case Reserve sample_guard_env ''p'' ''a'' sample_budget_store sample_attempt of Inr db \<Rightarrow> db | Inl _ \<Rightarrow> empty_store)"

lemma sample_reserve: "Reserve sample_guard_env ''p'' ''a'' sample_budget_store sample_attempt = Inr sample_reserved"
  by code_simp

theorem reserve_within_budget_witness:
  "\<exists>r. map_of (db_collaboration sample_reserved) ''p'' = Some r \<and> us_OutputBytes (co_Usage r) \<le> 65536
     \<and> ch_RunID (recordChild r ''a'') = ''r1''"
proof -
  have "map_option (\<lambda>r. cp_Budget (co_Plan r)) (map_of (db_collaboration sample_reserved) ''p'') = Some (cp_Budget (co_Plan sample_record))"
    by code_simp
  then show ?thesis
    using reserve_within_budget[OF sample_overlay sample_reserve]
    by (auto simp: sample_attempt_def sample_record_def sample_plan_def)
qed

theorem record_settles_once_witness:
  "\<exists>x. Record sample_guard_env ''p'' ''a'' (snd (Record sample_guard_env ''p'' ''a'' sample_reserved sample_attempt 5000 True))
         sample_attempt 1 False
       = (Some x, snd (Record sample_guard_env ''p'' ''a'' sample_reserved sample_attempt 5000 True))"
proof -
  let ?r = "the (map_of (db_collaboration sample_reserved) ''p'')"
  let ?out = "Record sample_guard_env ''p'' ''a'' sample_reserved sample_attempt 5000 True"
  have ok: "overlay_ok sample_reserved" by (rule Reserve_overlay(1)[OF sample_reserve sample_overlay])
  have load: "loadCollaboration sample_guard_env sample_reserved ''p'' = Inr ?r"
    and v: "map_of (co_Reservations ?r) (am_ID sample_attempt) = Some \<lparr>or_Child = ''a'', or_Bytes = 1024, or_Observed = 0, or_Final = False\<rparr>"
    and e: "fst ?out = Some (Sentinel ErrChildBudget)"
    by code_simp+
  have "0 \<le> (5000::int)" "\<not> or_Final \<lparr>or_Child = ''a'', or_Bytes = 1024, or_Observed = 0, or_Final = False\<rparr>"
    "or_Child \<lparr>or_Child = ''a'', or_Bytes = 1024, or_Observed = 0, or_Final = False\<rparr> = ''a''"
    "?out = (fst ?out, snd ?out)" "fst ?out = None \<or> isOutputLimit (the (fst ?out))"
    by (simp, simp, simp, rule prod.collapse[symmetric], simp add: e)
  from record_settles_once[OF ok this(1) load v this(2-5)] show ?thesis by blast
qed

end
