(* ===== verification/Ledger.thy ===== *)
theory Ledger
  imports Collaboration_Budget
begin

text \<open>
  internal/harness/store.go with tool_outcome.go: the ledger of runs and attempts. Each operation
  is one transaction. It answers Inl with the error when the transaction is rolled back, and
  otherwise its result with the new store; an operation that commits although the output guard
  reported a limit carries that error in its result. Identifiers come from newID and are
  arguments; a taken identifier fails on the primary key.
\<close>

section \<open>Environment\<close>

text \<open>
  The parts of a frozen configuration the store reads (InputAttachments, input_request_id,
  continuation_of, the channel message that triggered the run, the Auto settings), and what the
  store asks of other code: the JSON encoders and decoders, the rendering of an error, binding
  attachments, the memory check of a request and the commands of a conversation.
\<close>

record run_input =
  ri_InputAttachments :: "AttachmentRef list"
  ri_InputRequestID :: string
  ri_ContinuationOf :: string
  ri_Channel :: "int option"
  ri_Auto :: "(int \<times> string) option"

record ledger_env =
  le_config :: "string \<Rightarrow> run_input option"
  le_freeze :: "string \<Rightarrow> int \<Rightarrow> string option"
  le_request :: "string \<Rightarrow> ModelRequest option"
  le_call :: "string \<Rightarrow> ToolCall option"
  le_result :: "string \<Rightarrow> ToolResult option"
  le_call_json :: "ToolCall \<Rightarrow> string"
  le_result_json :: "ToolResult \<Rightarrow> string"
  le_response_json :: "ModelResponse \<Rightarrow> string"
  le_workflow_json :: "string \<Rightarrow> string \<Rightarrow> string \<Rightarrow> string"
  le_safeError :: "go_error \<Rightarrow> string"
  le_callError :: "CallError \<Rightarrow> string"
  le_bind :: "store \<Rightarrow> string \<Rightarrow> string \<Rightarrow> AttachmentRef list \<Rightarrow> err"
  le_memory :: "store \<Rightarrow> Run \<Rightarrow> ModelRequest \<Rightarrow> err"
  le_commands :: "store \<Rightarrow> string \<Rightarrow> err"
  le_since :: "string \<Rightarrow> int option"
  le_hash :: "string \<Rightarrow> string"

section \<open>Steps of a run\<close>

definition incrementStep :: "string \<Rightarrow> int \<Rightarrow> store \<Rightarrow> store res" where
  "incrementStep run maxSteps db =
     (let P = (\<lambda>r. rn_ID r = run \<and> (maxSteps = 0 \<or> rn_Steps r < maxSteps) \<and> rn_Status r = ''running'')
      in if RowsAffected P (db_runs db) \<noteq> 1
         then Inl (if maxSteps = 0 then ErrorsJoin [Sentinel ErrActiveRun] else Sentinel ErrStepLimit)
         else update_runs P (\<lambda>r. r\<lparr>rn_Steps := rn_Steps r + 1\<rparr>) db)"

definition mark_time :: "string \<Rightarrow> store \<Rightarrow> store res" where
  "mark_time aid db =
     (case insert_key aid (db_times db) of Inl e \<Rightarrow> Inl e | Inr ks \<Rightarrow> Inr (db\<lparr>db_times := ks\<rparr>))"

definition reserve :: "callGuard option \<Rightarrow> Attempt \<Rightarrow> store \<Rightarrow> store res" where
  "reserve guard a db = (case guard of None \<Rightarrow> Inr db | Some g \<Rightarrow> g_Reserve g db a)"

section \<open>Deferred input\<close>

definition saveInput :: "PendingInput \<Rightarrow> store \<Rightarrow> store" where
  "saveInput i db = db\<lparr>db_inputs := AList.update (pi_ConversationID i, pi_Key i) i (db_inputs db)\<rparr>"

definition loadInput :: "store \<Rightarrow> string \<Rightarrow> string \<Rightarrow> PendingInput res" where
  "loadInput db chat key =
     (case map_of (db_inputs db) (chat, key) of None \<Rightarrow> Inl (Sentinel ErrNoRows) | Some i \<Rightarrow> Inr i)"

text \<open>The entry ORDER BY message_id LIMIT 1 answers among the pending queue of a conversation.\<close>

definition first_queued :: "store \<Rightarrow> string \<Rightarrow> PendingInput option" where
  "first_queued db chat =
     (case sort_key pi_MessageID
             (map snd (filter (\<lambda>((c, _), i). c = chat \<and> pi_Action i = ''queue'' \<and> pi_Status i = ''pending'') (db_inputs db))) of
        [] \<Rightarrow> None | i # _ \<Rightarrow> Some i)"

definition moveInputMessage :: "PendingInput \<Rightarrow> string \<Rightarrow> store \<Rightarrow> store res" where
  "moveInputMessage i run db =
     (let chat = pi_ConversationID i;
          P = (\<lambda>m. mg_ID m = pi_MessageID i \<and> mg_RunID m = None \<and> mg_ConversationID m = chat)
      in case get_conversation db chat of
           None \<Rightarrow> Inl (Sentinel ErrNoRows)
         | Some c \<Rightarrow>
             let n = cv_LastMessage c + 1
             in if RowsAffected P (db_messages db) = 0 then Inl (Sentinel ErrNoRows)
                else if \<not> list_ex (\<lambda>r. rn_ID r = run \<and> rn_ConversationID r = chat) (db_runs db) then Inl sql_violation
                else Inr (saveInput (i\<lparr>pi_MessageID := n, pi_Status := ''adopted'', pi_RunID := run\<rparr>)
                       (db\<lparr>db_messages := upd P (\<lambda>m. m\<lparr>mg_ID := n, mg_RunID := Some run, mg_Body := (mg_Body m)\<lparr>mm_Deferred := False\<rparr>\<rparr>)
                                            (db_messages db),
                           db_conversations := upd (\<lambda>c. cv_ID c = chat) (\<lambda>c. c\<lparr>cv_LastMessage := n\<rparr>) (db_conversations db)\<rparr>)))"

section \<open>Creating a run\<close>

definition successorTx :: "ledger_env \<Rightarrow> string \<Rightarrow> string \<Rightarrow> store \<Rightarrow> string res" where
  "successorTx E parent chat db =
     (case get_run db parent of
        None \<Rightarrow> Inl (Sentinel ErrNoRows)
      | Some r \<Rightarrow>
          if rn_ConversationID r \<noteq> chat \<or> rn_Status r \<noteq> ''limited'' \<or> \<not> HasPrefix (rn_StopReason r) settledLimitPrefix
          then Inl (Sentinel ErrActiveRun)
          else if unsettled_attempts db parent \<noteq> 0 then Inl (Sentinel ErrUnknownResult)
          else (case le_commands E db chat of
                  Some e \<Rightarrow> Inl e
                | None \<Rightarrow> Inr (case map_of (db_limit_next db) parent of None \<Rightarrow> [] | Some s \<Rightarrow> s)))"

definition branchSourceReady :: "ledger_env \<Rightarrow> string \<Rightarrow> string \<Rightarrow> store \<Rightarrow> err" where
  "branchSourceReady E allowed chat db =
     (let open_attempt = (\<lambda>a. am_Status a \<in> {''pending'', ''dispatched'', ''unknown''});
          blocked = list_ex (\<lambda>r. rn_ConversationID r = chat
                      \<and> (active_run r \<or> list_ex (\<lambda>a. am_RunID a = rn_ID r \<and> open_attempt a) (db_attempts db))) (db_runs db);
          safe = (list_ex (\<lambda>r. rn_ID r = allowed \<and> rn_ConversationID r = chat \<and> rn_Status r = ''waiting_confirmation'') (db_runs db)
                  \<and> \<not> list_ex (\<lambda>r. rn_ConversationID r = chat \<and> rn_ID r \<noteq> allowed \<and> active_run r) (db_runs db)
                  \<and> \<not> list_ex (\<lambda>a. am_RunID a = allowed
                       \<and> (am_Status a \<in> {''dispatched'', ''unknown''}
                          \<or> (am_Status a = ''pending''
                              \<and> (case le_call E (am_RequestJSON a) of None \<Rightarrow> False | Some c \<Rightarrow> tc_Name c \<noteq> ''control_plan_change''))))
                      (db_attempts db))
      in if \<not> blocked then None
         else if allowed = [] \<or> \<not> safe then Some (Sentinel ErrActiveRun)
         else None)"

text \<open>The input of the queue a run is created for must be the first pending one, unpaused.\<close>

definition queued_input :: "store \<Rightarrow> string \<Rightarrow> string \<Rightarrow> string \<Rightarrow> PendingInput option res" where
  "queued_input db chat requestID key =
     (if requestID = [] then Inr None
      else case loadInput db chat requestID of
             Inl e \<Rightarrow> Inl e
           | Inr i \<Rightarrow>
               if pi_Action i \<noteq> ''queue'' \<or> pi_Status i \<noteq> ''pending'' \<or> pi_Key i \<noteq> key then Inl (Sentinel ErrRequestKey)
               else (case first_queued db chat of
                       None \<Rightarrow> Inl (Sentinel ErrNoRows)
                     | Some f \<Rightarrow>
                         if pi_Key f \<noteq> pi_Key i then Inl (Sentinel ErrInputPending)
                         else if map_of (db_paused db) chat = Some ''true'' then Inl (Sentinel ErrQueuePaused)
                         else Inr (Some i)))"

definition frozen_config :: "ledger_env \<Rightarrow> store \<Rightarrow> string \<Rightarrow> string \<Rightarrow> PendingInput option \<Rightarrow> string res" where
  "frozen_config E db chat config deferred =
     (case deferred of
        None \<Rightarrow> Inr config
      | Some i \<Rightarrow>
          if pi_Channel i = None then Inr config
          else (case get_conversation db chat of
                  None \<Rightarrow> Inl (Sentinel ErrNoRows)
                | Some c \<Rightarrow> (case le_freeze E config (cv_LastMessage c + 1) of
                               None \<Rightarrow> Inl (Sentinel ErrStoreFormat) | Some s \<Rightarrow> Inr s)))"

text \<open>The message that triggers the run: adopted, received over a channel, or appended.\<close>

definition trigger_message :: "run_input \<Rightarrow> bool \<Rightarrow> Run \<Rightarrow> PendingInput option \<Rightarrow> store \<Rightarrow> store res" where
  "trigger_message input maintenance run deferred db =
     (case deferred of
        Some i \<Rightarrow> moveInputMessage i (rn_ID run) db
      | None \<Rightarrow>
          if maintenance
          then (case insert_key (rn_ID run) (db_maintenance db) of Inl e \<Rightarrow> Inl e | Inr ks \<Rightarrow> Inr (db\<lparr>db_maintenance := ks\<rparr>))
          else if (case ri_Channel input of None \<Rightarrow> False | Some n \<Rightarrow> n > 0) then
            (let n = the (ri_Channel input);
                 here = (\<lambda>m. mg_ID m = n \<and> mg_ConversationID m = rn_ConversationID run);
                 P = (\<lambda>m. here m \<and> mg_RequestKey m = rn_RequestKey run \<and> mg_RunID m = None)
             in case find here (db_messages db) of
                  None \<Rightarrow> Inl (Sentinel ErrNoRows)
                | Some m \<Rightarrow>
                    if mm_Attachments (mg_Body m) \<noteq> ri_InputAttachments input \<or> RowsAffected P (db_messages db) \<noteq> 1
                    then Inl (Sentinel ErrRequestKey)
                    else Inr (db\<lparr>db_messages := upd P (\<lambda>m. m\<lparr>mg_RunID := Some (rn_ID run)\<rparr>) (db_messages db)\<rparr>))
          else insertMessage run ((message ''user'' (rn_Prompt run))\<lparr>mm_Attachments := ri_InputAttachments input,
                                    mm_Public := (ri_Channel input \<noteq> None)\<rparr>) db)"

definition direct_call :: "ledger_env \<Rightarrow> Run \<Rightarrow> string \<Rightarrow> ToolCall option \<Rightarrow> store \<Rightarrow> store res" where
  "direct_call E run attemptID call db =
     (case call of
        None \<Rightarrow> Inr db
      | Some c \<Rightarrow>
          (case insert_key (rn_ID run) (db_direct db) of
             Inl e \<Rightarrow> Inl e
           | Inr ks \<Rightarrow>
               (case insertMessage run ((message ''assistant'' [])\<lparr>mm_ToolCalls := [c]\<rparr>) (db\<lparr>db_direct := ks\<rparr>) of
                  Inl e \<Rightarrow> Inl e
                | Inr db1 \<Rightarrow>
                    insert_attempt \<lparr>am_ID = attemptID, am_RunID = rn_ID run, am_Kind = ''tool'', am_CallID = tc_ID c,
                      am_Status = ''pending'', am_RequestJSON = le_call_json E c, am_ResponseJSON = []\<rparr> db1)))"

definition link_successor :: "string \<Rightarrow> string \<Rightarrow> store \<Rightarrow> store res" where
  "link_successor parent run db =
     (if parent = [] then Inr db
      else case insert_meta parent run (db_limit_next db) of Inl e \<Rightarrow> Inl e | Inr m \<Rightarrow> Inr (db\<lparr>db_limit_next := m\<rparr>))"

definition new_run :: "string \<Rightarrow> string \<Rightarrow> string \<Rightarrow> string \<Rightarrow> string \<Rightarrow> Run" where
  "new_run runID chat key prompt config =
     \<lparr>rn_ID = runID, rn_ConversationID = chat, rn_RequestKey = key, rn_Prompt = prompt, rn_ConfigJSON = config,
      rn_Status = ''running'', rn_StopReason = [], rn_Steps = 0, rn_ElapsedMS = 0, rn_Output = [], rn_ActiveSince = []\<rparr>"

definition write_run :: "ledger_env \<Rightarrow> run_input \<Rightarrow> bool \<Rightarrow> ToolCall option \<Rightarrow> string \<Rightarrow> PendingInput option \<Rightarrow> Run \<Rightarrow> store \<Rightarrow> store res" where
  "write_run E input maintenance call attemptID deferred run db =
     (case insert_run run db of
        Inl e \<Rightarrow> Inl e
      | Inr db1 \<Rightarrow>
          (case le_bind E db1 (rn_ConversationID run) (rn_ID run) (ri_InputAttachments input) of
             Some e \<Rightarrow> Inl e
           | None \<Rightarrow>
               (case trigger_message input maintenance run deferred db1 of
                  Inl e \<Rightarrow> Inl e
                | Inr db2 \<Rightarrow>
                    (case direct_call E run attemptID call db2 of
                       Inl e \<Rightarrow> Inl e
                     | Inr db3 \<Rightarrow> link_successor (ri_ContinuationOf input) (rn_ID run) db3))))"

text \<open>The checks before a fresh run: the branch it was made from, and no active run.\<close>

definition fresh_run_allowed :: "ledger_env \<Rightarrow> string \<Rightarrow> string \<Rightarrow> store \<Rightarrow> err" where
  "fresh_run_allowed E allowed chat db =
     (case (case map_of (db_branch db) chat of None \<Rightarrow> None | Some origin \<Rightarrow> branchSourceReady E allowed origin db) of
        Some e \<Rightarrow> Some e
      | None \<Rightarrow> if RowsAffected (\<lambda>r. rn_ConversationID r = chat \<and> active_run r) (db_runs db) > 0
                then Some (Sentinel ErrActiveRun) else None)"

definition createRunWithTool ::
    "ledger_env \<Rightarrow> string \<Rightarrow> string \<Rightarrow> string \<Rightarrow> string \<Rightarrow> string \<Rightarrow> string \<Rightarrow> string \<Rightarrow> bool \<Rightarrow> ToolCall option \<Rightarrow> store
      \<Rightarrow> ((Run \<times> bool) \<times> store) res" where
  "createRunWithTool E allowed runID attemptID chat key prompt config maintenance call db =
     (case le_config E config of
        None \<Rightarrow> Inl (Sentinel ErrStoreFormat)
      | Some input \<Rightarrow>
          if key = [] \<or> prompt = [] then Inl (ErrorsNew ''harness: request key and prompt are required'')
          else if get_conversation db chat = None then Inl (Sentinel ErrNoRows)
          else (case find (\<lambda>r. rn_ConversationID r = chat \<and> rn_RequestKey r = key) (db_runs db) of
                  Some old \<Rightarrow>
                    if rn_Prompt old \<noteq> prompt
                       \<or> map_option ri_InputAttachments (le_config E (rn_ConfigJSON old)) \<noteq> Some (ri_InputAttachments input)
                    then Inl (Sentinel ErrRequestKey) else Inr ((old, False), db)
                | None \<Rightarrow>
                    (case (if ri_ContinuationOf input = [] then Inr [] else successorTx E (ri_ContinuationOf input) chat db) of
                       Inl e \<Rightarrow> Inl e
                     | Inr succ \<Rightarrow>
                         if succ \<noteq> [] then
                           (case get_run db succ of None \<Rightarrow> Inl (Sentinel ErrNoRows) | Some r \<Rightarrow> Inr ((r, False), db))
                         else
                           (case fresh_run_allowed E allowed chat db of
                              Some e \<Rightarrow> Inl e
                            | None \<Rightarrow>
                                (case queued_input db chat (ri_InputRequestID input) key of
                                   Inl e \<Rightarrow> Inl e
                                 | Inr deferred \<Rightarrow>
                                     (case frozen_config E db chat config deferred of
                                        Inl e \<Rightarrow> Inl e
                                      | Inr config' \<Rightarrow>
                                          (case write_run E input maintenance call attemptID deferred
                                                  (new_run runID chat key prompt config') db of
                                             Inl e \<Rightarrow> Inl e
                                           | Inr db' \<Rightarrow> Inr ((new_run runID chat key prompt config', True), db'))))))))"

section \<open>Ending a run\<close>

definition set_status :: "string \<Rightarrow> string \<Rightarrow> Run \<Rightarrow> Run" where
  "set_status status reason r = r\<lparr>rn_Status := status, rn_StopReason := reason\<rparr>"

definition FinishRun :: "string \<Rightarrow> string \<Rightarrow> string \<Rightarrow> store \<Rightarrow> store res" where
  "FinishRun run status reason db = update_runs (\<lambda>r. rn_ID r = run) (set_status status reason) db"

definition validWorkflowTerminalStatus :: "string \<Rightarrow> bool" where
  "validWorkflowTerminalStatus status \<longleftrightarrow> status \<in> {''completed'', ''failed'', ''stopped'', ''unknown'', ''limited''}"

definition require_running :: "store \<Rightarrow> string \<Rightarrow> err" where
  "require_running db run =
     (case get_run db run of
        None \<Rightarrow> Some (Sentinel ErrNoRows)
      | Some r \<Rightarrow> if rn_Status r = ''running'' then None
                  else if rn_Status r = ''unknown'' then Some (Sentinel ErrUnknownResult)
                  else Some (Sentinel ErrModelBoundary))"

definition close_run :: "string \<Rightarrow> string \<Rightarrow> string \<Rightarrow> string \<Rightarrow> store \<Rightarrow> store res" where
  "close_run run status reason output db =
     (let P = (\<lambda>r. rn_ID r = run \<and> rn_Status r = ''running'')
      in if RowsAffected P (db_runs db) \<noteq> 1 then Inl (ErrorsJoin [Sentinel ErrModelBoundary])
         else update_runs P (\<lambda>r. (set_status status reason r)\<lparr>rn_Output := output\<rparr>) db)"

definition FinishRunOutput :: "Run \<Rightarrow> string \<Rightarrow> string \<Rightarrow> string \<Rightarrow> store \<Rightarrow> store res" where
  "FinishRunOutput run status reason output db =
     (if \<not> validWorkflowTerminalStatus status then Inl (ErrorsNew ''harness: invalid workflow terminal status'')
      else case first_err [lockExecutionTx db (rn_ID run), require_running db (rn_ID run)] of
             Some e \<Rightarrow> Inl e
           | None \<Rightarrow>
               (let said = list_ex (\<lambda>m. mg_RunID m = Some (rn_ID run) \<and> mm_Role (mg_Body m) = ''assistant''
                                       \<and> mm_Content (mg_Body m) = output) (db_messages db)
                in case (if output \<noteq> [] \<and> \<not> said then insertMessage run (message ''assistant'' output) db else Inr db) of
                     Inl e \<Rightarrow> Inl e
                   | Inr db1 \<Rightarrow> close_run (rn_ID run) status reason output db1))"

section \<open>Recovery links of model calls\<close>

text \<open>model_recovery.go: a retried model call replaces the attempt its reservation names.\<close>

definition recordModelReplacement :: "string \<Rightarrow> ModelRecovery \<Rightarrow> store \<Rightarrow> store res" where
  "recordModelReplacement newID r db =
     (case map_of (db_retry db) (mr_Root r) of
        None \<Rightarrow> Inl (Sentinel ErrNoRows)
      | Some held \<Rightarrow>
          if held \<noteq> r then Inl (Sentinel ErrModelBoundary)
          else (case insert_meta (mr_Previous r) newID (db_replaced db) of
                  Inl e \<Rightarrow> Inl e | Inr m \<Rightarrow> Inr (db\<lparr>db_replaced := m\<rparr>)))"

definition reserveModelRetry :: "ledger_env \<Rightarrow> Run \<Rightarrow> ModelRecovery \<Rightarrow> int \<Rightarrow> store \<Rightarrow> store res" where
  "reserveModelRetry E run r limit db =
     (let used = (case map_of (db_retry db) (mr_Root r) of None \<Rightarrow> 0 | Some old \<Rightarrow> mr_Number old)
      in if mr_Number r \<noteq> used + 1 \<or> mr_Number r > limit
         then Inl (ErrorsNew ''harness: model retry budget exhausted'')
         else (case find (\<lambda>a. am_ID a = mr_Previous r \<and> am_RunID a = rn_ID run) (db_attempts db) of
                 None \<Rightarrow> Inl (Sentinel ErrNoRows)
               | Some a \<Rightarrow>
                   if am_Kind a \<noteq> ''model'' \<or> (am_Status a \<noteq> ''finished'' \<and> am_Status a \<noteq> ''unknown'')
                      \<or> le_hash E (am_RequestJSON a) \<noteq> mr_Fingerprint r
                   then Inl (Sentinel ErrModelBoundary)
                   else (let P = (\<lambda>x. rn_ID x = rn_ID run \<and> rn_Status x \<in> {''failed'', ''unknown'', ''running''})
                         in if RowsAffected P (db_runs db) \<noteq> 1 then Inl (ErrorsJoin [Sentinel ErrActiveRun])
                            else update_runs P (set_status ''running'' [])
                                   (db\<lparr>db_retry := AList.update (mr_Root r) r (db_retry db)\<rparr>))))"

text \<open>
  Assessment calls need the Auto settings of the frozen configuration; the decoding error Go joins
  to ErrAutoDisabled is left out.
\<close>

definition assessment_check :: "ledger_env \<Rightarrow> store \<Rightarrow> Run \<Rightarrow> ModelRequest \<Rightarrow> err" where
  "assessment_check E db run q =
     (if mq_Purpose q \<noteq> ''assessment'' then None
      else case Option.bind (le_config E (rn_ConfigJSON run)) ri_Auto of
             None \<Rightarrow> Some (ErrorsJoin [Sentinel ErrAutoDisabled])
           | Some (most, model) \<Rightarrow>
               if int (RowsAffected (\<lambda>a. am_RunID a = rn_ID run \<and> am_Kind a = ''model''
                         \<and> (case le_request E (am_RequestJSON a) of None \<Rightarrow> False | Some p \<Rightarrow> mq_Purpose p = ''assessment''))
                       (db_attempts db)) \<ge> most
                  \<or> mq_ModelID q \<noteq> model
               then Some (Sentinel ErrAutoDisabled) else None)"

section \<open>Starting calls\<close>

definition startGuardedModel ::
    "ledger_env \<Rightarrow> callGuard option \<Rightarrow> string \<Rightarrow> Run \<Rightarrow> string \<Rightarrow> int \<Rightarrow> store \<Rightarrow> (Attempt \<times> store) res" where
  "startGuardedModel E guard newID run request maxSteps db =
     (case first_err [if guard = None then checkUncontrolled db (rn_ConversationID run) else None,
                      lockExecutionTx db (rn_ID run)] of
        Some e \<Rightarrow> Inl e
      | None \<Rightarrow>
          (case le_request E request of
             None \<Rightarrow> Inl (Sentinel ErrStoreFormat)
           | Some q \<Rightarrow>
               if mq_Purpose q = [] \<and> pendingSteer db (rn_ID run) then Inl (Sentinel ErrInputPending)
               else
                 (case incrementStep (rn_ID run) maxSteps db of
                    Inl e \<Rightarrow> Inl e
                  | Inr db1 \<Rightarrow>
                      (case first_err [le_memory E db1 run q, assessment_check E db1 run q] of
                         Some e \<Rightarrow> Inl e
                       | None \<Rightarrow>
                           (let a = \<lparr>am_ID = newID, am_RunID = rn_ID run, am_Kind = ''model'', am_CallID = [],
                                     am_Status = ''dispatched'', am_RequestJSON = request, am_ResponseJSON = []\<rparr>
                            in case reserve guard a db1 of
                                 Inl e \<Rightarrow> Inl e
                               | Inr db2 \<Rightarrow>
                                   (case insert_attempt a db2 of
                                      Inl e \<Rightarrow> Inl e
                                    | Inr db3 \<Rightarrow>
                                        (case (case mq_Recovery q of None \<Rightarrow> Inr db3
                                               | Some r \<Rightarrow> recordModelReplacement newID r db3) of
                                           Inl e \<Rightarrow> Inl e
                                         | Inr db4 \<Rightarrow>
                                             (case mark_time newID db4 of
                                                Inl e \<Rightarrow> Inl e | Inr db5 \<Rightarrow> Inr (a, db5)))))))))"

definition startWorkflow ::
    "ledger_env \<Rightarrow> callGuard option \<Rightarrow> string \<Rightarrow> string \<Rightarrow> Run \<Rightarrow> string \<Rightarrow> string \<Rightarrow> string \<Rightarrow> int \<Rightarrow> store \<Rightarrow> (Attempt \<times> store) res" where
  "startWorkflow E guard newID newCall run extensionID workflow input maxSteps db =
     (case lockExecutionTx db (rn_ID run) of
        Some e \<Rightarrow> Inl e
      | None \<Rightarrow>
          (case incrementStep (rn_ID run) maxSteps db of
             Inl e \<Rightarrow> Inl e
           | Inr db1 \<Rightarrow>
               (case get_run db1 (rn_ID run) of
                  None \<Rightarrow> Inl (Sentinel ErrNoRows)
                | Some r \<Rightarrow>
                    if rn_Status r \<noteq> ''running'' then Inl (ErrorsNew ''harness: workflow requires a running task'')
                    else (let a = \<lparr>am_ID = newID, am_RunID = rn_ID run, am_Kind = ''workflow'',
                                   am_CallID = ''workflow-'' @ newCall, am_Status = ''dispatched'',
                                   am_RequestJSON = le_workflow_json E extensionID workflow input, am_ResponseJSON = []\<rparr>
                          in case reserve guard a db1 of
                               Inl e \<Rightarrow> Inl e
                             | Inr db2 \<Rightarrow> (case insert_attempt a db2 of Inl e \<Rightarrow> Inl e | Inr db3 \<Rightarrow> Inr (a, db3))))))"

definition startTool :: "ledger_env \<Rightarrow> string \<Rightarrow> Run \<Rightarrow> ToolCall \<Rightarrow> store \<Rightarrow> (Attempt \<times> store) res" where
  "startTool E newID run c db =
     (if tc_ID c = [] \<or> tc_Name c = [] \<or> tc_Arguments c = [] then Inl (ErrorsNew ''harness: invalid tool call'')
      else case lockExecutionTx db (rn_ID run) of
             Some e \<Rightarrow> Inl e
           | None \<Rightarrow>
               (case get_run db (rn_ID run) of
                  None \<Rightarrow> Inl (Sentinel ErrNoRows)
                | Some r \<Rightarrow>
                    if rn_Status r \<noteq> ''running'' then Inl (ErrorsNew ''harness: tool call requires a running task'')
                    else (let a = \<lparr>am_ID = newID, am_RunID = rn_ID run, am_Kind = ''tool'', am_CallID = tc_ID c,
                                   am_Status = ''pending'', am_RequestJSON = le_call_json E c, am_ResponseJSON = []\<rparr>
                          in case insert_attempt a db of Inl e \<Rightarrow> Inl e | Inr db1 \<Rightarrow> Inr (a, db1))))"

definition dispatchGuardedTool :: "callGuard option \<Rightarrow> Attempt \<Rightarrow> int \<Rightarrow> store \<Rightarrow> store res" where
  "dispatchGuardedTool guard a maxSteps db =
     (if guard = None \<and> controlledParent db (am_RunID a) \<noteq> [] then Inl (ErrorsJoin [Sentinel ErrControlledRun])
      else case lockExecutionTx db (am_RunID a) of
             Some e \<Rightarrow> Inl e
           | None \<Rightarrow>
               if pendingSteer db (am_RunID a) then Inl (Sentinel ErrInputPending)
               else
                 (case reserve guard a db of
                    Inl e \<Rightarrow> Inl e
                  | Inr db1 \<Rightarrow>
                      (case incrementStep (am_RunID a) maxSteps db1 of
                         Inl e \<Rightarrow> Inl e
                       | Inr db2 \<Rightarrow>
                           (let P = (\<lambda>b. am_ID b = am_ID a \<and> am_Status b = ''pending'')
                            in if RowsAffected P (db_attempts db2) \<noteq> 1
                               then Inl (ErrorsNew ''harness: tool attempt is not pending'')
                               else mark_time (am_ID a) (update_attempts P (\<lambda>b. b\<lparr>am_Status := ''dispatched''\<rparr>) db2)))))"

section \<open>Saving results\<close>

definition settle :: "string \<Rightarrow> string \<Rightarrow> Attempt \<Rightarrow> Attempt" where
  "settle status response a = a\<lparr>am_Status := status, am_ResponseJSON := response\<rparr>"

text \<open>
  After an attempt was saved the guard records its output; a limit it reports is kept together
  with the write and ends the run, every other error rolls the transaction back.
\<close>

definition record_output ::
    "ledger_env \<Rightarrow> callGuard option \<Rightarrow> string \<Rightarrow> Attempt \<Rightarrow> int \<Rightarrow> bool \<Rightarrow> store \<Rightarrow> (err \<times> store) res" where
  "record_output E guard run a bytes final db =
     (case guard of
        None \<Rightarrow> Inr (None, db)
      | Some g \<Rightarrow>
          (case g_Record g db a bytes final of
             (None, db') \<Rightarrow> Inr (None, db')
           | (Some e, db') \<Rightarrow>
               if \<not> isOutputLimit e then Inl e
               else (case update_runs (\<lambda>r. rn_ID r = run) (set_status ''limited'' (le_safeError E e)) db' of
                       Inl x \<Rightarrow> Inl x | Inr db'' \<Rightarrow> Inr (Some e, db''))))"

text \<open>saveGuardedModel inserts one pending tool attempt per call of the response.\<close>

fun insert_calls :: "ledger_env \<Rightarrow> string \<Rightarrow> (nat \<Rightarrow> string) \<Rightarrow> nat \<Rightarrow> ToolCall list \<Rightarrow> store \<Rightarrow> store res" where
  "insert_calls E run newID n [] db = Inr db"
| "insert_calls E run newID n (c # cs) db =
     (case insert_attempt \<lparr>am_ID = newID n, am_RunID = run, am_Kind = ''tool'', am_CallID = tc_ID c, am_Status = ''pending'',
                            am_RequestJSON = le_call_json E c, am_ResponseJSON = []\<rparr> db of
        Inl e \<Rightarrow> Inl e | Inr db1 \<Rightarrow> insert_calls E run newID (Suc n) cs db1)"

definition adopt_response :: "ledger_env \<Rightarrow> (nat \<Rightarrow> string) \<Rightarrow> Run \<Rightarrow> ModelResponse \<Rightarrow> store \<Rightarrow> store res" where
  "adopt_response E newID run response db =
     (case insertMessage run ((message ''assistant'' (ms_Content response))\<lparr>mm_ToolCalls := ms_ToolCalls response,
                                mm_ProviderItems := ms_ProviderItems response\<rparr>) db of
        Inl e \<Rightarrow> Inl e
      | Inr db1 \<Rightarrow>
          (case insert_calls E (rn_ID run) newID 0 (ms_ToolCalls response) db1 of
             Inl e \<Rightarrow> Inl e
           | Inr db2 \<Rightarrow>
               if ms_ToolCalls response = [] \<and> \<not> pendingSteer db2 (rn_ID run)
               then update_runs (\<lambda>r. rn_ID r = rn_ID run)
                      (\<lambda>r. (set_status ''completed'' [] r)\<lparr>rn_Output := ms_Content response\<rparr>) db2
               else Inr db2))"

definition saveGuardedModel ::
    "ledger_env \<Rightarrow> callGuard option \<Rightarrow> (nat \<Rightarrow> string) \<Rightarrow> Run \<Rightarrow> Attempt \<Rightarrow> ModelResponse \<Rightarrow> int \<Rightarrow> store \<Rightarrow> (err \<times> store) res" where
  "saveGuardedModel E guard newID run a response outputBytes db =
     (case lockExecutionTx db (rn_ID run) of
        Some e \<Rightarrow> Inl e
      | None \<Rightarrow>
          (let body = le_response_json E response;
               db1 = update_attempts (\<lambda>b. am_ID b = am_ID a \<and> am_Status b = ''dispatched'') (settle ''finished'' body) db
           in case le_request E (am_RequestJSON a) of
                None \<Rightarrow> Inl (ErrorsNew ''json: model request'')
              | Some q \<Rightarrow>
                  (case (if mq_Purpose q = [] then adopt_response E newID run response db1
                         else if ms_ToolCalls response \<noteq> [] \<and> mq_Purpose q \<noteq> ''verification''
                         then Inl (Sentinel ErrModelCapability)
                         else Inr db1) of
                     Inl e \<Rightarrow> Inl e
                   | Inr db2 \<Rightarrow> record_output E guard (rn_ID run) a (max outputBytes (int (length body))) True db2)))"

definition failModel ::
    "ledger_env \<Rightarrow> callGuard option \<Rightarrow> Run \<Rightarrow> Attempt \<Rightarrow> ModelResponse \<Rightarrow> CallError \<Rightarrow> int \<Rightarrow> store \<Rightarrow> (err \<times> store) res" where
  "failModel E guard run a response failure outputBytes db =
     (case lockExecutionTx db (rn_ID run) of
        Some e \<Rightarrow> Inl e
      | None \<Rightarrow>
          (let raw = le_response_json E (response\<lparr>ms_ToolCalls := [], ms_Failure := Some failure\<rparr>);
               db1 = update_attempts (\<lambda>b. am_ID b = am_ID a \<and> am_Status b = ''dispatched'') (settle ''finished'' raw) db
           in case update_runs (\<lambda>r. rn_ID r = rn_ID run) (set_status ''failed'' (le_callError E failure)) db1 of
                Inl e \<Rightarrow> Inl e
              | Inr db2 \<Rightarrow>
                  (case guard of
                     None \<Rightarrow> Inr (None, db2)
                   | Some g \<Rightarrow>
                       (case g_Record g db2 a (max outputBytes (int (length raw))) False of
                          (None, db3) \<Rightarrow> Inr (None, db3)
                        | (Some e, db3) \<Rightarrow> if isOutputLimit e then Inr (Some e, db3) else Inl e))))"

definition default_outcome :: "string \<Rightarrow> ToolResult \<Rightarrow> ToolOutcome" where
  "default_outcome status r =
     \<lparr>ou_Status = (if status = ''pending'' then ''not_run'' else if tl_IsError r then ''failed'' else ''completed''),
      ou_Dispatched = (status = ''dispatched''), ou_CompletionKnown = True, ou_Truncated = tl_Truncated r\<rparr>"

definition saveToolTxMode ::
    "ledger_env \<Rightarrow> callGuard option \<Rightarrow> Run \<Rightarrow> Attempt \<Rightarrow> ToolCall \<Rightarrow> ToolResult \<Rightarrow> int \<Rightarrow> bool \<Rightarrow> bool \<Rightarrow> store \<Rightarrow> (err \<times> store) res" where
  "saveToolTxMode E guard run a c result outputBytes definitive addMessage db =
     (case (case tl_Outcome result of
              Some _ \<Rightarrow> Inr result
            | None \<Rightarrow> (case find (\<lambda>b. am_ID b = am_ID a \<and> am_RunID b = rn_ID run) (db_attempts db) of
                         None \<Rightarrow> Inl (Sentinel ErrNoRows)
                       | Some b \<Rightarrow> Inr (result\<lparr>tl_Outcome := Some (default_outcome (am_Status b) result)\<rparr>))) of
        Inl e \<Rightarrow> Inl e
      | Inr result' \<Rightarrow>
          (let raw = le_result_json E result';
               P = (\<lambda>b. am_ID b = am_ID a \<and> am_RunID b = rn_ID run \<and> am_Kind b = ''tool'' \<and> am_CallID b = tc_ID c
                         \<and> am_Status b \<in> {''pending'', ''dispatched''})
           in if RowsAffected P (db_attempts db) \<noteq> 1 then Inl (ErrorsJoin [Sentinel ErrModelBoundary])
              else (case (if addMessage
                          then insertMessage run ((message ''tool'' (tl_Content result'))\<lparr>mm_ToolCallID := tc_ID c,
                                                    mm_Attachments := tl_Attachments result'\<rparr>)
                                 (update_attempts P (settle ''finished'' raw) db)
                          else Inr (update_attempts P (settle ''finished'' raw) db)) of
                      Inl e \<Rightarrow> Inl e
                    | Inr db1 \<Rightarrow>
                        record_output E guard (rn_ID run) a (max outputBytes (int (length raw))) definitive db1)))"

definition saveGuardedTool ::
    "ledger_env \<Rightarrow> callGuard option \<Rightarrow> bool \<Rightarrow> Run \<Rightarrow> Attempt \<Rightarrow> ToolCall \<Rightarrow> ToolResult \<Rightarrow> int \<Rightarrow> bool \<Rightarrow> store \<Rightarrow> (err \<times> store) res" where
  "saveGuardedTool E guard addMessage run a c result outputBytes definitive db =
     (case lockExecutionTx db (rn_ID run) of
        Some e \<Rightarrow> Inl e
      | None \<Rightarrow> saveToolTxMode E guard run a c result outputBytes definitive addMessage db)"

section \<open>Workflows\<close>

definition record_workflow ::
    "ledger_env \<Rightarrow> callGuard option \<Rightarrow> Attempt \<Rightarrow> int \<Rightarrow> string \<Rightarrow> string \<Rightarrow> store \<Rightarrow> ((string \<times> string) \<times> store) res" where
  "record_workflow E guard a bytes status reason db =
     (case guard of
        None \<Rightarrow> Inr ((status, reason), db)
      | Some g \<Rightarrow>
          (case g_Record g db a bytes (status = ''completed'') of
             (None, db') \<Rightarrow> Inr ((status, reason), db')
           | (Some e, db') \<Rightarrow> if isOutputLimit e then Inr ((''limited'', le_safeError E e), db') else Inl e))"

definition finishWorkflow ::
    "ledger_env \<Rightarrow> callGuard option \<Rightarrow> Run \<Rightarrow> Attempt \<Rightarrow> ToolResult \<Rightarrow> string \<Rightarrow> string \<Rightarrow> string \<Rightarrow> int \<Rightarrow> store \<Rightarrow> store res" where
  "finishWorkflow E guard run a result status reason output outputBytes db =
     (if \<not> validWorkflowTerminalStatus status then Inl (ErrorsNew ''harness: invalid workflow terminal status'')
      else case first_err [lockExecutionTx db (rn_ID run), require_running db (rn_ID run)] of
             Some e \<Rightarrow> Inl e
           | None \<Rightarrow>
               (let body = le_result_json E result;
                    P = (\<lambda>b. am_ID b = am_ID a \<and> am_RunID b = rn_ID run \<and> am_Kind b = ''workflow'' \<and> am_Status b = ''dispatched'')
                in if RowsAffected P (db_attempts db) \<noteq> 1 then Inl (ErrorsJoin [Sentinel ErrModelBoundary])
                   else (case record_workflow E guard a (max outputBytes (int (length body))) status reason
                                 (update_attempts P (settle ''finished'' body) db) of
                           Inl e \<Rightarrow> Inl e
                         | Inr ((status', reason'), db2) \<Rightarrow>
                             (case (if output \<noteq> [] then insertMessage run (message ''assistant'' output) db2 else Inr db2) of
                                Inl e \<Rightarrow> Inl e
                              | Inr db3 \<Rightarrow> close_run (rn_ID run) status' reason' output db3))))"

definition finishWorkflowUnknown :: "ledger_env \<Rightarrow> Run \<Rightarrow> Attempt \<Rightarrow> string \<Rightarrow> string \<Rightarrow> store \<Rightarrow> store res" where
  "finishWorkflowUnknown E run a reason saved db =
     (case lockExecutionTx db (rn_ID run) of
        Some e \<Rightarrow> Inl e
      | None \<Rightarrow>
          (let response = (if saved = [] then failed_result reason
                           else case le_result E saved of None \<Rightarrow> failed_result reason | Some r \<Rightarrow> r);
               P = (\<lambda>b. am_ID b = am_ID a \<and> am_RunID b = rn_ID run \<and> am_Kind b = ''workflow'' \<and> am_Status b = ''dispatched'');
               Q = (\<lambda>r. rn_ID r = rn_ID run \<and> rn_Status r \<in> {''running'', ''stopped'', ''limited'', ''waiting_confirmation''})
           in if RowsAffected P (db_attempts db) \<noteq> 1 then Inl (ErrorsJoin [Sentinel ErrModelBoundary])
              else (case update_runs Q (set_status ''unknown'' reason)
                           (update_attempts P (settle ''unknown'' (le_result_json E response)) db) of
                      Inl e \<Rightarrow> Inl e
                    | Inr db1 \<Rightarrow>
                        if RowsAffected Q (db_runs db) = 0
                           \<and> (case get_run db1 (rn_ID run) of None \<Rightarrow> True | Some r \<Rightarrow> rn_Status r \<noteq> ''unknown'')
                        then Inl (ErrorsJoin [Sentinel ErrModelBoundary,
                               ErrorsNew ''harness: workflow run disappeared before UNKNOWN settlement''])
                        else Inr db1)))"

section \<open>Local tools\<close>

text \<open>extensions.go, truncateUTF8Bytes: the longest valid prefix within the limit.\<close>

function shrink_valid :: "string \<Rightarrow> nat \<Rightarrow> string" where
  "shrink_valid v n = (if 0 < n \<and> \<not> ValidString (take n v) then shrink_valid v (n - 1) else take n v)"
  by auto
termination by (relation "measure snd") auto

declare shrink_valid.simps [simp del]

definition truncateUTF8Bytes :: "string \<Rightarrow> int \<Rightarrow> string" where
  "truncateUTF8Bytes v limit =
     (if limit \<le> 0 then [] else if int (length v) \<le> limit then v else shrink_valid v (nat limit))"

text \<open>
  The outcome of a tool result; callErr is nil (None) or an error of known certainty. The
  duration and the state of the context are not represented.
\<close>

definition normalizeToolOutcome :: "ToolResult \<Rightarrow> bool option \<Rightarrow> int \<Rightarrow> ToolResult" where
  "normalizeToolOutcome result callErr limit =
     (let known = ((callErr = None \<or> callErr = Some True) \<and> list_all (\<lambda>r. rt_Status r \<noteq> ''unknown'') (tl_Receipts result));
          long = (int (length (tl_Content result)) > limit);
          cut = (tl_Truncated result \<or> list_ex rt_Truncated (tl_Receipts result) \<or> long);
          failed = (tl_IsError result \<or> long);
          status = (if \<not> known then ''unknown'' else if cut then ''truncated''
                    else if failed \<or> callErr \<noteq> None then ''failed'' else ''completed'')
      in result\<lparr>tl_Content := (if long then truncateUTF8Bytes (tl_Content result) limit else tl_Content result),
                tl_Truncated := cut, tl_IsError := (failed \<or> cut),
                tl_Receipts := (if cut then map (\<lambda>r. r\<lparr>rt_Truncated := True\<rparr>) (tl_Receipts result) else tl_Receipts result),
                tl_Outcome := Some \<lparr>ou_Status = status, ou_Dispatched = True, ou_CompletionKnown = known, ou_Truncated = cut\<rparr>\<rparr>)"

text \<open>
  The callback of a local tool works on further tables of the same database (its state is the
  second argument of execute); an error of the callback rolls back to the savepoint.
\<close>

definition executeLocalToolMode ::
    "ledger_env \<Rightarrow> callGuard option \<Rightarrow> ('x \<Rightarrow> (ToolResult \<times> 'x) res) \<Rightarrow> Run \<Rightarrow> Attempt \<Rightarrow> ToolCall \<Rightarrow> int \<Rightarrow> bool \<Rightarrow> 'x \<times> store
      \<Rightarrow> ((ToolResult \<times> err) \<times> 'x \<times> store) res" where
  "executeLocalToolMode E guard execute run a c maxResult addMessage st =
     (case st of (x, db) \<Rightarrow>
       (case lockExecutionTx db (rn_ID run) of
          Some e \<Rightarrow> Inl e
        | None \<Rightarrow>
            (case find (\<lambda>b. am_ID b = am_ID a \<and> am_RunID b = rn_ID run \<and> am_Kind b = ''tool'' \<and> am_CallID b = tc_ID c) (db_attempts db) of
               None \<Rightarrow> Inl (Sentinel ErrNoRows)
             | Some b \<Rightarrow>
                 if am_RequestJSON b \<noteq> le_call_json E c then Inl (ErrorsJoin [Sentinel ErrRequestKey])
                 else if am_Status b = ''finished'' then
                   (case le_result E (am_ResponseJSON b) of
                      None \<Rightarrow> Inl (Sentinel ErrStoreFormat) | Some r \<Rightarrow> Inr ((r, None), x, db))
                 else if am_Status b \<noteq> ''dispatched'' then Inl (Sentinel ErrUnknownResult)
                 else
                   (case (case execute x of
                            Inl e \<Rightarrow> (failed_result (''local data operation error: '' @ le_safeError E e), x)
                          | Inr (r, x') \<Rightarrow> (r, x')) of
                      (r, x') \<Rightarrow>
                        (let result = normalizeToolOutcome r None maxResult;
                             raw = le_result_json E result
                         in if int (length (tl_Content result)) > maxResult then Inl (Sentinel ErrContextLimit)
                            else (case saveToolTxMode E guard run a c result (int (length raw)) True addMessage db of
                                    Inl e \<Rightarrow> Inl e
                                  | Inr (oe, db') \<Rightarrow> Inr ((result, oe), x', db')))))))"

section \<open>Unknown outcomes, proposals and abandoning\<close>

definition markUnknown :: "Attempt \<Rightarrow> string \<Rightarrow> string option \<Rightarrow> store \<Rightarrow> store res" where
  "markUnknown a reason saved db =
     (case lockExecutionTx db (am_RunID a) of
        Some e \<Rightarrow> Inl e
      | None \<Rightarrow>
          update_runs (\<lambda>r. rn_ID r = am_RunID a) (set_status ''unknown'' reason)
            (update_attempts (\<lambda>b. am_ID b = am_ID a)
               (\<lambda>b. settle ''unknown'' (case saved of Some s \<Rightarrow> s
                                        | None \<Rightarrow> if am_ResponseJSON b = [] then reason else am_ResponseJSON b) b) db))"

definition settleControlProposal ::
    "ledger_env \<Rightarrow> Run \<Rightarrow> Attempt \<Rightarrow> ToolResult \<Rightarrow> bool \<Rightarrow> string \<Rightarrow> string option \<Rightarrow> store \<Rightarrow> store res" where
  "settleControlProposal E run a result completed reason terminal db =
     (case lockExecutionTx db (rn_ID run) of
        Some e \<Rightarrow> Inl e
      | None \<Rightarrow>
          (case find (\<lambda>b. am_ID b = am_ID a \<and> am_RunID b = rn_ID run \<and> am_Kind b = ''tool'') (db_attempts db) of
             None \<Rightarrow> Inl (Sentinel ErrNoRows)
           | Some b \<Rightarrow>
               if am_Status b \<noteq> ''pending'' then Inl (Sentinel ErrControlAlreadyUsed)
               else
                 (case le_call E (am_RequestJSON a) of
                    None \<Rightarrow> Inl (ErrorsNew ''json: tool call'')
                  | Some c \<Rightarrow>
                      (case insertMessage run ((message ''tool'' (tl_Content result))\<lparr>mm_ToolCallID := tc_ID c,
                                                 mm_Attachments := tl_Attachments result\<rparr>)
                              (update_attempts (\<lambda>b. am_ID b = am_ID a \<and> am_Status b = ''pending'')
                                 (settle ''finished'' (le_result_json E result)) db) of
                         Inl e \<Rightarrow> Inl e
                       | Inr db1 \<Rightarrow>
                           (let s = (case terminal of Some t \<Rightarrow> (t, reason)
                                     | None \<Rightarrow> if completed then (''completed'', reason) else (''running'', []))
                            in update_runs (\<lambda>r. rn_ID r = rn_ID run \<and> rn_Status r \<in> {''waiting_confirmation'', ''stopped'', ''running''})
                                 (set_status (fst s) (snd s)) db1)))))"

definition abandoned_text :: "string \<Rightarrow> string" where
  "abandoned_text status =
     (if status = ''unknown''
      then ''outcome UNKNOWN: the operation may have completed; user ended this task without resolving it. This is not a tool success. Do not repeat this operation implicitly.''
      else ''user abandoned the run before this tool was dispatched; do not repeat it'')"

fun abandon_calls :: "ledger_env \<Rightarrow> Run \<Rightarrow> Attempt list \<Rightarrow> store \<Rightarrow> store res" where
  "abandon_calls E run [] db = Inr db"
| "abandon_calls E run (a # as) db =
     (if am_Kind a \<noteq> ''tool'' \<or> (am_Status a \<noteq> ''pending'' \<and> am_Status a \<noteq> ''unknown'') then abandon_calls E run as db
      else case le_call E (am_RequestJSON a) of
             None \<Rightarrow> Inl (ErrorsNew ''json: tool call'')
           | Some c \<Rightarrow>
               (let response = failed_result (abandoned_text (am_Status a));
                    db1 = (if am_Status a = ''pending''
                           then update_attempts (\<lambda>b. am_ID b = am_ID a) (settle ''finished'' (le_result_json E response)) db
                           else db)
                in case insertMessage run ((message ''tool'' (tl_Content response))\<lparr>mm_ToolCallID := tc_ID c\<rparr>) db1 of
                     Inl e \<Rightarrow> Inl e | Inr db2 \<Rightarrow> abandon_calls E run as db2))"

definition abandoned_reason :: string where
  "abandoned_reason = ''abandoned by user; unknown attempt facts are retained''"

definition abandonRun :: "ledger_env \<Rightarrow> string \<Rightarrow> store \<Rightarrow> store res" where
  "abandonRun E runID db =
     (case get_run db runID of
        None \<Rightarrow> Inl (Sentinel ErrNoRows)
      | Some run \<Rightarrow>
          if rn_Status run = ''completed'' then Inl (ErrorsNew ''harness: completed runs cannot be abandoned'')
          else if rn_Status run = ''abandoned'' then Inr db
          else if list_ex (\<lambda>a. am_Status a = ''dispatched'') (run_attempts db runID) then Inl (Sentinel ErrUnknownResult)
          else (case lockExecutionTx db runID of
                  Some e \<Rightarrow> Inl e
                | None \<Rightarrow>
                    (case abandon_calls E run (run_attempts db runID) db of
                       Inl e \<Rightarrow> Inl e
                     | Inr db1 \<Rightarrow>
                         update_runs (\<lambda>r. rn_ID r = runID)
                           (set_status ''abandoned'' abandoned_reason) db1)))"

section \<open>Restart\<close>

fun add_elapsed :: "ledger_env \<Rightarrow> Run list \<Rightarrow> store \<Rightarrow> store res" where
  "add_elapsed E [] db = Inr db"
| "add_elapsed E (r # rs) db =
     (case le_since E (rn_ActiveSince r) of
        None \<Rightarrow> Inl (Sentinel ErrStoreFormat)
      | Some ms \<Rightarrow>
          (case update_runs (\<lambda>x. rn_ID x = rn_ID r)
                  (\<lambda>x. x\<lparr>rn_ElapsedMS := rn_ElapsedMS x + max 0 ms, rn_ActiveSince := []\<rparr>) db of
             Inl e \<Rightarrow> Inl e | Inr db1 \<Rightarrow> add_elapsed E rs db1))"

definition interrupt_attempts :: "store \<Rightarrow> store" where
  "interrupt_attempts db =
     update_attempts (\<lambda>a. am_Status a = ''dispatched'')
       (\<lambda>a. settle ''unknown'' (if am_ResponseJSON a = [] then ''process interrupted after dispatch marker'' else am_ResponseJSON a) a) db"

definition unresolved_run :: "store \<Rightarrow> Run \<Rightarrow> bool" where
  "unresolved_run db r \<longleftrightarrow>
     list_ex (\<lambda>a. am_RunID a = rn_ID r \<and> am_Status a = ''unknown'' \<and> \<not> resolvedAttempt db a) (db_attempts db)"

definition recover :: "ledger_env \<Rightarrow> guard_env \<Rightarrow> store \<Rightarrow> store res" where
  "recover E G db =
     (case add_elapsed E (filter (\<lambda>r. rn_ActiveSince r \<noteq> []) (db_runs db)) db of
        Inl e \<Rightarrow> Inl e
      | Inr db1 \<Rightarrow>
          (let db2 = interrupt_attempts db1
           in case update_runs (\<lambda>r. rn_Status r \<notin> {''abandoned'', ''unknown''} \<and> unresolved_run db2 r)
                     (set_status ''unknown'' ''unresolved call after restart'') db2 of
                Inl e \<Rightarrow> Inl e
              | Inr db3 \<Rightarrow>
                  (case update_runs (\<lambda>r. rn_Status r = ''running'')
                          (set_status ''stopped'' ''process interrupted; continue explicitly'') db3 of
                     Inl e \<Rightarrow> Inl e
                   | Inr db4 \<Rightarrow> recoverCollaborationLeases G db4)))"

end
