(* ===== verification/Input_Queue.thy ===== *)
theory Input_Queue
  imports Ledger
begin

text \<open>
  internal/harness/input_queue.go: input accepted while a run is active (steering a run or
  queueing for the next one), with limit_continuation.go (settling a limited run), the parts of
  tool_verification.go that write the store and the clock of execution_time.go. As in the ledger,
  an operation answers the error of a rolled back transaction or its result with the new store.
\<close>

section \<open>Accepting input\<close>

record InputCommand =
  ic_Action :: string
  ic_RunID :: string
  ic_RequestKey :: string
  ic_Prompt :: string
  ic_Attachments :: "string list"

text \<open>
  What the service resolves before the transaction: who sends the input, over which channel
  target and message, and the bindings (model, configuration, permission and profile hashes) it
  is accepted under.
\<close>

record input_authority =
  ia_Principal :: string
  ia_Person :: string
  ia_Channel :: "string option"
  ia_InputMessageID :: int
  ia_Remote :: "string option"
  ia_Attachments :: "AttachmentRef list"
  ia_Binding :: string

record input_env =
  ie_workspace :: string
  ie_maxContext :: int
  ie_authorize :: "store \<Rightarrow> string \<Rightarrow> InputCommand \<Rightarrow> input_authority res"
  ie_person :: "Run \<Rightarrow> string option"
  ie_target :: "Run \<Rightarrow> string option"
  ie_remote :: "string \<Rightarrow> string option"
  ie_command :: "ModelMessage \<Rightarrow> string option"
  ie_validate :: "store \<Rightarrow> string \<Rightarrow> PendingInput \<Rightarrow> err"

fun first_word :: "string \<Rightarrow> string" where
  "first_word [] = []"
| "first_word (c # cs) = (if list_ex (HasPrefix (c # cs)) space_encodings then [] else c # first_word cs)"

definition control_word :: "string \<Rightarrow> bool" where
  "control_word prompt \<longleftrightarrow>
     takeWhile (\<lambda>c. c \<noteq> CHR ''@'') (first_word (TrimSpace prompt))
       \<in> {''/stop'', ''/continue'', ''/compact'', ''/context'', ''/approve'', ''/reject''}"

definition accepting_check :: "input_env \<Rightarrow> string \<Rightarrow> InputCommand \<Rightarrow> store \<Rightarrow> err" where
  "accepting_check V chat cmd db =
     (if (ic_Action cmd \<noteq> ''steer'' \<and> ic_Action cmd \<noteq> ''queue'') \<or> ic_RequestKey cmd = [] \<or> length (ic_RequestKey cmd) > 128
         \<or> TrimSpace (ic_Prompt cmd) = [] \<or> int (length (ic_Prompt cmd)) > ie_maxContext V
      then Some (Sentinel ErrRequestKey)
      else case get_conversation db chat of
             None \<Rightarrow> Some (Sentinel ErrNoRows)
           | Some c \<Rightarrow>
               if cv_Workspace c \<noteq> ie_workspace V then Some (Sentinel ErrConversationSpace)
               else if control_word (ic_Prompt cmd)
               then Some (ErrorsNew ''harness: use the Owner control command directly; control commands are not queued model input'')
               else None)"

definition new_input :: "string \<Rightarrow> InputCommand \<Rightarrow> input_authority \<Rightarrow> PendingInput" where
  "new_input chat cmd a =
     \<lparr>pi_Key = ic_RequestKey cmd, pi_Action = ic_Action cmd, pi_Status = ''pending'', pi_MessageID = 0,
      pi_ConversationID = chat, pi_TargetRun = ic_RunID cmd, pi_RunID = [], pi_Principal = ia_Principal a,
      pi_Person = ia_Person a, pi_Attachments = ia_Attachments a, pi_Channel = ia_Channel a,
      pi_Remote = ia_Remote a, pi_Authority = ia_Binding a\<rparr>"

text \<open>A repeated request key answers the saved input, if it is the same request.\<close>

definition repeated_input :: "InputCommand \<Rightarrow> input_authority \<Rightarrow> PendingInput \<Rightarrow> store \<Rightarrow> PendingInput res" where
  "repeated_input cmd a old db =
     (case find (\<lambda>m. mg_ID m = pi_MessageID old \<and> mg_ConversationID m = pi_ConversationID old) (db_messages db) of
        None \<Rightarrow> Inl (Sentinel ErrNoRows)
      | Some m \<Rightarrow>
          if pi_Principal old \<noteq> ia_Principal a \<or> pi_Action old \<noteq> ic_Action cmd \<or> pi_TargetRun old \<noteq> ic_RunID cmd
             \<or> mm_Content (mg_Body m) \<noteq> ic_Prompt cmd \<or> pi_Attachments old \<noteq> ia_Attachments a
          then Inl (Sentinel ErrRequestKey) else Inr old)"

definition steer_target :: "input_env \<Rightarrow> string \<Rightarrow> InputCommand \<Rightarrow> PendingInput \<Rightarrow> store \<Rightarrow> PendingInput res" where
  "steer_target V chat cmd i db =
     (if ic_Action cmd \<noteq> ''steer'' then Inr i
      else case find (\<lambda>r. rn_ID r = ic_RunID cmd \<and> rn_ConversationID r = chat) (db_runs db) of
             None \<Rightarrow> Inl (Sentinel ErrNoRows)
           | Some run \<Rightarrow>
               if (pi_Person i \<noteq> [] \<and> (ie_person V run \<noteq> Some (pi_Person i) \<or> ie_target V run = None \<or> ie_target V run \<noteq> pi_Channel i))
                  \<or> (pi_Remote i \<noteq> None \<and> ie_remote V (rn_ID run) \<noteq> pi_Remote i)
               then Inl (Sentinel ErrPermissionDenied)
               else if rn_Status run \<notin> {''running'', ''waiting_confirmation'', ''unknown'', ''stopped'', ''limited''}
               then Inr (i\<lparr>pi_Status := ''target_ended''\<rparr>) else Inr i)"

definition pending_inputs :: "store \<Rightarrow> string \<Rightarrow> nat" where
  "pending_inputs db chat = length (filter (\<lambda>((c, _), i). c = chat \<and> pi_Status i = ''pending'') (db_inputs db))"

definition input_message :: "input_env \<Rightarrow> string \<Rightarrow> InputCommand \<Rightarrow> input_authority \<Rightarrow> PendingInput \<Rightarrow> store \<Rightarrow> (PendingInput \<times> store) res" where
  "input_message V chat cmd a i db =
     (case ia_Channel a of
        None \<Rightarrow>
          (case insert_row chat None ((message ''user'' (ic_Prompt cmd))\<lparr>mm_Attachments := ia_Attachments a, mm_Deferred := True\<rparr>) db of
             Inl e \<Rightarrow> Inl e | Inr (n, db') \<Rightarrow> Inr (i\<lparr>pi_MessageID := n\<rparr>, db'))
      | Some _ \<Rightarrow>
          (let n = ia_InputMessageID a;
               here = (\<lambda>m. mg_ID m = n \<and> mg_ConversationID m = chat)
           in case find (\<lambda>m. here m \<and> mg_RunID m = None) (db_messages db) of
                None \<Rightarrow> Inl (Sentinel ErrNoRows)
              | Some m \<Rightarrow>
                  if mm_Content (mg_Body m) \<noteq> ic_Prompt cmd \<and> ie_command V (mg_Body m) \<noteq> Some (ic_Prompt cmd)
                  then Inl (Sentinel ErrRequestKey)
                  else Inr (i\<lparr>pi_MessageID := n\<rparr>,
                         db\<lparr>db_messages := upd here (\<lambda>x. x\<lparr>mg_Body := (mg_Body m)\<lparr>mm_Content := ic_Prompt cmd,
                               mm_Deferred := True, mm_Attachments := ia_Attachments a\<rparr>\<rparr>) (db_messages db)\<rparr>)))"

definition acceptInput :: "ledger_env \<Rightarrow> input_env \<Rightarrow> string \<Rightarrow> InputCommand \<Rightarrow> store \<Rightarrow> (PendingInput \<times> store) res" where
  "acceptInput E V chat cmd db =
     (case accepting_check V chat cmd db of
        Some e \<Rightarrow> Inl e
      | None \<Rightarrow>
          (case ie_authorize V db chat cmd of
             Inl e \<Rightarrow> Inl e
           | Inr a \<Rightarrow>
               (case loadInput db chat (ic_RequestKey cmd) of
                  Inr old \<Rightarrow> (case repeated_input cmd a old db of Inl e \<Rightarrow> Inl e | Inr i \<Rightarrow> Inr (i, db))
                | Inl _ \<Rightarrow>
                    (case steer_target V chat cmd (new_input chat cmd a) db of
                       Inl e \<Rightarrow> Inl e
                     | Inr i \<Rightarrow>
                         if pending_inputs db chat \<ge> 20
                         then Inl (ErrorsNew ''harness: at most 20 pending inputs per conversation; input was not accepted'')
                         else (case input_message V chat cmd a i db of
                                 Inl e \<Rightarrow> Inl e
                               | Inr (i', db1) \<Rightarrow>
                                   (case le_bind E db1 chat (''input:'' @ pi_Key i') (ia_Attachments a) of
                                      Some e \<Rightarrow> Inl e
                                    | None \<Rightarrow> Inr (i', saveInput i' db1)))))))"

section \<open>Changing the queue\<close>

definition owner_check :: "input_env \<Rightarrow> string \<Rightarrow> store \<Rightarrow> err" where
  "owner_check V chat db =
     (case get_conversation db chat of
        None \<Rightarrow> Some (Sentinel ErrNoRows)
      | Some c \<Rightarrow> if cv_Workspace c \<noteq> ie_workspace V then Some (Sentinel ErrConversationSpace) else None)"

definition CancelInput :: "input_env \<Rightarrow> string \<Rightarrow> string \<Rightarrow> string \<Rightarrow> store \<Rightarrow> (PendingInput \<times> store) res" where
  "CancelInput V who chat key db =
     (case owner_check V chat db of
        Some e \<Rightarrow> Inl e
      | None \<Rightarrow>
          (case loadInput db chat key of
             Inl e \<Rightarrow> Inl e
           | Inr i \<Rightarrow>
               if pi_Principal i \<noteq> who \<and> who \<noteq> ''local'' then Inl (Sentinel ErrPermissionDenied)
               else if pi_Status i = ''pending''
               then (let i' = i\<lparr>pi_Status := ''cancelled''\<rparr> in Inr (i', saveInput i' db))
               else Inr (i, db)))"

definition SteerInput :: "input_env \<Rightarrow> string \<Rightarrow> string \<Rightarrow> string \<Rightarrow> string \<Rightarrow> store \<Rightarrow> (PendingInput \<times> store) res" where
  "SteerInput V who chat key runID db =
     (if chat = [] \<or> key = [] \<or> runID = [] then Inl (Sentinel ErrRequestKey)
      else case owner_check V chat db of
             Some e \<Rightarrow> Inl e
           | None \<Rightarrow>
               (case loadInput db chat key of
                  Inl e \<Rightarrow> Inl e
                | Inr i \<Rightarrow>
                    if pi_Principal i \<noteq> who \<and> who \<noteq> ''local'' then Inl (Sentinel ErrPermissionDenied)
                    else (case ie_validate V db chat i of
                            Some e \<Rightarrow> Inl e
                          | None \<Rightarrow>
                              if pi_Action i = ''steer'' \<and> pi_TargetRun i = runID then Inr (i, db)
                              else if pi_Action i \<noteq> ''queue'' \<or> pi_Status i \<noteq> ''pending'' then Inl (Sentinel ErrInputNotPending)
                              else (case find (\<lambda>r. rn_ID r = runID \<and> rn_ConversationID r = chat) (db_runs db) of
                                      None \<Rightarrow> Inl (Sentinel ErrNoRows)
                                    | Some run \<Rightarrow>
                                        if rn_Status run \<noteq> ''running'' then Inl (Sentinel ErrInputTargetEnded)
                                        else if (pi_Person i \<noteq> [] \<and> (ie_person V run \<noteq> Some (pi_Person i) \<or> pi_Channel i = None
                                                  \<or> ie_target V run \<noteq> pi_Channel i))
                                                \<or> (pi_Remote i \<noteq> None \<and> ie_remote V (rn_ID run) \<noteq> pi_Remote i)
                                        then Inl (Sentinel ErrPermissionDenied)
                                        else let i' = i\<lparr>pi_Action := ''steer'', pi_TargetRun := rn_ID run\<rparr>
                                             in Inr (i', saveInput i' db)))))"

definition PauseQueue :: "input_env \<Rightarrow> string \<Rightarrow> bool \<Rightarrow> store \<Rightarrow> store res" where
  "PauseQueue V chat paused db =
     (case owner_check V chat db of
        Some e \<Rightarrow> Inl e
      | None \<Rightarrow> Inr (db\<lparr>db_paused := AList.update chat (if paused then ''true'' else ''false'') (db_paused db)\<rparr>))"

section \<open>Adopting steering\<close>

definition superseded :: ToolResult where
  "superseded = (failed_result ''NOT_RUN: superseded by verified user steering before dispatch; no approval was reused'')
     \<lparr>tl_Outcome := Some \<lparr>ou_Status = ''not_run'', ou_Dispatched = False, ou_CompletionKnown = True, ou_Truncated = False\<rparr>\<rparr>"

fun supersede :: "ledger_env \<Rightarrow> Run \<Rightarrow> Attempt list \<Rightarrow> store \<Rightarrow> store res" where
  "supersede E run [] db = Inr db"
| "supersede E run (a # as) db =
     (if am_Kind a \<noteq> ''tool'' \<or> am_Status a \<noteq> ''pending'' then supersede E run as db
      else case le_call E (am_RequestJSON a) of
             None \<Rightarrow> Inl (Sentinel ErrStoreFormat)
           | Some c \<Rightarrow>
               (case insertMessage run ((message ''tool'' (tl_Content superseded))\<lparr>mm_Name := tc_Name c, mm_ToolCallID := tc_ID c\<rparr>)
                       (update_attempts (\<lambda>b. am_ID b = am_ID a \<and> am_Status b = ''pending'')
                          (settle ''finished'' (le_result_json E superseded)) db) of
                  Inl e \<Rightarrow> Inl e | Inr db1 \<Rightarrow> supersede E run as db1))"

fun move_all :: "PendingInput list \<Rightarrow> string \<Rightarrow> store \<Rightarrow> store res" where
  "move_all [] run db = Inr db"
| "move_all (i # is) run db = (case moveInputMessage i run db of Inl e \<Rightarrow> Inl e | Inr db1 \<Rightarrow> move_all is run db1)"

definition steering_inputs :: "store \<Rightarrow> string \<Rightarrow> string \<Rightarrow> PendingInput list" where
  "steering_inputs db chat run =
     sort_key pi_MessageID
       (map snd (filter (\<lambda>((c, _), i). c = chat \<and> pi_TargetRun i = run \<and> pi_Status i = ''pending'' \<and> pi_Action i = ''steer'') (db_inputs db)))"

definition adoptSteeringForRetry :: "ledger_env \<Rightarrow> Run \<Rightarrow> string \<Rightarrow> store \<Rightarrow> (bool \<times> store) res" where
  "adoptSteeringForRetry E run retryModel db =
     (if list_ex (\<lambda>a. am_RunID a = rn_ID run \<and> am_Status a \<in> {''unknown'', ''dispatched''}
                       \<and> \<not> ((am_Kind a = ''model'' \<and> am_ID a = retryModel) \<or> resolvedAttempt db a)) (db_attempts db)
      then Inl (Sentinel ErrUnknownResult)
      else let inputs = steering_inputs db (rn_ConversationID run) (rn_ID run)
           in if inputs = [] then Inr (False, db)
              else (case supersede E run (run_attempts db (rn_ID run)) db of
                      Inl e \<Rightarrow> Inl e
                    | Inr db1 \<Rightarrow>
                        (case move_all inputs (rn_ID run) db1 of
                           Inl e \<Rightarrow> Inl e
                         | Inr db2 \<Rightarrow>
                             (case update_runs (\<lambda>r. rn_ID r = rn_ID run) (set_status ''running'' []) db2 of
                                Inl e \<Rightarrow> Inl e | Inr db3 \<Rightarrow> Inr (True, db3)))))"

section \<open>Limited runs\<close>

definition step_limit_text :: string where
  "step_limit_text = ''harness: explicit child step budget reached''"

definition time_limit_text :: string where
  "time_limit_text = ''harness: explicit collaboration time budget reached''"

text \<open>
  The run is the row as scanRun answers it: a limited run is settled when its stop reason carries
  the prefix, which the answer has without it.
\<close>

definition settleLimited :: "ledger_env \<Rightarrow> Run \<Rightarrow> store \<Rightarrow> (bool \<times> store) res" where
  "settleLimited E run db =
     (if rn_Status run \<noteq> ''limited'' then Inr (False, db)
      else if HasPrefix (rn_StopReason run) settledLimitPrefix then Inr (True, db)
      else if \<not> Contains (rn_StopReason run) step_limit_text \<and> \<not> Contains (rn_StopReason run) time_limit_text
              \<and> \<not> Contains (rn_StopReason run) ''output''
      then Inr (False, db)
      else if controlledParent db (rn_ID run) \<noteq> [] then Inr (False, db)
      else if unsettled_attempts db (rn_ID run) \<noteq> 0 then Inr (False, db)
      else (case le_commands E db (rn_ConversationID run) of
              Some e \<Rightarrow> if errors_is e ErrCommandBusy then Inr (False, db) else Inl e
            | None \<Rightarrow>
                (let P = (\<lambda>r. rn_ID r = rn_ID run \<and> rn_Status r = ''limited'' \<and> rn_StopReason r = rn_StopReason run \<and> rn_ActiveSince r = [])
                 in if RowsAffected P (db_runs db) \<noteq> 1 then Inr (False, db)
                    else (case update_runs P (\<lambda>r. r\<lparr>rn_StopReason := settledLimitPrefix @ rn_StopReason run\<rparr>) db of
                            Inl e \<Rightarrow> Inl e | Inr db' \<Rightarrow> Inr (True, db')))))"

section \<open>Verifying an unknown file change\<close>

definition reserveToolVerification :: "Run \<Rightarrow> Attempt \<Rightarrow> string \<Rightarrow> store \<Rightarrow> (int \<times> store) res" where
  "reserveToolVerification run original fingerprint db =
     (case (case map_of (db_rounds db) (am_ID original) of None \<Rightarrow> (rn_ID run, fingerprint, 0) | Some s \<Rightarrow> s) of
        (owner, print, rounds) \<Rightarrow>
          if rounds \<ge> 2 \<or> print \<noteq> fingerprint \<or> owner \<noteq> rn_ID run then Inl (Sentinel ErrUnknownResult)
          else (case update_runs (\<lambda>r. rn_ID r = rn_ID run \<and> rn_Status r \<in> {''running'', ''unknown''})
                       (set_status ''running'' ''read-only verification of UNKNOWN'')
                       (db\<lparr>db_rounds := AList.update (am_ID original) (owner, print, rounds + 1) (db_rounds db)\<rparr>) of
                  Inl e \<Rightarrow> Inl e | Inr db' \<Rightarrow> Inr (rounds + 1, db')))"

record verify_env =
  vf_path :: "ToolCall \<Rightarrow> string option"
  vf_read :: "string \<Rightarrow> (string \<times> string) option"

text \<open>
  The evidence attempts must exist after the original; one of them has to be a finished file_read
  of the same path and hash.
\<close>

definition attempt_position :: "store \<Rightarrow> string \<Rightarrow> nat option" where
  "attempt_position db aid =
     (let n = length (takeWhile (\<lambda>a. am_ID a \<noteq> aid) (db_attempts db))
      in if n < length (db_attempts db) then Some n else None)"

definition evidence_read :: "ledger_env \<Rightarrow> verify_env \<Rightarrow> ToolReceipt \<Rightarrow> Attempt \<Rightarrow> bool" where
  "evidence_read E F r a \<longleftrightarrow>
     am_Kind a = ''tool'' \<and> am_Status a = ''finished''
     \<and> (case le_call E (am_RequestJSON a) of None \<Rightarrow> False | Some c \<Rightarrow> tc_Name c = ''file_read'')
     \<and> (case le_result E (am_ResponseJSON a) of
          None \<Rightarrow> False
        | Some res \<Rightarrow> \<not> tl_IsError res \<and> vf_read F (tl_Content res) = Some (rt_Path r, rt_AfterHash r))"

fun evidence_matched :: "ledger_env \<Rightarrow> verify_env \<Rightarrow> ToolReceipt \<Rightarrow> Run \<Rightarrow> string \<Rightarrow> store \<Rightarrow> string list \<Rightarrow> bool res" where
  "evidence_matched E F r run original db [] = Inr False"
| "evidence_matched E F r run original db (e # es) =
     (case find (\<lambda>a. am_ID a = e \<and> am_RunID a = rn_ID run) (db_attempts db) of
        None \<Rightarrow> Inl (Sentinel ErrNoRows)
      | Some a \<Rightarrow>
          (case (attempt_position db original, attempt_position db e) of
             (Some m, Some n) \<Rightarrow>
               if n \<le> m then Inl (Sentinel ErrNoRows)
               else (case evidence_matched E F r run original db es of
                       Inl x \<Rightarrow> Inl x | Inr b \<Rightarrow> Inr (evidence_read E F r a \<or> b))
           | _ \<Rightarrow> Inl (Sentinel ErrNoRows)))"

definition resolveVerifiedFile :: "ledger_env \<Rightarrow> verify_env \<Rightarrow> Run \<Rightarrow> Attempt \<Rightarrow> ToolCall \<Rightarrow> string list \<Rightarrow> store \<Rightarrow> store res" where
  "resolveVerifiedFile E F run original c evidence db =
     (if tc_Name c \<noteq> ''file_create'' \<and> tc_Name c \<noteq> ''file_edit'' then Inl (Sentinel ErrUnknownResult)
      else case map_option tl_Receipts (le_result E (am_ResponseJSON original)) of
             Some [r] \<Rightarrow>
               if rt_Kind r \<noteq> ''file'' \<or> rt_Status r \<noteq> ''applied'' \<or> rt_AfterHash r = [] \<or> rt_Truncated r
                  \<or> vf_path F c \<noteq> Some (rt_Path r)
               then Inl (Sentinel ErrUnknownResult)
               else (case evidence_matched E F r run (am_ID original) db evidence of
                       Inl e \<Rightarrow> Inl e
                     | Inr matched \<Rightarrow>
                         if \<not> matched then Inl (Sentinel ErrUnknownResult)
                         else if pendingSteer db (rn_ID run) then Inl (Sentinel ErrInputPending)
                         else (case insert_meta (am_ID original) (rn_ID run, ''happened'') (db_verified db) of
                                 Inl e \<Rightarrow> Inl e
                               | Inr m \<Rightarrow>
                                   insertMessage run ((message ''tool'' ''Original operation remains recorded UNKNOWN. Later read-only verification matched the single file effect to its applied runtime receipt. Do not repeat the original call.'')
                                       \<lparr>mm_ToolCallID := tc_ID c\<rparr>) (db\<lparr>db_verified := m\<rparr>)))
           | _ \<Rightarrow> Inl (Sentinel ErrUnknownResult))"

section \<open>The clock of a run\<close>

text \<open>
  runClock.resume and pause without the shared activity: limits in milliseconds, now is the text
  of the current time, and the segment that ends is measured by the caller's clock.
\<close>

definition clock_resume :: "string \<Rightarrow> int \<Rightarrow> string \<Rightarrow> store \<Rightarrow> store res" where
  "clock_resume run limit now db =
     (case get_run db run of
        None \<Rightarrow> Inl (Sentinel ErrNoRows)
      | Some r \<Rightarrow>
          if limit > 0 \<and> limit - rn_ElapsedMS r \<le> 0 then Inl (Sentinel ErrTimeLimit)
          else update_runs (\<lambda>r. rn_ID r = run) (\<lambda>r. r\<lparr>rn_ActiveSince := now\<rparr>) db)"

definition clock_pause :: "string \<Rightarrow> string \<Rightarrow> int \<Rightarrow> store \<Rightarrow> store res" where
  "clock_pause run since ms db =
     (if since = [] then Inr db
      else update_runs (\<lambda>r. rn_ID r = run \<and> rn_ActiveSince r = since)
             (\<lambda>r. r\<lparr>rn_ElapsedMS := rn_ElapsedMS r + max 0 ms, rn_ActiveSince := []\<rparr>) db)"

end
