(* ===== verification/Ledger_Safety.thy ===== *)
theory Ledger_Safety
  imports Input_Queue
begin

text \<open>
  What every operation of the ledger and the input queue keeps. The invariant ties the rows
  together: keys, foreign keys and the index of active runs, one dispatch marker per dispatched
  call, one step per dispatch, and a reservation only for a dispatched call. The history relation
  says how rows may change: nothing is deleted, identities are fixed, and the status of an attempt
  only moves forward, with unknown as its last value.
\<close>

lemma overlay_cong:
  "db_collaboration db' = db_collaboration db \<Longrightarrow> overlay_ok db' = overlay_ok db"
  "db_collaboration db' = db_collaboration db \<Longrightarrow> reserved_ids db' = reserved_ids db"
  by (simp_all add: overlay_ok_def reserved_ids_def)

lemma away_from: "i \<notin> k ` set xs \<Longrightarrow> x \<in> set xs \<Longrightarrow> k x \<noteq> i"
  by auto

section \<open>History of rows\<close>

definition status_rank :: "string \<Rightarrow> nat" where
  "status_rank s = (if s = ''pending'' then 0 else if s = ''dispatched'' then 1 else if s = ''finished'' then 2 else 3)"

lemma status_rank_simps [simp]:
  "status_rank ''pending'' = 0" "status_rank ''dispatched'' = 1" "status_rank ''finished'' = 2" "status_rank ''unknown'' = 3"
  by (simp_all add: status_rank_def)

definition evolves :: "Attempt \<Rightarrow> Attempt \<Rightarrow> bool" where
  "evolves a b \<longleftrightarrow>
     am_ID b = am_ID a \<and> am_RunID b = am_RunID a \<and> am_Kind b = am_Kind a \<and> am_CallID b = am_CallID a
     \<and> am_RequestJSON b = am_RequestJSON a
     \<and> status_rank (am_Status a) \<le> status_rank (am_Status b)
     \<and> (am_Status a = ''unknown'' \<longrightarrow> am_Status b = ''unknown'')
     \<and> (am_Status a = ''finished'' \<and> am_Status b = ''finished'' \<longrightarrow> am_ResponseJSON b = am_ResponseJSON a)"

definition run_evolves :: "Run \<Rightarrow> Run \<Rightarrow> bool" where
  "run_evolves r s \<longleftrightarrow>
     rn_ID s = rn_ID r \<and> rn_ConversationID s = rn_ConversationID r \<and> rn_RequestKey s = rn_RequestKey r
     \<and> rn_Prompt s = rn_Prompt r \<and> rn_ConfigJSON s = rn_ConfigJSON r
     \<and> rn_Steps r \<le> rn_Steps s \<and> rn_ElapsedMS r \<le> rn_ElapsedMS s"

text \<open>An append-only table whose rows change along a preorder.\<close>

definition grows :: "('a \<Rightarrow> 'a \<Rightarrow> bool) \<Rightarrow> 'a list \<Rightarrow> 'a list \<Rightarrow> bool" where
  "grows le xs ys \<longleftrightarrow> length xs \<le> length ys \<and> list_all2 le xs (take (length xs) ys)"

locale row_history =
  fixes le :: "'a \<Rightarrow> 'a \<Rightarrow> bool"
  assumes le_refl: "le a a" and le_trans: "le a b \<Longrightarrow> le b c \<Longrightarrow> le a c"
begin

lemma grows_refl: "grows le xs xs"
  by (simp add: grows_def list_all2_refl le_refl)

lemma grows_all2: "list_all2 le xs ys \<Longrightarrow> grows le xs ys"
  by (simp add: grows_def list_all2_lengthD[symmetric])

lemma grows_append: "grows le xs (xs @ ys)"
  by (simp add: grows_def list_all2_refl le_refl)

lemma grows_nth: "grows le xs ys \<Longrightarrow> i < length xs \<Longrightarrow> le (xs ! i) (ys ! i)"
  by (simp add: grows_def list_all2_conv_all_nth)

lemma grows_trans:
  assumes "grows le xs ys" "grows le ys zs" shows "grows le xs zs"
proof -
  have "length xs \<le> length zs" using assms by (simp add: grows_def)
  moreover have "le (xs ! i) (zs ! i)" if "i < length xs" for i
  proof -
    have "i < length ys" using assms(1) that by (simp add: grows_def)
    then show ?thesis using grows_nth[OF assms(1) that] grows_nth[OF assms(2)] le_trans by blast
  qed
  ultimately show ?thesis by (simp add: grows_def list_all2_conv_all_nth)
qed

lemma grows_upd: "(\<And>x. P x \<Longrightarrow> le x (f x)) \<Longrightarrow> grows le xs (upd P f xs)"
  by (rule grows_all2) (simp add: upd_def list_all2_conv_all_nth le_refl)

lemma grows_set: "grows le xs ys \<Longrightarrow> x \<in> set xs \<Longrightarrow> \<exists>y \<in> set ys. le x y"
proof -
  assume g: "grows le xs ys" and "x \<in> set xs"
  then obtain i where i: "i < length xs" "xs ! i = x" by (auto simp: in_set_conv_nth)
  have "i < length ys" using g i(1) by (simp add: grows_def)
  then show ?thesis using grows_nth[OF g i(1)] i(2) by auto
qed

end

interpretation attempt_rows: row_history evolves
  by unfold_locales (auto simp: evolves_def status_rank_def split: if_splits)

interpretation run_rows: row_history run_evolves
  by unfold_locales (auto simp: run_evolves_def)

definition history :: "store \<Rightarrow> store \<Rightarrow> bool" where
  "history db db' \<longleftrightarrow>
     grows evolves (db_attempts db) (db_attempts db') \<and> grows run_evolves (db_runs db) (db_runs db')"

lemma history_refl: "history db db"
  by (simp add: history_def attempt_rows.grows_refl run_rows.grows_refl)

lemma history_trans: "history db db' \<Longrightarrow> history db' db'' \<Longrightarrow> history db db''"
  unfolding history_def by (blast intro: attempt_rows.grows_trans run_rows.grows_trans)

section \<open>The invariant\<close>

definition charged :: "string list \<Rightarrow> Attempt \<Rightarrow> bool" where
  "charged ts a \<longleftrightarrow> am_Kind a = ''workflow'' \<or> am_ID a \<in> set ts"

definition charges :: "store \<Rightarrow> string \<Rightarrow> nat" where
  "charges db run = length (filter (\<lambda>a. am_RunID a = run \<and> charged (db_times db) a) (db_attempts db))"

definition attempt_wf :: "store \<Rightarrow> Attempt \<Rightarrow> bool" where
  "attempt_wf db a \<longleftrightarrow>
     am_RunID a \<in> rn_ID ` set (db_runs db)
     \<and> am_Kind a \<in> {''model'', ''tool'', ''workflow''}
     \<and> am_Status a \<in> {''pending'', ''dispatched'', ''finished'', ''unknown''}
     \<and> (am_Kind a = ''model'' \<longrightarrow> am_ID a \<in> set (db_times db) \<and> am_Status a \<noteq> ''pending'')
     \<and> (am_Kind a = ''workflow'' \<longrightarrow> am_ID a \<notin> set (db_times db) \<and> am_Status a \<noteq> ''pending'')
     \<and> (am_Kind a = ''tool'' \<and> am_Status a = ''pending'' \<longrightarrow> am_ID a \<notin> set (db_times db))
     \<and> (am_Kind a = ''tool'' \<and> am_Status a = ''dispatched'' \<longrightarrow> am_ID a \<in> set (db_times db))"

definition ledger_inv :: "store \<Rightarrow> bool" where
  "ledger_inv db \<longleftrightarrow>
     run_table_ok (db_runs db) \<and> distinct (map am_ID (db_attempts db))
     \<and> (\<forall>a \<in> set (db_attempts db). attempt_wf db a)
     \<and> set (db_times db) \<subseteq> am_ID ` set (db_attempts db)
     \<and> (\<forall>r \<in> set (db_runs db). rn_Steps r = int (charges db (rn_ID r)))
     \<and> overlay_ok db \<and> reserved_ids db \<subseteq> set (db_times db)"

lemma attempt_wf_cong:
  "(am_ID b \<in> set (db_times db')) = (am_ID b \<in> set (db_times db)) \<Longrightarrow> rn_ID ` set (db_runs db') = rn_ID ` set (db_runs db)
   \<Longrightarrow> attempt_wf db' b = attempt_wf db b"
  by (simp only: attempt_wf_def)

lemma inv_owner: "ledger_inv db \<Longrightarrow> a \<in> set (db_attempts db) \<Longrightarrow> am_RunID a \<in> rn_ID ` set (db_runs db)"
  by (simp add: ledger_inv_def attempt_wf_def)

section \<open>Quiet changes\<close>

text \<open>
  A change that dispatches nothing: no step, no marker, no reservation, no row more or less, and
  no attempt becomes pending or dispatched.
\<close>

definition settles :: "Attempt \<Rightarrow> Attempt \<Rightarrow> bool" where
  "settles a b \<longleftrightarrow> evolves a b \<and> am_Status b \<in> {''pending'', ''dispatched'', ''finished'', ''unknown'', am_Status a}
     \<and> (am_Status b \<in> {''pending'', ''dispatched''} \<longrightarrow> am_Status b = am_Status a)"

definition run_same :: "Run \<Rightarrow> Run \<Rightarrow> bool" where
  "run_same r s \<longleftrightarrow> run_evolves r s \<and> rn_Steps s = rn_Steps r"

definition quiet :: "store \<Rightarrow> store \<Rightarrow> bool" where
  "quiet db db' \<longleftrightarrow>
     (run_table_ok (db_runs db) \<longrightarrow> run_table_ok (db_runs db'))
     \<and> list_all2 run_same (db_runs db) (db_runs db')
     \<and> list_all2 settles (db_attempts db) (db_attempts db')
     \<and> db_times db' = db_times db
     \<and> (overlay_ok db \<longrightarrow> overlay_ok db' \<and> reserved_ids db' = reserved_ids db)"

lemma settles_refl: "settles a a"
  by (simp add: settles_def attempt_rows.le_refl)

lemma settles_trans: "settles a b \<Longrightarrow> settles b c \<Longrightarrow> settles a c"
  unfolding settles_def using attempt_rows.le_trans[of a b c] by auto

lemma run_same_refl: "run_same r r"
  by (simp add: run_same_def run_rows.le_refl)

lemma run_same_trans: "run_same r s \<Longrightarrow> run_same s t \<Longrightarrow> run_same r t"
  unfolding run_same_def using run_rows.le_trans[of r s t] by auto

lemma quiet_refl: "quiet db db"
  by (simp add: quiet_def list_all2_refl settles_refl run_same_refl)

lemma quiet_trans: "quiet db db' \<Longrightarrow> quiet db' db'' \<Longrightarrow> quiet db db''"
  unfolding quiet_def
  using list_all2_trans[of run_same run_same run_same] list_all2_trans[of settles settles settles]
    run_same_trans settles_trans by (metis (no_types, lifting))

lemma quiet_upd_rows:
  "list_all2 settles as (upd P f as)" if "\<And>a. P a \<Longrightarrow> settles a (f a)"
  using that by (simp add: upd_def list_all2_conv_all_nth settles_refl)

lemma quiet_update_attempts:
  "(\<And>a. P a \<Longrightarrow> settles a (f a)) \<Longrightarrow> quiet db (update_attempts P f db)"
  by (simp add: quiet_def update_attempts_def list_all2_refl run_same_refl quiet_upd_rows overlay_ok_def reserved_ids_def)

lemma quiet_update_runs:
  assumes "update_runs P f db = Inr db'" and f: "\<And>r. P r \<Longrightarrow> run_same r (f r)"
  shows "quiet db db'"
proof -
  have "db' = db\<lparr>db_runs := upd P f (db_runs db)\<rparr>" "run_table_ok (upd P f (db_runs db))"
    using assms(1) by (auto simp: update_runs_def put_runs_def split: if_splits)
  moreover have "list_all2 run_same (db_runs db) (upd P f (db_runs db))"
    using f by (simp add: upd_def list_all2_conv_all_nth run_same_refl)
  ultimately show ?thesis
    by (simp add: quiet_def list_all2_refl settles_refl overlay_ok_def reserved_ids_def)
qed

text \<open>Changes of the other tables.\<close>

definition elsewhere :: "store \<Rightarrow> store \<Rightarrow> bool" where
  "elsewhere db db' \<longleftrightarrow> db_runs db' = db_runs db \<and> db_attempts db' = db_attempts db \<and> db_times db' = db_times db
     \<and> db_collaboration db' = db_collaboration db"

lemma quiet_elsewhere: "elsewhere db db' \<Longrightarrow> quiet db db'"
  by (simp add: elsewhere_def quiet_def list_all2_refl settles_refl run_same_refl overlay_ok_def reserved_ids_def)

lemma elsewhere_refl: "elsewhere db db"
  by (simp add: elsewhere_def)

lemma elsewhere_trans: "elsewhere db db' \<Longrightarrow> elsewhere db' db'' \<Longrightarrow> elsewhere db db''"
  by (simp add: elsewhere_def)

lemma elsewhere_insertMessage: "insertMessage run m db = Inr db' \<Longrightarrow> elsewhere db db'"
  by (auto simp: insertMessage_def insert_row_def elsewhere_def Let_def split: option.splits if_splits sum.splits)

lemma elsewhere_insert_row: "insert_row chat run m db = Inr (n, db') \<Longrightarrow> elsewhere db db'"
  by (auto simp: insert_row_def elsewhere_def Let_def split: option.splits if_splits)

lemma elsewhere_saveInput: "elsewhere db (saveInput i db)"
  by (simp add: saveInput_def elsewhere_def)

lemma elsewhere_moveInputMessage: "moveInputMessage i run db = Inr db' \<Longrightarrow> elsewhere db db'"
  by (auto simp: moveInputMessage_def elsewhere_def saveInput_def Let_def split: option.splits if_splits)

lemma elsewhere_replacement: "recordModelReplacement n r db = Inr db' \<Longrightarrow> elsewhere db db'"
  by (auto simp: recordModelReplacement_def insert_meta_def elsewhere_def split: option.splits if_splits sum.splits)

definition lawful :: "callGuard option \<Rightarrow> bool" where
  "lawful guard \<longleftrightarrow> (case guard of None \<Rightarrow> True | Some g \<Rightarrow> lawful_guard g)"

lemma lawful_None [simp]: "lawful None"
  by (simp add: lawful_def)

lemma lawful_collaboration [simp]: "lawful (Some (collaborationGuard E p c))"
  by (simp add: lawful_def collab.lawful_guard_axioms)

lemma quiet_record:
  assumes g: "lawful_guard g" and rec: "g_Record g db a bytes final = (e, db')" and bytes: "0 \<le> bytes"
  shows "quiet db db'"
proof -
  obtain m rs where db': "db' = db\<lparr>db_collaboration := m, db_runs := rs\<rparr>"
    and rs: "rs = db_runs db \<or> run_table_ok rs \<and> (\<exists>p. rs = upd (\<lambda>r. rn_ID r = p) cancelled_run (db_runs db))"
    using lawful_guard.record_frame[OF g rec] by blast
  have "run_same r (cancelled_run r)" for r
    by (simp add: run_same_def run_evolves_def cancelled_run_def)
  then have "list_all2 run_same (db_runs db) rs"
    using rs by (auto simp: upd_def list_all2_conv_all_nth run_same_refl)
  then show ?thesis
    using rs lawful_guard.record_overlay[OF g rec _ bytes]
    by (auto simp: quiet_def db' list_all2_refl settles_refl)
qed

section \<open>Good steps\<close>

lemma list_all2_map_eq: "list_all2 R xs ys \<Longrightarrow> (\<And>x y. R x y \<Longrightarrow> k y = k x) \<Longrightarrow> map k ys = map k xs"
  by (induction rule: list_all2_induct) auto

lemma quiet_ids:
  assumes "quiet db db'"
  shows "map am_ID (db_attempts db') = map am_ID (db_attempts db)"
    "map (\<lambda>a. (am_RunID a, am_Kind a, am_ID a)) (db_attempts db') = map (\<lambda>a. (am_RunID a, am_Kind a, am_ID a)) (db_attempts db)"
    "map (\<lambda>r. (rn_ID r, rn_Steps r)) (db_runs db') = map (\<lambda>r. (rn_ID r, rn_Steps r)) (db_runs db)"
    "rn_ID ` set (db_runs db') = rn_ID ` set (db_runs db)"
proof -
  have a: "list_all2 settles (db_attempts db) (db_attempts db')" and r: "list_all2 run_same (db_runs db) (db_runs db')"
    using assms by (simp_all add: quiet_def)
  show "map am_ID (db_attempts db') = map am_ID (db_attempts db)"
    "map (\<lambda>a. (am_RunID a, am_Kind a, am_ID a)) (db_attempts db') = map (\<lambda>a. (am_RunID a, am_Kind a, am_ID a)) (db_attempts db)"
    by (rule list_all2_map_eq[OF a], simp add: settles_def evolves_def)+
  show "map (\<lambda>r. (rn_ID r, rn_Steps r)) (db_runs db') = map (\<lambda>r. (rn_ID r, rn_Steps r)) (db_runs db)"
    by (rule list_all2_map_eq[OF r]) (simp add: run_same_def run_evolves_def)
  have "map rn_ID (db_runs db') = map rn_ID (db_runs db)"
    by (rule list_all2_map_eq[OF r]) (simp add: run_same_def run_evolves_def)
  then show "rn_ID ` set (db_runs db') = rn_ID ` set (db_runs db)" by (metis set_map)
qed

lemma charges_conv:
  "charges db run = length (filter (\<lambda>(r, k, i). r = run \<and> (k = ''workflow'' \<or> i \<in> set (db_times db)))
     (map (\<lambda>a. (am_RunID a, am_Kind a, am_ID a)) (db_attempts db)))"
  by (simp add: charges_def charged_def filter_map comp_def)

lemma quiet_charges: "quiet db db' \<Longrightarrow> charges db' run = charges db run"
  unfolding charges_conv by (simp add: quiet_ids) (simp add: quiet_def)

lemma quiet_attempt_wf:
  assumes q: "quiet db db'" and wf: "\<forall>a \<in> set (db_attempts db). attempt_wf db a" and b: "b \<in> set (db_attempts db')"
  shows "attempt_wf db' b"
proof -
  obtain i where i: "i < length (db_attempts db')" "db_attempts db' ! i = b" using b by (auto simp: in_set_conv_nth)
  have all: "list_all2 settles (db_attempts db) (db_attempts db')" using q by (simp add: quiet_def)
  then have "i < length (db_attempts db)" using i(1) by (simp add: list_all2_lengthD)
  then have s: "settles (db_attempts db ! i) b" and a: "attempt_wf db (db_attempts db ! i)"
    using list_all2_nthD[OF all, of i] i(2) wf by auto
  have eq: "db_times db' = db_times db" using q by (simp add: quiet_def)
  let ?a = "db_attempts db ! i"
  have same: "am_ID b = am_ID ?a" "am_RunID b = am_RunID ?a" "am_Kind b = am_Kind ?a"
    using s by (simp_all add: settles_def evolves_def)
  have keep: "am_Status b = ''pending'' \<or> am_Status b = ''dispatched'' \<longrightarrow> am_Status b = am_Status ?a"
    and ok: "am_Status b \<in> {''pending'', ''dispatched'', ''finished'', ''unknown'', am_Status ?a}"
    using s by (simp_all add: settles_def)
  have valid: "am_Status b \<in> {''pending'', ''dispatched'', ''finished'', ''unknown''}"
  proof (cases "am_Status b = am_Status ?a")
    case True
    then show ?thesis using a by (simp add: attempt_wf_def)
  next
    case False
    then show ?thesis using ok by simp
  qed
  have p: "am_Status b = ''pending'' \<Longrightarrow> am_Status ?a = ''pending''" using keep by simp
  have d: "am_Status b = ''dispatched'' \<Longrightarrow> am_Status ?a = ''dispatched''" using keep by simp
  show ?thesis
    unfolding attempt_wf_def eq quiet_ids(4)[OF q] same
    by (intro conjI valid impI notI) (use a p d in \<open>simp_all add: attempt_wf_def\<close>)
qed

lemma inv_quiet:
  assumes inv: "ledger_inv db" and q: "quiet db db'"
  shows "ledger_inv db'"
proof -
  have "rn_Steps r = int (charges db' (rn_ID r))" if "r \<in> set (db_runs db')" for r
  proof -
    have "(rn_ID r, rn_Steps r) \<in> set (map (\<lambda>r. (rn_ID r, rn_Steps r)) (db_runs db'))"
      using that by simp
    then have "(rn_ID r, rn_Steps r) \<in> set (map (\<lambda>r. (rn_ID r, rn_Steps r)) (db_runs db))"
      by (simp only: quiet_ids(3)[OF q])
    then show ?thesis using inv quiet_charges[OF q] by (auto simp: ledger_inv_def)
  qed
  moreover have "am_ID ` set (db_attempts db') = am_ID ` set (db_attempts db)"
    using quiet_ids(1)[OF q] by (metis set_map)
  ultimately show ?thesis
    using inv q quiet_attempt_wf[OF q] quiet_ids(1)[OF q] unfolding ledger_inv_def quiet_def by auto
qed

definition good :: "store \<Rightarrow> store \<Rightarrow> bool" where
  "good db db' \<longleftrightarrow> (ledger_inv db \<longrightarrow> history db db' \<and> ledger_inv db')"

lemma good_refl: "good db db"
  by (simp add: good_def history_refl)

lemma good_trans: "good db db' \<Longrightarrow> good db' db'' \<Longrightarrow> good db db''"
  unfolding good_def using history_trans by blast

lemma quiet_history: "quiet db db' \<Longrightarrow> history db db'"
  unfolding quiet_def history_def
  by (auto intro!: attempt_rows.grows_all2 run_rows.grows_all2 elim: list_all2_mono simp: settles_def run_same_def)

lemma good_quiet: "quiet db db' \<Longrightarrow> good db db'"
  by (simp add: good_def quiet_history inv_quiet)

lemma good_elsewhere: "elsewhere db db' \<Longrightarrow> good db db'"
  by (simp add: good_quiet quiet_elsewhere)

subsection \<open>New rows\<close>

lemma get_run_owner: "get_run db i \<noteq> None \<Longrightarrow> i \<in> rn_ID ` set (db_runs db)"
  using get_runD by (cases "get_run db i") (auto intro: rev_image_eqI)

lemma get_attempt_fresh: "get_attempt db i = None \<Longrightarrow> i \<notin> am_ID ` set (db_attempts db)"
  by (auto simp: get_attempt_def find_None_iff_set)

lemma insert_attempt_Inr:
  assumes "insert_attempt a db = Inr db'"
  shows "db' = db\<lparr>db_attempts := db_attempts db @ [a]\<rparr>" "am_ID a \<notin> am_ID ` set (db_attempts db)"
    "am_RunID a \<in> rn_ID ` set (db_runs db)"
proof -
  have "get_run db (am_RunID a) \<noteq> None" "get_attempt db (am_ID a) = None" "db' = db\<lparr>db_attempts := db_attempts db @ [a]\<rparr>"
    using assms unfolding insert_attempt_def by (simp_all split: if_split_asm)
  then show "db' = db\<lparr>db_attempts := db_attempts db @ [a]\<rparr>" "am_ID a \<notin> am_ID ` set (db_attempts db)"
    "am_RunID a \<in> rn_ID ` set (db_runs db)"
    by (simp_all add: get_run_owner get_attempt_fresh)
qed

lemma good_insert_pending:
  assumes ins: "insert_attempt a db = Inr db'" and kind: "am_Kind a = ''tool''" "am_Status a = ''pending''"
  shows "good db db'"
proof -
  note db' = insert_attempt_Inr(1)[OF ins] and new = insert_attempt_Inr(2)[OF ins] and owner = insert_attempt_Inr(3)[OF ins]
  have "ledger_inv db'" if inv: "ledger_inv db"
  proof -
    have nt: "am_ID a \<notin> set (db_times db)" using inv new by (auto simp: ledger_inv_def)
    have "attempt_wf db' b" if "b \<in> set (db_attempts db')" for b
      using that inv kind nt owner by (auto simp: db' ledger_inv_def attempt_wf_def)
    moreover have "charges db' r = charges db r" for r
      by (simp add: charges_def db' charged_def kind nt)
    ultimately show ?thesis using inv new by (auto simp: ledger_inv_def db' overlay_ok_def reserved_ids_def)
  qed
  then show ?thesis
    by (simp add: good_def history_def db' attempt_rows.grows_append run_rows.grows_refl)
qed

lemma good_insert_run:
  assumes ins: "insert_run r db = Inr db'" and steps: "rn_Steps r = 0"
  shows "good db db'"
proof -
  have db': "db' = db\<lparr>db_runs := db_runs db @ [r]\<rparr>" and ok: "run_table_ok (db_runs db @ [r])"
    using ins by (auto simp: insert_run_def put_runs_def split: if_splits)
  have new: "rn_ID r \<notin> rn_ID ` set (db_runs db)" using ok by (simp add: run_table_ok_def)
  have "ledger_inv db'" if inv: "ledger_inv db"
  proof -
    have "am_RunID a \<noteq> rn_ID r" if "a \<in> set (db_attempts db)" for a
      using inv_owner[OF inv that] new by auto
    then have "filter (\<lambda>a. am_RunID a = rn_ID r \<and> charged (db_times db) a) (db_attempts db) = []"
      by (simp add: filter_empty_conv)
    then have "charges db' (rn_ID r) = 0" by (simp add: charges_def db')
    moreover have "charges db' x = charges db x" for x by (simp add: charges_def db')
    ultimately show ?thesis
      using inv ok steps by (auto simp: ledger_inv_def db' attempt_wf_def overlay_ok_def reserved_ids_def)
  qed
  then show ?thesis
    by (simp add: good_def history_def db' run_rows.grows_append attempt_rows.grows_refl)
qed

subsection \<open>Dispatching\<close>

abbreviation next_step :: "Run \<Rightarrow> Run" where
  "next_step r \<equiv> r\<lparr>rn_Steps := rn_Steps r + 1\<rparr>"

lemma upd_one:
  assumes "distinct (map k xs)" "RowsAffected (\<lambda>x. k x = i \<and> P x) xs = 1"
  shows "upd (\<lambda>x. k x = i \<and> P x) f xs = upd (\<lambda>x. k x = i) f xs"
proof -
  obtain y where y: "y \<in> set xs" "k y = i" "P y" using RowsAffected_1_ex[OF assms(2)] by blast
  have "x = y" if "x \<in> set xs" "k x = i" for x
    using assms(1) that y(1,2) by (metis distinct_map inj_on_def)
  then show ?thesis using y(3) by (auto simp: upd_def)
qed

lemma incrementStep_cases:
  assumes inc: "incrementStep run maxSteps db = Inr db'" and d: "distinct (map rn_ID (db_runs db))"
  shows "db' = db\<lparr>db_runs := upd (\<lambda>r. rn_ID r = run) next_step (db_runs db)\<rparr>" "run_table_ok (db_runs db')"
    "\<exists>r \<in> set (db_runs db). rn_ID r = run \<and> rn_Status r = ''running'' \<and> (maxSteps = 0 \<or> rn_Steps r < maxSteps)"
proof -
  let ?P = "\<lambda>r. (maxSteps = 0 \<or> rn_Steps r < maxSteps) \<and> rn_Status r = ''running''"
  have one: "RowsAffected (\<lambda>r. rn_ID r = run \<and> ?P r) (db_runs db) = 1"
    and up: "update_runs (\<lambda>r. rn_ID r = run \<and> ?P r) next_step db = Inr db'"
    using inc by (auto simp: incrementStep_def Let_def split: if_splits)
  show "db' = db\<lparr>db_runs := upd (\<lambda>r. rn_ID r = run) next_step (db_runs db)\<rparr>" "run_table_ok (db_runs db')"
    using up unfolding update_runs_def put_runs_def upd_one[OF d one] by (auto split: if_splits)
  show "\<exists>r \<in> set (db_runs db). rn_ID r = run \<and> rn_Status r = ''running'' \<and> (maxSteps = 0 \<or> rn_Steps r < maxSteps)"
    using RowsAffected_1_ex[OF one] by blast
qed

lemma history_step:
  "db_runs db' = upd (\<lambda>r. rn_ID r = run) next_step (db_runs db) \<Longrightarrow> grows run_evolves (db_runs db) (db_runs db')"
  by (simp add: run_rows.grows_upd run_evolves_def)

lemma inv_dispatch:
  assumes inv: "ledger_inv db" and runs: "db_runs db' = upd (\<lambda>r. rn_ID r = run) next_step (db_runs db)"
    and table: "run_table_ok (db_runs db')"
    and charges: "\<And>x. charges db' x = charges db x + (if x = run then 1 else 0)"
    and ids: "distinct (map am_ID (db_attempts db'))" and wf: "\<And>a. a \<in> set (db_attempts db') \<Longrightarrow> attempt_wf db' a"
    and ts: "set (db_times db') \<subseteq> am_ID ` set (db_attempts db')"
    and overlay: "overlay_ok db'" "reserved_ids db' \<subseteq> set (db_times db')"
  shows "ledger_inv db'"
proof -
  have "rn_Steps r' = int (charges db' (rn_ID r'))" if r': "r' \<in> set (db_runs db')" for r'
  proof -
    obtain r where "r \<in> set (db_runs db)" "r' = (if rn_ID r = run then next_step r else r)"
      using r' by (auto simp: runs set_upd)
    then show ?thesis using inv by (simp add: ledger_inv_def charges)
  qed
  then show ?thesis using assms by (auto simp: ledger_inv_def)
qed

lemma next_step_ids: "rn_ID ` set (upd (\<lambda>r. rn_ID r = run) next_step rs) = rn_ID ` set rs"
proof -
  have "map rn_ID (upd (\<lambda>r. rn_ID r = run) next_step rs) = map rn_ID rs" by (rule map_upd) simp
  then show ?thesis by (metis set_map)
qed

lemma reserve_cases:
  assumes res: "reserve guard a db = Inr db'" and law: "lawful guard"
  shows "\<exists>m. db' = db\<lparr>db_collaboration := m\<rparr>" and "guard \<noteq> None \<Longrightarrow> am_Kind a = ''model'' \<or> am_Kind a = ''tool''"
    and "overlay_ok db \<Longrightarrow> am_ID a \<notin> reserved_ids db
         \<Longrightarrow> overlay_ok db' \<and> reserved_ids db' \<subseteq> insert (am_ID a) (reserved_ids db)"
    and "guard = None \<Longrightarrow> db' = db"
proof -
  show "\<exists>m. db' = db\<lparr>db_collaboration := m\<rparr>"
  proof (cases guard)
    case None
    then show ?thesis using res by (auto simp: reserve_def intro: exI[of _ "db_collaboration db"])
  next
    case (Some g)
    then show ?thesis using lawful_guard.reserve_frame[of g db a db'] res law by (simp add: lawful_def reserve_def)
  qed
  show "guard \<noteq> None \<Longrightarrow> am_Kind a = ''model'' \<or> am_Kind a = ''tool''"
    using lawful_guard.reserve_kind[of _ db a db'] res law by (cases guard) (auto simp: lawful_def reserve_def)
  show "overlay_ok db' \<and> reserved_ids db' \<subseteq> insert (am_ID a) (reserved_ids db)"
    if "overlay_ok db" "am_ID a \<notin> reserved_ids db"
    using lawful_guard.reserve_overlay[of _ db a db'] res law that by (cases guard) (auto simp: lawful_def reserve_def)
  show "guard = None \<Longrightarrow> db' = db" using res by (simp add: reserve_def)
qed

text \<open>A new attempt that is dispatched at once, with or without a marker.\<close>

lemma inv_started:
  assumes inv: "ledger_inv db" and runs: "db_runs db' = upd (\<lambda>r. rn_ID r = am_RunID a) next_step (db_runs db)"
    and table: "run_table_ok (db_runs db')" and attempts: "db_attempts db' = db_attempts db @ [a]"
    and fresh: "am_ID a \<notin> am_ID ` set (db_attempts db)"
    and owner: "am_RunID a \<in> rn_ID ` set (db_runs db)" and status: "am_Status a = ''dispatched''"
    and marker: "am_Kind a = ''model'' \<and> db_times db' = db_times db @ [am_ID a]
                 \<or> am_Kind a = ''workflow'' \<and> db_times db' = db_times db"
    and overlay: "overlay_ok db'" "reserved_ids db' \<subseteq> set (db_times db')"
  shows "ledger_inv db'"
proof (rule inv_dispatch[OF inv runs table _ _ _ _ overlay])
  have not_marked: "am_ID a \<notin> set (db_times db)" using inv fresh by (auto simp: ledger_inv_def)
  have charged_old: "charged (db_times db') b = charged (db_times db) b" if "b \<in> set (db_attempts db)" for b
  proof -
    have "am_ID b \<noteq> am_ID a" by (rule away_from[OF fresh that])
    then show ?thesis using marker by (auto simp: charged_def)
  qed
  have charged_new: "charged (db_times db') a" using marker by (auto simp: charged_def)
  show "charges db' x = charges db x + (if x = am_RunID a then 1 else 0)" for x
  proof -
    have "filter (\<lambda>b. am_RunID b = x \<and> charged (db_times db') b) (db_attempts db)
          = filter (\<lambda>b. am_RunID b = x \<and> charged (db_times db) b) (db_attempts db)"
      using charged_old by (intro filter_cong) auto
    then show ?thesis using charged_new by (simp add: charges_def attempts)
  qed
  show "distinct (map am_ID (db_attempts db'))" using inv fresh by (simp add: ledger_inv_def attempts)
  show "set (db_times db') \<subseteq> am_ID ` set (db_attempts db')"
    using inv marker by (auto simp: ledger_inv_def attempts)
  have ids: "rn_ID ` set (db_runs db') = rn_ID ` set (db_runs db)" by (simp add: runs next_step_ids)
  show "attempt_wf db' b" if b: "b \<in> set (db_attempts db')" for b
  proof (cases "b = a")
    case True
    then show ?thesis using marker status owner not_marked unfolding attempt_wf_def ids by auto
  next
    case False
    then have old: "b \<in> set (db_attempts db)" using b by (simp add: attempts)
    then have wf: "attempt_wf db b" using inv by (simp add: ledger_inv_def)
    have "am_ID b \<noteq> am_ID a" by (rule away_from[OF fresh old])
    then have "am_ID b \<in> set (db_times db') \<longleftrightarrow> am_ID b \<in> set (db_times db)" using marker by auto
    then show ?thesis using wf attempt_wf_cong[OF _ ids] by simp
  qed
qed

lemma mark_time_Inr: "mark_time i db = Inr db' \<Longrightarrow> db' = db\<lparr>db_times := db_times db @ [i]\<rparr> \<and> i \<notin> set (db_times db)"
  by (auto simp: mark_time_def insert_key_def split: if_splits sum.splits)

lemma startGuardedModel_cases:
  assumes "startGuardedModel E guard newID run request maxSteps db = Inr (a, db')"
  obtains db1 db2 db3 db4 where "incrementStep (rn_ID run) maxSteps db = Inr db1" "reserve guard a db1 = Inr db2"
    "insert_attempt a db2 = Inr db3" "elsewhere db3 db4" "mark_time newID db4 = Inr db'"
    "am_ID a = newID" "am_RunID a = rn_ID run" "am_Kind a = ''model''" "am_Status a = ''dispatched''"
    "am_RequestJSON a = request" "lockExecutionTx db (rn_ID run) = None"
    "\<exists>q. le_request E request = Some q \<and> (mq_Purpose q = [] \<longrightarrow> \<not> pendingSteer db (rn_ID run))"
    "guard = None \<Longrightarrow> checkUncontrolled db (rn_ConversationID run) = None"
proof -
  let ?a = "\<lparr>am_ID = newID, am_RunID = rn_ID run, am_Kind = ''model'', am_CallID = [],
             am_Status = ''dispatched'', am_RequestJSON = request, am_ResponseJSON = []\<rparr>"
  obtain q where q: "le_request E request = Some q" "mq_Purpose q = [] \<longrightarrow> \<not> pendingSteer db (rn_ID run)"
    and lock: "lockExecutionTx db (rn_ID run) = None" "guard = None \<longrightarrow> checkUncontrolled db (rn_ConversationID run) = None"
    using assms unfolding startGuardedModel_def by (auto split: option.splits if_splits simp del: first_err.simps)
  obtain db1 where db1: "incrementStep (rn_ID run) maxSteps db = Inr db1"
    using assms q lock unfolding startGuardedModel_def by (auto split: sum.splits option.splits if_splits)
  obtain db2 where db2: "reserve guard ?a db1 = Inr db2"
    using assms q lock db1 unfolding startGuardedModel_def Let_def by (auto split: sum.splits option.splits if_splits)
  obtain db3 where db3: "insert_attempt ?a db2 = Inr db3"
    using assms q lock db1 db2 unfolding startGuardedModel_def Let_def by (auto split: sum.splits option.splits if_splits)
  obtain db4 where db4: "(case mq_Recovery q of None \<Rightarrow> Inr db3 | Some r \<Rightarrow> recordModelReplacement newID r db3) = Inr db4"
    "mark_time newID db4 = Inr db'" "a = ?a"
    using assms q lock db1 db2 db3 unfolding startGuardedModel_def Let_def by (auto split: sum.splits option.splits if_splits)
  have "elsewhere db3 db4"
    using db4(1) by (auto intro: elsewhere_refl elsewhere_replacement split: option.splits)
  then show thesis using that[OF db1] db2 db3 db4 q lock by simp
qed

lemma inv_run_ids: "ledger_inv db \<Longrightarrow> distinct (map rn_ID (db_runs db))"
  by (simp add: ledger_inv_def run_table_ok_def)

lemma incrementStep_history: "incrementStep run maxSteps db = Inr db' \<Longrightarrow> history db db' \<and> (\<exists>rs. db' = db\<lparr>db_runs := rs\<rparr>)"
proof -
  assume "incrementStep run maxSteps db = Inr db'"
  then obtain P where "db' = db\<lparr>db_runs := upd P next_step (db_runs db)\<rparr>"
    by (auto simp: incrementStep_def Let_def update_runs_def put_runs_def split: if_splits)
  then show ?thesis
    by (auto simp: history_def attempt_rows.grows_refl intro!: run_rows.grows_upd) (simp add: run_evolves_def)
qed

lemma good_startGuardedModel:
  assumes start: "startGuardedModel E guard newID run request maxSteps db = Inr (a, db')" and law: "lawful guard"
  shows "good db db'"
  using start
proof (rule startGuardedModel_cases)
  fix db1 db2 db3 db4
  assume inc: "incrementStep (rn_ID run) maxSteps db = Inr db1" and res: "reserve guard a db1 = Inr db2"
    and ins: "insert_attempt a db2 = Inr db3" and other: "elsewhere db3 db4" and time: "mark_time newID db4 = Inr db'"
    and a: "am_ID a = newID" "am_RunID a = rn_ID run" "am_Kind a = ''model''" "am_Status a = ''dispatched''"
  obtain m where db2: "db2 = db1\<lparr>db_collaboration := m\<rparr>" using reserve_cases(1)[OF res law] by blast
  have db': "db_runs db' = db_runs db1" "db_attempts db' = db_attempts db @ [a]" "db_times db' = db_times db @ [am_ID a]"
    "db_collaboration db' = m"
    using other mark_time_Inr[OF time] insert_attempt_Inr(1)[OF ins] incrementStep_history[OF inc] a(1)
    by (auto simp: elsewhere_def db2)
  have "history db db'"
    using incrementStep_history[OF inc] by (auto simp: history_def db' attempt_rows.grows_append)
  moreover have "ledger_inv db'" if inv: "ledger_inv db"
  proof (rule inv_started[OF inv])
    note inc' = incrementStep_cases[OF inc inv_run_ids[OF inv]]
    show "db_runs db' = upd (\<lambda>r. rn_ID r = am_RunID a) next_step (db_runs db)" "run_table_ok (db_runs db')"
      using inc' by (simp_all add: db' a)
    show "db_attempts db' = db_attempts db @ [a]" by (rule db')
    show fresh: "am_ID a \<notin> am_ID ` set (db_attempts db)"
      using insert_attempt_Inr(2)[OF ins] inc'(1) by (simp add: db2)
    show "am_RunID a \<in> rn_ID ` set (db_runs db)"
      using insert_attempt_Inr(3)[OF ins] inc'(1) by (simp add: db2 next_step_ids)
    show "am_Status a = ''dispatched''" by (rule a)
    show "am_Kind a = ''model'' \<and> db_times db' = db_times db @ [am_ID a]
          \<or> am_Kind a = ''workflow'' \<and> db_times db' = db_times db" using a db' by simp
    have "overlay_ok db1" "reserved_ids db1 = reserved_ids db"
      using inv inc'(1) by (simp_all add: ledger_inv_def overlay_ok_def reserved_ids_def)
    moreover have "am_ID a \<notin> reserved_ids db" using inv fresh by (auto simp: ledger_inv_def)
    ultimately have "overlay_ok db2 \<and> reserved_ids db2 \<subseteq> insert (am_ID a) (reserved_ids db)"
      using reserve_cases(3)[OF res law] by simp
    moreover have "db_collaboration db' = db_collaboration db2" by (simp add: db' db2)
    ultimately show "overlay_ok db'" "reserved_ids db' \<subseteq> set (db_times db')"
      using inv overlay_cong[of db' db2] by (auto simp: db' ledger_inv_def)
  qed
  ultimately show ?thesis by (simp add: good_def)
qed

lemma startWorkflow_cases:
  assumes "startWorkflow E guard newID newCall run ext flow input maxSteps db = Inr (a, db')"
  obtains db1 db2 where "incrementStep (rn_ID run) maxSteps db = Inr db1" "reserve guard a db1 = Inr db2"
    "insert_attempt a db2 = Inr db'" "am_RunID a = rn_ID run" "am_Kind a = ''workflow''" "am_Status a = ''dispatched''"
  using assms that unfolding startWorkflow_def Let_def
  by (auto split: sum.split_asm option.split_asm if_split_asm)

lemma good_startWorkflow:
  assumes start: "startWorkflow E guard newID newCall run ext flow input maxSteps db = Inr (a, db')" and law: "lawful guard"
  shows "good db db'"
  using start
proof (rule startWorkflow_cases)
  fix db1 db2
  assume inc: "incrementStep (rn_ID run) maxSteps db = Inr db1" and res: "reserve guard a db1 = Inr db2"
    and ins: "insert_attempt a db2 = Inr db'"
    and a: "am_RunID a = rn_ID run" "am_Kind a = ''workflow''" "am_Status a = ''dispatched''"
  have "guard = None" using reserve_cases(2)[OF res law] a(2) by (cases guard) auto
  then have db2: "db2 = db1" by (rule reserve_cases(4)[OF res law])
  have db': "db' = db1\<lparr>db_attempts := db_attempts db @ [a]\<rparr>" "db_times db' = db_times db"
    using insert_attempt_Inr(1)[OF ins] incrementStep_history[OF inc] by (auto simp: db2)
  have "history db db'"
    using incrementStep_history[OF inc] by (auto simp: history_def db' attempt_rows.grows_append)
  moreover have "ledger_inv db'" if inv: "ledger_inv db"
  proof (rule inv_started[OF inv])
    note inc' = incrementStep_cases[OF inc inv_run_ids[OF inv]]
    show "db_runs db' = upd (\<lambda>r. rn_ID r = am_RunID a) next_step (db_runs db)" "run_table_ok (db_runs db')"
      using inc' by (simp_all add: db' a)
    show "db_attempts db' = db_attempts db @ [a]" by (simp add: db')
    show "am_ID a \<notin> am_ID ` set (db_attempts db)"
      using insert_attempt_Inr(2)[OF ins] inc'(1) by (simp add: db2)
    show "am_RunID a \<in> rn_ID ` set (db_runs db)"
      using insert_attempt_Inr(3)[OF ins] inc'(1) by (simp add: db2 next_step_ids)
    show "am_Status a = ''dispatched''" by (rule a)
    show "am_Kind a = ''model'' \<and> db_times db' = db_times db @ [am_ID a]
          \<or> am_Kind a = ''workflow'' \<and> db_times db' = db_times db" using a db' by simp
    show "overlay_ok db'" "reserved_ids db' \<subseteq> set (db_times db')"
      using inv inc'(1) by (auto simp: overlay_ok_def reserved_ids_def db' ledger_inv_def)
  qed
  ultimately show ?thesis by (simp add: good_def)
qed

text \<open>The attempt handed to an operation was read from the store some time before.\<close>

definition known :: "store \<Rightarrow> Attempt \<Rightarrow> bool" where
  "known db a \<longleftrightarrow> (\<exists>b \<in> set (db_attempts db). evolves a b)"

lemma dispatch_cases:
  assumes "dispatchGuardedTool guard a maxSteps db = Inr db'"
  obtains db1 db2 where "reserve guard a db = Inr db1" "incrementStep (am_RunID a) maxSteps db1 = Inr db2"
    "RowsAffected (\<lambda>b. am_ID b = am_ID a \<and> am_Status b = ''pending'') (db_attempts db2) = 1"
    "mark_time (am_ID a) (update_attempts (\<lambda>b. am_ID b = am_ID a \<and> am_Status b = ''pending'') (\<lambda>b. b\<lparr>am_Status := ''dispatched''\<rparr>) db2) = Inr db'"
    "\<not> pendingSteer db (am_RunID a)" "guard = None \<Longrightarrow> controlledParent db (am_RunID a) = []"
  using assms that unfolding dispatchGuardedTool_def Let_def
  by (auto split: sum.split_asm option.split_asm if_split_asm)

lemma inv_dispatched:
  assumes inv: "ledger_inv db" and known: "known db a"
    and runs: "db_runs db' = upd (\<lambda>r. rn_ID r = am_RunID a) next_step (db_runs db)" and table: "run_table_ok (db_runs db')"
    and one: "RowsAffected (\<lambda>b. am_ID b = am_ID a \<and> am_Status b = ''pending'') (db_attempts db) = 1"
    and attempts: "db_attempts db' = upd (\<lambda>b. am_ID b = am_ID a) (\<lambda>b. b\<lparr>am_Status := ''dispatched''\<rparr>) (db_attempts db)"
    and ts: "db_times db' = db_times db @ [am_ID a]"
    and overlay: "overlay_ok db'" "reserved_ids db' \<subseteq> set (db_times db')"
  shows "ledger_inv db'"
proof (rule inv_dispatch[OF inv runs table _ _ _ _ overlay])
  let ?f = "\<lambda>b. b\<lparr>am_Status := ''dispatched''\<rparr>"
  obtain b where b: "b \<in> set (db_attempts db)" "am_ID b = am_ID a" "am_Status b = ''pending''"
    using RowsAffected_1_ex[OF one] by blast
  have distinct: "distinct (map am_ID (db_attempts db))" and wf: "\<And>x. x \<in> set (db_attempts db) \<Longrightarrow> attempt_wf db x"
    using inv by (simp_all add: ledger_inv_def)
  have only: "x = b" if "x \<in> set (db_attempts db)" "am_ID x = am_ID a" for x
    using distinct that b(1,2) by (metis distinct_map inj_on_def)
  have run: "am_RunID b = am_RunID a"
    using known only by (auto simp: known_def evolves_def)
  have kind: "am_Kind b = ''tool''" and unmarked: "am_ID a \<notin> set (db_times db)"
    using wf[OF b(1)] b(2,3) by (auto simp: attempt_wf_def)
  show ids: "distinct (map am_ID (db_attempts db'))"
    using distinct by (simp add: attempts map_upd)
  have image: "am_ID ` set (db_attempts db') = am_ID ` set (db_attempts db)"
    using map_upd[of "\<lambda>b. am_ID b = am_ID a" am_ID ?f "db_attempts db"] by (simp add: attempts flip: set_map)
  show "set (db_times db') \<subseteq> am_ID ` set (db_attempts db')"
    using inv b(1,2) by (auto simp: image ts ledger_inv_def intro: rev_image_eqI)
  have rid: "rn_ID ` set (db_runs db') = rn_ID ` set (db_runs db)" by (simp add: runs next_step_ids)
  show "attempt_wf db' x" if x: "x \<in> set (db_attempts db')" for x
  proof -
    obtain y where y: "y \<in> set (db_attempts db)" "x = (if am_ID y = am_ID a then ?f y else y)"
      using x by (auto simp: attempts set_upd)
    show ?thesis
    proof (cases "am_ID y = am_ID a")
      case True
      then have "x = ?f b" using y only by simp
      then show ?thesis using wf[OF b(1)] kind b(2) unfolding attempt_wf_def rid ts by simp
    next
      case False
      then show ?thesis using wf[OF y(1)] y(2) unfolding attempt_wf_def rid ts by simp
    qed
  qed
  show "charges db' x = charges db x + (if x = am_RunID a then 1 else 0)" for x
  proof -
    obtain us vs where split: "db_attempts db = us @ b # vs" using b(1) by (meson split_list)
    have away: "am_ID y \<noteq> am_ID a" if "y \<in> set us \<union> set vs" for y
      using distinct that b(2) away_from[of "am_ID a" am_ID us y] away_from[of "am_ID a" am_ID vs y]
      by (simp add: split) metis
    have "upd (\<lambda>y. am_ID y = am_ID a) ?f us = us" "upd (\<lambda>y. am_ID y = am_ID a) ?f vs = vs"
      using away by (simp_all add: upd_def map_idI)
    then have new: "db_attempts db' = us @ ?f b # vs" by (simp add: attempts split b(2))
    have eq: "filter (\<lambda>y. am_RunID y = x \<and> charged (db_times db') y) ws = filter (\<lambda>y. am_RunID y = x \<and> charged (db_times db) y) ws"
      if "ws = us \<or> ws = vs" for ws
      using away that by (intro filter_cong) (auto simp: charged_def ts)
    have "charged (db_times db') (?f b)" "\<not> charged (db_times db) b"
      using b(2) kind unmarked by (simp_all add: charged_def ts)
    then show ?thesis using eq[of us] eq[of vs] run by (cases "x = am_RunID a") (simp_all add: charges_def new split)
  qed
qed

lemma good_dispatchGuardedTool:
  assumes dis: "dispatchGuardedTool guard a maxSteps db = Inr db'" and law: "lawful guard" and known: "known db a"
  shows "good db db'"
  using dis
proof (rule dispatch_cases)
  fix db1 db2
  let ?P = "\<lambda>b. am_ID b = am_ID a \<and> am_Status b = ''pending''" and ?f = "\<lambda>b. b\<lparr>am_Status := ''dispatched''\<rparr>"
  assume res: "reserve guard a db = Inr db1" and inc: "incrementStep (am_RunID a) maxSteps db1 = Inr db2"
    and one: "RowsAffected ?P (db_attempts db2) = 1"
    and time: "mark_time (am_ID a) (update_attempts ?P ?f db2) = Inr db'"
  obtain m where db1: "db1 = db\<lparr>db_collaboration := m\<rparr>" using reserve_cases(1)[OF res law] by blast
  obtain rs where db2: "db2 = db1\<lparr>db_runs := rs\<rparr>" and h: "history db1 db2" using incrementStep_history[OF inc] by blast
  have db': "db_runs db' = rs" "db_attempts db' = upd ?P ?f (db_attempts db)" "db_times db' = db_times db @ [am_ID a]"
    "db_collaboration db' = m"
    using mark_time_Inr[OF time] by (auto simp: db1 db2 update_attempts_def)
  have "evolves b (?f b)" if "?P b" for b using that by (simp add: evolves_def)
  then have "history db db'"
    using h by (simp add: history_def db' db1 db2 attempt_rows.grows_upd)
  moreover have "ledger_inv db'" if inv: "ledger_inv db"
  proof (rule inv_dispatched[OF inv known])
    have d: "distinct (map rn_ID (db_runs db1))" using inv_run_ids[OF inv] by (simp add: db1)
    note inc' = incrementStep_cases[OF inc d]
    show "db_runs db' = upd (\<lambda>r. rn_ID r = am_RunID a) next_step (db_runs db)" "run_table_ok (db_runs db')"
      using arg_cong[OF inc'(1), of db_runs] inc'(2) by (simp_all add: db' db1 db2)
    show one': "RowsAffected ?P (db_attempts db) = 1" using one by (simp add: db1 db2)
    have "distinct (map am_ID (db_attempts db))" using inv by (simp add: ledger_inv_def)
    from upd_one[OF this one'] show "db_attempts db' = upd (\<lambda>b. am_ID b = am_ID a) ?f (db_attempts db)"
      by (simp add: db')
    show "db_times db' = db_times db @ [am_ID a]" by (rule db')
    have "am_ID a \<notin> set (db_times db)" using mark_time_Inr[OF time] by (simp add: update_attempts_def db1 db2)
    then have "am_ID a \<notin> reserved_ids db" using inv by (auto simp: ledger_inv_def)
    then have "overlay_ok db1 \<and> reserved_ids db1 \<subseteq> insert (am_ID a) (reserved_ids db)"
      using reserve_cases(3)[OF res law] inv by (simp add: ledger_inv_def)
    moreover have "db_collaboration db' = db_collaboration db1" by (simp add: db' db1)
    ultimately show "overlay_ok db'" "reserved_ids db' \<subseteq> set (db_times db')"
      using inv overlay_cong[of db' db1] by (auto simp: db' ledger_inv_def)
  qed
  ultimately show ?thesis by (simp add: good_def)
qed

subsection \<open>Settling\<close>

lemma run_same_status [simp]: "run_same r (set_status s t r)" "run_same r ((set_status s t r)\<lparr>rn_Output := u\<rparr>)"
  by (simp_all add: run_same_def run_evolves_def set_status_def)

lemma settles_unknown: "settles a (settle ''unknown'' x a)"
  by (simp add: settles_def evolves_def settle_def status_rank_def)

lemma settles_finished: "am_Status a = ''pending'' \<or> am_Status a = ''dispatched'' \<Longrightarrow> settles a (settle ''finished'' x a)"
  by (auto simp: settles_def evolves_def settle_def)

lemma quiet_status: "update_runs P (set_status s t) db = Inr db' \<Longrightarrow> quiet db db'"
  by (erule quiet_update_runs) simp

lemma quiet_finish_attempts:
  "(\<And>b. P b \<Longrightarrow> am_Status b = ''pending'' \<or> am_Status b = ''dispatched'')
   \<Longrightarrow> quiet db (update_attempts P (settle ''finished'' x) db)"
  by (rule quiet_update_attempts) (simp add: settles_finished)

lemma quiet_FinishRun: "FinishRun run status reason db = Inr db' \<Longrightarrow> quiet db db'"
  by (simp add: FinishRun_def quiet_status)

lemma quiet_close_run: "close_run run status reason output db = Inr db' \<Longrightarrow> quiet db db'"
  by (auto simp: close_run_def Let_def split: if_splits intro: quiet_update_runs)

lemma quiet_message: "insertMessage run m db = Inr db' \<Longrightarrow> quiet db db'"
  by (intro quiet_elsewhere elsewhere_insertMessage)

lemma quiet_FinishRunOutput: "FinishRunOutput run status reason output db = Inr db' \<Longrightarrow> quiet db db'"
  unfolding FinishRunOutput_def Let_def
  by (auto split: if_split_asm option.split_asm sum.split_asm simp del: first_err.simps
      intro: quiet_close_run quiet_trans[OF quiet_message])

lemma quiet_record_output:
  assumes "record_output E guard run a bytes final db = Inr (e, db')" "lawful guard" "0 \<le> bytes"
  shows "quiet db db'"
proof (cases guard)
  case None
  then show ?thesis using assms(1) by (simp add: record_output_def quiet_refl)
next
  case (Some g)
  then have g: "lawful_guard g" using assms(2) by (simp add: lawful_def)
  obtain x db1 where rec: "g_Record g db a bytes final = (x, db1)" by fastforce
  have q: "quiet db db1" by (rule quiet_record[OF g rec assms(3)])
  have "db' = db1 \<or> (\<exists>s. update_runs (\<lambda>r. rn_ID r = run) (set_status ''limited'' s) db1 = Inr db')"
    using assms(1) Some rec by (auto simp: record_output_def split: option.splits if_splits sum.splits)
  then show ?thesis using q quiet_trans[OF q] quiet_status by blast
qed

lemma good_insert_calls: "insert_calls E run newID n cs db = Inr db' \<Longrightarrow> good db db'"
proof (induction cs arbitrary: n db)
  case (Cons c cs)
  let ?a = "\<lparr>am_ID = newID n, am_RunID = run, am_Kind = ''tool'', am_CallID = tc_ID c, am_Status = ''pending'',
             am_RequestJSON = le_call_json E c, am_ResponseJSON = []\<rparr>"
  obtain db1 where db1: "insert_attempt ?a db = Inr db1" "insert_calls E run newID (Suc n) cs db1 = Inr db'"
    using Cons.prems by (auto split: sum.splits)
  have "good db db1" by (rule good_insert_pending[OF db1(1)]) simp_all
  then show ?case using Cons.IH[OF db1(2)] good_trans by blast
qed (simp add: good_refl)

lemma good_adopt_response: "adopt_response E newID run response db = Inr db' \<Longrightarrow> good db db'"
proof -
  assume "adopt_response E newID run response db = Inr db'"
  then obtain m db1 db2 where db1: "insertMessage run m db = Inr db1"
    and db2: "insert_calls E (rn_ID run) newID 0 (ms_ToolCalls response) db1 = Inr db2"
    and "db' = db2 \<or> update_runs (\<lambda>r. rn_ID r = rn_ID run) (\<lambda>r. (set_status ''completed'' [] r)\<lparr>rn_Output := ms_Content response\<rparr>) db2 = Inr db'"
    by (auto simp: adopt_response_def split: sum.splits if_splits)
  then have "quiet db2 db'" by (auto intro: quiet_refl quiet_update_runs)
  then show ?thesis
    using good_trans[OF good_trans[OF good_quiet[OF quiet_message[OF db1]] good_insert_calls[OF db2]] good_quiet] by blast
qed

lemma good_saveGuardedModel:
  assumes "saveGuardedModel E guard newID run a response outputBytes db = Inr (e, db')" "lawful guard"
  shows "good db db'"
proof -
  let ?P = "\<lambda>b. am_ID b = am_ID a \<and> am_Status b = ''dispatched''"
  let ?db1 = "update_attempts ?P (settle ''finished'' (le_response_json E response)) db"
  have q1: "quiet db ?db1" by (rule quiet_finish_attempts) simp
  obtain db2 where db2: "adopt_response E newID run response ?db1 = Inr db2 \<or> db2 = ?db1"
    and out: "record_output E guard (rn_ID run) a (max outputBytes (int (length (le_response_json E response)))) True db2 = Inr (e, db')"
    using assms(1) unfolding saveGuardedModel_def Let_def
    by (auto split: option.split_asm sum.split_asm if_split_asm)
  have "good ?db1 db2" using db2 good_adopt_response good_refl by blast
  moreover have "quiet db2 db'" by (rule quiet_record_output[OF out assms(2)]) simp
  ultimately show ?thesis using good_trans good_quiet q1 by blast
qed

lemma quiet_failModel:
  assumes "failModel E guard run a response failure outputBytes db = Inr (e, db')" "lawful guard"
  shows "quiet db db'"
proof -
  let ?raw = "le_response_json E (response\<lparr>ms_ToolCalls := [], ms_Failure := Some failure\<rparr>)"
  let ?db1 = "update_attempts (\<lambda>b. am_ID b = am_ID a \<and> am_Status b = ''dispatched'') (settle ''finished'' ?raw) db"
  have q1: "quiet db ?db1" by (rule quiet_finish_attempts) simp
  obtain db2 where db2: "update_runs (\<lambda>r. rn_ID r = rn_ID run) (set_status ''failed'' (le_callError E failure)) ?db1 = Inr db2"
    and out: "db' = db2 \<or> (\<exists>g x. guard = Some g \<and> g_Record g db2 a (max outputBytes (int (length ?raw))) False = (x, db'))"
    using assms(1) unfolding failModel_def Let_def
    by (auto split: option.split_asm sum.split_asm if_split_asm prod.split_asm)
  have "quiet db2 db'"
    using out assms(2) by (auto simp: lawful_def intro: quiet_refl quiet_record)
  then show ?thesis using quiet_trans[OF quiet_trans[OF q1 quiet_status[OF db2]]] by blast
qed

lemma quiet_saveToolTxMode:
  assumes "saveToolTxMode E guard run a c result outputBytes definitive addMessage db = Inr (e, db')" "lawful guard"
  shows "quiet db db'"
proof -
  let ?P = "\<lambda>b. am_ID b = am_ID a \<and> am_RunID b = rn_ID run \<and> am_Kind b = ''tool'' \<and> am_CallID b = tc_ID c
                \<and> am_Status b \<in> {''pending'', ''dispatched''}"
  obtain raw db1 m where db1: "db1 = update_attempts ?P (settle ''finished'' raw) db
      \<or> insertMessage run m (update_attempts ?P (settle ''finished'' raw) db) = Inr db1"
    and out: "record_output E guard (rn_ID run) a (max outputBytes (int (length raw))) definitive db1 = Inr (e, db')"
    using assms(1) unfolding saveToolTxMode_def Let_def
    by (auto split: option.split_asm sum.split_asm if_split_asm)
  have "quiet db (update_attempts ?P (settle ''finished'' raw) db)" by (rule quiet_finish_attempts) auto
  then have "quiet db db1" using db1 quiet_message quiet_trans by blast
  moreover have "quiet db1 db'" by (rule quiet_record_output[OF out assms(2)]) simp
  ultimately show ?thesis by (rule quiet_trans)
qed

lemma quiet_finishWorkflow:
  assumes "finishWorkflow E guard run a result status reason output outputBytes db = Inr db'" "lawful guard"
  shows "quiet db db'"
proof -
  let ?P = "\<lambda>b. am_ID b = am_ID a \<and> am_RunID b = rn_ID run \<and> am_Kind b = ''workflow'' \<and> am_Status b = ''dispatched''"
  let ?db1 = "update_attempts ?P (settle ''finished'' (le_result_json E result)) db"
  have q1: "quiet db ?db1" by (rule quiet_finish_attempts) simp
  let ?bytes = "max outputBytes (int (length (le_result_json E result)))"
  obtain s u db2 where db2: "record_workflow E guard a ?bytes status reason ?db1 = Inr ((s, u), db2)"
    and rest: "(case (if output \<noteq> [] then insertMessage run (message ''assistant'' output) db2 else Inr db2) of
                  Inl e \<Rightarrow> Inl e | Inr db3 \<Rightarrow> close_run (rn_ID run) s u output db3) = Inr db'"
    using assms(1) unfolding finishWorkflow_def Let_def
    by (auto split: option.split_asm sum.split_asm if_split_asm simp del: first_err.simps)
  obtain db3 where db3: "db3 = db2 \<or> insertMessage run (message ''assistant'' output) db2 = Inr db3"
    and close: "close_run (rn_ID run) s u output db3 = Inr db'"
    using rest by (auto split: sum.split_asm if_split_asm)
  have "db2 = ?db1 \<or> (\<exists>g x. guard = Some g \<and> g_Record g ?db1 a ?bytes (status = ''completed'') = (x, db2))"
    using db2 by (auto simp: record_workflow_def split: option.split_asm prod.split_asm if_split_asm)
  then have "quiet ?db1 db2" using assms(2) by (auto simp: lawful_def intro: quiet_refl quiet_record)
  moreover have "quiet db2 db3" using db3 quiet_message quiet_refl by blast
  ultimately show ?thesis using q1 quiet_close_run[OF close] quiet_trans by blast
qed

lemma quiet_finishWorkflowUnknown: "finishWorkflowUnknown E run a reason saved db = Inr db' \<Longrightarrow> quiet db db'"
  unfolding finishWorkflowUnknown_def Let_def
  by (auto split: option.split_asm sum.split_asm if_split_asm
      intro: quiet_trans[OF quiet_update_attempts quiet_status] settles_unknown)

lemma quiet_markUnknown:
  assumes "markUnknown a reason saved db = Inr db'"
  shows "quiet db db'"
proof -
  obtain P f Q where "update_runs Q (set_status ''unknown'' reason) (update_attempts P (\<lambda>b. settle ''unknown'' (f b) b) db) = Inr db'"
    using assms unfolding markUnknown_def by (auto split: option.split_asm)
  moreover have "quiet db (update_attempts P (\<lambda>b. settle ''unknown'' (f b) b) db)"
    by (rule quiet_update_attempts) (rule settles_unknown)
  ultimately show ?thesis using quiet_trans quiet_status by blast
qed

lemma quiet_settleControlProposal:
  assumes "settleControlProposal E run a result completed reason terminal db = Inr db'"
  shows "quiet db db'"
proof -
  let ?P = "\<lambda>b. am_ID b = am_ID a \<and> am_Status b = ''pending''"
  obtain m db1 P s u where db1: "insertMessage run m (update_attempts ?P (settle ''finished'' (le_result_json E result)) db) = Inr db1"
    and db': "update_runs P (set_status s u) db1 = Inr db'"
    using assms unfolding settleControlProposal_def Let_def
    by (auto split: option.split_asm sum.split_asm if_split_asm)
  have "quiet db (update_attempts ?P (settle ''finished'' (le_result_json E result)) db)"
    by (rule quiet_finish_attempts) simp
  then show ?thesis using quiet_trans[OF quiet_trans[OF _ quiet_message[OF db1]] quiet_status[OF db']] by blast
qed

lemma quiet_abandon_calls:
  assumes "abandon_calls E run as db = Inr db'" "distinct (map am_ID as)"
    and "\<forall>a \<in> set as. am_Status a = ''pending'' \<longrightarrow> (\<forall>b \<in> set (db_attempts db). am_ID b = am_ID a \<longrightarrow> am_Status b = ''pending'')"
  shows "quiet db db'"
  using assms
proof (induction as arbitrary: db)
  case (Cons a as)
  show ?case
  proof (cases "am_Kind a \<noteq> ''tool'' \<or> (am_Status a \<noteq> ''pending'' \<and> am_Status a \<noteq> ''unknown'')")
    case True
    then have "abandon_calls E run as db = Inr db'" using Cons.prems(1) by simp
    moreover have "distinct (map am_ID as)" using Cons.prems(2) by simp
    moreover have "\<forall>c \<in> set as. am_Status c = ''pending'' \<longrightarrow> (\<forall>b \<in> set (db_attempts db). am_ID b = am_ID c \<longrightarrow> am_Status b = ''pending'')"
      using Cons.prems(3) by (meson list.set_intros(2))
    ultimately show ?thesis by (rule Cons.IH)
  next
    case False
    let ?x = "le_result_json E (failed_result (abandoned_text (am_Status a)))"
    let ?P = "\<lambda>b. am_ID b = am_ID a"
    obtain m db1 where db1: "insertMessage run m (if am_Status a = ''pending'' then update_attempts ?P (settle ''finished'' ?x) db else db) = Inr db1"
      and rest: "abandon_calls E run as db1 = Inr db'"
    proof -
      have cond: "(am_Kind a \<noteq> ''tool'' \<or> (am_Status a \<noteq> ''pending'' \<and> am_Status a \<noteq> ''unknown'')) = False" using False by simp
      obtain c where "le_call E (am_RequestJSON a) = Some c"
        using Cons.prems(1) unfolding abandon_calls.simps cond if_False by (cases "le_call E (am_RequestJSON a)") simp_all
      then show thesis
        using Cons.prems(1) that unfolding abandon_calls.simps cond if_False Let_def
        by (cases "insertMessage run ((message ''tool'' (tl_Content (failed_result (abandoned_text (am_Status a)))))\<lparr>mm_ToolCallID := tc_ID c\<rparr>)
              (if am_Status a = ''pending'' then update_attempts ?P (settle ''finished'' ?x) db else db)") (simp_all del: abandon_calls.simps)
    qed
    let ?d = "if am_Status a = ''pending'' then update_attempts ?P (settle ''finished'' ?x) db else db"
    have q: "quiet db ?d"
    proof (cases "am_Status a = ''pending''")
      case True
      then have "\<forall>b \<in> set (db_attempts db). ?P b \<longrightarrow> am_Status b = ''pending''"
        using Cons.prems(3) by (meson list.set_intros(1))
      then have "upd ?P (settle ''finished'' ?x) (db_attempts db)
          = upd (\<lambda>b. ?P b \<and> am_Status b = ''pending'') (settle ''finished'' ?x) (db_attempts db)"
        by (auto simp: upd_def)
      then have "?d = update_attempts (\<lambda>b. ?P b \<and> am_Status b = ''pending'') (settle ''finished'' ?x) db"
        using True by (simp add: update_attempts_def)
      then show ?thesis by (simp only:) (rule quiet_finish_attempts, simp)
    qed (simp add: quiet_refl)
    have same: "db_attempts db1 = db_attempts ?d" using elsewhere_insertMessage[OF db1] by (simp add: elsewhere_def)
    have "\<forall>c \<in> set as. am_Status c = ''pending'' \<longrightarrow> (\<forall>b \<in> set (db_attempts db1). am_ID b = am_ID c \<longrightarrow> am_Status b = ''pending'')"
    proof (intro ballI impI)
      fix c b assume c: "c \<in> set as" "am_Status c = ''pending''" and b: "b \<in> set (db_attempts db1)" "am_ID b = am_ID c"
      have "am_ID c \<noteq> am_ID a" using Cons.prems(2) c(1) by (auto dest: away_from)
      then have "b \<in> set (db_attempts db)"
        using b by (auto simp: same update_attempts_def set_upd settle_def split: if_splits)
      then show "am_Status b = ''pending''" using Cons.prems(3) c b(2) by (meson list.set_intros(2))
    qed
    moreover have "distinct (map am_ID as)" using Cons.prems(2) by simp
    ultimately have "quiet db1 db'" using Cons.IH[OF rest] by blast
    then show ?thesis using quiet_trans[OF quiet_trans[OF q quiet_message[OF db1]]] by blast
  qed
qed (simp add: quiet_refl)

lemma good_abandonRun:
  assumes "abandonRun E runID db = Inr db'"
  shows "good db db'"
proof -
  let ?closing = "\<lambda>d. update_runs (\<lambda>r. rn_ID r = runID) (set_status ''abandoned'' abandoned_reason) d"
  consider "db' = db" | run db1 where "abandon_calls E run (run_attempts db runID) db = Inr db1" "?closing db1 = Inr db'"
  proof (cases "get_run db runID")
    case None
    then show thesis using assms by (simp add: abandonRun_def)
  next
    case (Some run)
    note d = assms[unfolded abandonRun_def Some option.case]
    consider "db' = db" | "(case abandon_calls E run (run_attempts db runID) db of Inl e \<Rightarrow> Inl e | Inr d \<Rightarrow> ?closing d) = Inr db'"
    proof (cases "rn_Status run = ''abandoned''")
      case True
      then show thesis using d that(1) by (cases "rn_Status run = ''completed''") simp_all
    next
      case False
      have "rn_Status run \<noteq> ''completed''" using d by (cases "rn_Status run = ''completed''") simp_all
      note d2 = d[unfolded if_not_P[OF this] if_not_P[OF False]]
      have "\<not> list_ex (\<lambda>a. am_Status a = ''dispatched'') (run_attempts db runID)"
        using d2 by (cases "list_ex (\<lambda>a. am_Status a = ''dispatched'') (run_attempts db runID)") simp_all
      note d3 = d2[unfolded if_not_P[OF this]]
      have "lockExecutionTx db runID = None" using d3 by (cases "lockExecutionTx db runID") simp_all
      then show thesis using d3 that(2) by simp
    qed
    then show thesis
    proof cases
      case 1
      then show thesis by (rule that(1))
    next
      case 2
      then show thesis using that(2) by (cases "abandon_calls E run (run_attempts db runID) db") simp_all
    qed
  qed
  then show ?thesis
  proof cases
    case 2
    have "quiet db db'" if inv: "ledger_inv db"
    proof -
      have d: "distinct (map am_ID (db_attempts db))" using inv by (simp add: ledger_inv_def)
      have "\<forall>a \<in> set (run_attempts db runID). am_Status a = ''pending'' \<longrightarrow> (\<forall>b \<in> set (db_attempts db). am_ID b = am_ID a \<longrightarrow> am_Status b = ''pending'')"
      proof (intro ballI impI)
        fix x b assume x: "x \<in> set (run_attempts db runID)" "am_Status x = ''pending''" and b: "b \<in> set (db_attempts db)" "am_ID b = am_ID x"
        have "b = x" using d x(1) b by (auto simp: run_attempts_def distinct_map dest: inj_onD)
        then show "am_Status b = ''pending''" using x(2) by simp
      qed
      from quiet_abandon_calls[OF 2(1) _ this] show ?thesis
        using d quiet_trans quiet_status[OF 2(2)] by (auto simp: run_attempts_def distinct_map_filter)
    qed
    then show ?thesis using good_quiet by (auto simp: good_def)
  qed (simp add: good_refl)
qed

lemma quiet_saveGuardedTool:
  "saveGuardedTool E guard addMessage run a c result n definitive db = Inr (e, db') \<Longrightarrow> lawful guard \<Longrightarrow> quiet db db'"
  by (auto simp: saveGuardedTool_def split: option.split_asm intro: quiet_saveToolTxMode)

text \<open>
  A local tool either answers a saved result, or runs its callback once and finishes the attempt
  in the same transaction; a failing callback leaves its tables as they were.
\<close>

lemma executeLocalToolMode_cases:
  assumes "executeLocalToolMode E guard execute run a c maxResult addMessage (x, db) = Inr ((r, e), x', db')"
  obtains b where "b \<in> set (db_attempts db)" "am_ID b = am_ID a" "am_RunID b = rn_ID run" "am_Status b = ''finished''"
      "le_result E (am_ResponseJSON b) = Some r" "x' = x" "db' = db"
  | b v where "b \<in> set (db_attempts db)" "am_ID b = am_ID a" "am_RunID b = rn_ID run" "am_Status b = ''dispatched''"
      "execute x = Inr (v, x') \<or> (\<exists>y. execute x = Inl y) \<and> x' = x"
      "saveToolTxMode E guard run a c r (int (length (le_result_json E r))) True addMessage db = Inr (e, db')"
      "int (length (tl_Content r)) \<le> maxResult" "tl_Outcome r \<noteq> None"
proof -
  let ?P = "\<lambda>b. am_ID b = am_ID a \<and> am_RunID b = rn_ID run \<and> am_Kind b = ''tool'' \<and> am_CallID b = tc_ID c"
  let ?run = "case execute x of Inl e \<Rightarrow> (failed_result (''local data operation error: '' @ le_safeError E e), x) | Inr (r, x') \<Rightarrow> (r, x')"
  note d = assms[unfolded executeLocalToolMode_def prod.case]
  have lock: "lockExecutionTx db (rn_ID run) = None" using d by (cases "lockExecutionTx db (rn_ID run)") simp_all
  obtain b where b: "find ?P (db_attempts db) = Some b" using d lock by (cases "find ?P (db_attempts db)") simp_all
  note facts = find_SomeD[OF b]
  have req: "am_RequestJSON b = le_call_json E c"
    using d lock b by (cases "am_RequestJSON b = le_call_json E c") simp_all
  show thesis
  proof (cases "am_Status b = ''finished''")
    case True
    have "le_result E (am_ResponseJSON b) = Some r \<and> x' = x \<and> db' = db"
      using d lock b req True by (cases "le_result E (am_ResponseJSON b)") simp_all
    then show thesis using that(1)[of b] facts True by blast
  next
    case False
    have st: "am_Status b = ''dispatched''"
      using d lock b req False by (cases "am_Status b = ''dispatched''") simp_all
    obtain v y where v: "?run = (v, y)" by fastforce
    let ?r = "normalizeToolOutcome v None maxResult"
    note d2 = d[unfolded lock b option.case, simplified req st, simplified, unfolded v prod.case Let_def]
    have small: "int (length (tl_Content ?r)) \<le> maxResult"
      using d2 by (cases "int (length (tl_Content ?r)) \<le> maxResult") simp_all
    have saved: "saveToolTxMode E guard run a c ?r (int (length (le_result_json E ?r))) True addMessage db = Inr (e, db')"
      and r: "r = ?r" and x': "x' = y"
      using d2 small
      by (cases "saveToolTxMode E guard run a c ?r (int (length (le_result_json E ?r))) True addMessage db"; fastforce)+
    have "execute x = Inr (v, x') \<or> (\<exists>y. execute x = Inl y) \<and> x' = x"
      using v x' by (cases "execute x") auto
    moreover have "tl_Outcome r \<noteq> None" by (simp add: r normalizeToolOutcome_def Let_def)
    ultimately show thesis using that(2)[of b v] facts st saved r small by blast
  qed
qed

lemma quiet_executeLocalToolMode:
  assumes "executeLocalToolMode E guard execute run a c maxResult addMessage (x, db) = Inr ((r, e), x', db')" "lawful guard"
  shows "quiet db db'"
  using assms(1) by (rule executeLocalToolMode_cases) (auto intro: quiet_refl quiet_saveToolTxMode[OF _ assms(2)])

lemma good_startTool:
  assumes "startTool E newID run c db = Inr (a, db')"
  shows "good db db'"
proof -
  have "insert_attempt a db = Inr db'" "am_Kind a = ''tool''" "am_Status a = ''pending''"
    using assms unfolding startTool_def Let_def by (auto split: if_split_asm option.split_asm sum.split_asm)
  then show ?thesis by (rule good_insert_pending)
qed

lemma quiet_reserveModelRetry:
  assumes "reserveModelRetry E run r limit db = Inr db'"
  shows "quiet db db'"
proof -
  let ?db = "db\<lparr>db_retry := AList.update (mr_Root r) r (db_retry db)\<rparr>"
  obtain P where "update_runs P (set_status ''running'' []) ?db = Inr db'"
    using assms unfolding reserveModelRetry_def Let_def by (auto split: if_split_asm option.split_asm)
  moreover have "quiet db ?db" by (rule quiet_elsewhere) (simp add: elsewhere_def)
  ultimately show ?thesis using quiet_trans quiet_status by blast
qed

lemma elsewhere_trigger_message: "trigger_message input maintenance run deferred db = Inr db' \<Longrightarrow> elsewhere db db'"
  unfolding trigger_message_def Let_def
  by (auto simp: elsewhere_def split: option.split_asm if_split_asm sum.split_asm
      dest!: elsewhere_moveInputMessage elsewhere_insertMessage)

lemma good_direct_call:
  assumes "direct_call E run attemptID call db = Inr db'"
  shows "good db db'"
proof (cases call)
  case None
  then show ?thesis using assms by (simp add: direct_call_def good_refl)
next
  case (Some c)
  then obtain ks m db1 where "insertMessage run m (db\<lparr>db_direct := ks\<rparr>) = Inr db1"
    and ins: "insert_attempt \<lparr>am_ID = attemptID, am_RunID = rn_ID run, am_Kind = ''tool'', am_CallID = tc_ID c,
                      am_Status = ''pending'', am_RequestJSON = le_call_json E c, am_ResponseJSON = []\<rparr> db1 = Inr db'"
    using assms by (auto simp: direct_call_def split: sum.split_asm)
  then have "elsewhere db db1" by (auto simp: elsewhere_def dest!: elsewhere_insertMessage)
  moreover have "good db1 db'" by (rule good_insert_pending[OF ins]) simp_all
  ultimately show ?thesis using good_trans good_elsewhere by blast
qed

lemma write_run_cases:
  assumes "write_run E input maintenance call attemptID deferred run db = Inr db'"
  obtains db1 db2 db3 where "insert_run run db = Inr db1" "trigger_message input maintenance run deferred db1 = Inr db2"
    "direct_call E run attemptID call db2 = Inr db3" "link_successor (ri_ContinuationOf input) (rn_ID run) db3 = Inr db'"
  using assms that unfolding write_run_def by (auto split: sum.split_asm option.split_asm)

lemma good_write_run:
  assumes "write_run E input maintenance call attemptID deferred run db = Inr db'" "rn_Steps run = 0"
  shows "good db db'"
  using assms(1)
proof (rule write_run_cases)
  fix db1 db2 db3
  assume "insert_run run db = Inr db1" "trigger_message input maintenance run deferred db1 = Inr db2"
    "direct_call E run attemptID call db2 = Inr db3" and link: "link_successor (ri_ContinuationOf input) (rn_ID run) db3 = Inr db'"
  then have "good db db1" "good db1 db2" "good db2 db3"
    using good_insert_run assms(2) good_elsewhere elsewhere_trigger_message good_direct_call by blast+
  moreover have "elsewhere db3 db'"
    using link by (auto simp: link_successor_def elsewhere_def split: if_splits sum.splits)
  ultimately show ?thesis using good_trans good_elsewhere by blast
qed

lemma createRunWithTool_cases:
  assumes "createRunWithTool E allowed runID attemptID chat key prompt config maintenance call db = Inr ((run, created), db')"
  obtains "\<not> created" "db' = db" "run \<in> set (db_runs db)"
  | input deferred config' where "created" "run = new_run runID chat key prompt config'"
      "write_run E input maintenance call attemptID deferred run db = Inr db'"
      "find (\<lambda>r. rn_ConversationID r = chat \<and> rn_RequestKey r = key) (db_runs db) = None"
      "fresh_run_allowed E allowed chat db = None" "le_config E config = Some input"
      "queued_input db chat (ri_InputRequestID input) key = Inr deferred" "frozen_config E db chat config deferred = Inr config'"
      "key \<noteq> []" "prompt \<noteq> []"
proof -
  let ?old = "find (\<lambda>r. rn_ConversationID r = chat \<and> rn_RequestKey r = key) (db_runs db)"
  obtain input where input: "le_config E config = Some input"
    using assms by (cases "le_config E config") (simp_all add: createRunWithTool_def)
  note d = assms[unfolded createRunWithTool_def input option.case]
  have key: "\<not> (key = [] \<or> prompt = [])" using d by (cases "key = [] \<or> prompt = []") simp_all
  note d2 = d[unfolded if_not_P[OF key]]
  have conv: "get_conversation db chat \<noteq> None" using d2 by (cases "get_conversation db chat = None") simp_all
  note d3 = d2[unfolded if_not_P[OF conv]]
  show thesis
  proof (cases ?old)
    case (Some old)
    then have "old \<in> set (db_runs db)" using find_SomeD by fast
    then show thesis using d3 Some that(1) by (auto split: if_split_asm)
  next
    case None
    note d4 = d3[unfolded None option.case]
    obtain nextID where succ: "(if ri_ContinuationOf input = [] then Inr [] else successorTx E (ri_ContinuationOf input) chat db) = Inr nextID"
      using d4 by (cases "if ri_ContinuationOf input = [] then Inr [] else successorTx E (ri_ContinuationOf input) chat db") simp_all
    note d5 = d4[unfolded succ sum.case]
    show thesis
    proof (cases "nextID = []")
      case False
      then show thesis using d5 that(1) by (auto split: option.split_asm dest: get_runD)
    next
      case True
      have fresh: "fresh_run_allowed E allowed chat db = None" using d5 True by (cases "fresh_run_allowed E allowed chat db") simp_all
      obtain deferred where def: "queued_input db chat (ri_InputRequestID input) key = Inr deferred"
        using d5 True fresh by (cases "queued_input db chat (ri_InputRequestID input) key") simp_all
      obtain config' where fz: "frozen_config E db chat config deferred = Inr config'"
        using d5 True fresh def by (cases "frozen_config E db chat config deferred") simp_all
      have "created \<and> run = new_run runID chat key prompt config'
          \<and> write_run E input maintenance call attemptID deferred (new_run runID chat key prompt config') db = Inr db'"
        using d5 True fresh def fz
        by (cases "write_run E input maintenance call attemptID deferred (new_run runID chat key prompt config') db") auto
      then show thesis using that(2) None fresh input def fz key by blast
    qed
  qed
qed

lemma good_createRunWithTool:
  assumes "createRunWithTool E allowed runID attemptID chat key prompt config maintenance call db = Inr ((run, created), db')"
  shows "good db db'"
  using assms by (rule createRunWithTool_cases) (auto intro: good_refl good_write_run simp: new_run_def)

subsection \<open>Queue, limits, verification, clock and restart\<close>

lemma quiet_supersede: "supersede E run as db = Inr db' \<Longrightarrow> quiet db db'"
proof (induction as arbitrary: db)
  case (Cons a as)
  show ?case
  proof (cases "am_Kind a \<noteq> ''tool'' \<or> am_Status a \<noteq> ''pending''")
    case True
    then show ?thesis using Cons by simp
  next
    case False
    let ?d = "update_attempts (\<lambda>b. am_ID b = am_ID a \<and> am_Status b = ''pending'') (settle ''finished'' (le_result_json E superseded)) db"
    obtain m db1 where db1: "insertMessage run m ?d = Inr db1" "supersede E run as db1 = Inr db'"
      using Cons.prems False by (auto split: option.split_asm sum.split_asm)
    have "quiet db ?d" by (rule quiet_finish_attempts) simp
    then show ?thesis using quiet_trans quiet_message[OF db1(1)] Cons.IH[OF db1(2)] by blast
  qed
qed (simp add: quiet_refl)

lemma elsewhere_move_all: "move_all is run db = Inr db' \<Longrightarrow> elsewhere db db'"
proof (induction "is" arbitrary: db)
  case (Cons i "is")
  then obtain db1 where "moveInputMessage i run db = Inr db1" "move_all is run db1 = Inr db'"
    by (auto split: sum.split_asm)
  then show ?case using Cons.IH elsewhere_moveInputMessage elsewhere_trans by blast
qed (simp add: elsewhere_refl)

lemma adoptSteering_cases:
  assumes "adoptSteeringForRetry E run retryModel db = Inr (b, db')"
  obtains "\<not> b" "db' = db"
  | db1 db2 where "b" "supersede E run (run_attempts db (rn_ID run)) db = Inr db1"
      "move_all (steering_inputs db (rn_ConversationID run) (rn_ID run)) (rn_ID run) db1 = Inr db2"
      "update_runs (\<lambda>r. rn_ID r = rn_ID run) (set_status ''running'' []) db2 = Inr db'"
      "\<forall>a \<in> set (db_attempts db). am_RunID a = rn_ID run \<and> am_Status a \<in> {''unknown'', ''dispatched''}
         \<longrightarrow> am_Kind a = ''model'' \<and> am_ID a = retryModel \<or> resolvedAttempt db a"
proof -
  let ?open = "list_ex (\<lambda>a. am_RunID a = rn_ID run \<and> am_Status a \<in> {''unknown'', ''dispatched''}
                       \<and> \<not> ((am_Kind a = ''model'' \<and> am_ID a = retryModel) \<or> resolvedAttempt db a)) (db_attempts db)"
  let ?in = "steering_inputs db (rn_ConversationID run) (rn_ID run)"
  have closed: "\<not> ?open" using assms by (cases ?open) (simp_all add: adoptSteeringForRetry_def)
  note d = assms[unfolded adoptSteeringForRetry_def if_not_P[OF closed] Let_def]
  show thesis
  proof (cases "?in = []")
    case True
    then show thesis using d that(1) by simp
  next
    case False
    note d2 = d[unfolded if_not_P[OF False]]
    obtain db1 where db1: "supersede E run (run_attempts db (rn_ID run)) db = Inr db1"
      using d2 by (cases "supersede E run (run_attempts db (rn_ID run)) db") simp_all
    obtain db2 where db2: "move_all ?in (rn_ID run) db1 = Inr db2"
      using d2 db1 by (cases "move_all ?in (rn_ID run) db1") simp_all
    have "b \<and> update_runs (\<lambda>r. rn_ID r = rn_ID run) (set_status ''running'' []) db2 = Inr db'"
      using d2 db1 db2 by (cases "update_runs (\<lambda>r. rn_ID r = rn_ID run) (set_status ''running'' []) db2") simp_all
    moreover have "\<forall>a \<in> set (db_attempts db). am_RunID a = rn_ID run \<and> am_Status a \<in> {''unknown'', ''dispatched''}
         \<longrightarrow> am_Kind a = ''model'' \<and> am_ID a = retryModel \<or> resolvedAttempt db a"
      using closed unfolding list_ex_iff by blast
    ultimately show thesis using that(2)[OF _ db1 db2] by blast
  qed
qed

lemma quiet_adoptSteering: "adoptSteeringForRetry E run retryModel db = Inr (b, db') \<Longrightarrow> quiet db db'"
  by (erule adoptSteering_cases)
     (auto intro: quiet_refl quiet_trans[OF quiet_trans[OF quiet_supersede quiet_elsewhere[OF elsewhere_move_all]] quiet_status])

lemma quiet_settleLimited:
  assumes "settleLimited E run db = Inr (b, db')"
  shows "quiet db db'"
proof -
  have "db' = db \<or> (\<exists>P t. update_runs P (\<lambda>r. r\<lparr>rn_StopReason := t\<rparr>) db = Inr db')"
    using assms unfolding settleLimited_def Let_def by (simp split: if_split_asm option.split_asm sum.split_asm) blast+
  then show ?thesis
    using quiet_refl quiet_update_runs[where f = "\<lambda>r. r\<lparr>rn_StopReason := _\<rparr>"]
    by (auto simp: run_same_def run_evolves_def)
qed

lemma quiet_reserveToolVerification:
  assumes "reserveToolVerification run original fingerprint db = Inr (n, db')"
  shows "quiet db db'"
proof -
  obtain P s m where "update_runs P (set_status ''running'' s) (db\<lparr>db_rounds := m\<rparr>) = Inr db'"
    using assms unfolding reserveToolVerification_def
    by (auto split: prod.split_asm if_split_asm sum.split_asm)
  moreover have "quiet db (db\<lparr>db_rounds := m\<rparr>)" by (rule quiet_elsewhere) (simp add: elsewhere_def)
  ultimately show ?thesis using quiet_trans quiet_status by blast
qed

lemma resolveVerifiedFile_cases:
  assumes "resolveVerifiedFile E F run original c evidence db = Inr db'"
  obtains r m where "map_option tl_Receipts (le_result E (am_ResponseJSON original)) = Some [r]"
    "rt_Kind r = ''file''" "rt_Status r = ''applied''" "evidence_matched E F r run (am_ID original) db evidence = Inr True"
    "map_of (db_verified db) (am_ID original) = None" "\<not> pendingSteer db (rn_ID run)"
    "insertMessage run m (db\<lparr>db_verified := db_verified db @ [(am_ID original, rn_ID run, ''happened'')]\<rparr>) = Inr db'"
  using assms that unfolding resolveVerifiedFile_def insert_meta_def
  by (simp split: if_split_asm option.split_asm sum.split_asm list.split_asm)

lemma quiet_resolveVerifiedFile: "resolveVerifiedFile E F run original c evidence db = Inr db' \<Longrightarrow> quiet db db'"
  by (erule resolveVerifiedFile_cases, drule elsewhere_insertMessage) (simp add: quiet_elsewhere elsewhere_def)

lemma quiet_clock_resume: "clock_resume run limit now db = Inr db' \<Longrightarrow> quiet db db'"
  by (auto simp: clock_resume_def split: option.split_asm if_split_asm intro!: quiet_update_runs)
     (simp_all add: run_same_def run_evolves_def)

lemma quiet_clock_pause: "clock_pause run since ms db = Inr db' \<Longrightarrow> quiet db db'"
  by (auto simp: clock_pause_def quiet_refl split: if_split_asm intro!: quiet_update_runs)
     (simp_all add: run_same_def run_evolves_def)

lemma quiet_add_elapsed: "add_elapsed E rs db = Inr db' \<Longrightarrow> quiet db db'"
proof (induction rs arbitrary: db)
  case (Cons r rs)
  then obtain ms db1 where db1: "update_runs (\<lambda>x. rn_ID x = rn_ID r)
        (\<lambda>x. x\<lparr>rn_ElapsedMS := rn_ElapsedMS x + max 0 ms, rn_ActiveSince := []\<rparr>) db = Inr db1" "add_elapsed E rs db1 = Inr db'"
    by (auto split: option.split_asm sum.split_asm)
  have "quiet db db1" by (rule quiet_update_runs[OF db1(1)]) (simp add: run_same_def run_evolves_def)
  then show ?case using Cons.IH[OF db1(2)] quiet_trans by blast
qed (simp add: quiet_refl)

lemma quiet_interrupt: "quiet db (interrupt_attempts db)"
  unfolding interrupt_attempts_def by (rule quiet_update_attempts) (rule settles_unknown)

lemma recover_cases:
  assumes "recover E G db = Inr db'"
  obtains db1 db3 db4 where "add_elapsed E (filter (\<lambda>r. rn_ActiveSince r \<noteq> []) (db_runs db)) db = Inr db1"
    "update_runs (\<lambda>r. rn_Status r \<notin> {''abandoned'', ''unknown''} \<and> unresolved_run (interrupt_attempts db1) r)
       (set_status ''unknown'' ''unresolved call after restart'') (interrupt_attempts db1) = Inr db3"
    "update_runs (\<lambda>r. rn_Status r = ''running'') (set_status ''stopped'' ''process interrupted; continue explicitly'') db3 = Inr db4"
    "recoverCollaborationLeases G db4 = Inr db'"
  using assms that unfolding recover_def Let_def by (simp split: sum.split_asm)

lemma quiet_overlay:
  "overlay_ok db' \<and> reserved_ids db' = reserved_ids db \<and> (\<exists>m. db' = db\<lparr>db_collaboration := m\<rparr>) \<Longrightarrow> quiet db db'"
  by (auto simp: quiet_def list_all2_refl run_same_refl settles_refl)

lemma good_overlay:
  "(overlay_ok db \<Longrightarrow> overlay_ok db' \<and> reserved_ids db' = reserved_ids db \<and> (\<exists>m. db' = db\<lparr>db_collaboration := m\<rparr>)) \<Longrightarrow> good db db'"
  unfolding good_def using quiet_overlay[of db' db] quiet_history[of db db'] inv_quiet[of db db'] by (auto simp: ledger_inv_def)

lemma good_recover: "recover E G db = Inr db' \<Longrightarrow> good db db'"
proof (erule recover_cases)
  fix db1 db3 db4
  assume "add_elapsed E (filter (\<lambda>r. rn_ActiveSince r \<noteq> []) (db_runs db)) db = Inr db1"
    "update_runs (\<lambda>r. rn_Status r \<notin> {''abandoned'', ''unknown''} \<and> unresolved_run (interrupt_attempts db1) r)
       (set_status ''unknown'' ''unresolved call after restart'') (interrupt_attempts db1) = Inr db3"
    "update_runs (\<lambda>r. rn_Status r = ''running'') (set_status ''stopped'' ''process interrupted; continue explicitly'') db3 = Inr db4"
    and leases: "recoverCollaborationLeases G db4 = Inr db'"
  then have "quiet db db1" "quiet (interrupt_attempts db1) db3" "quiet db3 db4"
    using quiet_add_elapsed quiet_status by blast+
  then have "quiet db db4" using quiet_interrupt quiet_trans by blast
  moreover have "good db4 db'" by (rule good_overlay) (rule recoverCollaborationLeases_overlay[OF leases])
  ultimately show "good db db'" using good_quiet good_trans by blast
qed

lemma elsewhere_acceptInput:
  assumes "acceptInput E V chat cmd db = Inr (i, db')"
  shows "elsewhere db db'"
proof -
  have msg: "elsewhere db db1" if "input_message V chat cmd a j db = Inr (j', db1)" for a j j' db1
    using that unfolding input_message_def Let_def
    by (auto split: option.split_asm sum.split_asm if_split_asm dest!: elsewhere_insert_row simp: elsewhere_def)
  have "db' = db \<or> (\<exists>a j j' db1. input_message V chat cmd a j db = Inr (j', db1) \<and> db' = saveInput j' db1)"
    using assms unfolding acceptInput_def
    by (simp split: option.split_asm sum.split_asm if_split_asm prod.split_asm) blast+
  then show ?thesis using msg elsewhere_refl elsewhere_trans elsewhere_saveInput by blast
qed

lemma elsewhere_CancelInput: "CancelInput V who chat key db = Inr (i, db') \<Longrightarrow> elsewhere db db'"
  by (auto simp: CancelInput_def Let_def elsewhere_refl elsewhere_saveInput split: option.split_asm sum.split_asm if_split_asm)

lemma elsewhere_SteerInput: "SteerInput V who chat key runID db = Inr (i, db') \<Longrightarrow> elsewhere db db'"
  by (auto simp: SteerInput_def Let_def elsewhere_refl elsewhere_saveInput split: option.split_asm sum.split_asm if_split_asm)

lemma elsewhere_PauseQueue: "PauseQueue V chat paused db = Inr db' \<Longrightarrow> elsewhere db db'"
  by (auto simp: PauseQueue_def elsewhere_def split: option.split_asm)

lemma good_recordOutput:
  assumes "recordOutput guard db a bytes final = (e, db')" "lawful guard" "0 \<le> bytes"
  shows "good db db'"
proof (cases guard)
  case None
  then show ?thesis using assms(1) by (simp add: recordOutput_def good_refl)
next
  case (Some g)
  then obtain x where "g_Record g db a bytes final = (x, db')"
    using assms(1) by (auto simp: recordOutput_def split: prod.split_asm option.split_asm)
  then show ?thesis using quiet_record assms(2,3) Some by (auto simp: lawful_def intro: good_quiet)
qed

end
