(* ===== verification/Ledger_System.thy ===== *)
theory Ledger_System
  imports Ledger_Safety
begin

text \<open>
  The ledger as a system: one rule per committed transaction of the ledger, the input queue, the
  clock and the collaboration leases, in any order and from any caller. The invariant holds in
  every reachable store and the history relation between any two stores of an execution; the
  properties below are read off them.
\<close>

section \<open>Transactions\<close>

text \<open>
  A call runs without a guard or, in a collaboration, with the guard of its parent and child.
\<close>

definition guard_of :: "guard_env \<Rightarrow> (string \<times> string) option \<Rightarrow> callGuard option" where
  "guard_of G who = map_option (\<lambda>(p, c). collaborationGuard G p c) who"

lemma lawful_guard_of [simp]: "lawful (guard_of G who)"
  by (cases who) (auto simp: guard_of_def)

inductive ledger_step :: "ledger_env \<Rightarrow> guard_env \<Rightarrow> input_env \<Rightarrow> verify_env \<Rightarrow> store \<Rightarrow> store \<Rightarrow> bool"
  for E G V F where
  create: "createRunWithTool E allowed runID attemptID chat key prompt config maintenance call db = Inr (out, db')
    \<Longrightarrow> ledger_step E G V F db db'"
| finish: "FinishRun run status reason db = Inr db' \<Longrightarrow> ledger_step E G V F db db'"
| finish_output: "FinishRunOutput r status reason output db = Inr db' \<Longrightarrow> ledger_step E G V F db db'"
| retry_model: "reserveModelRetry E r rec limit db = Inr db' \<Longrightarrow> ledger_step E G V F db db'"
| start_model: "startGuardedModel E (guard_of G who) newID r request maxSteps db = Inr (a, db') \<Longrightarrow> ledger_step E G V F db db'"
| save_model: "saveGuardedModel E (guard_of G who) ids r a response n db = Inr (e, db') \<Longrightarrow> ledger_step E G V F db db'"
| fail_model: "failModel E (guard_of G who) r a response failure n db = Inr (e, db') \<Longrightarrow> ledger_step E G V F db db'"
| start_workflow: "startWorkflow E (guard_of G who) newID newCall r ext flow input maxSteps db = Inr (a, db')
    \<Longrightarrow> ledger_step E G V F db db'"
| finish_workflow: "finishWorkflow E (guard_of G who) r a result status reason output n db = Inr db' \<Longrightarrow> ledger_step E G V F db db'"
| workflow_unknown: "finishWorkflowUnknown E r a reason saved db = Inr db' \<Longrightarrow> ledger_step E G V F db db'"
| start_tool: "startTool E newID r c db = Inr (a, db') \<Longrightarrow> ledger_step E G V F db db'"
| dispatch_tool: "dispatchGuardedTool (guard_of G who) a maxSteps db = Inr db' \<Longrightarrow> known db a \<Longrightarrow> ledger_step E G V F db db'"
| save_tool: "saveGuardedTool E (guard_of G who) addMessage r a c result n definitive db = Inr (e, db') \<Longrightarrow> ledger_step E G V F db db'"
| local_tool: "executeLocalToolMode E (guard_of G who) (execute :: unit \<Rightarrow> (ToolResult \<times> unit) res) r a c n addMessage (x, db)
      = Inr ((result, e), y, db') \<Longrightarrow> ledger_step E G V F db db'"
| mark_unknown: "markUnknown a reason saved db = Inr db' \<Longrightarrow> ledger_step E G V F db db'"
| settle_proposal: "settleControlProposal E r a result completed reason terminal db = Inr db' \<Longrightarrow> ledger_step E G V F db db'"
| abandon: "abandonRun E run db = Inr db' \<Longrightarrow> ledger_step E G V F db db'"
| restart: "recover E G db = Inr db' \<Longrightarrow> ledger_step E G V F db db'"
| record_out: "recordOutput (guard_of G who) db a n final = (e, db') \<Longrightarrow> 0 \<le> n \<Longrightarrow> ledger_step E G V F db db'"
| activate_children: "activate G parent names limit db = (e, db') \<Longrightarrow> ledger_step E G V F db db'"
| deactivate_child: "deactivate G parent name db = (e, db') \<Longrightarrow> ledger_step E G V F db db'"
| accept_input: "acceptInput E V chat cmd db = Inr (i, db') \<Longrightarrow> ledger_step E G V F db db'"
| cancel_input: "CancelInput V person chat key db = Inr (i, db') \<Longrightarrow> ledger_step E G V F db db'"
| steer_input: "SteerInput V person chat key run db = Inr (i, db') \<Longrightarrow> ledger_step E G V F db db'"
| pause_queue: "PauseQueue V chat paused db = Inr db' \<Longrightarrow> ledger_step E G V F db db'"
| adopt_steering: "adoptSteeringForRetry E r retryModel db = Inr (b, db') \<Longrightarrow> ledger_step E G V F db db'"
| settle_limited: "settleLimited E r db = Inr (b, db') \<Longrightarrow> ledger_step E G V F db db'"
| reserve_verification: "reserveToolVerification r a fingerprint db = Inr (rounds, db') \<Longrightarrow> ledger_step E G V F db db'"
| resolve_verified: "resolveVerifiedFile E F r a c evidence db = Inr db' \<Longrightarrow> ledger_step E G V F db db'"
| clock_start: "clock_resume run limit now db = Inr db' \<Longrightarrow> ledger_step E G V F db db'"
| clock_stop: "clock_pause run since ms db = Inr db' \<Longrightarrow> ledger_step E G V F db db'"

lemmas quiet_ops =
  quiet_FinishRun quiet_FinishRunOutput quiet_reserveModelRetry quiet_failModel[OF _ lawful_guard_of]
  quiet_finishWorkflow[OF _ lawful_guard_of] quiet_finishWorkflowUnknown quiet_saveGuardedTool[OF _ lawful_guard_of]
  quiet_executeLocalToolMode[OF _ lawful_guard_of] quiet_markUnknown quiet_settleControlProposal quiet_adoptSteering
  quiet_settleLimited quiet_reserveToolVerification quiet_resolveVerifiedFile quiet_clock_resume quiet_clock_pause

lemmas elsewhere_ops = elsewhere_acceptInput elsewhere_CancelInput elsewhere_SteerInput elsewhere_PauseQueue

lemmas good_ops =
  good_saveGuardedModel[OF _ lawful_guard_of] good_startGuardedModel[OF _ lawful_guard_of]
  good_startWorkflow[OF _ lawful_guard_of] good_startTool good_dispatchGuardedTool[OF _ lawful_guard_of] good_abandonRun
  good_recover good_recordOutput[OF _ lawful_guard_of]

lemma step_good: "ledger_step E G V F db db' \<Longrightarrow> good db db'"
proof (induction rule: ledger_step.induct)
  case (create allowed runID attemptID chat key prompt config maintenance call db out db')
  then show ?case by (cases out) (auto intro: good_createRunWithTool)
next
  case (activate_children parent names limit db e db')
  then show ?case by (intro good_overlay) (rule activate_overlay)
next
  case (deactivate_child parent name db e db')
  then show ?case by (intro good_overlay) (rule deactivate_overlay)
qed (blast intro: good_ops good_quiet quiet_ops good_elsewhere elsewhere_ops)+

section \<open>Reachable stores\<close>

text \<open>
  A fresh ledger: conversations and collaboration plans may exist, but no run, no attempt and no
  reservation.
\<close>

definition ledger_start :: "store \<Rightarrow> bool" where
  "ledger_start db \<longleftrightarrow> db_runs db = [] \<and> db_attempts db = [] \<and> db_times db = [] \<and> overlay_ok db \<and> reserved_ids db = {}"

lemma start_inv: "ledger_start db \<Longrightarrow> ledger_inv db"
  by (simp add: ledger_start_def ledger_inv_def run_table_ok_def)

interpretation ledger: invariant_system ledger_start "ledger_step E G V F" ledger_inv for E G V F
  by unfold_locales (use start_inv step_good in \<open>auto simp: good_def\<close>)

lemma steps_history:
  assumes "(ledger_step E G V F)\<^sup>*\<^sup>* db db'" "ledger_inv db"
  shows "history db db'"
  using assms
proof (induction rule: rtranclp_induct)
  case (step y z)
  then have "ledger_inv y" using ledger.steps_inv by blast
  then show ?case using step step_good history_trans by (auto simp: good_def)
qed (rule history_refl)

lemma steps_attempt:
  assumes "(ledger_step E G V F)\<^sup>*\<^sup>* db db'" "ledger_inv db" "a \<in> set (db_attempts db)"
  obtains b where "b \<in> set (db_attempts db')" "evolves a b"
  using steps_history[OF assms(1,2)] attempt_rows.grows_set assms(3) unfolding history_def by blast

section \<open>A sample execution\<close>

text \<open>
  A conversation, a run, a tool call that is dispatched and a restart, with decoders that answer
  fixed values.
\<close>

definition sample_call :: ToolCall where
  "sample_call = \<lparr>tc_ID = ''call'', tc_Name = ''file_create'', tc_Arguments = ''{}''\<rparr>"

definition sample_input :: run_input where
  "sample_input = \<lparr>ri_InputAttachments = [], ri_InputRequestID = [], ri_ContinuationOf = [], ri_Channel = None, ri_Auto = None\<rparr>"

definition sample_answer :: ToolResult where
  "sample_answer = normalizeToolOutcome (failed_result ''x'') None 100"

definition sample_ledger_env :: ledger_env where
  "sample_ledger_env =
     \<lparr>le_config = (\<lambda>_. Some sample_input), le_freeze = (\<lambda>s _. Some s), le_request = (\<lambda>_. None),
      le_call = (\<lambda>_. Some sample_call), le_result = (\<lambda>_. Some sample_answer), le_call_json = (\<lambda>_. ''{}''),
      le_result_json = (\<lambda>_. ''result''), le_response_json = (\<lambda>_. ''response''), le_workflow_json = (\<lambda>_ _ _. ''flow''),
      le_safeError = (\<lambda>_. ''error''), le_callError = (\<lambda>_. ''error''), le_bind = (\<lambda>_ _ _ _. None),
      le_memory = (\<lambda>_ _ _. None), le_commands = (\<lambda>_ _. None), le_since = (\<lambda>_. Some 5), le_hash = (\<lambda>s. s)\<rparr>"

definition sample_input_env :: input_env where
  "sample_input_env =
     \<lparr>ie_workspace = ''w'', ie_maxContext = 1000,
      ie_authorize = (\<lambda>_ _ _. Inr \<lparr>ia_Principal = ''local'', ia_Person = [], ia_Channel = None, ia_InputMessageID = 0,
                                     ia_Remote = None, ia_Attachments = [], ia_Binding = []\<rparr>),
      ie_person = (\<lambda>_. None), ie_target = (\<lambda>_. None), ie_remote = (\<lambda>_. None), ie_command = (\<lambda>_. None),
      ie_validate = (\<lambda>_ _ _. None)\<rparr>"

definition sample_verify_env :: verify_env where
  "sample_verify_env = \<lparr>vf_path = (\<lambda>_. None), vf_read = (\<lambda>_. None)\<rparr>"

definition fresh_store :: store where
  "fresh_store = empty_store\<lparr>db_conversations := [\<lparr>cv_ID = ''c'', cv_Workspace = ''w'', cv_SpaceID = [], cv_LastMessage = 0\<rparr>]\<rparr>"

definition sample_new_run :: Run where
  "sample_new_run = new_run ''r'' ''c'' ''k'' ''go'' ''{}''"

definition created_store :: store where
  "created_store =
     (case createRunWithTool sample_ledger_env [] ''r'' ''a'' ''c'' ''k'' ''go'' ''{}'' False None fresh_store of
        Inl _ \<Rightarrow> fresh_store | Inr (_, db) \<Rightarrow> db)"

definition sample_tool :: Attempt where
  "sample_tool = \<lparr>am_ID = ''t'', am_RunID = ''r'', am_Kind = ''tool'', am_CallID = ''call'', am_Status = ''pending'',
     am_RequestJSON = ''{}'', am_ResponseJSON = []\<rparr>"

definition started_store :: store where
  "started_store =
     (case startTool sample_ledger_env ''t'' sample_new_run sample_call created_store of Inl _ \<Rightarrow> fresh_store | Inr (_, db) \<Rightarrow> db)"

definition dispatched_store :: store where
  "dispatched_store =
     started_store\<lparr>db_runs := [sample_new_run\<lparr>rn_Steps := 1\<rparr>],
                   db_attempts := [sample_tool\<lparr>am_Status := ''dispatched''\<rparr>], db_times := [''t'']\<rparr>"

lemmas sample_ledger_defs = sample_call_def sample_input_def sample_ledger_env_def sample_new_run_def new_run_def
  sample_tool_def dispatched_store_def fresh_store_def empty_store_def

lemma sample_created:
  "createRunWithTool sample_ledger_env [] ''r'' ''a'' ''c'' ''k'' ''go'' ''{}'' False None fresh_store = Inr ((sample_new_run, True), created_store)"
  by code_simp

lemma sample_started: "startTool sample_ledger_env ''t'' sample_new_run sample_call created_store = Inr (sample_tool, started_store)"
  by code_simp

lemma started_rows:
  "db_runs started_store = [sample_new_run]" "db_attempts started_store = [sample_tool]" "db_times started_store = []"
  "db_conversations started_store = [\<lparr>cv_ID = ''c'', cv_Workspace = ''w'', cv_SpaceID = [], cv_LastMessage = 1\<rparr>]"
  "db_controlled started_store = []" "db_inputs started_store = []" "db_collaboration started_store = []"
  "db_replaced started_store = []" "db_verified started_store = []"
  by code_simp+

lemma sample_dispatched: "dispatchGuardedTool None sample_tool 0 started_store = Inr dispatched_store"
proof -
  have "incrementStep ''r'' 0 started_store = Inr (started_store\<lparr>db_runs := [sample_new_run\<lparr>rn_Steps := 1\<rparr>]\<rparr>)"
    by (simp add: incrementStep_def Let_def RowsAffected_def update_runs_def put_runs_def run_table_ok_def run_statuses_def
        active_run_def started_rows sample_new_run_def new_run_def)
  then show ?thesis
    by (simp add: dispatchGuardedTool_def controlledParent_def lockExecutionTx_def get_run_def get_conversation_def pendingSteer_def
        reserve_def RowsAffected_def update_attempts_def mark_time_def insert_key_def started_rows sample_ledger_defs)
qed

abbreviation sample_step :: "store \<Rightarrow> store \<Rightarrow> bool" where
  "sample_step \<equiv> ledger_step sample_ledger_env sample_guard_env sample_input_env sample_verify_env"

lemma fresh_start: "ledger_start fresh_store"
  by (simp add: ledger_start_def overlay_ok_def reserved_ids_def fresh_store_def empty_store_def)

lemma sample_reaches_started: "sample_step\<^sup>*\<^sup>* fresh_store started_store"
  using ledger_step.create[OF sample_created] ledger_step.start_tool[OF sample_started] by (meson rtranclp.rtrancl_refl rtranclp.rtrancl_into_rtrancl)

lemma sample_known: "known started_store sample_tool"
  by (simp add: known_def started_rows evolves_def)

lemma sample_dispatch_step: "sample_step started_store dispatched_store"
  by (rule ledger_step.dispatch_tool[where who = None and maxSteps = 0, OF _ sample_known]) (simp add: guard_of_def sample_dispatched)

lemma sample_reaches_dispatched: "sample_step\<^sup>*\<^sup>* fresh_store dispatched_store"
  using sample_reaches_started sample_dispatch_step by (rule rtranclp.rtrancl_into_rtrancl)

section \<open>The invariant, read off\<close>

lemma distinct_map_eq: "distinct (map k xs) \<Longrightarrow> x \<in> set xs \<Longrightarrow> y \<in> set xs \<Longrightarrow> k x = k y \<Longrightarrow> x = y"
  by (induction xs) (auto simp: image_iff)

lemma inv_active_unique:
  assumes "ledger_inv db" "r \<in> set (db_runs db)" "s \<in> set (db_runs db)" "active_run r" "active_run s"
    "rn_ConversationID r = rn_ConversationID s"
  shows "r = s"
  using assms distinct_map_eq[of rn_ConversationID "filter active_run (db_runs db)" r s]
  by (simp add: ledger_inv_def run_table_ok_def)

lemma inv_attempt_unique:
  "ledger_inv db \<Longrightarrow> a \<in> set (db_attempts db) \<Longrightarrow> b \<in> set (db_attempts db) \<Longrightarrow> am_ID a = am_ID b \<Longrightarrow> a = b"
  using distinct_map_eq[of am_ID "db_attempts db" a b] by (simp add: ledger_inv_def)

text \<open>
  C1: in every reachable store of the ledger, whatever transactions ran in whatever order, a
  conversation has at most one active run; the step counter of a run equals the number of its
  calls that carry a dispatch marker (or are workflows); a tool call that is still pending has no
  marker while a dispatched one has; and a collaboration holds output reservations only for calls
  that were dispatched.
\<close>

theorem ledger_reachable:
  assumes "ledger_start db0" "(ledger_step E G V F)\<^sup>*\<^sup>* db0 db"
  shows "(\<forall>r \<in> set (db_runs db). \<forall>s \<in> set (db_runs db). active_run r \<and> active_run s
            \<and> rn_ConversationID r = rn_ConversationID s \<longrightarrow> r = s)
       \<and> (\<forall>r \<in> set (db_runs db). rn_Steps r = int (length (filter (\<lambda>a. am_RunID a = rn_ID r
            \<and> (am_Kind a = ''workflow'' \<or> am_ID a \<in> set (db_times db))) (db_attempts db))))
       \<and> (\<forall>a \<in> set (db_attempts db). am_Kind a = ''tool'' \<longrightarrow>
            (am_Status a = ''pending'' \<longrightarrow> am_ID a \<notin> set (db_times db))
            \<and> (am_Status a = ''dispatched'' \<longrightarrow> am_ID a \<in> set (db_times db)))
       \<and> (\<forall>p r i. map_of (db_collaboration db) p = Some r \<and> map_of (co_Reservations r) i \<noteq> None
            \<longrightarrow> (\<exists>a \<in> set (db_attempts db). am_ID a = i \<and> am_Status a \<noteq> ''pending''))"
proof -
  have inv: "ledger_inv db" using ledger.reachable_inv assms by blast
  have res: "\<exists>a \<in> set (db_attempts db). am_ID a = i \<and> am_Status a \<noteq> ''pending''"
    if "map_of (db_collaboration db) p = Some r" "map_of (co_Reservations r) i \<noteq> None" for p r i
  proof -
    have "(p, r) \<in> set (db_collaboration db)" "i \<in> fst ` set (co_Reservations r)"
      using that by (auto simp: map_of_eq_None_iff dest!: map_of_SomeD intro: rev_image_eqI)
    then have "i \<in> reserved_ids db" unfolding reserved_ids_def by fastforce
    then have time: "i \<in> set (db_times db)" using inv by (auto simp: ledger_inv_def)
    then obtain a where a: "a \<in> set (db_attempts db)" "am_ID a = i" using inv by (auto simp: ledger_inv_def)
    then have "attempt_wf db a" using inv by (simp add: ledger_inv_def)
    then show ?thesis using a time by (auto simp: attempt_wf_def)
  qed
  have steps: "\<forall>r \<in> set (db_runs db). rn_Steps r = int (charges db (rn_ID r))"
    and wf: "\<forall>a \<in> set (db_attempts db). attempt_wf db a" using inv by (simp_all add: ledger_inv_def)
  show ?thesis
    using inv_active_unique[OF inv] steps res wf
    by (intro conjI) (blast, simp add: charges_def charged_def, simp add: attempt_wf_def, blast)
qed

theorem ledger_reachable_witness:
  "rn_Steps (hd (db_runs dispatched_store)) = 1 \<and> db_times dispatched_store = [''t'']
   \<and> length (filter (\<lambda>a. am_RunID a = ''r'' \<and> (am_Kind a = ''workflow'' \<or> am_ID a \<in> set (db_times dispatched_store)))
       (db_attempts dispatched_store)) = 1"
proof -
  have "db_runs dispatched_store = [sample_new_run\<lparr>rn_Steps := 1\<rparr>]" "db_times dispatched_store = [''t'']"
    by (simp_all add: dispatched_store_def)
  then show ?thesis
    using ledger_reachable[OF fresh_start sample_reaches_dispatched] by (simp add: sample_new_run_def new_run_def)
qed










section \<open>Dispatch\<close>

lemma dispatch_marks:
  assumes dis: "dispatchGuardedTool guard a n db = Inr db'" and law: "lawful guard"
  shows "\<exists>b \<in> set (db_attempts db'). am_ID b = am_ID a \<and> am_Status b = ''dispatched''"
  using dis
proof (rule dispatch_cases)
  fix db1 db2
  let ?P = "\<lambda>b. am_ID b = am_ID a \<and> am_Status b = ''pending''" and ?f = "\<lambda>b. b\<lparr>am_Status := ''dispatched''\<rparr>"
  assume one: "RowsAffected ?P (db_attempts db2) = 1"
    and time: "mark_time (am_ID a) (update_attempts ?P ?f db2) = Inr db'"
  obtain b where b: "b \<in> set (db_attempts db2)" "?P b" using RowsAffected_1_ex[OF one] by blast
  then have "?f b \<in> set (db_attempts db')"
    using mark_time_Inr[OF time] by (auto simp: update_attempts_def set_upd)
  then show ?thesis by (rule rev_bexI) (simp add: b(2))
qed

lemma dispatch_needs_pending:
  assumes dis: "dispatchGuardedTool guard a n db = Inr db'" and law: "lawful guard"
  shows "\<exists>b \<in> set (db_attempts db). am_ID b = am_ID a \<and> am_Status b = ''pending''"
  using dis
proof (rule dispatch_cases)
  fix db1 db2
  assume res: "reserve guard a db = Inr db1" and inc: "incrementStep (am_RunID a) n db1 = Inr db2"
    and one: "RowsAffected (\<lambda>b. am_ID b = am_ID a \<and> am_Status b = ''pending'') (db_attempts db2) = 1"
  have "db_attempts db2 = db_attempts db"
    using reserve_cases(1)[OF res law] incrementStep_history[OF inc] by auto
  then show ?thesis using RowsAffected_1_ex[OF one] by simp
qed

text \<open>
  C2: a tool call is dispatched at most once. When dispatchGuardedTool let a call through, every
  later attempt to dispatch the same call fails, in every store any further transactions
  (including results, retries, steering and restarts) can lead to.
\<close>

theorem dispatched_at_most_once:
  assumes "ledger_start db0" "(ledger_step E G V F)\<^sup>*\<^sup>* db0 db" "known db a"
    and dis: "dispatchGuardedTool (guard_of G who) a n db = Inr db1"
    and later: "(ledger_step E G V F)\<^sup>*\<^sup>* db1 db2" and same: "am_ID b = am_ID a"
  shows "\<exists>e. dispatchGuardedTool (guard_of G other) b m db2 = Inl e"
proof (rule ccontr)
  assume "\<not> ?thesis"
  then obtain db3 where again: "dispatchGuardedTool (guard_of G other) b m db2 = Inr db3"
    by (meson sumE)
  have inv: "ledger_inv db1"
    using good_dispatchGuardedTool[OF dis _ assms(3)] ledger.reachable_inv[OF assms(1,2)] by (simp add: good_def)
  then have inv2: "ledger_inv db2" using ledger.steps_inv later by blast
  obtain c where c: "c \<in> set (db_attempts db1)" "am_ID c = am_ID a" "am_Status c = ''dispatched''"
    using dispatch_marks[OF dis] by auto
  obtain d where d: "d \<in> set (db_attempts db2)" "evolves c d" using steps_attempt[OF later inv c(1)] .
  obtain x where x: "x \<in> set (db_attempts db2)" "am_ID x = am_ID b" "am_Status x = ''pending''"
    using dispatch_needs_pending[OF again] by auto
  have "x = d" using inv_attempt_unique[OF inv2 x(1) d(1)] x(2) d(2) c(2) same by (simp add: evolves_def)
  then show False using d(2) c(3) x(3) by (simp add: evolves_def)
qed

theorem dispatched_at_most_once_witness:
  "\<exists>e. dispatchGuardedTool None sample_tool 5 dispatched_store = Inl e"
proof -
  have "dispatchGuardedTool (guard_of sample_guard_env None) sample_tool 0 started_store = Inr dispatched_store"
    by (simp add: guard_of_def sample_dispatched)
  from dispatched_at_most_once[OF fresh_start sample_reaches_started sample_known this rtranclp.rtrancl_refl refl, of None 5]
  show ?thesis by (simp add: guard_of_def)
qed

end
