(* ===== verification/Ledger_Recovery.thy ===== *)
theory Ledger_Recovery
  imports Ledger_System
begin

text \<open>
  What the ledger promises across restarts and repeated requests: recovery succeeds and leaves no
  call in flight, a request key creates one run, a local tool runs its callback once, and steering
  that is adopted leaves no tool call waiting.
\<close>

section \<open>Recovery succeeds\<close>

lemma distinct_filter_map:
  "distinct (map k (filter A xs)) \<Longrightarrow> (\<And>x. x \<in> set xs \<Longrightarrow> A (g x) \<Longrightarrow> A x) \<Longrightarrow> (\<And>x. x \<in> set xs \<Longrightarrow> k (g x) = k x)
   \<Longrightarrow> distinct (map k (filter A (map g xs)))"
  by (induction xs) (auto split: if_splits)

lemma update_runs_ok:
  assumes ok: "run_table_ok (db_runs db)"
    and f: "\<And>r. r \<in> set (db_runs db) \<Longrightarrow> P r \<Longrightarrow> rn_ID (f r) = rn_ID r \<and> rn_ConversationID (f r) = rn_ConversationID r
              \<and> rn_RequestKey (f r) = rn_RequestKey r \<and> rn_Status (f r) \<in> set run_statuses
              \<and> 0 \<le> rn_Steps (f r) \<and> 0 \<le> rn_ElapsedMS (f r) \<and> (active_run (f r) \<longrightarrow> active_run r)"
  shows "update_runs P f db = Inr (db\<lparr>db_runs := upd P f (db_runs db)\<rparr>)" "run_table_ok (upd P f (db_runs db))"
proof -
  have keys: "map rn_ID (upd P f (db_runs db)) = map rn_ID (db_runs db)"
    "map (\<lambda>r. (rn_ConversationID r, rn_RequestKey r)) (upd P f (db_runs db)) = map (\<lambda>r. (rn_ConversationID r, rn_RequestKey r)) (db_runs db)"
    using f by (simp_all add: upd_def)
  have "distinct (map rn_ConversationID (filter active_run (upd P f (db_runs db))))"
    unfolding upd_def by (rule distinct_filter_map) (use ok f in \<open>auto simp: run_table_ok_def split: if_splits\<close>)
  moreover have "list_all (\<lambda>r. rn_Status r \<in> set run_statuses \<and> 0 \<le> rn_Steps r \<and> 0 \<le> rn_ElapsedMS r) (upd P f (db_runs db))"
    using ok f by (auto simp: run_table_ok_def list_all_iff set_upd)
  ultimately show "run_table_ok (upd P f (db_runs db))" using ok by (simp add: run_table_ok_def keys)
  then show "update_runs P f db = Inr (db\<lparr>db_runs := upd P f (db_runs db)\<rparr>)" by (simp add: update_runs_def put_runs_def)
qed

lemma add_elapsed_succeeds:
  assumes "run_table_ok (db_runs db)" "\<forall>r \<in> set rs. le_since E (rn_ActiveSince r) \<noteq> None"
  shows "\<exists>xs. add_elapsed E rs db = Inr (db\<lparr>db_runs := xs\<rparr>) \<and> run_table_ok xs
     \<and> list_all2 (\<lambda>r s. rn_ID s = rn_ID r \<and> rn_Status s = rn_Status r \<and> active_run s = active_run r) (db_runs db) xs
     \<and> (\<forall>s \<in> set xs. rn_ActiveSince s = [] \<or> s \<in> set (db_runs db) \<and> rn_ID s \<notin> rn_ID ` set rs)"
  using assms
proof (induction rs arbitrary: db)
  case Nil
  then show ?case by (auto intro!: exI[of _ "db_runs db"] simp: list_all2_refl)
next
  case (Cons r rs)
  obtain ms where ms: "le_since E (rn_ActiveSince r) = Some ms" using Cons.prems(2) by auto
  let ?P = "\<lambda>x. rn_ID x = rn_ID r" and ?f = "\<lambda>x. x\<lparr>rn_ElapsedMS := rn_ElapsedMS x + max 0 ms, rn_ActiveSince := []\<rparr>"
  let ?db = "db\<lparr>db_runs := upd ?P ?f (db_runs db)\<rparr>"
  have act: "active_run (?f x) = active_run x" for x by (simp add: active_run_def)
  have ok: "update_runs ?P ?f db = Inr ?db" "run_table_ok (upd ?P ?f (db_runs db))"
    by (rule update_runs_ok[OF Cons.prems(1)]; use Cons.prems(1) in \<open>force simp: run_table_ok_def list_all_iff active_run_def\<close>)+
  then have okd: "run_table_ok (db_runs ?db)" and le: "\<forall>r \<in> set rs. le_since E (rn_ActiveSince r) \<noteq> None"
    using Cons.prems(2) by simp_all
  from Cons.IH[OF okd le] obtain xs where xs: "add_elapsed E rs ?db = Inr (?db\<lparr>db_runs := xs\<rparr>)" "run_table_ok xs"
    "list_all2 (\<lambda>r s. rn_ID s = rn_ID r \<and> rn_Status s = rn_Status r \<and> active_run s = active_run r) (upd ?P ?f (db_runs db)) xs"
    "\<forall>s \<in> set xs. rn_ActiveSince s = [] \<or> s \<in> set (upd ?P ?f (db_runs db)) \<and> rn_ID s \<notin> rn_ID ` set rs" by auto
  have "list_all2 (\<lambda>r s. rn_ID s = rn_ID r \<and> rn_Status s = rn_Status r \<and> active_run s = active_run r) (db_runs db) xs"
    using xs(3) unfolding upd_def list_all2_map1 by (rule list_all2_mono) (simp add: act split: if_splits)
  moreover have "rn_ActiveSince s = [] \<or> s \<in> set (db_runs db) \<and> rn_ID s \<notin> rn_ID ` set (r # rs)" if "s \<in> set xs" for s
  proof (cases "rn_ActiveSince s = []")
    case False
    then have "s \<in> set (upd ?P ?f (db_runs db))" and rs: "rn_ID s \<notin> rn_ID ` set rs" using xs(4) that by blast+
    then obtain x where "x \<in> set (db_runs db)" "s = (if ?P x then ?f x else x)" unfolding set_upd by blast
    then show ?thesis using False rs by (cases "?P x") simp_all
  qed simp
  ultimately show ?case using xs(1,2) ok(1) ms by (intro exI[of _ xs]) simp
qed

lemma save_all_succeeds:
  assumes "\<forall>r \<in> set rs. ge_size G r \<le> 2097152"
  shows "\<exists>m. save_all G rs db = Inr (db\<lparr>db_collaboration := m\<rparr>)
     \<and> (\<forall>p r. map_of m p = Some r \<longrightarrow> r \<in> set rs \<or> map_of (db_collaboration db) p = Some r \<and> p \<notin> co_ParentID ` set rs)"
  using assms
proof (induction rs arbitrary: db)
  case Nil
  then show ?case by (intro exI[of _ "db_collaboration db"]) simp
next
  case (Cons r rs)
  let ?db = "save_record r db"
  have save: "saveCollaboration G db r = Inr ?db" using Cons.prems by (simp add: saveCollaboration_def save_record_def)
  obtain m where m: "save_all G rs ?db = Inr (?db\<lparr>db_collaboration := m\<rparr>)"
    "\<forall>p s. map_of m p = Some s \<longrightarrow> s \<in> set rs \<or> map_of (db_collaboration ?db) p = Some s \<and> p \<notin> co_ParentID ` set rs"
    using Cons.IH[of ?db] Cons.prems by auto
  have "s \<in> set (r # rs) \<or> map_of (db_collaboration db) p = Some s \<and> p \<notin> co_ParentID ` set (r # rs)"
    if "map_of m p = Some s" for p s
    using m(2)[rule_format, OF that] by (cases "p = co_ParentID r") auto
  then show ?case using m(1) save by (intro exI[of _ m]) (simp add: save_record_def)
qed

text \<open>
  When a restart can be recovered: the time stamps of running clocks parse, the collaboration
  records are well formed and within their size, and a run with a call that is in flight or
  UNKNOWN is still active (or was abandoned).
\<close>

definition recoverable :: "ledger_env \<Rightarrow> guard_env \<Rightarrow> store \<Rightarrow> bool" where
  "recoverable E G db \<longleftrightarrow>
     (\<forall>r \<in> set (db_runs db). rn_ActiveSince r \<noteq> [] \<longrightarrow> le_since E (rn_ActiveSince r) \<noteq> None)
     \<and> (\<forall>(k, r) \<in> set (db_collaboration db). k = co_ParentID r \<and> ge_size G r \<le> 2097152 \<and> ge_size G (with_active [] r) \<le> 2097152)
     \<and> (\<forall>a \<in> set (db_attempts db). \<forall>r \<in> set (db_runs db).
          am_RunID a = rn_ID r \<and> am_Status a \<in> {''dispatched'', ''unknown''} \<and> \<not> resolvedAttempt db a
          \<longrightarrow> active_run r \<or> rn_Status r = ''abandoned'')"

lemma resolved_interrupt:
  "resolvedAttempt (interrupt_attempts db) (settle s x a) = resolvedAttempt db a"
  "resolvedAttempt (interrupt_attempts db) a = resolvedAttempt db a"
  "resolvedAttempt (db\<lparr>db_runs := rs\<rparr>) a = resolvedAttempt db a"
  "resolvedAttempt (db\<lparr>db_runs := rs, db_collaboration := m\<rparr>) a = resolvedAttempt db a"
proof -
  have ex: "list_ex (\<lambda>b. am_ID b = i \<and> am_RunID b = j \<and> am_Kind b = k) (upd P (\<lambda>a. settle u (f a) a) as)
      = list_ex (\<lambda>b. am_ID b = i \<and> am_RunID b = j \<and> am_Kind b = k) as" for i j k P u f as
    by (induction as) (simp_all add: settle_def)
  show "resolvedAttempt (interrupt_attempts db) (settle s x a) = resolvedAttempt db a"
    "resolvedAttempt (interrupt_attempts db) a = resolvedAttempt db a"
    by (simp_all add: resolvedAttempt_def interrupt_attempts_def update_attempts_def ex[unfolded settle_def] settle_def split: option.splits)
qed (simp_all add: resolvedAttempt_def split: option.splits)

lemma interrupt_row:
  assumes "b \<in> set (db_attempts (interrupt_attempts db))"
  obtains "b \<in> set (db_attempts db)" "am_Status b \<noteq> ''dispatched''"
  | a x where "a \<in> set (db_attempts db)" "am_Status a = ''dispatched''" "b = settle ''unknown'' x a"
  using assms by (auto simp: interrupt_attempts_def update_attempts_def set_upd split: if_splits)

lemma set_status_ok:
  "run_table_ok (db_runs db) \<Longrightarrow> s \<in> set run_statuses
   \<Longrightarrow> (\<And>r. r \<in> set (db_runs db) \<Longrightarrow> P r \<Longrightarrow> active_run (set_status s t r) \<Longrightarrow> active_run r)
   \<Longrightarrow> update_runs P (set_status s t) db = Inr (db\<lparr>db_runs := upd P (set_status s t) (db_runs db)\<rparr>)
       \<and> run_table_ok (upd P (set_status s t) (db_runs db))"
  using update_runs_ok[of db P "set_status s t"] by (force simp: set_status_def run_table_ok_def list_all_iff)

lemma recover_runs:
  assumes inv: "ledger_inv db" and rec: "recoverable E G db"
  shows "\<exists>xs db3 db4. add_elapsed E (filter (\<lambda>r. rn_ActiveSince r \<noteq> []) (db_runs db)) db = Inr (db\<lparr>db_runs := xs\<rparr>)
     \<and> update_runs (\<lambda>r. rn_Status r \<notin> {''abandoned'', ''unknown''} \<and> unresolved_run (interrupt_attempts (db\<lparr>db_runs := xs\<rparr>)) r)
         (set_status ''unknown'' ''unresolved call after restart'') (interrupt_attempts (db\<lparr>db_runs := xs\<rparr>)) = Inr db3
     \<and> update_runs (\<lambda>r. rn_Status r = ''running'') (set_status ''stopped'' ''process interrupted; continue explicitly'') db3 = Inr db4
     \<and> (\<exists>ys. db4 = (interrupt_attempts db)\<lparr>db_runs := ys\<rparr> \<and> run_table_ok ys
          \<and> (\<forall>s \<in> set ys. rn_ActiveSince s = [] \<and> rn_Status s \<noteq> ''running''
               \<and> (unresolved_run (interrupt_attempts db) s \<longrightarrow> rn_Status s \<in> {''abandoned'', ''unknown''})))"
proof -
  let ?live = "filter (\<lambda>r. rn_ActiveSince r \<noteq> []) (db_runs db)"
  have ok: "run_table_ok (db_runs db)" using inv by (simp add: ledger_inv_def)
  have "\<forall>r \<in> set ?live. le_since E (rn_ActiveSince r) \<noteq> None" using rec by (auto simp: recoverable_def)
  from add_elapsed_succeeds[OF ok this] obtain xs where xs: "add_elapsed E ?live db = Inr (db\<lparr>db_runs := xs\<rparr>)" "run_table_ok xs"
    "list_all2 (\<lambda>r s. rn_ID s = rn_ID r \<and> rn_Status s = rn_Status r \<and> active_run s = active_run r) (db_runs db) xs"
    "\<forall>s \<in> set xs. rn_ActiveSince s = [] \<or> s \<in> set (db_runs db) \<and> rn_ID s \<notin> rn_ID ` set ?live" by blast
  have stopped: "rn_ActiveSince s = []" if "s \<in> set xs" for s using xs(4) that by auto
  let ?db2 = "interrupt_attempts (db\<lparr>db_runs := xs\<rparr>)"
  have db2: "?db2 = (interrupt_attempts db)\<lparr>db_runs := xs\<rparr>" by (simp add: interrupt_attempts_def update_attempts_def)
  have unres: "unresolved_run ?db2 = unresolved_run (interrupt_attempts db)"
    unfolding db2 unresolved_run_def resolved_interrupt(3) by simp
  let ?P = "\<lambda>r. rn_Status r \<notin> {''abandoned'', ''unknown''} \<and> unresolved_run ?db2 r"
  let ?f = "set_status ''unknown'' ''unresolved call after restart''"
  let ?g = "set_status ''stopped'' ''process interrupted; continue explicitly''"
  have active: "active_run s" if s: "s \<in> set xs" and P: "?P s" for s
  proof -
    obtain i where i: "i < length xs" "xs ! i = s" using s by (auto simp: in_set_conv_nth)
    then have r: "db_runs db ! i \<in> set (db_runs db)" "rn_ID s = rn_ID (db_runs db ! i)" "rn_Status s = rn_Status (db_runs db ! i)"
      "active_run s = active_run (db_runs db ! i)"
      using xs(3) by (auto simp: list_all2_conv_all_nth)
    obtain b where b: "b \<in> set (db_attempts (interrupt_attempts db))" "am_RunID b = rn_ID s" "am_Status b = ''unknown''"
      "\<not> resolvedAttempt (interrupt_attempts db) b"
      using P unfolding unres by (auto simp: unresolved_run_def list_ex_iff)
    from interrupt_row[OF b(1)] have "\<exists>a \<in> set (db_attempts db). am_RunID a = rn_ID s
        \<and> am_Status a \<in> {''dispatched'', ''unknown''} \<and> \<not> resolvedAttempt db a"
    proof cases
      case 1
      then show ?thesis using b by (auto simp: resolved_interrupt)
    next
      case (2 a x)
      then have "am_RunID a = rn_ID s" "\<not> resolvedAttempt db a" using b by (simp_all add: resolved_interrupt(1)) (simp add: settle_def)
      then show ?thesis using 2 by auto
    qed
    then obtain a where a: "a \<in> set (db_attempts db)" "am_RunID a = rn_ID s" "am_Status a \<in> {''dispatched'', ''unknown''}"
      "\<not> resolvedAttempt db a" by blast
    then have "active_run (db_runs db ! i) \<or> rn_Status (db_runs db ! i) = ''abandoned''"
      using conjunct2[OF conjunct2[OF rec[unfolded recoverable_def]]] r(1,2) by simp
    then show ?thesis using P r by auto
  qed
  have up1: "update_runs ?P ?f ?db2 = Inr (?db2\<lparr>db_runs := upd ?P ?f xs\<rparr>) \<and> run_table_ok (upd ?P ?f xs)"
    using set_status_ok[of ?db2 "''unknown''" ?P] xs(2) active by (simp add: db2 run_statuses_def)
  let ?db3 = "?db2\<lparr>db_runs := upd ?P ?f xs\<rparr>"
  have up2: "update_runs (\<lambda>r. rn_Status r = ''running'') ?g ?db3
      = Inr (?db3\<lparr>db_runs := upd (\<lambda>r. rn_Status r = ''running'') ?g (upd ?P ?f xs)\<rparr>)
      \<and> run_table_ok (upd (\<lambda>r. rn_Status r = ''running'') ?g (upd ?P ?f xs))"
    using set_status_ok[of ?db3 "''stopped''" "\<lambda>r. rn_Status r = ''running''"] up1 by (simp add: run_statuses_def active_run_def)
  have un: "unresolved_run d (set_status s t r) = unresolved_run d r" for d s t r
    by (simp add: unresolved_run_def set_status_def)
  have "rn_ActiveSince s = [] \<and> rn_Status s \<noteq> ''running''
      \<and> (unresolved_run (interrupt_attempts db) s \<longrightarrow> rn_Status s \<in> {''abandoned'', ''unknown''})"
    if mem: "s \<in> set (upd (\<lambda>r. rn_Status r = ''running'') ?g (upd ?P ?f xs))" for s
  proof -
    obtain y where y: "y \<in> set (upd ?P ?f xs)" "s = (if rn_Status y = ''running'' then ?g y else y)" using set_upd[THEN iffD1, OF mem] by blast
    obtain x where x: "x \<in> set xs" "y = (if ?P x then ?f x else x)" using set_upd[THEN iffD1, OF y(1)] by blast
    have "rn_ActiveSince s = []" using stopped[OF x(1)] y(2) x(2) by (simp add: set_status_def)
    moreover have "rn_Status s \<noteq> ''running''" using y(2) by (simp add: set_status_def)
    moreover have "unresolved_run (interrupt_attempts db) s = unresolved_run (interrupt_attempts db) x" using y(2) x(2) by (simp add: un)
    moreover have "rn_Status s \<in> {''abandoned'', ''unknown''}" if "unresolved_run (interrupt_attempts db) x"
      using that y(2) x(2) unfolding unres by (cases "rn_Status x \<in> {''abandoned'', ''unknown''}") (auto simp: set_status_def)
    ultimately show ?thesis by blast
  qed
  then have all: "\<forall>s \<in> set (upd (\<lambda>r. rn_Status r = ''running'') ?g (upd ?P ?f xs)). rn_ActiveSince s = [] \<and> rn_Status s \<noteq> ''running''
      \<and> (unresolved_run (interrupt_attempts db) s \<longrightarrow> rn_Status s \<in> {''abandoned'', ''unknown''})" by blast
  have eq: "?db3\<lparr>db_runs := upd (\<lambda>r. rn_Status r = ''running'') ?g (upd ?P ?f xs)\<rparr>
      = (interrupt_attempts db)\<lparr>db_runs := upd (\<lambda>r. rn_Status r = ''running'') ?g (upd ?P ?f xs)\<rparr>" by (simp add: db2)
  show ?thesis
    by (intro exI conjI) (rule xs(1), rule conjunct1[OF up1], rule conjunct1[OF up2], rule eq, rule conjunct2[OF up2], rule all)
qed

text \<open>
  C6: restarting the process recovers the ledger. From every reachable store in which time stamps
  and collaboration records are well formed and no ended run hides an unresolved call, recover
  succeeds, and afterwards no call is in flight, no run is running, every run with an unresolved
  UNKNOWN call is UNKNOWN (or was abandoned), every clock is stopped, no child holds a lease, and
  no attempt was lost.
\<close>

theorem recover_complete:
  assumes "ledger_start db0" "(ledger_step E G V F)\<^sup>*\<^sup>* db0 db" "recoverable E G db"
  shows "\<exists>db'. recover E G db = Inr db'
     \<and> map am_ID (db_attempts db') = map am_ID (db_attempts db)
     \<and> (\<forall>a \<in> set (db_attempts db'). am_Status a \<noteq> ''dispatched'')
     \<and> (\<forall>r \<in> set (db_runs db'). rn_Status r \<noteq> ''running'' \<and> rn_ActiveSince r = []
          \<and> (unresolved_run db' r \<longrightarrow> rn_Status r \<in> {''abandoned'', ''unknown''}))
     \<and> (\<forall>p r. map_of (db_collaboration db') p = Some r \<longrightarrow> co_Active r = [] \<and> us_ActiveChildren (co_Usage r) = 0)"
proof -
  have inv: "ledger_inv db" using ledger.reachable_inv assms(1,2) by blast
  obtain xs db3 db4 ys where up: "add_elapsed E (filter (\<lambda>r. rn_ActiveSince r \<noteq> []) (db_runs db)) db = Inr (db\<lparr>db_runs := xs\<rparr>)"
    "update_runs (\<lambda>r. rn_Status r \<notin> {''abandoned'', ''unknown''} \<and> unresolved_run (interrupt_attempts (db\<lparr>db_runs := xs\<rparr>)) r)
         (set_status ''unknown'' ''unresolved call after restart'') (interrupt_attempts (db\<lparr>db_runs := xs\<rparr>)) = Inr db3"
    "update_runs (\<lambda>r. rn_Status r = ''running'') (set_status ''stopped'' ''process interrupted; continue explicitly'') db3 = Inr db4"
    and db4: "db4 = (interrupt_attempts db)\<lparr>db_runs := ys\<rparr>"
    and ys: "\<forall>s \<in> set ys. rn_ActiveSince s = [] \<and> rn_Status s \<noteq> ''running''
               \<and> (unresolved_run (interrupt_attempts db) s \<longrightarrow> rn_Status s \<in> {''abandoned'', ''unknown''})"
    using recover_runs[OF inv assms(3)] by blast
  have col: "db_collaboration db4 = db_collaboration db" by (simp add: db4 interrupt_attempts_def update_attempts_def)
  have small: "\<forall>(k, r) \<in> set (db_collaboration db4). k = co_ParentID r \<and> ge_size G r \<le> 2097152 \<and> ge_size G (with_active [] r) \<le> 2097152"
    using assms(3) by (simp add: col recoverable_def)
  let ?rs = "map (\<lambda>(_, r). with_active [] r) (db_collaboration db4)"
  have "\<forall>r \<in> set ?rs. ge_size G r \<le> 2097152" using small by auto
  from save_all_succeeds[OF this, of db4] obtain m where m: "save_all G ?rs db4 = Inr (db4\<lparr>db_collaboration := m\<rparr>)"
    "\<forall>p r. map_of m p = Some r \<longrightarrow> r \<in> set ?rs \<or> map_of (db_collaboration db4) p = Some r \<and> p \<notin> co_ParentID ` set ?rs" by blast
  have "recoverCollaborationLeases G db4 = Inr (db4\<lparr>db_collaboration := m\<rparr>)"
    using m(1) small by (auto simp: recoverCollaborationLeases_def list_ex_iff not_less)
  then have rec: "recover E G db = Inr (db4\<lparr>db_collaboration := m\<rparr>)" using up by (simp add: recover_def Let_def)
  have lease: "co_Active r = [] \<and> us_ActiveChildren (co_Usage r) = 0" if "map_of m p = Some r" for p r
  proof -
    have "r \<in> set ?rs"
    proof (rule ccontr)
      assume "r \<notin> set ?rs"
      then have "map_of (db_collaboration db4) p = Some r" "p \<notin> co_ParentID ` set ?rs" using m(2)[rule_format, OF that] by blast+
      moreover from this(1) have pr: "(p, r) \<in> set (db_collaboration db4)" by (rule map_of_SomeD)
      then have "with_active [] r \<in> set ?rs" "co_ParentID (with_active [] r) = p" using small by force+
      ultimately show False by blast
    qed
    then show ?thesis by (auto simp: with_active_def)
  qed
  have att: "db_attempts db4 = db_attempts (interrupt_attempts db)" by (simp add: db4)
  have "map am_ID (db_attempts db4) = map am_ID (db_attempts db)"
    unfolding att interrupt_attempts_def update_attempts_def by (simp add: map_upd settle_def)
  moreover have "am_Status a \<noteq> ''dispatched''" if "a \<in> set (db_attempts db4)" for a
    using that unfolding att by (rule interrupt_row) (auto simp: settle_def)
  moreover have "unresolved_run (db4\<lparr>db_collaboration := m\<rparr>) s = unresolved_run (interrupt_attempts db) s" for s
    by (simp add: unresolved_run_def db4 resolved_interrupt(4))
  ultimately show ?thesis using rec ys lease by (intro exI[of _ "db4\<lparr>db_collaboration := m\<rparr>"]) (simp add: db4)
qed

theorem recover_complete_witness:
  "\<exists>db'. recover sample_ledger_env sample_guard_env dispatched_store = Inr db'
     \<and> ''dispatched'' \<notin> am_Status ` set (db_attempts db') \<and> ''running'' \<notin> rn_Status ` set (db_runs db')"
proof -
  have "recoverable sample_ledger_env sample_guard_env dispatched_store"
    by (simp add: recoverable_def dispatched_store_def started_rows sample_new_run_def new_run_def active_run_def)
  from recover_complete[OF fresh_start sample_reaches_dispatched this]
  obtain db' where "recover sample_ledger_env sample_guard_env dispatched_store = Inr db'"
    "\<forall>a \<in> set (db_attempts db'). am_Status a \<noteq> ''dispatched''" "\<forall>r \<in> set (db_runs db'). rn_Status r \<noteq> ''running''"
    by blast
  then show ?thesis by (intro exI[of _ db'] conjI) force+
qed

end
