(* ===== verification/Ledger_Requests.thy ===== *)
theory Ledger_Requests
  imports Ledger_System
begin

text \<open>
  Repeated requests: a request key of a conversation creates one run, a local tool runs its
  callback once, and adopted steering leaves no tool call of the run waiting. The queue of pending
  inputs keeps its keys and stays within its bound.
\<close>

section \<open>Request keys\<close>

lemma write_run_runs:
  assumes "write_run E input maintenance call attemptID deferred run db = Inr db'"
  shows "db_runs db' = db_runs db @ [run]"
  using assms
proof (rule write_run_cases)
  fix db1 db2 db3
  assume "insert_run run db = Inr db1" and trigger: "trigger_message input maintenance run deferred db1 = Inr db2"
    and direct: "direct_call E run attemptID call db2 = Inr db3" and link: "link_successor (ri_ContinuationOf input) (rn_ID run) db3 = Inr db'"
  then have "db_runs db1 = db_runs db @ [run]" by (auto simp: insert_run_def put_runs_def split: if_split_asm)
  moreover have "db_runs db2 = db_runs db1" using elsewhere_trigger_message[OF trigger] by (simp add: elsewhere_def)
  moreover have "db_runs db3 = db_runs db2"
    using direct unfolding direct_call_def insert_attempt_def
    by (auto split: option.split_asm sum.split_asm if_split_asm dest!: elsewhere_insertMessage simp: elsewhere_def)
  moreover have "db_runs db' = db_runs db3" using link by (auto simp: link_successor_def split: if_split_asm sum.split_asm)
  ultimately show ?thesis by simp
qed

lemma frozen_attachments:
  assumes freeze: "\<forall>c n s. le_freeze E c n = Some s \<longrightarrow> map_option ri_InputAttachments (le_config E s) = map_option ri_InputAttachments (le_config E c)"
    and "frozen_config E db chat config deferred = Inr config'"
  shows "map_option ri_InputAttachments (le_config E config') = map_option ri_InputAttachments (le_config E config)"
  using assms by (auto simp: frozen_config_def split: option.split_asm if_split_asm)

lemma create_with_key:
  assumes inv: "ledger_inv db" and old: "old \<in> set (db_runs db)" "rn_ConversationID old = chat" "rn_RequestKey old = key"
    and ok: "le_config E config = Some input" "key \<noteq> []" "prompt \<noteq> []" "get_conversation db chat \<noteq> None"
  shows "createRunWithTool E allowed runID attemptID chat key prompt config maintenance call db =
     (if rn_Prompt old = prompt \<and> map_option ri_InputAttachments (le_config E (rn_ConfigJSON old)) = Some (ri_InputAttachments input)
      then Inr ((old, False), db) else Inl (Sentinel ErrRequestKey))"
proof -
  have "distinct (map (\<lambda>r. (rn_ConversationID r, rn_RequestKey r)) (db_runs db))" using inv by (simp add: ledger_inv_def run_table_ok_def)
  from find_distinct[OF this old(1)] have "find (\<lambda>r. rn_ConversationID r = chat \<and> rn_RequestKey r = key) (db_runs db) = Some old"
    using old(2,3) by simp
  then show ?thesis using ok by (auto simp: createRunWithTool_def)
qed

text \<open>
  C18: creating a run is idempotent in its request key. Once a run was created for a key of a
  conversation, repeating the request in any later store answers that run, not created, and
  changes nothing, whatever identifiers it brings; the attachments of the frozen configuration
  are those of the configuration it was made from (freezing only adds the trigger message).
\<close>

theorem create_run_idempotent:
  assumes "ledger_start db0" "(ledger_step E G V F)\<^sup>*\<^sup>* db0 db"
    and freeze: "\<forall>c n s. le_freeze E c n = Some s \<longrightarrow> map_option ri_InputAttachments (le_config E s) = map_option ri_InputAttachments (le_config E c)"
    and make: "createRunWithTool E allowed runID attemptID chat key prompt config maintenance call db = Inr ((run, True), db1)"
    and later: "(ledger_step E G V F)\<^sup>*\<^sup>* db1 db2" and conv: "get_conversation db2 chat \<noteq> None"
  shows "\<exists>r. rn_ID r = runID \<and> rn_Prompt r = prompt
     \<and> createRunWithTool E allowed' runID' attemptID' chat key prompt config maintenance' call' db2 = Inr ((r, False), db2)"
  using make
proof (rule createRunWithTool_cases)
  fix input deferred config'
  assume run: "run = new_run runID chat key prompt config'" and w: "write_run E input maintenance call attemptID deferred run db = Inr db1"
    and input: "le_config E config = Some input" and fz: "frozen_config E db chat config deferred = Inr config'"
    and keys: "key \<noteq> []" "prompt \<noteq> []"
  have "ledger_inv db" using ledger.reachable_inv assms(1,2) by blast
  then have inv1: "ledger_inv db1" using good_createRunWithTool[OF make] by (simp add: good_def)
  then have inv2: "ledger_inv db2" using ledger.steps_inv later by blast
  have "run \<in> set (db_runs db1)" by (simp add: write_run_runs[OF w])
  then obtain r where r: "r \<in> set (db_runs db2)" "run_evolves run r"
    using steps_history[OF later inv1] run_rows.grows_set unfolding history_def by blast
  then have same: "rn_ID r = runID" "rn_Prompt r = prompt" "rn_ConversationID r = chat" "rn_RequestKey r = key" "rn_ConfigJSON r = config'"
    by (simp_all add: run_evolves_def run new_run_def)
  have "map_option ri_InputAttachments (le_config E (rn_ConfigJSON r)) = Some (ri_InputAttachments input)"
    using frozen_attachments[OF freeze fz] by (simp add: same input)
  then show ?thesis
    using create_with_key[OF inv2 r(1) same(3,4) input keys conv] same by auto
qed auto

theorem create_run_idempotent_witness:
  "\<exists>r. rn_ID r = ''r'' \<and> createRunWithTool sample_ledger_env [] ''other'' ''b'' ''c'' ''k'' ''go'' ''{}'' False None dispatched_store
     = Inr ((r, False), dispatched_store)"
proof -
  have "sample_step\<^sup>*\<^sup>* created_store dispatched_store"
    using ledger_step.start_tool[OF sample_started] sample_dispatch_step by (meson rtranclp.rtrancl_refl rtranclp.rtrancl_into_rtrancl)
  moreover have "\<forall>c n s. le_freeze sample_ledger_env c n = Some s \<longrightarrow>
      map_option ri_InputAttachments (le_config sample_ledger_env s) = map_option ri_InputAttachments (le_config sample_ledger_env c)"
    by (simp add: sample_ledger_env_def)
  moreover have "get_conversation dispatched_store ''c'' \<noteq> None"
    by (simp add: get_conversation_def dispatched_store_def started_rows)
  ultimately show ?thesis
    using create_run_idempotent[OF fresh_start rtranclp.rtrancl_refl _ sample_created] by blast
qed

text \<open>
  C5: what a well formed request for a new run answers when it cannot create one. In a reachable
  store, a request key that is taken answers the run it made when prompt and attachments are the
  same and ErrRequestKey otherwise, and a fresh key is refused with ErrActiveRun while the
  conversation has an active run (outside branches and continuations of limited runs). A request
  that does create a run leaves it as the only active run of its conversation.
\<close>

theorem create_run_refusals:
  assumes "ledger_start db0" "(ledger_step E G V F)\<^sup>*\<^sup>* db0 db"
    and input: "le_config E config = Some input" "ri_ContinuationOf input = []"
    and ok: "key \<noteq> []" "prompt \<noteq> []" "get_conversation db chat \<noteq> None" "map_of (db_branch db) chat = None"
  shows "(\<forall>old \<in> set (db_runs db). rn_ConversationID old = chat \<and> rn_RequestKey old = key
            \<longrightarrow> createRunWithTool E allowed runID attemptID chat key prompt config maintenance call db =
                (if rn_Prompt old = prompt
                    \<and> map_option ri_InputAttachments (le_config E (rn_ConfigJSON old)) = Some (ri_InputAttachments input)
                 then Inr ((old, False), db) else Inl (Sentinel ErrRequestKey)))
       \<and> ((\<forall>old \<in> set (db_runs db). rn_ConversationID old = chat \<longrightarrow> rn_RequestKey old \<noteq> key)
            \<and> (\<exists>r \<in> set (db_runs db). rn_ConversationID r = chat \<and> active_run r)
            \<longrightarrow> createRunWithTool E allowed runID attemptID chat key prompt config maintenance call db = Inl (Sentinel ErrActiveRun))
       \<and> (\<forall>run db'. createRunWithTool E allowed runID attemptID chat key prompt config maintenance call db = Inr ((run, True), db')
            \<longrightarrow> filter (\<lambda>r. rn_ConversationID r = chat \<and> active_run r) (db_runs db') = [run])"
proof -
  have inv: "ledger_inv db" using ledger.reachable_inv assms(1,2) by blast
  have "createRunWithTool E allowed runID attemptID chat key prompt config maintenance call db = Inl (Sentinel ErrActiveRun)"
    if fresh: "\<forall>old \<in> set (db_runs db). rn_ConversationID old = chat \<longrightarrow> rn_RequestKey old \<noteq> key"
      and act: "\<exists>r \<in> set (db_runs db). rn_ConversationID r = chat \<and> active_run r"
  proof -
    have "find (\<lambda>r. rn_ConversationID r = chat \<and> rn_RequestKey r = key) (db_runs db) = None"
      using fresh by (auto simp: find_None_iff_set)
    moreover have "fresh_run_allowed E allowed chat db = Some (Sentinel ErrActiveRun)"
      using act ok(4) by (auto simp: fresh_run_allowed_def RowsAffected_def filter_empty_conv)
    ultimately show ?thesis using input ok by (simp add: createRunWithTool_def)
  qed
  moreover have "filter (\<lambda>r. rn_ConversationID r = chat \<and> active_run r) (db_runs db') = [run]"
    if make: "createRunWithTool E allowed runID attemptID chat key prompt config maintenance call db = Inr ((run, True), db')" for run db'
    using make
  proof (rule createRunWithTool_cases)
    fix i deferred config'
    assume run: "run = new_run runID chat key prompt config'" and w: "write_run E i maintenance call attemptID deferred run db = Inr db'"
      and fresh: "fresh_run_allowed E allowed chat db = None"
    have "filter (\<lambda>r. rn_ConversationID r = chat \<and> active_run r) (db_runs db) = []"
      using fresh ok(4) by (simp add: fresh_run_allowed_def RowsAffected_def split: if_split_asm)
    then show ?thesis by (simp add: write_run_runs[OF w] run new_run_def active_run_def)
  qed auto
  ultimately show ?thesis using create_with_key[OF inv _ _ _ input(1) ok(1-3)] by blast
qed

theorem create_run_refusals_witness:
  "createRunWithTool sample_ledger_env [] ''other'' ''b'' ''c'' ''k2'' ''go'' ''{}'' False None dispatched_store = Inl (Sentinel ErrActiveRun)
   \<and> createRunWithTool sample_ledger_env [] ''other'' ''b'' ''c'' ''k'' ''stop'' ''{}'' False None dispatched_store = Inl (Sentinel ErrRequestKey)"
proof -
  let ?r = "sample_new_run\<lparr>rn_Steps := 1\<rparr>"
  have env: "le_config sample_ledger_env ''{}'' = Some sample_input" "ri_ContinuationOf sample_input = []"
    by (simp_all add: sample_ledger_env_def sample_input_def)
  have runs: "db_runs dispatched_store = [?r]" by (simp add: dispatched_store_def)
  have conv: "get_conversation dispatched_store ''c'' \<noteq> None" by (simp add: get_conversation_def dispatched_store_def started_rows)
  have branch: "map_of (db_branch dispatched_store) ''c'' = None" by code_simp
  note refused = create_run_refusals[OF fresh_start sample_reaches_dispatched env _ _ conv branch]
  have "createRunWithTool sample_ledger_env [] ''other'' ''b'' ''c'' ''k2'' ''go'' ''{}'' False None dispatched_store = Inl (Sentinel ErrActiveRun)"
    using refused[of "''k2''" "''go''"] by (simp add: runs sample_new_run_def new_run_def active_run_def)
  moreover have "createRunWithTool sample_ledger_env [] ''other'' ''b'' ''c'' ''k'' ''stop'' ''{}'' False None dispatched_store = Inl (Sentinel ErrRequestKey)"
    using refused[of "''k''" "''stop''"] by (simp add: runs sample_new_run_def new_run_def)
  ultimately show ?thesis ..
qed

section \<open>Local tools\<close>

lemma record_output_attempts:
  assumes "record_output E guard run a n final db = Inr (e, db')" "lawful guard"
  shows "db_attempts db' = db_attempts db"
proof (cases guard)
  case None
  then show ?thesis using assms(1) by (simp add: record_output_def)
next
  case (Some g)
  obtain x db1 where rec: "g_Record g db a n final = (x, db1)" by fastforce
  have "db_attempts db1 = db_attempts db"
    using lawful_guard.record_frame[OF _ rec] assms(2) Some by (auto simp: lawful_def)
  moreover have "db' = db1 \<or> (\<exists>P f. update_runs P f db1 = Inr db')"
    using assms(1) Some rec by (auto simp: record_output_def split: option.split_asm if_split_asm sum.split_asm)
  ultimately show ?thesis by (auto simp: update_runs_def put_runs_def split: if_split_asm)
qed

lemma save_tool_finishes:
  assumes save: "saveToolTxMode E guard run a c result n definitive addMessage db = Inr (e, db')" and law: "lawful guard"
    and out: "tl_Outcome result \<noteq> None"
  shows "\<exists>b \<in> set (db_attempts db'). am_ID b = am_ID a \<and> am_Status b = ''finished'' \<and> am_ResponseJSON b = le_result_json E result"
proof -
  let ?P = "\<lambda>b. am_ID b = am_ID a \<and> am_RunID b = rn_ID run \<and> am_Kind b = ''tool'' \<and> am_CallID b = tc_ID c
                \<and> am_Status b \<in> {''pending'', ''dispatched''}"
  let ?raw = "le_result_json E result"
  obtain db1 m where one: "RowsAffected ?P (db_attempts db) = 1"
    and db1: "db1 = update_attempts ?P (settle ''finished'' ?raw) db \<or> insertMessage run m (update_attempts ?P (settle ''finished'' ?raw) db) = Inr db1"
    and rec: "record_output E guard (rn_ID run) a (max n (int (length ?raw))) definitive db1 = Inr (e, db')"
    using save out unfolding saveToolTxMode_def Let_def by (auto split: option.split_asm sum.split_asm if_split_asm)
  obtain b where b: "b \<in> set (db_attempts db)" "?P b" using RowsAffected_1_ex[OF one] by blast
  have "settle ''finished'' ?raw b \<in> set (db_attempts (update_attempts ?P (settle ''finished'' ?raw) db))"
    using b by (auto simp: update_attempts_def set_upd)
  then have mem: "settle ''finished'' ?raw b \<in> set (db_attempts db1)"
    using db1 by (auto dest!: elsewhere_insertMessage simp: elsewhere_def)
  then show ?thesis
    using record_output_attempts[OF rec law] b(2) by (intro bexI[of _ "settle ''finished'' ?raw b"]) (simp_all add: settle_def)
qed

lemma local_tool_finishes:
  assumes exec: "executeLocalToolMode E guard execute run a c n addMessage (x, db) = Inr ((r, e), x', db')" and law: "lawful guard"
    and json: "le_result E (le_result_json E r) = Some r"
  shows "\<exists>b \<in> set (db_attempts db'). am_ID b = am_ID a \<and> am_Status b = ''finished'' \<and> le_result E (am_ResponseJSON b) = Some r"
  using exec
proof (rule executeLocalToolMode_cases)
  fix b v
  assume "saveToolTxMode E guard run a c r (int (length (le_result_json E r))) True addMessage db = Inr (e, db')"
    "tl_Outcome r \<noteq> None"
  then show ?thesis using save_tool_finishes[OF _ law] json by metis
qed blast

text \<open>
  C19: the callback of a local data tool takes effect exactly once. When a local tool call was
  answered (by running its callback or from the record), every later execution of the same call
  that answers at all, in any later store and with any callback, answers the same result, leaves
  the data of the callback as it is and changes nothing in the ledger (its JSON encoding being
  read back as it was written).
\<close>

theorem local_tool_exactly_once:
  assumes "ledger_start db0" "(ledger_step E G V F)\<^sup>*\<^sup>* db0 db"
    and exec: "executeLocalToolMode E (guard_of G who) execute run a c n addMessage (x, db) = Inr ((r, e), x', db1)"
    and json: "le_result E (le_result_json E r) = Some r"
    and later: "(ledger_step E G V F)\<^sup>*\<^sup>* db1 db2"
    and again: "executeLocalToolMode E (guard_of G other) execute2 run a c m addMessage2 (y, db2) = Inr ((s, e2), y', db3)"
  shows "s = r \<and> y' = y \<and> db3 = db2"
proof -
  have "ledger_inv db" using ledger.reachable_inv assms(1,2) by blast
  then have inv1: "ledger_inv db1"
    using good_quiet[OF quiet_executeLocalToolMode[OF exec]] by (simp add: good_def)
  then have inv2: "ledger_inv db2" using ledger.steps_inv later by blast
  obtain b where b: "b \<in> set (db_attempts db1)" "am_ID b = am_ID a" "am_Status b = ''finished''" "le_result E (am_ResponseJSON b) = Some r"
    using local_tool_finishes[OF exec _ json] by auto
  obtain d where d: "d \<in> set (db_attempts db2)" "evolves b d" using steps_attempt[OF later inv1 b(1)] .
  have same: "f = d" if "f \<in> set (db_attempts db2)" "am_ID f = am_ID a" for f
    using inv_attempt_unique[OF inv2 that(1) d(1)] that(2) d(2) b(2) by (simp add: evolves_def)
  show ?thesis
    using again
  proof (rule executeLocalToolMode_cases)
    fix f
    assume f: "f \<in> set (db_attempts db2)" "am_ID f = am_ID a" "am_Status f = ''finished''" "le_result E (am_ResponseJSON f) = Some s"
      "y' = y" "db3 = db2"
    then have "am_ResponseJSON f = am_ResponseJSON b" using d(2) b(3) same[OF f(1,2)] by (simp add: evolves_def)
    then show ?thesis using f b(4) by simp
  next
    fix f
    assume f: "f \<in> set (db_attempts db2)" "am_ID f = am_ID a" "am_Status f = ''dispatched''"
    then show ?thesis using d(2) b(3) same[OF f(1,2)] by (simp add: evolves_def)
  qed
qed

definition done_store :: store where
  "done_store =
     (case executeLocalToolMode sample_ledger_env None (\<lambda>k. Inr (failed_result ''x'', k + 1)) sample_new_run sample_tool sample_call 100 True
             (0 :: nat, dispatched_store) of
        Inl _ \<Rightarrow> fresh_store | Inr (_, _, db) \<Rightarrow> db)"

theorem local_tool_exactly_once_witness:
  "\<exists>s e k db. executeLocalToolMode sample_ledger_env None (\<lambda>k. Inr (failed_result ''y'', k + 1)) sample_new_run sample_tool sample_call 100 True
       (7 :: nat, done_store) = Inr ((s, e), k, db) \<and> s = sample_answer \<and> k = 7 \<and> db = done_store"
proof -
  have first: "executeLocalToolMode sample_ledger_env (guard_of sample_guard_env None) (\<lambda>k. Inr (failed_result ''x'', k + 1)) sample_new_run
      sample_tool sample_call 100 True (0 :: nat, dispatched_store) = Inr ((sample_answer, None), 1, done_store)"
    unfolding guard_of_def option.map by code_simp
  have second: "executeLocalToolMode sample_ledger_env (guard_of sample_guard_env None) (\<lambda>k. Inr (failed_result ''y'', k + 1)) sample_new_run
      sample_tool sample_call 100 True (7 :: nat, done_store) = Inr ((sample_answer, None), 7, done_store)"
    unfolding guard_of_def option.map by code_simp
  have "le_result sample_ledger_env (le_result_json sample_ledger_env sample_answer) = Some sample_answer"
    by (simp add: sample_ledger_env_def)
  from local_tool_exactly_once[OF fresh_start sample_reaches_dispatched first this rtranclp.rtrancl_refl second]
  show ?thesis using second[unfolded guard_of_def option.map] by blast
qed

section \<open>Pending inputs\<close>

definition inputs_ok :: "store \<Rightarrow> bool" where
  "inputs_ok db \<longleftrightarrow> distinct (map fst (db_inputs db))
     \<and> (\<forall>(k, i) \<in> set (db_inputs db). k = (pi_ConversationID i, pi_Key i))"

lemma set_update_distinct:
  "distinct (map fst m) \<Longrightarrow> set (AList.update k v m) = insert (k, v) {e \<in> set m. fst e \<noteq> k}"
  by (induction m) (auto simp: image_iff)

lemma inputs_ok_save: "inputs_ok db \<Longrightarrow> inputs_ok (saveInput i db)"
  by (auto simp: inputs_ok_def saveInput_def distinct_update set_update_distinct)

lemma update_filter:
  "length (filter Q (AList.update k v m)) \<le> length (filter Q m) + (if Q (k, v) then 1 else 0)"
  "Q (k, v) \<longrightarrow> (\<exists>w. map_of m k = Some w \<and> Q (k, w)) \<Longrightarrow> length (filter Q (AList.update k v m)) \<le> length (filter Q m)"
  by (induction m) (auto split: if_splits)

lemma pending_save:
  "pending_inputs (saveInput i db) chat \<le> pending_inputs db chat + (if pi_Status i = ''pending'' \<and> pi_ConversationID i = chat then 1 else 0)"
  "(pi_Status i = ''pending'' \<Longrightarrow> \<exists>old. map_of (db_inputs db) (pi_ConversationID i, pi_Key i) = Some old \<and> pi_Status old = ''pending'')
   \<Longrightarrow> pending_inputs (saveInput i db) chat \<le> pending_inputs db chat"
proof -
  let ?Q = "\<lambda>((c, _), i). c = chat \<and> pi_Status i = ''pending''"
  show "pending_inputs (saveInput i db) chat \<le> pending_inputs db chat + (if pi_Status i = ''pending'' \<and> pi_ConversationID i = chat then 1 else 0)"
    using update_filter(1)[of ?Q "(pi_ConversationID i, pi_Key i)" i "db_inputs db"]
    by (auto simp: pending_inputs_def saveInput_def split: if_splits)
  assume "pi_Status i = ''pending'' \<Longrightarrow> \<exists>old. map_of (db_inputs db) (pi_ConversationID i, pi_Key i) = Some old \<and> pi_Status old = ''pending''"
  then show "pending_inputs (saveInput i db) chat \<le> pending_inputs db chat"
    using update_filter(2)[of ?Q "(pi_ConversationID i, pi_Key i)" i "db_inputs db"] by (auto simp: pending_inputs_def saveInput_def)
qed

lemma inputs_cong:
  "db_inputs db' = db_inputs db \<Longrightarrow> inputs_ok db' = inputs_ok db"
  "db_inputs db' = db_inputs db \<Longrightarrow> pending_inputs db' chat = pending_inputs db chat"
  by (simp_all add: inputs_ok_def pending_inputs_def)

lemma move_input:
  assumes "moveInputMessage i run db = Inr db'"
  shows "\<exists>n d. db' = saveInput (i\<lparr>pi_MessageID := n, pi_Status := ''adopted'', pi_RunID := run\<rparr>) d \<and> db_inputs d = db_inputs db
     \<and> db_attempts d = db_attempts db"
  using assms unfolding moveInputMessage_def Let_def
  by (auto split: option.split_asm if_split_asm intro!: exI)

lemma move_all_inputs:
  assumes "move_all is run db = Inr db'" "inputs_ok db"
  shows "inputs_ok db' \<and> pending_inputs db' chat \<le> pending_inputs db chat
     \<and> (\<forall>(k, j) \<in> set (db_inputs db'). pi_Status j = ''adopted''
          \<or> (k, j) \<in> set (db_inputs db) \<and> k \<notin> (\<lambda>i. (pi_ConversationID i, pi_Key i)) ` set is)"
  using assms
proof (induction "is" arbitrary: db)
  case (Cons i "is")
  obtain db1 where db1: "moveInputMessage i run db = Inr db1" "move_all is run db1 = Inr db'"
    using Cons.prems(1) by (auto split: sum.split_asm)
  obtain n d where d: "db1 = saveInput (i\<lparr>pi_MessageID := n, pi_Status := ''adopted'', pi_RunID := run\<rparr>) d" "db_inputs d = db_inputs db"
    using move_input[OF db1(1)] by blast
  have ok: "inputs_ok d" using Cons.prems(2) inputs_cong(1)[OF d(2)] by simp
  have "pending_inputs db1 chat \<le> pending_inputs db chat"
    unfolding d(1) inputs_cong(2)[OF d(2), symmetric] by (rule pending_save(2)) simp
  moreover have "inputs_ok db1" using ok by (simp add: d(1) inputs_ok_save)
  moreover have "\<forall>(k, j) \<in> set (db_inputs db1). pi_Status j = ''adopted'' \<or> (k, j) \<in> set (db_inputs db) \<and> k \<noteq> (pi_ConversationID i, pi_Key i)"
    using ok by (auto simp: d(1) d(2)[symmetric] saveInput_def set_update_distinct inputs_ok_def)
  ultimately show ?case using Cons.IH[OF db1(2)] by fastforce
qed auto

lemma insertMessage_inputs: "insertMessage run m db = Inr db' \<Longrightarrow> db_inputs db' = db_inputs db"
  by (auto simp: insertMessage_def insert_row_def Let_def split: option.split_asm if_split_asm sum.split_asm)

lemma supersede_inputs: "supersede E run as db = Inr db' \<Longrightarrow> db_inputs db' = db_inputs db"
proof (induction as arbitrary: db)
  case (Cons a as)
  show ?case
  proof (cases "am_Kind a \<noteq> ''tool'' \<or> am_Status a \<noteq> ''pending''")
    case True
    then show ?thesis using Cons by simp
  next
    case False
    let ?d = "update_attempts (\<lambda>b. am_ID b = am_ID a \<and> am_Status b = ''pending'') (settle ''finished'' (le_result_json E superseded)) db"
    obtain m db1 where db1: "insertMessage run m ?d = Inr db1" "supersede E run as db1 = Inr db'"
      using Cons.prems False by (auto split: option.split_asm sum.split_asm)
    then show ?thesis using Cons.IH[OF db1(2)] insertMessage_inputs[OF db1(1)] by (simp add: update_attempts_def)
  qed
qed simp



definition sample_steering :: InputCommand where
  "sample_steering = \<lparr>ic_Action = ''steer'', ic_RunID = ''r'', ic_RequestKey = ''i'', ic_Prompt = ''rather'', ic_Attachments = []\<rparr>"

definition steered_store :: store where
  "steered_store =
     (case acceptInput sample_ledger_env sample_input_env ''c'' sample_steering started_store of Inl _ \<Rightarrow> fresh_store | Inr (_, db) \<Rightarrow> db)"



section \<open>The bound of the queue\<close>

text \<open>
  The transactions that touch pending inputs, and any other transaction, which leaves them alone.
\<close>

inductive queue_step :: "ledger_env \<Rightarrow> input_env \<Rightarrow> store \<Rightarrow> store \<Rightarrow> bool" for E V where
  accepts: "acceptInput E V chat cmd db = Inr (i, db') \<Longrightarrow> queue_step E V db db'"
| cancels: "CancelInput V person chat key db = Inr (i, db') \<Longrightarrow> queue_step E V db db'"
| steers: "SteerInput V person chat key run db = Inr (i, db') \<Longrightarrow> queue_step E V db db'"
| pauses: "PauseQueue V chat paused db = Inr db' \<Longrightarrow> queue_step E V db db'"
| adopts: "adoptSteeringForRetry E r retryModel db = Inr (b, db') \<Longrightarrow> queue_step E V db db'"
| creates: "createRunWithTool E allowed runID attemptID chat key prompt config maintenance call db = Inr ((r, b), db') \<Longrightarrow> queue_step E V db db'"
| others: "db_inputs db' = db_inputs db \<Longrightarrow> queue_step E V db db'"

definition queue_inv :: "store \<Rightarrow> bool" where
  "queue_inv db \<longleftrightarrow> inputs_ok db \<and> (\<forall>chat. pending_inputs db chat \<le> 20)"

lemma queue_inv_save:
  assumes "queue_inv db" "pi_Status i = ''pending'' \<longrightarrow> (\<exists>old. map_of (db_inputs db) (pi_ConversationID i, pi_Key i) = Some old \<and> pi_Status old = ''pending'')"
  shows "queue_inv (saveInput i db)"
proof -
  have "pending_inputs (saveInput i db) chat \<le> pending_inputs db chat" for chat
    by (rule pending_save(2)) (use assms(2) in blast)
  moreover have "pending_inputs db chat \<le> 20" for chat using assms(1) by (simp add: queue_inv_def)
  ultimately show ?thesis using assms(1) inputs_ok_save order_trans unfolding queue_inv_def by blast
qed

lemma queue_inv_less: "queue_inv db \<Longrightarrow> inputs_ok db' \<Longrightarrow> (\<And>chat. pending_inputs db' chat \<le> pending_inputs db chat) \<Longrightarrow> queue_inv db'"
  unfolding queue_inv_def using order_trans by blast

lemma queue_inv_cong: "db_inputs db' = db_inputs db \<Longrightarrow> queue_inv db' = queue_inv db"
  by (simp add: queue_inv_def inputs_cong[of db' db])

lemma loadInput_Inr: "loadInput db chat key = Inr i \<Longrightarrow> map_of (db_inputs db) (chat, key) = Some i"
  by (simp add: loadInput_def split: option.split_asm)

lemma queue_inv_key: "queue_inv db \<Longrightarrow> loadInput db chat key = Inr i \<Longrightarrow> pi_ConversationID i = chat \<and> pi_Key i = key"
  unfolding queue_inv_def inputs_ok_def by (auto dest!: loadInput_Inr map_of_SomeD)

lemma input_message_inputs:
  assumes "input_message V chat cmd a i db = Inr (j, db')"
  shows "db_inputs db' = db_inputs db \<and> pi_Status j = pi_Status i \<and> pi_ConversationID j = pi_ConversationID i \<and> pi_Key j = pi_Key i"
  using assms unfolding input_message_def insert_row_def Let_def
  by (auto split: option.split_asm if_split_asm sum.split_asm)

lemma queue_inv_accept:
  assumes "acceptInput E V chat cmd db = Inr (i, db')" "queue_inv db"
  shows "queue_inv db'"
proof (cases "db' = db")
  case False
  then obtain a j where j: "steer_target V chat cmd (new_input chat cmd a) db = Inr j" "\<not> pending_inputs db chat \<ge> 20"
    and made: "\<exists>j' db1. input_message V chat cmd a j db = Inr (j', db1) \<and> db' = saveInput j' db1"
    using assms(1) unfolding acceptInput_def
    by (auto split: option.split_asm sum.split_asm if_split_asm)
  then obtain j' db1 where db1: "input_message V chat cmd a j db = Inr (j', db1)" "db' = saveInput j' db1" by blast
  have "pi_ConversationID j = chat"
    using j(1) by (auto simp: steer_target_def new_input_def split: if_split_asm option.split_asm)
  then have conv: "pi_ConversationID j' = chat" and same: "db_inputs db1 = db_inputs db" using input_message_inputs[OF db1(1)] by auto
  have "pending_inputs db' c \<le> 20" for c
    using pending_save(1)[of j' db1 c] j(2) assms(2) conv unfolding db1(2) inputs_cong(2)[OF same] queue_inv_def
    by (cases "c = chat") (auto intro: order_trans)
  moreover have "inputs_ok db'" using assms(2) by (simp add: db1(2) queue_inv_def inputs_ok_save inputs_cong(1)[OF same])
  ultimately show ?thesis by (simp add: queue_inv_def)
qed (use assms(2) in simp)

lemma queue_inv_move:
  assumes "moveInputMessage i run db = Inr db'" "queue_inv db"
  shows "queue_inv db'"
proof -
  obtain n d where d: "db' = saveInput (i\<lparr>pi_MessageID := n, pi_Status := ''adopted'', pi_RunID := run\<rparr>) d" "db_inputs d = db_inputs db"
    using move_input[OF assms(1)] by blast
  have "queue_inv d" using assms(2) queue_inv_cong[OF d(2)] by simp
  then show ?thesis unfolding d(1) by (rule queue_inv_save) simp
qed

lemma queue_inv_write_run:
  assumes "write_run E input maintenance call attemptID deferred run db = Inr db'" "queue_inv db"
  shows "queue_inv db'"
  using assms(1)
proof (rule write_run_cases)
  fix db1 db2 db3
  assume ins: "insert_run run db = Inr db1" and trigger: "trigger_message input maintenance run deferred db1 = Inr db2"
    and direct: "direct_call E run attemptID call db2 = Inr db3" and link: "link_successor (ri_ContinuationOf input) (rn_ID run) db3 = Inr db'"
  have "db_inputs db1 = db_inputs db" using ins by (auto simp: insert_run_def put_runs_def split: if_split_asm)
  then have "queue_inv db1" using assms(2) queue_inv_cong by blast
  moreover have "db_inputs db2 = db_inputs db1 \<or> (\<exists>i. moveInputMessage i (rn_ID run) db1 = Inr db2)"
    using trigger unfolding trigger_message_def Let_def
    by (auto split: option.split_asm if_split_asm sum.split_asm dest: insertMessage_inputs)
  ultimately have "queue_inv db2" using queue_inv_move queue_inv_cong by blast
  moreover have "db_inputs db3 = db_inputs db2"
    using direct unfolding direct_call_def insert_attempt_def
    by (auto split: option.split_asm sum.split_asm if_split_asm dest!: insertMessage_inputs)
  moreover have "db_inputs db' = db_inputs db3" using link by (auto simp: link_successor_def split: if_split_asm sum.split_asm)
  ultimately show ?thesis using queue_inv_cong[of db' db2] by simp
qed

lemma queue_inv_adopt:
  assumes "adoptSteeringForRetry E r retryModel db = Inr (b, db')" "queue_inv db"
  shows "queue_inv db'"
  using assms(1)
proof (rule adoptSteering_cases)
  fix db1 db2
  assume sup: "supersede E r (run_attempts db (rn_ID r)) db = Inr db1"
    and move: "move_all (steering_inputs db (rn_ConversationID r) (rn_ID r)) (rn_ID r) db1 = Inr db2"
    and up: "update_runs (\<lambda>x. rn_ID x = rn_ID r) (set_status ''running'' []) db2 = Inr db'"
  have inv1: "queue_inv db1" using assms(2) queue_inv_cong[OF supersede_inputs[OF sup]] by simp
  then have "inputs_ok db1" by (simp add: queue_inv_def)
  then have "queue_inv db2" using queue_inv_less[OF inv1] move_all_inputs[OF move] by blast
  moreover have "db_inputs db' = db_inputs db2" using up by (auto simp: update_runs_def put_runs_def split: if_split_asm)
  ultimately show ?thesis using queue_inv_cong by blast
qed (use assms(2) in simp)

lemma queue_inv_cancel:
  assumes "CancelInput V person chat key db = Inr (i, db')" "queue_inv db"
  shows "queue_inv db'"
proof -
  have "db' = db \<or> (\<exists>j. db' = saveInput (j\<lparr>pi_Status := ''cancelled''\<rparr>) db)"
    using assms(1) unfolding CancelInput_def Let_def by (auto split: option.split_asm sum.split_asm if_split_asm)
  then show ?thesis
  proof
    assume "\<exists>j. db' = saveInput (j\<lparr>pi_Status := ''cancelled''\<rparr>) db"
    then obtain j where j: "db' = saveInput (j\<lparr>pi_Status := ''cancelled''\<rparr>) db" ..
    show ?thesis unfolding j by (rule queue_inv_save[OF assms(2)]) simp
  qed (use assms(2) in simp)
qed

lemma queue_inv_steer:
  assumes "SteerInput V person chat key run db = Inr (i, db')" "queue_inv db"
  shows "queue_inv db'"
proof -
  have "db' = db \<or> (\<exists>j s. loadInput db chat key = Inr j \<and> pi_Status j = ''pending'' \<and> db' = saveInput (j\<lparr>pi_Action := ''steer'', pi_TargetRun := s\<rparr>) db)"
    using assms(1) unfolding SteerInput_def Let_def by (auto split: option.split_asm sum.split_asm if_split_asm)
  then show ?thesis
  proof
    assume "\<exists>j s. loadInput db chat key = Inr j \<and> pi_Status j = ''pending'' \<and> db' = saveInput (j\<lparr>pi_Action := ''steer'', pi_TargetRun := s\<rparr>) db"
    then obtain j s where j: "loadInput db chat key = Inr j" "pi_Status j = ''pending''" "db' = saveInput (j\<lparr>pi_Action := ''steer'', pi_TargetRun := s\<rparr>) db"
      by blast
    show ?thesis unfolding j(3)
      by (rule queue_inv_save[OF assms(2)]) (use queue_inv_key[OF assms(2) j(1)] loadInput_Inr[OF j(1)] j(2) in simp)
  qed (use assms(2) in simp)
qed

lemma queue_step_inv: "queue_step E V db db' \<Longrightarrow> queue_inv db \<Longrightarrow> queue_inv db'"
proof (induction rule: queue_step.induct)
  case (creates allowed runID attemptID chat key prompt config maintenance call db r b db')
  show ?case using creates(1) by (rule createRunWithTool_cases) (use creates(2) queue_inv_write_run in auto)
next
  case (pauses chat paused db db')
  then have "db_inputs db' = db_inputs db" by (auto simp: PauseQueue_def split: option.split_asm)
  then show ?case using pauses(2) queue_inv_cong by blast
next
  case (others db' db)
  then show ?case using queue_inv_cong by blast
qed (blast intro: queue_inv_accept queue_inv_cancel queue_inv_steer queue_inv_adopt)+

definition queue_start :: "store \<Rightarrow> bool" where
  "queue_start db \<longleftrightarrow> db_inputs db = []"

lemma queue_start_inv: "queue_start db \<Longrightarrow> queue_inv db"
  by (simp add: queue_start_def queue_inv_def inputs_ok_def pending_inputs_def)

interpretation queue: invariant_system queue_start "queue_step E V" queue_inv for E V
  by unfold_locales (rule queue_start_inv, assumption, rule queue_step_inv)

text \<open>
  C21: whatever is accepted, cancelled, turned into steering, adopted or consumed by new runs, a
  conversation never holds more than twenty pending inputs, and an input is found under the
  conversation and request key it carries.
\<close>

theorem pending_inputs_bounded:
  assumes "queue_start db0" "(queue_step E V)\<^sup>*\<^sup>* db0 db"
  shows "pending_inputs db chat \<le> 20
     \<and> (loadInput db chat key = Inr i \<longrightarrow> pi_ConversationID i = chat \<and> pi_Key i = key)"
  using queue.reachable_inv[OF assms] queue_inv_key by (auto simp: queue_inv_def)

theorem pending_inputs_bounded_witness:
  "pending_inputs steered_store ''c'' = 1 \<and> pending_inputs steered_store ''c'' \<le> 20"
proof -
  have "acceptInput sample_ledger_env sample_input_env ''c'' sample_steering started_store
      = Inr (snd (hd (db_inputs steered_store)), steered_store)" and one: "pending_inputs steered_store ''c'' = 1" by code_simp+
  then have "queue_step sample_ledger_env sample_input_env started_store steered_store" by (blast intro: queue_step.accepts)
  then have "(queue_step sample_ledger_env sample_input_env)\<^sup>*\<^sup>* started_store steered_store" by (rule r_into_rtranclp)
  moreover have "queue_start started_store" by (simp add: queue_start_def started_rows)
  ultimately show ?thesis using pending_inputs_bounded one by blast
qed

end
