(* ===== verification/Patch.thy ===== *)
theory Patch
  imports Go_Text
begin

text \<open>
  patch.go: the strict unified diffs of the apply_patch tool. parsePatch reads the text into files and
  hunks, applyHunks replays the hunks on a file without any fuzzy matching, preparePatch checks the
  targets and their hashes. The line markers of a hunk are kept beside its lines instead of in a
  map from line numbers. What the file tools answer about a target is a parameter.
\<close>

section \<open>Hunks\<close>

definition maxFileBytes :: int where
  "maxFileBytes = 256 * 1024"

abbreviation LF :: char where
  "LF \<equiv> CHR 0x0A"

abbreviation CRLF :: string where
  "CRLF \<equiv> [CHR 0x0D, CHR 0x0A]"

text \<open>The lines with their leading byte, each with whether the no-newline marker follows it.\<close>

record patchHunk =
  oldStart :: int
  oldCount :: int
  newStart :: int
  newCount :: int
  h_lines :: "(string \<times> bool) list"

record patchFile =
  pf_before :: string
  pf_after :: string
  pf_hunks :: "patchHunk list"

section \<open>Parsing\<close>

fun replace_crlf :: "string \<Rightarrow> string" where
  "replace_crlf (a # b # s) = (if a = CHR 0x0D \<and> b = LF then LF # replace_crlf s else a # replace_crlf (b # s))"
| "replace_crlf s = s"

definition TrimSuffix :: "string \<Rightarrow> string \<Rightarrow> string" where
  "TrimSuffix s p = (if HasSuffix s p then take (length s - length p) s else s)"

definition is_digit :: "char \<Rightarrow> bool" where
  "is_digit c \<longleftrightarrow> digit_value c \<noteq> None"

text \<open>One or more digits, then an optional comma with one or more digits; an absent group is empty.\<close>

definition header_number :: "string \<Rightarrow> (string \<times> string) option" where
  "header_number s =
     (let d = takeWhile is_digit s in if d = [] then None else Some (d, dropWhile is_digit s))"

definition header_range :: "string \<Rightarrow> ((string \<times> string) \<times> string) option" where
  "header_range s =
     (case header_number s of
        None \<Rightarrow> None
      | Some (a, r) \<Rightarrow>
          (if HasPrefix r '','' then
             (case header_number (drop 1 r) of None \<Rightarrow> None | Some (b, r') \<Rightarrow> Some ((a, b), r'))
           else Some ((a, []), r)))"

text \<open>The regular expression patchHeader and its four groups.\<close>

definition patchHeader :: "string \<Rightarrow> string list option" where
  "patchHeader line =
     (if \<not> HasPrefix line ''@@ -'' then None
      else case header_range (drop 4 line) of
             None \<Rightarrow> None
           | Some ((a, b), r) \<Rightarrow>
               if \<not> HasPrefix r '' +'' then None
               else case header_range (drop 2 r) of
                      None \<Rightarrow> None
                    | Some ((c, d), r') \<Rightarrow>
                        if r' = '' @@'' \<or> (HasPrefix r' '' @@ '' \<and> LF \<notin> set r') then Some [a, b, c, d] else None)"

definition range_value :: "string \<Rightarrow> int option" where
  "range_value v =
     (case Atoi (if v = [] then ''1'' else v) of
        None \<Rightarrow> None
      | Some n \<Rightarrow> if n > maxFileBytes then None else Some n)"

definition no_newline_marker :: string where
  "no_newline_marker = CHR 0x5C # '' No newline at end of file''"

text \<open>How a line counts towards the old and the new range, and the marker that may follow it.\<close>

definition old_of :: "string \<Rightarrow> int" where
  "old_of line = (if hd line \<noteq> CHR ''+'' then 1 else 0)"

definition new_of :: "string \<Rightarrow> int" where
  "new_of line = (if hd line \<noteq> CHR ''-'' then 1 else 0)"

fun take_marker :: "string list \<Rightarrow> bool \<times> string list" where
  "take_marker [] = (False, [])"
| "take_marker (m # ls) = (if m = no_newline_marker then (True, ls) else (False, m # ls))"

lemma take_marker_shorter: "take_marker ls = (b, r) \<Longrightarrow> length r \<le> length ls"
  by (cases ls) (auto split: if_splits)

text \<open>The body of a hunk: the counts seen so far, the lines collected, the lines left.\<close>

function hunk_body :: "int \<Rightarrow> int \<Rightarrow> int \<Rightarrow> int \<Rightarrow> (string \<times> bool) list \<Rightarrow> string list
    \<Rightarrow> ((string \<times> bool) list \<times> string list) res" where
  "hunk_body oc nc old new acc ls =
     (if ls = [] \<or> \<not> (old < oc \<or> new < nc) then
        (if old \<noteq> oc \<or> new \<noteq> nc then Inl (ErrorsNew ''incomplete patch hunk'') else Inr (acc, ls))
      else if hd ls = [] \<or> hd (hd ls) \<notin> set '' +-'' then Inl (ErrorsNew ''invalid patch hunk line'')
      else if old + old_of (hd ls) > oc \<or> new + new_of (hd ls) > nc
      then Inl (ErrorsNew ''patch hunk line counts differ'')
      else case take_marker (tl ls) of
             (bare, rest) \<Rightarrow>
               hunk_body oc nc (old + old_of (hd ls)) (new + new_of (hd ls)) (acc @ [(hd ls, bare)]) rest)"
  by pat_completeness auto
termination
proof (relation "measure (\<lambda>(oc, nc, old, new, acc, ls). length ls)", goal_cases)
  case (2 oc nc old new acc ls bare rest)
  then have "length rest \<le> length (tl ls)" "ls \<noteq> []" using take_marker_shorter[of "tl ls" bare rest] by auto
  then show ?case by (cases ls) auto
qed simp

declare hunk_body.simps [simp del]

definition parse_hunk :: "string list \<Rightarrow> string \<Rightarrow> string list \<Rightarrow> (patchHunk \<times> string list) res" where
  "parse_hunk groups line ls =
     (case map range_value groups of
        [Some a, Some b, Some c, Some d] \<Rightarrow>
          (case hunk_body b d 0 0 [] ls of
             Inl e \<Rightarrow> Inl e
           | Inr (body, ls') \<Rightarrow> Inr (\<lparr>oldStart = a, oldCount = b, newStart = c, newCount = d, h_lines = body\<rparr>, ls'))
      | _ \<Rightarrow> Inl (ErrorsNew ''patch range exceeds limit''))"

lemma hunk_body_Inr:
  assumes "hunk_body oc nc old new acc ls = Inr (body, ls')"
  obtains (stop) "body = acc" "ls' = ls" "old = oc" "new = nc" "ls = [] \<or> \<not> (old < oc \<or> new < nc)"
    | (step) bare rest where "ls \<noteq> []" "old < oc \<or> new < nc" "hd ls \<noteq> []" "hd (hd ls) \<in> set '' +-''"
        "old + old_of (hd ls) \<le> oc" "new + new_of (hd ls) \<le> nc" "take_marker (tl ls) = (bare, rest)"
        "hunk_body oc nc (old + old_of (hd ls)) (new + new_of (hd ls)) (acc @ [(hd ls, bare)]) rest = Inr (body, ls')"
proof (cases "ls = [] \<or> \<not> (old < oc \<or> new < nc)")
  case True
  then show ?thesis using assms stop by (subst (asm) hunk_body.simps) (auto split: if_splits)
next
  case False
  obtain bare rest where "take_marker (tl ls) = (bare, rest)" by (cases "take_marker (tl ls)")
  then show ?thesis using False assms step[of bare rest]
    by (subst (asm) hunk_body.simps) (simp split: if_split_asm)
qed

lemma hunk_body_induct:
  assumes "hunk_body oc nc old new acc ls = Inr (body, ls')"
    and "\<And>ls. ls = [] \<or> \<not> (oc < oc \<or> nc < nc) \<Longrightarrow> P oc nc body ls ls"
    and "\<And>old new acc ls bare rest. ls \<noteq> [] \<Longrightarrow> old < oc \<or> new < nc \<Longrightarrow> hd ls \<noteq> [] \<Longrightarrow> hd (hd ls) \<in> set '' +-'' \<Longrightarrow>
      old + old_of (hd ls) \<le> oc \<Longrightarrow> new + new_of (hd ls) \<le> nc \<Longrightarrow> take_marker (tl ls) = (bare, rest) \<Longrightarrow>
      P (old + old_of (hd ls)) (new + new_of (hd ls)) (acc @ [(hd ls, bare)]) rest ls' \<Longrightarrow> P old new acc ls ls'"
  shows "P old new acc ls ls'"
  using assms(1)
proof (induction "length ls" arbitrary: old new acc ls rule: less_induct)
  case less
  from less(2) show ?case
  proof (cases rule: hunk_body_Inr)
    case stop
    then show ?thesis using assms(2) by simp
  next
    case (step bare rest)
    have "length rest < length ls" using take_marker_shorter[OF step(7)] step(1) by (cases ls) auto
    then show ?thesis using less(1) step assms(3) by blast
  qed
qed

lemma hunk_body_shorter: "hunk_body oc nc old new acc ls = Inr (body, ls') \<Longrightarrow> length ls' \<le> length ls"
  by (erule hunk_body_induct[where P = "\<lambda>_ _ _ ls ls'. length ls' \<le> length ls"])
    (auto dest!: take_marker_shorter)

lemma parse_hunk_shorter: "parse_hunk gs line ls = Inr (h, ls') \<Longrightarrow> length ls' \<le> length ls"
  by (auto simp: parse_hunk_def split: list.splits option.splits sum.splits prod.splits dest: hunk_body_shorter)

function parse_hunks :: "patchHunk list \<Rightarrow> string list \<Rightarrow> (patchHunk list \<times> string list) res" where
  "parse_hunks hs [] = Inr (hs, [])"
| "parse_hunks hs (line # ls) =
     (if \<not> HasPrefix line ''@@ '' then Inr (hs, line # ls)
      else case patchHeader line of
             None \<Rightarrow> Inl (ErrorsNew ''invalid or excessive patch hunks'')
           | Some groups \<Rightarrow>
               if length hs \<ge> 1024 then Inl (ErrorsNew ''invalid or excessive patch hunks'')
               else case parse_hunk groups line ls of
                      Inl e \<Rightarrow> Inl e
                    | Inr (h, ls') \<Rightarrow> parse_hunks (hs @ [h]) ls')"
  by pat_completeness auto
termination
  by (relation "measure (\<lambda>(hs, ls). length ls)") (auto dest: parse_hunk_shorter)

lemma parse_hunks_shorter: "parse_hunks hs ls = Inr (hs', ls') \<Longrightarrow> length ls' \<le> length ls"
  by (induction hs ls rule: parse_hunks.induct)
    (fastforce split: if_splits option.splits sum.splits dest: parse_hunk_shorter)+

function parse_files :: "patchFile list \<Rightarrow> string list \<Rightarrow> patchFile list res" where
  "parse_files files [] = Inr files"
| "parse_files files [line] =
     Inl (ErrorsNew ''expected unified diff file headers; metadata, renames and binary patches are unsupported'')"
| "parse_files files (line # next # ls) =
     (if length files \<ge> 32 \<or> \<not> HasPrefix line ''--- '' \<or> \<not> HasPrefix next ''+++ ''
      then Inl (ErrorsNew ''expected unified diff file headers; metadata, renames and binary patches are unsupported'')
      else case parse_hunks [] ls of
             Inl e \<Rightarrow> Inl e
           | Inr (hs, ls') \<Rightarrow>
               if hs = [] then Inl (ErrorsNew ''patch file needs at least one numbered hunk'')
               else parse_files (files @ [\<lparr>pf_before = TrimPrefix line ''--- '', pf_after = TrimPrefix next ''+++ '', pf_hunks = hs\<rparr>]) ls')"
  by pat_completeness auto
termination
  by (relation "measure (\<lambda>(fs, ls). length ls)") (auto dest: parse_hunks_shorter)

definition parsePatch :: "string \<Rightarrow> patchFile list res" where
  "parsePatch text =
     (if text = [] \<or> int (length text) > 2 * maxFileBytes \<or> \<not> ValidString text \<or> CHR 0x00 \<in> set text \<or> \<not> HasSuffix text [LF]
      then Inl (ErrorsNew ''patch must be bounded NUL-free UTF-8 ending with a newline'')
      else parse_files [] (Split_char LF (TrimSuffix (replace_crlf text) [LF])))"

section \<open>Applying\<close>

text \<open>strings.SplitAfter on a newline.\<close>

fun SplitAfter_LF :: "string \<Rightarrow> string list" where
  "SplitAfter_LF [] = [[]]"
| "SplitAfter_LF (c # cs) =
     (if c = LF then [c] # SplitAfter_LF cs
      else case SplitAfter_LF cs of [] \<Rightarrow> [[c]] | w # ws \<Rightarrow> (c # w) # ws)"

definition source_lines :: "string \<Rightarrow> string list" where
  "source_lines before = (let s = SplitAfter_LF before in if last s = [] then butlast s else s)"

text \<open>The lines of one hunk: the cursor into the source, the pieces written, both as counts.\<close>

fun hunk_lines :: "string \<Rightarrow> string list \<Rightarrow> nat \<Rightarrow> string list \<Rightarrow> (string \<times> bool) list \<Rightarrow> (nat \<times> string list) res" where
  "hunk_lines eol source cursor out [] = Inr (cursor, out)"
| "hunk_lines eol source cursor out ((line, bare) # ls) =
     (let piece = tl line @ (if bare then [] else eol)
      in if hd line \<noteq> CHR ''+'' \<and> (cursor \<ge> length source \<or> source ! cursor \<noteq> piece)
         then Inl (ErrorsNew ''patch context differs from current file; no fuzzy matching'')
         else hunk_lines eol source (if hd line \<noteq> CHR ''+'' then cursor + 1 else cursor)
                (if hd line \<noteq> CHR ''-'' then out @ [piece] else out) ls)"

fun hunks_loop :: "string \<Rightarrow> string list \<Rightarrow> nat \<Rightarrow> string list \<Rightarrow> patchHunk list \<Rightarrow> (nat \<times> string list) res" where
  "hunks_loop eol source cursor out [] = Inr (cursor, out)"
| "hunks_loop eol source cursor out (h # hs) =
     (let start = (if oldCount h > 0 then oldStart h - 1 else oldStart h);
          next = (if newCount h > 0 then newStart h - 1 else newStart h)
      in if start < int cursor \<or> start > int (length source) \<or> next \<noteq> int (length out) + start - int cursor
         then Inl (ErrorsNew ''patch hunks overlap or new ranges differ'')
         else case hunk_lines eol source (nat start) (out @ take (nat start - cursor) (drop cursor source)) (h_lines h) of
                Inl e \<Rightarrow> Inl e
              | Inr (cursor', out') \<Rightarrow> hunks_loop eol source cursor' out' hs)"

definition eol_of :: "string \<Rightarrow> string" where
  "eol_of before = (if Contains before CRLF then CRLF else [LF])"

definition applyHunks :: "string \<Rightarrow> patchHunk list \<Rightarrow> string res" where
  "applyHunks before hunks =
     (let source = source_lines before
      in case hunks_loop (eol_of before) source 0 [] hunks of
           Inl e \<Rightarrow> Inl e
         | Inr (cursor, out) \<Rightarrow>
             let text = concat (out @ drop cursor source)
             in if int (length text) > maxFileBytes then Inl (ErrorsNew ''patched file exceeds 256 KiB'') else Inr text)"

section \<open>Preparing a patch\<close>

text \<open>
  What the file tools answer: whether a path is protected configuration, whether a path to create
  or to read is acceptable, the content of a file, the SHA-256 of a content in hexadecimal, and
  strings.ToLower.
\<close>

record patch_env =
  pn_protected :: "string \<Rightarrow> bool"
  pn_validateCreate :: "string \<Rightarrow> err"
  pn_validate :: "string \<Rightarrow> err"
  pn_read :: "string \<Rightarrow> string res"
  pn_hash :: "string \<Rightarrow> string"
  pn_lower :: "string \<Rightarrow> string"

record preparedChange =
  pc_Operation :: string
  pc_Path :: string
  pc_Expected :: string
  pc_updated :: string

definition patch_target :: "patchFile \<Rightarrow> (string \<times> string) res" where
  "patch_target f =
     (let old = TrimPrefix (pf_before f) ''a/''; new = TrimPrefix (pf_after f) ''b/''
      in if pf_before f = ''/dev/null'' then Inr (''create'', new)
         else if pf_after f = ''/dev/null'' then Inr (''delete'', old)
         else if old \<noteq> new then Inl (ErrorsNew ''patch renames are unsupported'')
         else Inr (''edit'', old))"

definition target_ok :: "patch_env \<Rightarrow> string \<Rightarrow> bool" where
  "target_ok E name \<longleftrightarrow> \<not> (name = ''/dev/null'' \<or> CHR 0x5C \<in> set name \<or> path_Clean name \<noteq> name \<or> name = ''.''
     \<or> HasPrefix name ''../'' \<or> HasPrefix name ''/'' \<or> pn_protected E name)"

text \<open>The content a change starts from, after the checks of the expected hash.\<close>

definition patch_source :: "patch_env \<Rightarrow> string \<Rightarrow> string \<Rightarrow> string \<Rightarrow> string res" where
  "patch_source E operation name expected =
     (if operation = ''create'' then
        (if expected \<noteq> ''absent'' then Inl (ErrorsNew ''patch creation requires expected absence'')
         else case pn_validateCreate E name of Some e \<Rightarrow> Inl e | None \<Rightarrow> Inr [])
      else case pn_validate E name of Some e \<Rightarrow> Inl e | None \<Rightarrow>
        (case pn_read E name of Inl e \<Rightarrow> Inl e | Inr raw \<Rightarrow>
          (if length expected \<noteq> 64 \<or> pn_hash E raw \<noteq> expected
           then Inl (ErrorsNew ''patch target hash changed; read again'') else Inr raw)))"

definition patch_change :: "patch_env \<Rightarrow> (string, string) gomap \<Rightarrow> string list \<Rightarrow> patchFile \<Rightarrow> preparedChange res" where
  "patch_change E expected seen f =
     (case patch_target f of Inl e \<Rightarrow> Inl e | Inr (operation, name) \<Rightarrow>
       (if \<not> target_ok E name then Inl (ErrorsNew ''patch requires unprotected workspace-relative paths'')
        else if pn_lower E name \<in> set seen then Inl (ErrorsNew ''duplicate patch target'')
        else case map_of expected name of None \<Rightarrow> Inl (ErrorsNew ''missing expected target hash'') | Some hash \<Rightarrow>
          (case patch_source E operation name hash of Inl e \<Rightarrow> Inl e | Inr raw \<Rightarrow>
            (case applyHunks raw (pf_hunks f) of Inl e \<Rightarrow> Inl e | Inr updated \<Rightarrow>
              (if operation = ''delete'' \<and> updated \<noteq> []
               then Inl (ErrorsNew ''delete patch must remove the entire file'')
               else Inr \<lparr>pc_Operation = operation, pc_Path = name,
                         pc_Expected = (if operation = ''create'' then [] else hash), pc_updated = updated\<rparr>)))))"

fun patch_changes :: "patch_env \<Rightarrow> (string, string) gomap \<Rightarrow> string list \<Rightarrow> preparedChange list \<Rightarrow> patchFile list
    \<Rightarrow> preparedChange list res" where
  "patch_changes E expected seen acc [] = Inr acc"
| "patch_changes E expected seen acc (f # fs) =
     (case patch_change E expected seen f of
        Inl e \<Rightarrow> Inl e
      | Inr c \<Rightarrow> patch_changes E expected (pn_lower E (pc_Path c) # seen) (acc @ [c]) fs)"

definition preparePatch :: "patch_env \<Rightarrow> string \<Rightarrow> (string, string) gomap \<Rightarrow> preparedChange list res" where
  "preparePatch E text expected =
     (case parsePatch text of Inl e \<Rightarrow> Inl e | Inr files \<Rightarrow>
       (if length expected \<noteq> length files
        then Inl (ErrorsNew ''expected_sha256 must cover exactly every patch target'')
        else patch_changes E expected [] [] files))"

section \<open>What parsing establishes\<close>

definition old_total :: "(string \<times> bool) list \<Rightarrow> int" where
  "old_total ls = sum_list (map (old_of \<circ> fst) ls)"

definition new_total :: "(string \<times> bool) list \<Rightarrow> int" where
  "new_total ls = sum_list (map (new_of \<circ> fst) ls)"

definition line_ok :: "string \<times> bool \<Rightarrow> bool" where
  "line_ok l \<longleftrightarrow> fst l \<noteq> [] \<and> hd (fst l) \<in> set '' +-'' \<and> LF \<notin> set (fst l)"

definition range_ok :: "int \<Rightarrow> bool" where
  "range_ok n \<longleftrightarrow> 0 \<le> n \<and> n \<le> maxFileBytes"

definition hunk_ok :: "patchHunk \<Rightarrow> bool" where
  "hunk_ok h \<longleftrightarrow> range_ok (oldStart h) \<and> range_ok (oldCount h) \<and> range_ok (newStart h) \<and> range_ok (newCount h)
     \<and> old_total (h_lines h) = oldCount h \<and> new_total (h_lines h) = newCount h \<and> list_all line_ok (h_lines h)"

definition file_ok :: "patchFile \<Rightarrow> bool" where
  "file_ok f \<longleftrightarrow> pf_hunks f \<noteq> [] \<and> length (pf_hunks f) \<le> 1024 \<and> list_all hunk_ok (pf_hunks f)
     \<and> LF \<notin> set (pf_before f) \<and> LF \<notin> set (pf_after f)"

lemma totals_simps [simp]:
  "old_total [] = 0" "new_total [] = 0"
  "old_total (xs @ [(l, b)]) = old_total xs + old_of l" "new_total (xs @ [(l, b)]) = new_total xs + new_of l"
  "old_total ((l, b) # xs) = old_of l + old_total xs" "new_total ((l, b) # xs) = new_of l + new_total xs"
  by (simp_all add: old_total_def new_total_def)

abbreviation plain :: "string list \<Rightarrow> bool" where
  "plain ls \<equiv> list_all (\<lambda>l. LF \<notin> set l) ls"

lemma take_marker_plain: "take_marker ls = (b, r) \<Longrightarrow> plain ls \<Longrightarrow> plain r"
  by (cases ls) (auto split: if_splits)

lemma hunk_body_ok:
  assumes "hunk_body oc nc old new acc ls = Inr (body, ls')" "plain ls" "list_all line_ok acc"
    "old_total acc = old" "new_total acc = new"
  shows "list_all line_ok body \<and> old_total body = oc \<and> new_total body = nc \<and> plain ls'"
proof -
  have "plain ls \<and> list_all line_ok acc \<and> old_total acc = old \<and> new_total acc = new \<longrightarrow>
      list_all line_ok body \<and> old_total body = oc \<and> new_total body = nc \<and> plain ls'"
    using assms(1)
  proof (rule hunk_body_induct[where P = "\<lambda>old new acc ls ls'. plain ls \<and> list_all line_ok acc \<and> old_total acc = old
      \<and> new_total acc = new \<longrightarrow> list_all line_ok body \<and> old_total body = oc \<and> new_total body = nc \<and> plain ls'"], goal_cases)
    case (2 old new acc ls bare rest)
    have "line_ok (hd ls, bare)" if "plain ls" using 2(1,3,4) that by (cases ls) (auto simp: line_ok_def)
    moreover have "plain rest" if "plain ls" using take_marker_plain[OF 2(7)] that 2(1) by (cases ls) auto
    ultimately show ?case using 2(8) by auto
  qed simp
  then show ?thesis using assms by blast
qed

lemma range_value_ok: "range_value v = Some n \<Longrightarrow> v = [] \<or> is_digit (hd v) \<Longrightarrow> range_ok n"
proof -
  assume r: "range_value v = Some n" and d: "v = [] \<or> is_digit (hd v)"
  have one: "Atoi ''1'' = Some 1" by code_simp
  have "0 \<le> n"
  proof (cases "v = []")
    case False
    have "digit_value CHR ''-'' = None" by code_simp
    then have "hd v \<noteq> CHR ''-''" using d False by (auto simp: is_digit_def)
    then show ?thesis using r False
      by (auto simp: range_value_def Atoi_def Let_def split: option.splits if_splits)
  qed (use r one in \<open>auto simp: range_value_def split: if_splits\<close>)
  then show ?thesis using r by (auto simp: range_ok_def range_value_def split: option.splits if_splits)
qed

lemma header_number_digit: "header_number s = Some (a, r) \<Longrightarrow> a \<noteq> [] \<and> is_digit (hd a)"
  by (cases s) (auto simp: header_number_def Let_def split: if_splits)

lemma header_range_digit: "header_range s = Some ((a, b), r) \<Longrightarrow> is_digit (hd a) \<and> (b = [] \<or> is_digit (hd b))"
  by (auto simp: header_range_def split: option.splits if_splits prod.splits dest!: header_number_digit)

lemma patchHeader_digit: "patchHeader line = Some gs \<Longrightarrow> \<forall>v\<in>set gs. v = [] \<or> is_digit (hd v)"
  by (auto simp: patchHeader_def split: if_splits option.splits prod.splits dest!: header_range_digit)

lemma parse_hunk_ok:
  assumes "parse_hunk gs line ls = Inr (h, ls')" "patchHeader line = Some gs" "plain ls"
  shows "hunk_ok h \<and> plain ls'"
proof -
  obtain a b c d body where g: "map range_value gs = [Some a, Some b, Some c, Some d]"
    and body: "hunk_body b d 0 0 [] ls = Inr (body, ls')"
    and h: "h = \<lparr>oldStart = a, oldCount = b, newStart = c, newCount = d, h_lines = body\<rparr>"
    using assms(1) by (auto simp: parse_hunk_def split: list.splits option.splits sum.splits prod.splits)
  have "range_ok x" if "x \<in> {a, b, c, d}" for x
  proof -
    have "Some x \<in> set (map range_value gs)" using that unfolding g by auto
    then show ?thesis using range_value_ok patchHeader_digit[OF assms(2)] by fastforce
  qed
  then show ?thesis using hunk_body_ok[OF body assms(3)] by (simp add: hunk_ok_def h)
qed

lemma parse_hunks_ok:
  "parse_hunks hs ls = Inr (hs', ls') \<Longrightarrow> plain ls \<Longrightarrow> list_all hunk_ok hs \<Longrightarrow> length hs \<le> 1024 \<Longrightarrow>
     list_all hunk_ok hs' \<and> length hs' \<le> 1024 \<and> plain ls'"
proof (induction hs ls rule: parse_hunks.induct)
  case (2 hs line ls)
  show ?case
  proof (cases "HasPrefix line ''@@ ''")
    case True
    then obtain gs h ls1 where g: "patchHeader line = Some gs" "length hs < 1024" "parse_hunk gs line ls = Inr (h, ls1)"
      and r: "parse_hunks (hs @ [h]) ls1 = Inr (hs', ls')"
      using 2(2) by (auto split: option.splits if_splits sum.splits)
    have "hunk_ok h \<and> plain ls1" using parse_hunk_ok[OF g(3,1)] 2(3) by simp
    then show ?thesis using 2(1)[OF _ g(1) _ g(3)] True g(2) r 2(4) by simp
  qed (use 2 in auto)
qed auto

lemma TrimPrefix_plain: "LF \<notin> set l \<Longrightarrow> LF \<notin> set (TrimPrefix l p)"
  by (auto simp: TrimPrefix_def dest: in_set_dropD)

lemma parse_files_ok:
  "parse_files fs ls = Inr fs' \<Longrightarrow> plain ls \<Longrightarrow> list_all file_ok fs \<Longrightarrow> length fs \<le> 32 \<Longrightarrow>
     list_all file_ok fs' \<and> length fs' \<le> 32 \<and> (ls \<noteq> [] \<longrightarrow> fs' \<noteq> []) \<and> length fs \<le> length fs'"
proof (induction fs ls rule: parse_files.induct)
  case (3 fs line nxt ls)
  obtain hs ls1 where h: "length fs < 32" "HasPrefix line ''--- ''" "HasPrefix nxt ''+++ ''"
      "parse_hunks [] ls = Inr (hs, ls1)" "hs \<noteq> []"
    and r: "parse_files (fs @ [\<lparr>pf_before = TrimPrefix line ''--- '', pf_after = TrimPrefix nxt ''+++ '', pf_hunks = hs\<rparr>]) ls1 = Inr fs'"
    using 3(2) by (auto split: if_splits sum.splits)
  have "list_all hunk_ok hs \<and> length hs \<le> 1024 \<and> plain ls1" using parse_hunks_ok[OF h(4)] 3(3) by simp
  then have "file_ok \<lparr>pf_before = TrimPrefix line ''--- '', pf_after = TrimPrefix nxt ''+++ '', pf_hunks = hs\<rparr>" "plain ls1"
    using h(5) 3(3) by (auto simp: file_ok_def TrimPrefix_plain)
  then show ?case using 3(1)[OF _ h(4)] h r 3(4) by auto
qed auto

lemma Split_char_plain_all: "list_all (\<lambda>l. sep \<notin> set l) (Split_char sep s)"
  using Split_char_no_sep by (auto simp: list_all_iff)

text \<open>
  C26: A patch that parses is well formed and bounded: between one and 32 files with at most 1024 hunks
  each, every number between 0 and the file limit, every hunk line a context, removal or addition
  without a newline inside, and the lines of every hunk counting to exactly the ranges its header
  announces.\<close>

theorem parsed_patch_well_formed:
  assumes "parsePatch text = Inr files"
  shows "1 \<le> length files \<and> length files \<le> 32 \<and> list_all file_ok files"
proof -
  let ?ls = "Split_char LF (TrimSuffix (replace_crlf text) [LF])"
  have "parse_files [] ?ls = Inr files" using assms by (simp add: parsePatch_def split: if_splits)
  from parse_files_ok[OF this Split_char_plain_all] have "list_all file_ok files" "length files \<le> 32" "files \<noteq> []"
    by simp_all
  then show ?thesis by (cases files) auto
qed

section \<open>Printing and reading back\<close>

definition hunk_header :: "patchHunk \<Rightarrow> string" where
  "hunk_header h = ''@@ -'' @ Itoa (oldStart h) @ '','' @ Itoa (oldCount h) @ '' +'' @ Itoa (newStart h) @ '','' @ Itoa (newCount h) @ '' @@''"

definition body_text :: "(string \<times> bool) list \<Rightarrow> string list" where
  "body_text ls = concat (map (\<lambda>(l, bare). if bare then [l, no_newline_marker] else [l]) ls)"

definition hunk_text :: "patchHunk \<Rightarrow> string list" where
  "hunk_text h = hunk_header h # body_text (h_lines h)"

definition file_text :: "patchFile \<Rightarrow> string list" where
  "file_text f = [''--- '' @ pf_before f, ''+++ '' @ pf_after f] @ concat (map hunk_text (pf_hunks f))"

definition print_patch :: "patchFile list \<Rightarrow> string" where
  "print_patch files = concat (map (\<lambda>l. l @ [LF]) (concat (map file_text files)))"

lemma is_digit_digit_char: "d < 10 \<Longrightarrow> is_digit (digit_char d)"
  by (simp add: is_digit_def)

lemma itoa_nat_digits: "\<forall>c\<in>set (itoa_nat n). is_digit c"
proof (induction n rule: itoa_nat.induct)
  case (1 n)
  then show ?case by (cases "n < 10") (auto simp: itoa_nat.simps[of n] is_digit_digit_char)
qed

lemma header_number_itoa:
  assumes "r = [] \<or> \<not> is_digit (hd r)"
  shows "header_number (itoa_nat n @ r) = Some (itoa_nat n, r)"
proof -
  have "takeWhile is_digit (itoa_nat n @ r) = itoa_nat n" "dropWhile is_digit (itoa_nat n @ r) = r"
    using itoa_nat_digits[of n] assms by (cases r; simp add: takeWhile_append dropWhile_append)+
  then show ?thesis by (simp add: header_number_def Let_def)
qed

lemma not_digits: "\<not> is_digit CHR '',''" "\<not> is_digit CHR '' ''"
  by code_simp+

lemma header_range_itoa:
  assumes "r = [] \<or> \<not> is_digit (hd r)"
  shows "header_range (itoa_nat a @ CHR '','' # itoa_nat b @ r) = Some ((itoa_nat a, itoa_nat b), r)"
  using header_number_itoa[of "CHR '','' # itoa_nat b @ r" a] header_number_itoa[OF assms, of b] not_digits
  by (simp add: header_range_def HasPrefix_def)

lemma Itoa_nonneg: "0 \<le> i \<Longrightarrow> Itoa i = itoa_nat (nat i)"
  by (simp add: Itoa_def)

lemma patchHeader_hunk_header:
  assumes "hunk_ok h"
  shows "patchHeader (hunk_header h) = Some [Itoa (oldStart h), Itoa (oldCount h), Itoa (newStart h), Itoa (newCount h)]"
proof -
  have nn: "0 \<le> oldStart h" "0 \<le> oldCount h" "0 \<le> newStart h" "0 \<le> newCount h"
    using assms by (auto simp: hunk_ok_def range_ok_def)
  let ?a = "itoa_nat (nat (oldStart h))" and ?b = "itoa_nat (nat (oldCount h))"
  let ?c = "itoa_nat (nat (newStart h))" and ?d = "itoa_nat (nat (newCount h))"
  have e: "hunk_header h = ''@@ -'' @ ?a @ CHR '','' # ?b @ '' +'' @ ?c @ CHR '','' # ?d @ '' @@''"
    by (simp add: hunk_header_def Itoa_nonneg nn)
  have "header_range (?a @ CHR '','' # ?b @ '' +'' @ ?c @ CHR '','' # ?d @ '' @@'')
      = Some ((?a, ?b), '' +'' @ ?c @ CHR '','' # ?d @ '' @@'')"
    by (rule header_range_itoa) (simp add: not_digits)
  moreover have "header_range (?c @ CHR '','' # ?d @ '' @@'') = Some ((?c, ?d), '' @@'')"
    by (rule header_range_itoa) (simp add: not_digits)
  ultimately show ?thesis unfolding patchHeader_def e by (simp add: HasPrefix_def Itoa_nonneg nn)
qed

lemma range_value_Itoa: "range_ok n \<Longrightarrow> range_value (Itoa n) = Some n"
  using Atoi_Itoa[of n] itoa_nat_not_Nil
  by (auto simp: range_value_def range_ok_def maxFileBytes_def Itoa_def)

text \<open>The body is read back up to its last line, whatever follows that is not a marker.\<close>

definition no_marker :: "string list \<Rightarrow> bool" where
  "no_marker ls \<longleftrightarrow> ls = [] \<or> hd ls \<noteq> no_newline_marker"

lemma line_not_marker: "line_ok (l, b) \<Longrightarrow> l \<noteq> no_newline_marker"
  by (auto simp: line_ok_def no_newline_marker_def)

lemma take_marker_no_marker: "no_marker ls \<Longrightarrow> take_marker ls = (False, ls)"
  by (cases ls) (auto simp: no_marker_def)

lemma no_marker_body: "list_all line_ok ls \<Longrightarrow> no_marker rest \<Longrightarrow> no_marker (body_text ls @ rest)"
  by (cases ls) (auto simp: no_marker_def body_text_def dest: line_not_marker split: if_splits prod.splits)

lemma old_new_nonneg: "0 \<le> old_total ls" "0 \<le> new_total ls"
  by (induction ls) (auto simp: old_total_def new_total_def old_of_def new_of_def)

lemma counts_positive: "line_ok (l, b) \<Longrightarrow> 0 < old_of l \<or> 0 < new_of l"
  by (auto simp: line_ok_def old_of_def new_of_def)

lemma hunk_body_step:
  "ls \<noteq> [] \<Longrightarrow> old < oc \<or> new < nc \<Longrightarrow> hd ls \<noteq> [] \<Longrightarrow> hd (hd ls) \<in> set '' +-'' \<Longrightarrow>
   \<not> (old + old_of (hd ls) > oc \<or> new + new_of (hd ls) > nc) \<Longrightarrow> take_marker (tl ls) = (bare, rest) \<Longrightarrow>
   hunk_body oc nc old new acc ls = hunk_body oc nc (old + old_of (hd ls)) (new + new_of (hd ls)) (acc @ [(hd ls, bare)]) rest"
  by (subst hunk_body.simps) simp

lemma hunk_body_text:
  "list_all line_ok ls \<Longrightarrow> no_marker rest \<Longrightarrow>
     hunk_body (old + old_total ls) (new + new_total ls) old new acc (body_text ls @ rest) = Inr (acc @ ls, rest)"
proof (induction ls arbitrary: old new acc)
  case Nil
  then show ?case by (subst hunk_body.simps) (simp add: body_text_def)
next
  case (Cons lb ls)
  obtain l b where lb: "lb = (l, b)" by (cases lb)
  let ?text = "body_text (lb # ls) @ rest"
  have ok: "line_ok (l, b)" "list_all line_ok ls" using Cons.prems lb by auto
  have hd: "hd ?text = l" "?text \<noteq> []" by (auto simp: body_text_def lb)
  have tm: "take_marker (tl ?text) = (b, body_text ls @ rest)"
    using take_marker_no_marker[OF no_marker_body[OF ok(2) Cons.prems(2)]] by (cases b) (simp_all add: body_text_def lb)
  have pos: "0 < old_of l \<or> 0 < new_of l" "0 \<le> old_of l" "0 \<le> new_of l"
    using counts_positive[OF ok(1)] by (auto simp: old_of_def new_of_def)
  have go: "l \<noteq> []" "hd l \<in> set '' +-''" using ok(1) by (auto simp: line_ok_def)
  have more: "old < old + old_total (lb # ls) \<or> new < new + new_total (lb # ls)"
    "\<not> (old + old_of l > old + old_total (lb # ls) \<or> new + new_of l > new + new_total (lb # ls))"
    using pos old_new_nonneg[of ls] by (auto simp: lb)
  have "hunk_body (old + old_total (lb # ls)) (new + new_total (lb # ls)) old new acc ?text =
      hunk_body (old + old_of l + old_total ls) (new + new_of l + new_total ls) (old + old_of l) (new + new_of l)
        (acc @ [(l, b)]) (body_text ls @ rest)"
    using hunk_body_step[OF hd(2) more(1) _ _ _ tm] hd(1) go more(2) by (simp add: lb add.assoc)
  then show ?case using Cons.IH[OF ok(2) Cons.prems(2), of "old + old_of l" "new + new_of l" "acc @ [(l, b)]"]
    by (simp add: lb)
qed

lemma parse_hunk_text:
  assumes "hunk_ok h" "no_marker rest"
  shows "parse_hunk [Itoa (oldStart h), Itoa (oldCount h), Itoa (newStart h), Itoa (newCount h)] line
     (body_text (h_lines h) @ rest) = Inr (h, rest)"
proof -
  have r: "range_ok (oldStart h)" "range_ok (oldCount h)" "range_ok (newStart h)" "range_ok (newCount h)"
    "list_all line_ok (h_lines h)" "old_total (h_lines h) = oldCount h" "new_total (h_lines h) = newCount h"
    using assms(1) by (simp_all add: hunk_ok_def)
  have "hunk_body (oldCount h) (newCount h) 0 0 [] (body_text (h_lines h) @ rest) = Inr (h_lines h, rest)"
    using hunk_body_text[OF r(5) assms(2), of 0 0 "[]"] r(6,7) by simp
  then show ?thesis by (simp add: parse_hunk_def range_value_Itoa r(1-4))
qed

definition no_hunk :: "string list \<Rightarrow> bool" where
  "no_hunk ls \<longleftrightarrow> ls = [] \<or> (\<not> HasPrefix (hd ls) ''@@ '' \<and> hd ls \<noteq> no_newline_marker)"

lemma no_marker_hunks: "no_hunk rest \<Longrightarrow> no_marker (concat (map hunk_text hs) @ rest)"
  by (cases hs) (auto simp: no_hunk_def no_marker_def hunk_text_def hunk_header_def no_newline_marker_def)

lemma parse_hunks_text:
  "list_all hunk_ok hs \<Longrightarrow> no_hunk rest \<Longrightarrow> length acc + length hs \<le> 1024 \<Longrightarrow>
     parse_hunks acc (concat (map hunk_text hs) @ rest) = Inr (acc @ hs, rest)"
proof (induction hs arbitrary: acc)
  case Nil
  then show ?case by (cases rest) (auto simp: no_hunk_def)
next
  case (Cons h hs)
  have "HasPrefix (hunk_header h) ''@@ ''" by (simp add: hunk_header_def HasPrefix_def)
  moreover have "parse_hunk [Itoa (oldStart h), Itoa (oldCount h), Itoa (newStart h), Itoa (newCount h)] (hunk_header h)
      (body_text (h_lines h) @ concat (map hunk_text hs) @ rest) = Inr (h, concat (map hunk_text hs) @ rest)"
    using Cons.prems by (intro parse_hunk_text no_marker_hunks) auto
  ultimately show ?case using Cons patchHeader_hunk_header[of h] by (simp add: hunk_text_def[of h])
qed

lemma no_hunk_files: "no_hunk (concat (map file_text fs))"
  by (cases fs) (auto simp: no_hunk_def file_text_def HasPrefix_def no_newline_marker_def)

lemma file_text_record:
  "file_text \<lparr>pf_before = a, pf_after = b, pf_hunks = hs\<rparr> = (''--- '' @ a) # (''+++ '' @ b) # concat (map hunk_text hs)"
  by (simp add: file_text_def)

lemma parse_files_text:
  "list_all file_ok fs \<Longrightarrow> length acc + length fs \<le> 32 \<Longrightarrow> parse_files acc (concat (map file_text fs)) = Inr (acc @ fs)"
proof (induction fs arbitrary: acc)
  case (Cons f fs)
  have ok: "file_ok f" "list_all file_ok fs" using Cons.prems by auto
  have "parse_hunks [] (concat (map hunk_text (pf_hunks f)) @ concat (map file_text fs)) = Inr (pf_hunks f, concat (map file_text fs))"
    using ok(1) parse_hunks_text[OF _ no_hunk_files, of "pf_hunks f" "[]"] by (simp add: file_ok_def)
  moreover have "pf_hunks f \<noteq> []" using ok(1) by (simp add: file_ok_def)
  ultimately show ?case using Cons.IH[OF ok(2), of "acc @ [f]"] Cons.prems(2)
    by (cases f) (simp add: file_text_record HasPrefix_def TrimPrefix_def)
qed simp

lemma concat_lines: "ls \<noteq> [] \<Longrightarrow> concat (map (\<lambda>l. l @ [LF]) ls) = strings_Join ls [LF] @ [LF]"
  by (induction ls "[LF]" rule: strings_Join.induct) auto

lemma TrimSuffix_snoc: "TrimSuffix (s @ [c]) [c] = s"
  by (simp add: TrimSuffix_def HasSuffix_def HasPrefix_def)

lemma replace_crlf_id: "CHR 0x0D \<notin> set s \<Longrightarrow> replace_crlf s = s"
  by (induction s rule: replace_crlf.induct) auto

lemma itoa_nat_plain: "LF \<notin> set (itoa_nat n)"
proof -
  have "\<not> is_digit LF" by code_simp
  then show ?thesis using itoa_nat_digits by blast
qed

lemma body_text_plain: "list_all line_ok ls \<Longrightarrow> plain (body_text ls)"
  by (induction ls) (auto simp: body_text_def line_ok_def no_newline_marker_def)

lemma hunk_text_plain: "hunk_ok h \<Longrightarrow> plain (hunk_text h)"
  using itoa_nat_plain body_text_plain[of "h_lines h"]
  by (auto simp: hunk_text_def hunk_header_def hunk_ok_def range_ok_def Itoa_nonneg)

lemma file_text_plain: "file_ok f \<Longrightarrow> plain (file_text f)"
  using hunk_text_plain by (auto simp: file_text_def file_ok_def list_all_iff)

text \<open>
  C23: Patches survive printing. A well-formed list of one to 32 files, written as a unified diff with
  explicit ranges, is read back exactly, no-newline markers included, as long as the text is
  UTF-8 without NUL or carriage return and within the size limit.\<close>

theorem patch_roundtrip:
  assumes "files \<noteq> []" and "length files \<le> 32" and "list_all file_ok files"
    and "ValidString (print_patch files)" and "CHR 0x00 \<notin> set (print_patch files)"
    and "CHR 0x0D \<notin> set (print_patch files)" and "int (length (print_patch files)) \<le> 2 * maxFileBytes"
  shows "parsePatch (print_patch files) = Inr files"
proof -
  let ?ls = "concat (map file_text files)"
  have ne: "?ls \<noteq> []" using assms(1) by (cases files) (auto simp: file_text_def)
  have e: "print_patch files = strings_Join ?ls [LF] @ [LF]" by (simp add: print_patch_def concat_lines[OF ne])
  have "plain ?ls" using file_text_plain assms(3) by (auto simp: list_all_iff)
  then have "Split_char LF (TrimSuffix (replace_crlf (print_patch files)) [LF]) = ?ls"
    using Split_char_Join[OF ne, of LF] replace_crlf_id[OF assms(6)] by (simp add: e TrimSuffix_snoc list_all_iff)
  moreover have "print_patch files \<noteq> []" "HasSuffix (print_patch files) [LF]" by (simp_all add: e HasSuffix_def HasPrefix_def)
  ultimately show ?thesis using parse_files_text[OF assms(3), of "[]"] assms(2,4,5,7) by (simp add: parsePatch_def)
qed

section \<open>What applying does\<close>

text \<open>The pieces a hunk expects in the file and the pieces it leaves there.\<close>

definition pieces :: "char \<Rightarrow> string \<Rightarrow> (string \<times> bool) list \<Rightarrow> string list" where
  "pieces skip eol ls = map (\<lambda>(l, bare). tl l @ (if bare then [] else eol)) (filter (\<lambda>(l, bare). hd l \<noteq> skip) ls)"

abbreviation old_pieces :: "string \<Rightarrow> (string \<times> bool) list \<Rightarrow> string list" where
  "old_pieces \<equiv> pieces CHR ''+''"

abbreviation new_pieces :: "string \<Rightarrow> (string \<times> bool) list \<Rightarrow> string list" where
  "new_pieces \<equiv> pieces CHR ''-''"

lemma pieces_Cons: "pieces skip eol ((l, b) # ls) =
    (if hd l \<noteq> skip then (tl l @ (if b then [] else eol)) # pieces skip eol ls else pieces skip eol ls)"
  by (simp add: pieces_def)

lemma take_drop_Cons: "take (Suc n) (drop c xs) = x # ys \<longleftrightarrow> c < length xs \<and> xs ! c = x \<and> take n (drop (Suc c) xs) = ys"
proof (cases "c < length xs")
  case True
  then show ?thesis by (simp add: Cons_nth_drop_Suc[symmetric])
qed simp

lemma hunk_lines_iff:
  "hunk_lines eol source cursor out ls = Inr (c, out') \<longleftrightarrow>
     take (length (old_pieces eol ls)) (drop cursor source) = old_pieces eol ls
     \<and> c = cursor + length (old_pieces eol ls) \<and> out' = out @ new_pieces eol ls"
proof (induction ls arbitrary: cursor out)
  case Nil
  then show ?case by (auto simp: pieces_def)
next
  case (Cons lb ls)
  obtain l b where lb: "lb = (l, b)" by (cases lb)
  show ?case by (cases "hd l = CHR ''+''") (auto simp: lb Let_def Cons.IH pieces_Cons take_drop_Cons)
qed

definition start_of :: "patchHunk \<Rightarrow> int" where
  "start_of h = (if oldCount h > 0 then oldStart h - 1 else oldStart h)"

definition next_of :: "patchHunk \<Rightarrow> int" where
  "next_of h = (if newCount h > 0 then newStart h - 1 else newStart h)"

text \<open>
  What it means to apply hunks, stated without a cursor: the rest of the file from position c is a
  gap, the old pieces of the next hunk and a remainder; the result has the same gap, the new
  pieces and what the remaining hunks make of the remainder. The positions announced in the hunk
  are where its pieces stand in the old file and, with w pieces already written, in the new one.
\<close>

inductive patched :: "string \<Rightarrow> nat \<Rightarrow> nat \<Rightarrow> string list \<Rightarrow> patchHunk list \<Rightarrow> string list \<Rightarrow> bool" for eol where
  stop: "patched eol c w rest [] rest"
| hunk: "start_of h = int (c + length gap) \<Longrightarrow> next_of h = int (w + length gap) \<Longrightarrow>
    old = old_pieces eol (h_lines h) \<Longrightarrow> new = new_pieces eol (h_lines h) \<Longrightarrow>
    patched eol (c + length gap + length old) (w + length gap + length new) rest hs result \<Longrightarrow>
    patched eol c w (gap @ old @ rest) (h # hs) (gap @ new @ result)"

inductive_cases patched_NilE: "patched eol c w src [] result"
inductive_cases patched_ConsE: "patched eol c w src (h # hs) result"

lemma hunks_loop_Cons:
  "hunks_loop eol source cursor out (h # hs) =
     (if start_of h < int cursor \<or> start_of h > int (length source) \<or> next_of h \<noteq> int (length out) + start_of h - int cursor
      then Inl (ErrorsNew ''patch hunks overlap or new ranges differ'')
      else case hunk_lines eol source (nat (start_of h)) (out @ take (nat (start_of h) - cursor) (drop cursor source)) (h_lines h) of
             Inl e \<Rightarrow> Inl e
           | Inr (cursor', out') \<Rightarrow> hunks_loop eol source cursor' out' hs)"
  by (simp add: start_of_def next_of_def Let_def)

lemma hunks_loop_sound:
  "hunks_loop eol source cursor out hs = Inr (c, out') \<Longrightarrow> cursor \<le> length source \<Longrightarrow>
     \<exists>result. patched eol cursor (length out) (drop cursor source) hs result \<and> out' @ drop c source = out @ result"
proof (induction hs arbitrary: cursor out)
  case Nil
  then show ?case by (auto intro: patched.stop)
next
  case (Cons h hs)
  let ?s = "nat (start_of h)"
  let ?gap = "take (?s - cursor) (drop cursor source)" and ?old = "old_pieces eol (h_lines h)" and ?new = "new_pieces eol (h_lines h)"
  from Cons.prems(1) obtain c1 out1 where
      ok: "int cursor \<le> start_of h" "start_of h \<le> int (length source)" "next_of h = int (length out) + start_of h - int cursor"
    and hl: "hunk_lines eol source ?s (out @ ?gap) (h_lines h) = Inr (c1, out1)"
    and rest: "hunks_loop eol source c1 out1 hs = Inr (c, out')"
    by (auto simp: hunks_loop_Cons simp del: hunks_loop.simps split: if_splits sum.splits prod.splits)
  have s: "cursor \<le> ?s" "?s \<le> length source" "start_of h = int ?s" using ok by auto
  have old: "take (length ?old) (drop ?s source) = ?old" "c1 = ?s + length ?old" "out1 = out @ ?gap @ ?new"
    using hl[unfolded hunk_lines_iff] by auto
  have lg: "length ?gap = ?s - cursor" using s by simp
  have "length (take (length ?old) (drop ?s source)) = length ?old" unfolding old(1) ..
  then have c1: "c1 \<le> length source" using old(2) s(2) by simp
  obtain result where r: "patched eol c1 (length out1) (drop c1 source) hs result" "out' @ drop c source = out1 @ result"
    using Cons.IH[OF rest c1] by blast
  have "drop cursor source = ?gap @ drop ?s source" using s(1)
    by (metis append_take_drop_id drop_drop le_add_diff_inverse2)
  also have "drop ?s source = ?old @ drop c1 source"
    using append_take_drop_id[of "length ?old" "drop ?s source"] old(1,2) by (simp add: add.commute)
  finally have src: "drop cursor source = ?gap @ ?old @ drop c1 source" .
  have "patched eol cursor (length out) (?gap @ ?old @ drop c1 source) (h # hs) (?gap @ ?new @ result)"
    using patched.hunk[of h cursor ?gap "length out" ?old eol ?new "drop c1 source" hs result] r(1) s lg ok(3) old(2,3)
    by (simp add: of_nat_diff add.assoc)
  from this[folded src] show ?case using r(2) old(3) by auto
qed

lemma hunks_loop_complete:
  "patched eol cursor (length out) (drop cursor source) hs result \<Longrightarrow> cursor \<le> length source \<Longrightarrow>
     \<exists>c out'. hunks_loop eol source cursor out hs = Inr (c, out') \<and> out' @ drop c source = out @ result"
proof (induction hs arbitrary: cursor out result)
  case Nil
  then show ?case by (auto elim: patched_NilE)
next
  case (Cons h hs)
  let ?old = "old_pieces eol (h_lines h)" and ?new = "new_pieces eol (h_lines h)"
  from Cons.prems(1) obtain gap rest res1 where
      st: "start_of h = int (cursor + length gap)" "next_of h = int (length out + length gap)"
    and src: "drop cursor source = gap @ ?old @ rest" and res: "result = gap @ ?new @ res1"
    and p: "patched eol (cursor + length gap + length ?old) (length out + length gap + length ?new) rest hs res1"
    by (elim patched_ConsE) auto
  let ?s = "cursor + length gap" let ?c1 = "?s + length ?old" let ?out1 = "out @ gap @ ?new"
  have len: "length source = ?c1 + length rest" using arg_cong[OF src, of length] Cons.prems(2) by simp
  have d1: "drop ?s source = ?old @ rest" using arg_cong[OF src, of "drop (length gap)"] by (simp add: add.commute)
  have d2: "drop ?c1 source = rest" using arg_cong[OF d1, of "drop (length ?old)"] by (simp add: add.commute)
  have "hunk_lines eol source ?s (out @ gap) (h_lines h) = Inr (?c1, ?out1)"
    unfolding hunk_lines_iff using d1 by simp
  then have "hunks_loop eol source cursor out (h # hs) = hunks_loop eol source ?c1 ?out1 hs"
    using st src len by (simp add: hunks_loop_Cons nat_add_distrib del: hunks_loop.simps)
  moreover obtain c out' where "hunks_loop eol source ?c1 ?out1 hs = Inr (c, out')" "out' @ drop c source = ?out1 @ res1"
    using Cons.IH[of ?c1 ?out1 res1] p d2 len by (auto simp: add.assoc)
  ultimately show ?case using res by auto
qed

lemma apply_exact:
  "applyHunks before hunks = Inr text \<longleftrightarrow>
     (\<exists>result. patched (eol_of before) 0 0 (source_lines before) hunks result \<and> text = concat result
        \<and> int (length text) \<le> maxFileBytes)"
proof
  assume "applyHunks before hunks = Inr text"
  then obtain c out where l: "hunks_loop (eol_of before) (source_lines before) 0 [] hunks = Inr (c, out)"
      "text = concat (out @ drop c (source_lines before))" "int (length text) \<le> maxFileBytes"
    unfolding applyHunks_def Let_def by (auto split: sum.splits prod.splits if_splits)
  from hunks_loop_sound[OF l(1)] show "\<exists>result. patched (eol_of before) 0 0 (source_lines before) hunks result
      \<and> text = concat result \<and> int (length text) \<le> maxFileBytes" using l(2,3) by auto
next
  assume "\<exists>result. patched (eol_of before) 0 0 (source_lines before) hunks result \<and> text = concat result
        \<and> int (length text) \<le> maxFileBytes"
  then obtain result where r: "patched (eol_of before) 0 0 (source_lines before) hunks result" "text = concat result"
    "int (length text) \<le> maxFileBytes" by blast
  have "\<exists>c out. hunks_loop (eol_of before) (source_lines before) 0 [] hunks = Inr (c, out)
      \<and> out @ drop c (source_lines before) = result"
    using hunks_loop_complete[of "eol_of before" 0 "[]" "source_lines before" hunks result] r(1) by simp
  then obtain c out where "hunks_loop (eol_of before) (source_lines before) 0 [] hunks = Inr (c, out)"
    "out @ drop c (source_lines before) = result" by blast
  then show "applyHunks before hunks = Inr text" using r(2,3) unfolding applyHunks_def Let_def
    by (auto simp del: concat_append)
qed

text \<open>
  C24: Applying a patch is exact replacement: applyHunks returns a text exactly when the file, cut into
  lines, decomposes into gaps and the old lines of the hunks at the announced positions, and then
  it returns the same gaps with the new lines in their place, within the file limit. Nothing else
  is matched, moved or guessed.\<close>

theorem applyHunks_exact:
  "applyHunks before hunks = Inr text \<longleftrightarrow>
     (\<exists>result. patched (eol_of before) 0 0 (source_lines before) hunks result \<and> text = concat result
        \<and> int (length text) \<le> maxFileBytes)"
  by (rule apply_exact)

section \<open>Reversing a patch\<close>

definition swap_lead :: "char \<Rightarrow> char" where
  "swap_lead c = (if c = CHR ''+'' then CHR ''-'' else if c = CHR ''-'' then CHR ''+'' else c)"

definition reverse_hunk :: "patchHunk \<Rightarrow> patchHunk" where
  "reverse_hunk h =
     \<lparr>oldStart = newStart h, oldCount = newCount h, newStart = oldStart h, newCount = oldCount h,
      h_lines = map (\<lambda>(l, bare). (swap_lead (hd l) # tl l, bare)) (h_lines h)\<rparr>"

lemma reverse_pieces:
  "old_pieces eol (h_lines (reverse_hunk h)) = new_pieces eol (h_lines h)"
  "new_pieces eol (h_lines (reverse_hunk h)) = old_pieces eol (h_lines h)"
proof -
  have "old_pieces eol (map (\<lambda>(l, bare). (swap_lead (hd l) # tl l, bare)) ls) = new_pieces eol ls"
    "new_pieces eol (map (\<lambda>(l, bare). (swap_lead (hd l) # tl l, bare)) ls) = old_pieces eol ls" for ls
  proof (induction ls)
    case (Cons lb ls)
    obtain l b where lb: "lb = (l, b)" by (cases lb)
    have sw: "swap_lead c \<noteq> CHR ''+'' \<longleftrightarrow> c \<noteq> CHR ''-''" "swap_lead c \<noteq> CHR ''-'' \<longleftrightarrow> c \<noteq> CHR ''+''" for c
      by (simp_all add: swap_lead_def)
    { case 1 show ?case using Cons by (simp add: lb pieces_Cons sw) }
    { case 2 show ?case using Cons by (simp add: lb pieces_Cons sw) }
  qed (simp_all add: pieces_def)
  then show "old_pieces eol (h_lines (reverse_hunk h)) = new_pieces eol (h_lines h)"
    "new_pieces eol (h_lines (reverse_hunk h)) = old_pieces eol (h_lines h)" by (simp_all add: reverse_hunk_def)
qed

lemma patched_reverse: "patched eol c w src hs result \<Longrightarrow> patched eol w c result (map reverse_hunk hs) src"
proof (induction rule: patched.induct)
  case (hunk h c gap w old new rest hs result)
  have "start_of (reverse_hunk h) = next_of h" "next_of (reverse_hunk h) = start_of h"
    by (simp_all add: start_of_def next_of_def reverse_hunk_def)
  then show ?case using hunk
      patched.hunk[of "reverse_hunk h" w gap c new eol old result "map reverse_hunk hs" rest]
    by (simp add: reverse_pieces)
qed (simp add: patched.stop)

definition proper :: "string \<Rightarrow> bool" where
  "proper p \<longleftrightarrow> (\<exists>s. p = s @ [LF] \<and> LF \<notin> set s)"

lemma SplitAfter_proper: "LF \<notin> set w \<Longrightarrow> SplitAfter_LF (w @ LF # s) = (w @ [LF]) # SplitAfter_LF s"
  by (induction w) auto

lemma SplitAfter_concat: "list_all proper ps \<Longrightarrow> SplitAfter_LF (concat ps) = ps @ [[]]"
  by (induction ps) (auto simp: proper_def SplitAfter_proper)

lemma source_lines_concat: "list_all proper ps \<Longrightarrow> source_lines (concat ps) = ps"
  by (simp add: source_lines_def SplitAfter_concat Let_def)

lemma cut_into_lines: "s = [] \<or> last s = LF \<Longrightarrow> \<exists>ps. list_all proper ps \<and> s = concat ps"
proof (induction s rule: length_induct)
  case (1 s)
  show ?case
  proof (cases "s = []")
    case False
    have "LF \<in> set s" using 1(2) False last_in_set by force
    then obtain w r where s: "s = w @ LF # r" and w: "LF \<notin> set w" by (auto dest: split_list_first)
    have "r = [] \<or> last r = LF" using 1(2) s by (cases r) auto
    moreover have "length r < length s" using arg_cong[OF s, of length] by simp
    ultimately obtain ps where "list_all proper ps" "r = concat ps" using 1(1) by blast
    moreover have "proper (w @ [LF])" using w by (auto simp: proper_def)
    ultimately show ?thesis using s by (intro exI[of _ "(w @ [LF]) # ps"]) simp
  qed (auto intro: exI[of _ "[]"])
qed

lemma new_pieces_proper:
  "list_all line_ok ls \<Longrightarrow> list_all (\<lambda>l. \<not> snd l) ls \<Longrightarrow> eol = [LF] \<or> eol = CRLF \<Longrightarrow> list_all proper (new_pieces eol ls)"
proof (induction ls)
  case (Cons lb ls)
  obtain l where lb: "lb = (l, False)" using Cons.prems(2) by (cases lb) auto
  have "LF \<notin> set (tl l)" using Cons.prems(1) lb by (cases l) (auto simp: line_ok_def)
  then have "proper (tl l @ eol)" using Cons.prems(3)
    by (auto simp: proper_def intro: exI[of _ "tl l"] exI[of _ "tl l @ [CHR 0x0D]"])
  then show ?case using Cons by (simp add: lb pieces_Cons)
qed (simp add: pieces_def)

lemma patched_proper:
  "patched eol c w src hs result \<Longrightarrow> list_all proper src \<Longrightarrow>
   \<forall>h\<in>set hs. list_all line_ok (h_lines h) \<and> list_all (\<lambda>l. \<not> snd l) (h_lines h) \<Longrightarrow> eol = [LF] \<or> eol = CRLF \<Longrightarrow>
   list_all proper result"
  by (induction rule: patched.induct) (auto simp: new_pieces_proper)

text \<open>
  A patch can be taken back. If hunks whose lines all end in a newline apply to a file that ends in
  a newline and does not change its newline convention, the reversed hunks (ranges swapped,
  additions and removals exchanged) apply to the result and restore the file.\<close>

theorem patch_inverse:
  assumes "applyHunks before hunks = Inr text"
    and "before = [] \<or> last before = LF" and "int (length before) \<le> maxFileBytes"
    and "\<forall>h\<in>set hunks. hunk_ok h \<and> list_all (\<lambda>l. \<not> snd l) (h_lines h)"
    and "eol_of text = eol_of before"
  shows "applyHunks text (map reverse_hunk hunks) = Inr before"
proof -
  obtain ps where ps: "list_all proper ps" "before = concat ps" using cut_into_lines[OF assms(2)] by blast
  then have src: "source_lines before = ps" by (simp add: source_lines_concat)
  obtain result where r: "patched (eol_of before) 0 0 ps hunks result" "text = concat result"
    using assms(1)[unfolded apply_exact] src by auto
  have eol: "eol_of before = [LF] \<or> eol_of before = CRLF" by (simp add: eol_of_def)
  have "list_all proper result"
    using patched_proper[OF r(1) ps(1) _ eol] assms(4) by (auto simp: hunk_ok_def)
  then have "source_lines text = result" by (simp add: r(2) source_lines_concat)
  then show ?thesis using patched_reverse[OF r(1)] assms(3,5) ps(2) by (auto simp: apply_exact)
qed

section \<open>Prepared changes\<close>

definition change_ok :: "patch_env \<Rightarrow> (string, string) gomap \<Rightarrow> patchFile \<Rightarrow> preparedChange \<Rightarrow> bool" where
  "change_ok E expected f c \<longleftrightarrow>
     target_ok E (pc_Path c) \<and> ''..'' \<notin> set (clean_parts (pc_Path c)) \<and> \<not> path_rooted (pc_Path c)
     \<and> (\<exists>raw. applyHunks raw (pf_hunks f) = Inr (pc_updated c)
          \<and> (if pc_Operation c = ''create''
             then raw = [] \<and> map_of expected (pc_Path c) = Some ''absent''
             else pn_read E (pc_Path c) = Inr raw \<and> map_of expected (pc_Path c) = Some (pn_hash E raw)
                  \<and> pc_Expected c = pn_hash E raw))
     \<and> (pc_Operation c = ''delete'' \<longrightarrow> pc_updated c = [])"

lemma relative_no_parent: "path_Clean name = name \<Longrightarrow> \<not> HasPrefix name ''/'' \<Longrightarrow> \<not> HasPrefix name ''../'' \<Longrightarrow> name \<noteq> ''..'' \<Longrightarrow>
    ''..'' \<notin> set (clean_parts name)"
proof
  assume c: "path_Clean name = name" and n: "\<not> HasPrefix name ''/''" "\<not> HasPrefix name ''../''" "name \<noteq> ''..''"
    and m: "''..'' \<in> set (clean_parts name)"
  obtain i where i: "i < length (clean_parts name)" "clean_parts name ! i = ''..''" using m by (auto simp: in_set_conv_nth)
  then have "clean_parts name ! 0 = ''..''" using clean_ok_dots[OF clean_ok_parts i] by (cases i) auto
  then obtain qs where ps: "clean_parts name = ''..'' # qs" using m by (cases "clean_parts name") auto
  have "\<not> path_rooted name" using n(1) by (simp add: path_rooted_def)
  then have "name = strings_Join (''..'' # qs) ''/''" using c ps by (cases qs) (auto simp: path_Clean_def)
  then show False using n(2,3) by (cases qs) (auto simp: HasPrefix_def)
qed

lemma patch_change_ok:
  assumes "patch_change E expected seen f = Inr c" "pn_validate E ''..'' \<noteq> None" "pn_validateCreate E ''..'' \<noteq> None"
  shows "change_ok E expected f c \<and> pn_lower E (pc_Path c) \<notin> set seen"
proof -
  from assms(1) obtain operation name hash raw updated where
      t: "target_ok E name" "pn_lower E name \<notin> set seen" "map_of expected name = Some hash"
    and s: "patch_source E operation name hash = Inr raw" and a: "applyHunks raw (pf_hunks f) = Inr updated"
    and d: "operation = ''delete'' \<longrightarrow> updated = []"
    and c: "c = \<lparr>pc_Operation = operation, pc_Path = name, pc_Expected = (if operation = ''create'' then [] else hash), pc_updated = updated\<rparr>"
    unfolding patch_change_def by (auto split: sum.splits prod.splits if_splits option.splits)
  have src: "if operation = ''create'' then raw = [] \<and> hash = ''absent'' \<and> pn_validateCreate E name = None
      else pn_read E name = Inr raw \<and> hash = pn_hash E raw \<and> pn_validate E name = None"
    using s unfolding patch_source_def by (auto split: if_splits option.splits sum.splits)
  have "name \<noteq> ''..''" using src assms(2,3) by (auto split: if_splits)
  then have p: "''..'' \<notin> set (clean_parts name)" "\<not> path_rooted name"
    using t(1) relative_no_parent by (auto simp: target_ok_def path_rooted_def)
  then show ?thesis using t src a d by (auto simp: change_ok_def c)
qed

lemma patch_changes_ok:
  assumes "patch_changes E expected seen acc fs = Inr cs" "pn_validate E ''..'' \<noteq> None" "pn_validateCreate E ''..'' \<noteq> None"
  shows "\<exists>ds. cs = acc @ ds \<and> list_all2 (change_ok E expected) fs ds
     \<and> distinct (map (\<lambda>c. pn_lower E (pc_Path c)) ds) \<and> set (map (\<lambda>c. pn_lower E (pc_Path c)) ds) \<inter> set seen = {}"
  using assms(1)
proof (induction fs arbitrary: seen acc)
  case (Cons f fs)
  obtain c where c: "patch_change E expected seen f = Inr c"
    and r: "patch_changes E expected (pn_lower E (pc_Path c) # seen) (acc @ [c]) fs = Inr cs"
    using Cons.prems by (auto split: sum.splits)
  note ok = patch_change_ok[OF c assms(2,3)]
  obtain ds where ds: "cs = (acc @ [c]) @ ds" "list_all2 (change_ok E expected) fs ds"
    "distinct (map (\<lambda>c. pn_lower E (pc_Path c)) ds)"
    "set (map (\<lambda>c. pn_lower E (pc_Path c)) ds) \<inter> set (pn_lower E (pc_Path c) # seen) = {}"
    using Cons.IH[OF r] by blast
  have "list_all2 (change_ok E expected) (f # fs) (c # ds)" using ok ds(2) by simp
  moreover have "distinct (map (\<lambda>c. pn_lower E (pc_Path c)) (c # ds))"
    "set (map (\<lambda>c. pn_lower E (pc_Path c)) (c # ds)) \<inter> set seen = {}" using ok ds(3,4) by auto
  ultimately show ?case using ds(1) by (intro exI[of _ "c # ds"]) simp
qed simp

text \<open>
  C25: A prepared patch does exactly what was reviewed. If the file tools refuse the parent directory,
  every prepared change belongs to one file of the parsed patch, names a distinct unprotected path
  inside the workspace, starts from the content whose hash the caller expected (or from nothing for
  a creation expected absent), is the exact application of the hunks to it, and deletes a file only
  by removing all of it.\<close>

theorem prepared_patch_exact:
  assumes "preparePatch E text expected = Inr changes"
    and "pn_validate E ''..'' \<noteq> None" and "pn_validateCreate E ''..'' \<noteq> None"
  shows "\<exists>files. parsePatch text = Inr files \<and> list_all2 (change_ok E expected) files changes
     \<and> distinct (map (\<lambda>c. pn_lower E (pc_Path c)) changes)"
proof -
  obtain files where f: "parsePatch text = Inr files" "patch_changes E expected [] [] files = Inr changes"
    using assms(1) by (auto simp: preparePatch_def split: sum.splits if_splits)
  then show ?thesis using patch_changes_ok[OF f(2) assms(2,3)] by auto
qed

section \<open>Witnesses\<close>

definition sample_hunk :: patchHunk where
  "sample_hunk = \<lparr>oldStart = 1, oldCount = 2, newStart = 1, newCount = 2,
     h_lines = [('' one'', False), (''-two'', False), (''+2'', False)]\<rparr>"

definition sample_file :: patchFile where
  "sample_file = \<lparr>pf_before = ''a/f.txt'', pf_after = ''b/f.txt'', pf_hunks = [sample_hunk]\<rparr>"

definition sample_before :: string where
  "sample_before = ''one'' @ [LF] @ ''two'' @ [LF] @ ''three'' @ [LF]"

definition sample_after :: string where
  "sample_after = ''one'' @ [LF] @ ''2'' @ [LF] @ ''three'' @ [LF]"

lemma sample_hunk_ok: "hunk_ok sample_hunk"
  by (simp add: hunk_ok_def sample_hunk_def range_ok_def maxFileBytes_def line_ok_def old_of_def new_of_def
      old_total_def new_total_def)

lemma sample_file_ok: "file_ok sample_file"
  using sample_hunk_ok by (simp add: file_ok_def sample_file_def)

lemma sample_print: "print_patch [sample_file] =
    ''--- a/f.txt'' @ [LF] @ ''+++ b/f.txt'' @ [LF] @ ''@@ -1,2 +1,2 @@'' @ [LF] @ '' one'' @ [LF] @ ''-two'' @ [LF] @ ''+2'' @ [LF]"
  by code_simp

lemma sample_print_valid: "ValidString (print_patch [sample_file])"
  unfolding sample_print by code_simp

theorem patch_roundtrip_witness: "parsePatch (print_patch [sample_file]) = Inr [sample_file]"
  by (rule patch_roundtrip[OF _ _ _ sample_print_valid]) (simp_all add: sample_file_ok sample_print maxFileBytes_def)

theorem parsed_patch_well_formed_witness:
  "\<exists>files. parsePatch (print_patch [sample_file]) = Inr files \<and> list_all file_ok files"
proof -
  have "parsePatch (print_patch [sample_file]) = Inr [sample_file]" by code_simp
  then show ?thesis using parsed_patch_well_formed by blast
qed

lemma sample_applied: "applyHunks sample_before [sample_hunk] = Inr sample_after"
  by code_simp

theorem patch_inverse_witness: "applyHunks sample_after (map reverse_hunk [sample_hunk]) = Inr sample_before"
proof (rule patch_inverse[OF sample_applied])
  show "eol_of sample_after = eol_of sample_before" by code_simp
  show "\<forall>h\<in>set [sample_hunk]. hunk_ok h \<and> list_all (\<lambda>l. \<not> snd l) (h_lines h)"
    using sample_hunk_ok by (simp add: sample_hunk_def)
qed (simp_all add: sample_before_def maxFileBytes_def)

definition sample_patch_env :: patch_env where
  "sample_patch_env =
     \<lparr>pn_protected = (\<lambda>_. False), pn_validateCreate = (\<lambda>n. if n = ''..'' then Some (ErrorsNew ''local'') else None),
      pn_validate = (\<lambda>n. if n = ''..'' then Some (ErrorsNew ''local'') else None),
      pn_read = (\<lambda>n. Inr sample_before), pn_hash = (\<lambda>s. replicate 64 CHR ''0''), pn_lower = (\<lambda>s. s)\<rparr>"

lemma sample_prepared_evaluated:
  "case preparePatch sample_patch_env (print_patch [sample_file]) [(''f.txt'', replicate 64 CHR ''0'')] of
     Inr [c] \<Rightarrow> pc_updated c = sample_after | _ \<Rightarrow> False"
  by code_simp

theorem prepared_patch_exact_witness:
  "\<exists>c files. preparePatch sample_patch_env (print_patch [sample_file]) [(''f.txt'', replicate 64 CHR ''0'')] = Inr [c]
     \<and> list_all2 (change_ok sample_patch_env [(''f.txt'', replicate 64 CHR ''0'')]) files [c]"
proof -
  obtain c where c: "preparePatch sample_patch_env (print_patch [sample_file]) [(''f.txt'', replicate 64 CHR ''0'')] = Inr [c]"
    using sample_prepared_evaluated by (auto split: sum.splits list.splits)
  show ?thesis using prepared_patch_exact[OF c] c by (auto simp: sample_patch_env_def)
qed

end
