(* ===== verification/Control.thy ===== *)
theory Control
  imports Ledger Execution_Gate Public_Policy
begin

text \<open>
  control.go and control_lifecycle.go: the owner-side boundary every settings change passes. An
  operation is planned, shown with a confirmation code, and then applied, rejected, withdrawn or
  invalidated; each decision is a line of the control journal, from which a restarted owner
  rebuilds its state. Every method holds the service mutex, so it is one step on the state, with
  one reading of the clock. Texts of arguments and snapshots are taken up to JSON layout. What a
  kind of operation does to the configuration, the keys, the extensions and the database is a
  field of the environment, as are JSON, hashes and the operating system's answers; the results of
  journal writes are a list the state consumes.
\<close>

section \<open>Operations\<close>

abbreviation "ControlRiskOrdinary \<equiv> ''ordinary''"
abbreviation "ControlRiskAuthority \<equiv> ''authority''"
abbreviation "ControlRiskDestructive \<equiv> ''destructive''"
abbreviation "ControlRiskIrreversible \<equiv> ''irreversible''"

abbreviation "ControlUserDirect \<equiv> ''user_direct''"
abbreviation "ControlModelProposed \<equiv> ''model_proposed_confirmed''"
abbreviation "ControlSystemRecovery \<equiv> ''system_recovery''"

abbreviation "ControlPending \<equiv> ''pending''"
abbreviation "ControlApplied \<equiv> ''applied''"
abbreviation "ControlRejected \<equiv> ''rejected''"
abbreviation "ControlStale \<equiv> ''stale''"
abbreviation "ControlPartiallyApplied \<equiv> ''partially_applied''"
abbreviation "ControlFailed \<equiv> ''failed''"

abbreviation "controlJournalMaxBytes \<equiv> (4194304 :: int)"
abbreviation "controlJournalLineBytes \<equiv> (524288 :: int)"
abbreviation "controlJournalMaxRecords \<equiv> (512 :: int)"
abbreviation "controlConfirmationTTL \<equiv> (600000000000 :: int)"
abbreviation "controlMaxCodeAttempts \<equiv> (5 :: int)"

abbreviation "ControlSetPermission \<equiv> ''execution.set_permission''"
abbreviation "ControlSetExecutionProfile \<equiv> ''execution.set_profile''"
abbreviation "ControlSetSandbox \<equiv> ''execution.set_sandbox''"
abbreviation "ControlSetNetwork \<equiv> ''execution.set_network''"
abbreviation "ControlSetFileScope \<equiv> ''execution.set_file_scope''"
abbreviation "ControlSetTool \<equiv> ''tools.set_enabled''"
abbreviation "ControlSetCommandPolicy \<equiv> ''commands.set_policy''"
abbreviation "ControlSetWorkspace \<equiv> ''config.set_workspace''"
abbreviation "ControlSetDefaultModel \<equiv> ''model.set_default''"
abbreviation "ControlSetModelProfile \<equiv> ''model.set_profile''"
abbreviation "ControlSetProviderEnabled \<equiv> ''providers.set_enabled''"
abbreviation "ControlSetServerPolicy \<equiv> ''server.set_policy''"
abbreviation "ControlRemoveModel \<equiv> ''model.remove''"
abbreviation "ControlSetAutoPolicy \<equiv> ''auto.set_policy''"
abbreviation "ControlSetHTTPPolicy \<equiv> ''http.set_policy''"
abbreviation "ControlSetChannelPolicy \<equiv> ''channels.set_policy''"
abbreviation "ControlSetMemoryPolicy \<equiv> ''memory.set_policy''"
abbreviation "ControlSetPromptPolicy \<equiv> ''prompt.set_policy''"
abbreviation "ControlSetCollaboration \<equiv> ''collaboration.set_policy''"
abbreviation "ControlSetRuntimeLimits \<equiv> ''runtime.set_limits''"
abbreviation "ControlSetSkillPolicy \<equiv> ''skills.set_policy''"
abbreviation "ControlSetExtensionPolicy \<equiv> ''extensions.set_policy''"
abbreviation "ControlSetMCPPolicy \<equiv> ''mcp.set_policy''"
abbreviation "ControlSetMCPProfile \<equiv> ''mcp.set_profile''"
abbreviation "ControlRemoveMCP \<equiv> ''mcp.remove''"
abbreviation "ControlRestartMCP \<equiv> ''mcp.restart''"
abbreviation "ControlSetKeyProfile \<equiv> ''keys.set_profile''"
abbreviation "ControlRemoveKey \<equiv> ''keys.remove''"
abbreviation "ControlProbeKey \<equiv> ''keys.probe''"
abbreviation "ControlImportSkill \<equiv> ''skills.import''"
abbreviation "ControlRemoveSkill \<equiv> ''skills.remove''"
abbreviation "ControlImportExtension \<equiv> ''extensions.import''"
abbreviation "ControlRemoveExtension \<equiv> ''extensions.remove''"
abbreviation "ControlRestartExtension \<equiv> ''extensions.restart''"
abbreviation "ControlClearExtensionData \<equiv> ''extensions.clear_data''"
abbreviation "ControlInitExtensionStorage \<equiv> ''extensions.init_storage''"
abbreviation "ControlChangeExtensionState \<equiv> ''extensions.change_state''"
abbreviation "ControlSetConversationModel \<equiv> ''conversation.set_model''"
abbreviation "ControlSetSpacePermission \<equiv> ''space.set_permission''"
abbreviation "ControlRenameConversation \<equiv> ''conversation.rename''"
abbreviation "ControlPinConversation \<equiv> ''conversation.set_pinned''"
abbreviation "ControlSetConversationCapabilities \<equiv> ''conversation.set_capabilities''"
abbreviation "ControlSetMemorySelection \<equiv> ''memory.set_selection''"
abbreviation "ControlRevert \<equiv> ''control.revert''"
abbreviation "ControlTelegramAccess \<equiv> ''telegram.set_access''"
abbreviation "ControlSetAttachmentPolicy \<equiv> ''attachments.set_policy''"
abbreviation "ControlSetPublicWeb \<equiv> ''public_web.set_policy''"
abbreviation "ControlDeleteAttachment \<equiv> ''attachments.delete''"
abbreviation "ControlCreateSpace \<equiv> ''space.create''"
abbreviation "ControlRenameSpace \<equiv> ''space.rename''"
abbreviation "ControlDeleteSpace \<equiv> ''space.delete''"
abbreviation "ControlMoveConversation \<equiv> ''space.move_conversation''"
abbreviation "ControlSpaceDefault \<equiv> ''space.set_default''"
abbreviation "ControlSpaceActive \<equiv> ''space.set_active''"
abbreviation "ControlSpaceMulti \<equiv> ''space.set_multi''"
abbreviation "ControlPersonPermission \<equiv> ''person.set_permission''"
abbreviation "ControlBranchConversation \<equiv> ''conversation.branch''"
abbreviation "ControlSetMemoryPin \<equiv> ''memory.set_pin''"

record ControlCatalogEntry =
  cg_Kind :: string
  cg_ResourceFamily :: string
  cg_Risk :: string
  cg_ModelProposable :: bool
  cg_Reversible :: bool

text \<open>The catalog without its descriptions and schemas, which are texts for the model.\<close>

definition catalog_entry :: "string \<Rightarrow> string \<Rightarrow> string \<Rightarrow> bool \<Rightarrow> bool \<Rightarrow> ControlCatalogEntry" where
  "catalog_entry kind family risk proposable reversible =
     \<lparr>cg_Kind = kind, cg_ResourceFamily = family, cg_Risk = risk, cg_ModelProposable = proposable, cg_Reversible = reversible\<rparr>"

definition ControlOperationCatalog :: "ControlCatalogEntry list" where
  "ControlOperationCatalog =
     [catalog_entry ControlTelegramAccess ''telegram.access'' ControlRiskAuthority True False,
      catalog_entry ControlSetAttachmentPolicy ''config.attachments'' ControlRiskAuthority True True,
      catalog_entry ControlSetPublicWeb ''config.public_web'' ControlRiskAuthority True True,
      catalog_entry ControlDeleteAttachment ''attachment'' ControlRiskDestructive True False,
      catalog_entry ControlSetServerPolicy ''config.server'' ControlRiskAuthority True True,
      catalog_entry ControlSetPermission ''config.execution'' ControlRiskAuthority True True,
      catalog_entry ControlSetExecutionProfile ''config.execution'' ControlRiskAuthority True True,
      catalog_entry ControlSetSandbox ''config.execution'' ControlRiskAuthority True True,
      catalog_entry ControlSetNetwork ''config.execution'' ControlRiskAuthority True True,
      catalog_entry ControlSetFileScope ''config.execution'' ControlRiskAuthority True True,
      catalog_entry ControlSetTool ''config.tools'' ControlRiskAuthority True True,
      catalog_entry ControlSetCommandPolicy ''config.commands'' ControlRiskAuthority True True,
      catalog_entry ControlSetWorkspace ''config.workspace'' ControlRiskAuthority True True,
      catalog_entry ControlSetDefaultModel ''config.models'' ControlRiskOrdinary True True,
      catalog_entry ControlSetModelProfile ''config.models'' ControlRiskAuthority True True,
      catalog_entry ControlSetProviderEnabled ''config.providers'' ControlRiskAuthority True True,
      catalog_entry ControlRemoveModel ''config.models'' ControlRiskDestructive True True,
      catalog_entry ControlSetAutoPolicy ''config.auto'' ControlRiskAuthority True True,
      catalog_entry ControlSetHTTPPolicy ''config.http'' ControlRiskAuthority True True,
      catalog_entry ControlSetChannelPolicy ''config.channels'' ControlRiskAuthority True True,
      catalog_entry ControlSetMemoryPolicy ''config.memory'' ControlRiskAuthority True True,
      catalog_entry ControlSetPromptPolicy ''config.prompt'' ControlRiskAuthority True True,
      catalog_entry ControlSetCollaboration ''config.collaboration'' ControlRiskAuthority True True,
      catalog_entry ControlSetRuntimeLimits ''config.limits'' ControlRiskOrdinary True True,
      catalog_entry ControlSetSkillPolicy ''config.skills'' ControlRiskAuthority True True,
      catalog_entry ControlSetExtensionPolicy ''config.extensions'' ControlRiskAuthority True True,
      catalog_entry ControlSetMCPPolicy ''config.mcp'' ControlRiskAuthority True True,
      catalog_entry ControlSetMCPProfile ''config.mcp'' ControlRiskAuthority False False,
      catalog_entry ControlRemoveMCP ''config.mcp'' ControlRiskDestructive False False,
      catalog_entry ControlRestartMCP ''config.mcp'' ControlRiskAuthority False False,
      catalog_entry ControlSetKeyProfile ''keys.profile'' ControlRiskAuthority False False,
      catalog_entry ControlRemoveKey ''keys.profile'' ControlRiskDestructive False False,
      catalog_entry ControlProbeKey ''keys.profile'' ControlRiskOrdinary False False,
      catalog_entry ControlImportSkill ''skills.catalog'' ControlRiskAuthority False False,
      catalog_entry ControlRemoveSkill ''skills.catalog'' ControlRiskDestructive False False,
      catalog_entry ControlImportExtension ''extensions.catalog'' ControlRiskAuthority False False,
      catalog_entry ControlRemoveExtension ''extensions.catalog'' ControlRiskDestructive False False,
      catalog_entry ControlRestartExtension ''extensions.runtime'' ControlRiskAuthority False False,
      catalog_entry ControlClearExtensionData ''extensions.data'' ControlRiskDestructive False False,
      catalog_entry ControlInitExtensionStorage ''extensions.storage'' ControlRiskAuthority False False,
      catalog_entry ControlChangeExtensionState ''extensions.state'' ControlRiskOrdinary True False,
      catalog_entry ControlSetConversationModel ''conversation.model'' ControlRiskOrdinary True True,
      catalog_entry ControlSetSpacePermission ''spaces'' ControlRiskAuthority True True,
      catalog_entry ControlCreateSpace ''spaces'' ControlRiskOrdinary True False,
      catalog_entry ControlRenameSpace ''spaces'' ControlRiskOrdinary True False,
      catalog_entry ControlDeleteSpace ''spaces'' ControlRiskDestructive True False,
      catalog_entry ControlMoveConversation ''spaces'' ControlRiskAuthority True False,
      catalog_entry ControlSpaceDefault ''spaces'' ControlRiskOrdinary True False,
      catalog_entry ControlSpaceActive ''spaces'' ControlRiskOrdinary True False,
      catalog_entry ControlSpaceMulti ''spaces'' ControlRiskOrdinary True False,
      catalog_entry ControlPersonPermission ''people'' ControlRiskAuthority True False,
      catalog_entry ControlBranchConversation ''conversation.branch'' ControlRiskOrdinary True False,
      catalog_entry ControlRenameConversation ''conversation.metadata'' ControlRiskOrdinary True True,
      catalog_entry ControlPinConversation ''conversation.metadata'' ControlRiskOrdinary True True,
      catalog_entry ControlSetConversationCapabilities ''conversation.capabilities'' ControlRiskAuthority True True,
      catalog_entry ControlSetMemoryPin ''memory.pin'' ControlRiskAuthority True False,
      catalog_entry ControlSetMemorySelection ''conversation.memory'' ControlRiskAuthority True True]"

definition catalogEntry :: "string \<Rightarrow> ControlCatalogEntry option" where
  "catalogEntry kind = find (\<lambda>e. cg_Kind e = kind) ControlOperationCatalog"

record ControlOperation =
  op_RemotePrincipal :: string
  op_ID :: string
  op_AttemptID :: string
  op_Kind :: string
  op_Authorization :: string
  op_ConversationID :: string
  op_ResourceIDs :: "string list"
  op_ExpectedRevisions :: "(string, 64 word) gomap"
  op_NewRevisions :: "(string, 64 word) gomap"
  op_OldValues :: "(string, string) gomap"
  op_ProposedValues :: "(string, string) gomap"
  op_Risk :: string
  op_Preview :: string
  op_Digest :: string
  op_CreatedAt :: string
  op_ExpiresAt :: string
  op_AppliedAt :: string
  op_Status :: string
  op_RevertClass :: string
  op_RevertOf :: string
  op_ErrorCode :: string
  op_Recovery :: string

definition no_operation :: ControlOperation where
  "no_operation =
     \<lparr>op_RemotePrincipal = [], op_ID = [], op_AttemptID = [], op_Kind = [], op_Authorization = [],
      op_ConversationID = [], op_ResourceIDs = [], op_ExpectedRevisions = [], op_NewRevisions = [],
      op_OldValues = [], op_ProposedValues = [], op_Risk = [], op_Preview = [], op_Digest = [],
      op_CreatedAt = [], op_ExpiresAt = [], op_AppliedAt = [], op_Status = [], op_RevertClass = [],
      op_RevertOf = [], op_ErrorCode = [], op_Recovery = []\<rparr>"

record ControlPlanRequest =
  pq_Kind :: string
  pq_Arguments :: string
  pq_Authorization :: string
  pq_ConversationID :: string
  pq_ExpectedRevisions :: "(string, 64 word) gomap"

record MCPServerConfig =
  mcp_Enabled :: bool
  mcp_Command :: string
  mcp_Args :: "string list"
  mcp_Cwd :: string
  mcp_Env :: "(string, string) gomap"
  mcp_EnvFrom :: "(string, string) gomap"
  mcp_HiddenTools :: "string list"
  mcp_TrustReadOnlyHint :: bool

text \<open>What the journal may show of a profile: names and counts, never the values of the environment.\<close>

record mcp_view =
  mv_id :: string
  mv_enabled :: bool
  mv_command :: string
  mv_cwd :: string
  mv_arg_count :: nat
  mv_env_names :: "string list"
  mv_env_from :: "string list"
  mv_hidden_tools :: "string list"
  mv_trust_read_only_hint :: bool

definition mcpControlValue :: "string \<Rightarrow> MCPServerConfig option \<Rightarrow> mcp_view option" where
  "mcpControlValue name config =
     map_option (\<lambda>c. \<lparr>mv_id = name, mv_enabled = mcp_Enabled c, mv_command = mcp_Command c, mv_cwd = mcp_Cwd c,
        mv_arg_count = length (mcp_Args c), mv_env_names = sort_Strings (map fst (mcp_Env c)),
        mv_env_from = sort_Strings (map fst (mcp_EnvFrom c)), mv_hidden_tools = mcp_HiddenTools c,
        mv_trust_read_only_hint = mcp_TrustReadOnlyHint c\<rparr>) config"

record InteractiveControlCapability =
  ik_token :: string
  ik_generation :: string
  ik_principal :: string
  ik_conversationID :: string
  ik_expiresAt :: int

record ControlAuthorization =
  az_Source :: string
  az_ConversationID :: string
  az_Principal :: string
  az_Code :: string
  az_Capability :: InteractiveControlCapability

record ControlConfirmation =
  kf_OperationID :: string
  kf_Code :: string
  kf_ExpiresAt :: string
  kf_AttemptsLeft :: int
  kf_ConversationID :: string
  kf_Preview :: string

record ControlResult =
  zr_Operation :: ControlOperation
  zr_Applied :: bool
  zr_NextRunRequired :: bool
  zr_Result :: string
  zr_ErrorCode :: string
  zr_Recovery :: string
  zr_Data :: string

definition no_result :: ControlResult where
  "no_result = \<lparr>zr_Operation = no_operation, zr_Applied = False, zr_NextRunRequired = False,
                zr_Result = [], zr_ErrorCode = [], zr_Recovery = [], zr_Data = []\<rparr>"

definition of_operation :: "ControlOperation \<Rightarrow> ControlResult" where
  "of_operation op = no_result\<lparr>zr_Operation := op\<rparr>"

record controlConfirmationState =
  ks_operationID :: string
  ks_codeMAC :: string
  ks_code :: string
  ks_conversationID :: string
  ks_expiresAt :: int
  ks_attempts :: int

record controlRecord =
  crd_Operation :: ControlOperation
  crd_Arguments :: string
  crd_Before :: "(string, string) gomap"
  crd_After :: "(string, string) gomap"
  crd_ResultData :: string
  crd_ExtensionDispatched :: bool

record controlJournalLine =
  jl_Action :: string
  jl_Record :: controlRecord
  jl_Hash :: string

section \<open>The decision gate\<close>

record controlDecisionGate =
  dg_controlBusy :: bool
  dg_hostBusy :: int
  dg_processBusy :: int

definition beginControl :: "controlDecisionGate \<Rightarrow> err \<times> controlDecisionGate" where
  "beginControl gate =
     (if dg_hostBusy gate > 0 \<or> dg_processBusy gate > 0 then (Some (Sentinel ErrControlBusy), gate)
      else if dg_controlBusy gate then (Some (Sentinel ErrControlBusy), gate)
      else (None, gate\<lparr>dg_controlBusy := True\<rparr>))"

definition endControl :: "controlDecisionGate \<Rightarrow> controlDecisionGate" where
  "endControl gate = gate\<lparr>dg_controlBusy := False\<rparr>"

definition beginProcess :: "controlDecisionGate \<Rightarrow> err \<times> controlDecisionGate" where
  "beginProcess gate =
     (if dg_controlBusy gate then (Some (Sentinel ErrControlBusy), gate)
      else (None, gate\<lparr>dg_processBusy := dg_processBusy gate + 1\<rparr>))"

definition endProcess :: "controlDecisionGate \<Rightarrow> controlDecisionGate" where
  "endProcess gate = (if dg_processBusy gate > 0 then gate\<lparr>dg_processBusy := dg_processBusy gate - 1\<rparr> else gate)"

definition beginHost :: "controlDecisionGate \<Rightarrow> err \<times> controlDecisionGate" where
  "beginHost gate =
     (if dg_controlBusy gate then (Some (Sentinel ErrControlBusy), gate)
      else (None, gate\<lparr>dg_hostBusy := dg_hostBusy gate + 1\<rparr>))"

definition endHost :: "controlDecisionGate \<Rightarrow> controlDecisionGate" where
  "endHost gate = (if dg_hostBusy gate > 0 then gate\<lparr>dg_hostBusy := dg_hostBusy gate - 1\<rparr> else gate)"

section \<open>The service and its environment\<close>

text \<open>
  The journal file: every line with its length in bytes including the newline, None where the line
  is not a record any more, and whether the last line lacks its newline. A write may succeed, fail
  before it wrote anything, be written but not synced, or stop after a proper prefix of the line.
\<close>

record journal_file =
  jf_lines :: "(int \<times> controlJournalLine option) list"
  jf_torn :: bool

datatype io = IoOk | IoFailed | IoUnsynced | IoTorn int

record 'w ControlService =
  srv_ownerKey :: string
  srv_generation :: string
  srv_file :: "journal_file option"
  srv_operations :: "(string, controlRecord) gomap"
  srv_revisions :: "(string, 64 word) gomap"
  srv_entries :: "controlJournalLine list"
  srv_confirmations :: "(string, controlConfirmationState) gomap"
  srv_keySecrets :: "(string, string) gomap"
  srv_mcpProfiles :: "(string, MCPServerConfig) gomap"
  srv_gate :: controlDecisionGate
  srv_baselineConfig :: string
  srv_baselineKeys :: string
  srv_baselineDB :: string
  srv_externalChange :: bool
  srv_runMu :: executionGate
  srv_db :: store
  srv_world :: 'w
  srv_io :: "io list"

text \<open>
  The branches of applyRecordLocked whose body is outside this model: the environment runs them on
  the record, the rest of the program and the database. Of the record they only set ResultData.
\<close>

datatype handler =
    InitExtensionStorage | ApplyBefore controlRecord | ApplyKey "string option" | ApplyMemoryPin
  | SelectMemory | RestartMCP | CapabilityLifecycle | ApplyBranch | AttachmentDelete | TelegramAccess
  | SpaceControl | ConversationControl | ProviderSwitch | ConfigControl

record space_arguments =
  sg_SpaceID :: string
  sg_Mode :: PermissionMode
  sg_Selection :: "PermissionSelection option"

record space_before =
  sb_Permissions :: "(string, PermissionSelection) gomap"
  sb_Person :: "PermissionMode option"

record extensionStateResult =
  xr_Found :: bool
  xr_OperationID :: string
  xr_Digest :: string
  xr_Revision :: int

text \<open>What the builder of a kind of operation fills in.\<close>

record built =
  bt_ConversationID :: string
  bt_ResourceIDs :: "string list"
  bt_Preview :: string
  bt_RevertClass :: string
  bt_Arguments :: string
  bt_Before :: "(string, string) gomap"
  bt_After :: "(string, string) gomap"

record 'w control_env =
  cn_format :: "int \<Rightarrow> string"
  cn_parse :: "string \<Rightarrow> int option"
  cn_upper :: "string \<Rightarrow> string"
  cn_hasControl :: "string \<Rightarrow> bool"
  cn_hmac :: "string \<Rightarrow> string \<Rightarrow> string"
  cn_sha256 :: "string \<Rightarrow> string"
  cn_marshal :: "string \<Rightarrow> controlRecord \<Rightarrow> string res"
  cn_line_size :: "controlJournalLine \<Rightarrow> int"
  cn_digest :: "controlRecord \<Rightarrow> string"
  cn_redacted :: "(string, string) gomap \<Rightarrow> (string, string) gomap"
  cn_revert_arguments :: "string \<Rightarrow> string"
  cn_build :: "'w \<Rightarrow> store \<Rightarrow> PublicEntry option \<Rightarrow> ControlPlanRequest \<Rightarrow> controlRecord \<Rightarrow> built res"
  cn_policy_fields :: "string \<Rightarrow> (string, string) gomap option"
  cn_extension_settings :: "'w \<Rightarrow> string \<Rightarrow> err"
  cn_public_web :: "'w \<Rightarrow> PublicWebConfig"
  cn_public_after :: "string \<Rightarrow> PublicWebConfig option"
  cn_activeIDs :: "'w \<Rightarrow> string option"
  cn_space_arguments :: "string \<Rightarrow> space_arguments option"
  cn_space_before :: "string \<Rightarrow> space_before option"
  cn_mcp_arguments :: "string \<Rightarrow> (string \<times> bool) option"
  cn_mcp_servers :: "'w \<Rightarrow> (string, MCPServerConfig) gomap"
  cn_mcp_operation :: "string \<Rightarrow> bool \<Rightarrow> string"
  cn_mcp_json :: "mcp_view option \<Rightarrow> string"
  cn_redactID :: "string \<Rightarrow> string"
  cn_find_key :: "'w \<Rightarrow> string \<Rightarrow> string res"
  cn_key_operation :: "string \<Rightarrow> string"
  cn_mcp_validate :: "'w \<Rightarrow> (string, MCPServerConfig) gomap \<Rightarrow> err"
  cn_mcp_configure :: "(string, MCPServerConfig) gomap \<Rightarrow> 'w \<Rightarrow> store \<Rightarrow> err \<times> 'w \<times> store"
  cn_state_arguments :: "string \<Rightarrow> string option"
  cn_state_rpc :: "string \<Rightarrow> string \<Rightarrow> string \<Rightarrow> string \<Rightarrow> 'w \<Rightarrow> string res \<times> 'w"
  cn_state_result :: "string \<Rightarrow> extensionStateResult option"
  cn_workflowOutcomeUnknown :: "go_error \<Rightarrow> bool"
  cn_handler :: "handler \<Rightarrow> PublicEntry option \<Rightarrow> controlRecord \<Rightarrow> 'w \<Rightarrow> store \<Rightarrow> err \<times> string \<times> 'w \<times> store"
  cn_baseline :: "'w \<Rightarrow> store \<Rightarrow> (string \<times> string \<times> string) res"
  cn_reload :: "'w \<Rightarrow> 'w res"
  cn_ledger :: ledger_env

definition revisionLocked :: "'w ControlService \<Rightarrow> string \<Rightarrow> 64 word" where
  "revisionLocked s resource =
     (case map_of (srv_revisions s) resource of None \<Rightarrow> 1 | Some v \<Rightarrow> if v > 0 then v else 1)"

definition stale_revision :: "'w ControlService \<Rightarrow> controlRecord \<Rightarrow> bool" where
  "stale_revision s r \<longleftrightarrow>
     list_ex (\<lambda>(resource, expected). revisionLocked s resource \<noteq> expected) (op_ExpectedRevisions (crd_Operation r))"

definition put :: "controlRecord \<Rightarrow> 'w ControlService \<Rightarrow> 'w ControlService" where
  "put r s = s\<lparr>srv_operations := AList.update (op_ID (crd_Operation r)) r (srv_operations s)\<rparr>"

definition set_operation :: "(ControlOperation \<Rightarrow> ControlOperation) \<Rightarrow> controlRecord \<Rightarrow> controlRecord" where
  "set_operation f r = r\<lparr>crd_Operation := f (crd_Operation r)\<rparr>"

definition clearKeySecretLocked :: "string \<Rightarrow> 'w ControlService \<Rightarrow> 'w ControlService" where
  "clearKeySecretLocked opID s = s\<lparr>srv_keySecrets := AList.delete opID (srv_keySecrets s)\<rparr>"

definition clearMCPProfileLocked :: "string \<Rightarrow> 'w ControlService \<Rightarrow> 'w ControlService" where
  "clearMCPProfileLocked opID s = s\<lparr>srv_mcpProfiles := AList.delete opID (srv_mcpProfiles s)\<rparr>"

definition delete_confirmation :: "string \<Rightarrow> 'w ControlService \<Rightarrow> 'w ControlService" where
  "delete_confirmation opID s = s\<lparr>srv_confirmations := AList.delete opID (srv_confirmations s)\<rparr>"

section \<open>The journal\<close>

definition file_size :: "journal_file \<Rightarrow> int" where
  "file_size f = sum_list (map fst (jf_lines f))"

definition next_io :: "'w ControlService \<Rightarrow> io \<times> 'w ControlService" where
  "next_io s = (case srv_io s of [] \<Rightarrow> (IoOk, s) | i # rest \<Rightarrow> (i, s\<lparr>srv_io := rest\<rparr>))"

definition no_file :: journal_file where
  "no_file = \<lparr>jf_lines = [], jf_torn = False\<rparr>"

text \<open>A line written after a torn one continues it, and the two together are no record.\<close>

definition write_line :: "int \<Rightarrow> controlJournalLine option \<Rightarrow> bool \<Rightarrow> journal_file \<Rightarrow> journal_file" where
  "write_line n l torn f =
     (if jf_torn f \<and> jf_lines f \<noteq> []
      then \<lparr>jf_lines = butlast (jf_lines f) @ [(fst (last (jf_lines f)) + n, None)], jf_torn = torn\<rparr>
      else \<lparr>jf_lines = jf_lines f @ [(n, l)], jf_torn = torn\<rparr>)"

definition keep_entries :: "controlJournalLine list \<Rightarrow> controlJournalLine list" where
  "keep_entries entries =
     (if int (length entries) > controlJournalMaxRecords
      then drop (length entries - nat controlJournalMaxRecords) entries else entries)"

definition compactLocked :: "'w control_env \<Rightarrow> 'w ControlService \<Rightarrow> err \<times> 'w ControlService" where
  "compactLocked E s =
     (case next_io s of
        (IoOk, s) \<Rightarrow>
          (None, s\<lparr>srv_file := Some \<lparr>jf_lines = map (\<lambda>l. (cn_line_size E l, Some l)) (keep_entries (srv_entries s)),
                                   jf_torn = False\<rparr>\<rparr>)
      | (_, s) \<Rightarrow> (Some (ErrorsNew ''write control journal''), s))"

definition write_entry :: "'w control_env \<Rightarrow> controlJournalLine \<Rightarrow> 'w ControlService \<Rightarrow> err \<times> 'w ControlService" where
  "write_entry E line s =
     (let f = (case srv_file s of None \<Rightarrow> no_file | Some f \<Rightarrow> f); failed = Some (ErrorsNew ''write control journal'')
      in case next_io s of
           (IoOk, s) \<Rightarrow> (None, s\<lparr>srv_file := Some (write_line (cn_line_size E line) (Some line) False f),
                                 srv_entries := keep_entries (srv_entries s @ [line])\<rparr>)
         | (IoFailed, s) \<Rightarrow> (failed, s)
         | (IoUnsynced, s) \<Rightarrow> (failed, s\<lparr>srv_file := Some (write_line (cn_line_size E line) (Some line) False f)\<rparr>)
         | (IoTorn n, s) \<Rightarrow> (failed, s\<lparr>srv_file := Some (write_line n None True f)\<rparr>))"

definition journal_line :: "'w control_env \<Rightarrow> string \<Rightarrow> controlRecord \<Rightarrow> string \<Rightarrow> controlJournalLine" where
  "journal_line E action r payload = \<lparr>jl_Action = action, jl_Record = r, jl_Hash = cn_sha256 E payload\<rparr>"

definition appendLocked :: "'w control_env \<Rightarrow> string \<Rightarrow> controlRecord \<Rightarrow> 'w ControlService \<Rightarrow> err \<times> 'w ControlService" where
  "appendLocked E action r s =
     (case cn_marshal E action r of
        Inl e \<Rightarrow> (Some e, s)
      | Inr payload \<Rightarrow>
          let line = journal_line E action r payload
          in if (case srv_file s of None \<Rightarrow> False
                 | Some f \<Rightarrow> file_size f + cn_line_size E line > controlJournalMaxBytes)
             then (case compactLocked E s of
                     (Some e, s) \<Rightarrow> (Some e, s)
                   | (None, s) \<Rightarrow> write_entry E line s)
             else write_entry E line s)"

text \<open>
  Direct settings gestures have an absolute lifetime, counted from CreatedAt. The range over the
  map reads the operations it started with; each is replaced at most once.
\<close>

definition direct_expired :: "'w control_env \<Rightarrow> int \<Rightarrow> ControlOperation \<Rightarrow> bool" where
  "direct_expired E now op \<longleftrightarrow>
     op_Status op = ControlPending \<and> op_Authorization op = ControlUserDirect \<and> op_AttemptID op = []
     \<and> (case cn_parse E (op_CreatedAt op) of None \<Rightarrow> False | Some created \<Rightarrow> created + controlConfirmationTTL \<le> now)"

definition expired_operation :: "controlRecord \<Rightarrow> controlRecord" where
  "expired_operation = set_operation (\<lambda>op. op\<lparr>op_Status := ControlStale, op_ErrorCode := ''expired'',
     op_Recovery := ''The direct setting request expired; start a new setting operation.''\<rparr>)"

fun expire_loop :: "'w control_env \<Rightarrow> int \<Rightarrow> (string \<times> controlRecord) list \<Rightarrow> 'w ControlService \<Rightarrow> err \<times> 'w ControlService" where
  "expire_loop E now [] s = (None, s)"
| "expire_loop E now ((opID, r) # rest) s =
     (if \<not> direct_expired E now (crd_Operation r) then expire_loop E now rest s
      else case appendLocked E ''expired'' (expired_operation r) s of
             (Some e, s) \<Rightarrow> (Some e, s)
           | (None, s) \<Rightarrow>
               expire_loop E now rest
                 (clearMCPProfileLocked opID (clearKeySecretLocked opID (delete_confirmation opID
                    (s\<lparr>srv_operations := AList.update opID (expired_operation r) (srv_operations s)\<rparr>)))))"

definition expireDirectLocked :: "'w control_env \<Rightarrow> int \<Rightarrow> 'w ControlService \<Rightarrow> err \<times> 'w ControlService" where
  "expireDirectLocked E now s = expire_loop E now (srv_operations s) s"

definition validControlHash :: "'w control_env \<Rightarrow> controlJournalLine \<Rightarrow> bool" where
  "validControlHash E line \<longleftrightarrow>
     jl_Hash line = cn_sha256 E (case cn_marshal E (jl_Action line) (jl_Record line) of Inl _ \<Rightarrow> [] | Inr p \<Rightarrow> p)"

text \<open>
  One scanned line. The scanner refuses a line that does not fit its buffer and sees only the first
  4 MiB and one byte of the file: a line cut off there is no record unless only its newline is cut.
\<close>

definition replay_line :: "controlJournalLine \<Rightarrow> 'w ControlService \<Rightarrow> 'w ControlService" where
  "replay_line line s =
     (let r = jl_Record line; op = crd_Operation r
      in s\<lparr>srv_entries := srv_entries s @ [line],
           srv_operations := AList.update (op_ID op) r (srv_operations s),
           srv_revisions :=
             (if op_Status op = ControlApplied
              then fold (\<lambda>(resource, revision) m.
                           if revision > (case map_of m resource of None \<Rightarrow> 0 | Some v \<Rightarrow> v)
                           then AList.update resource revision m else m)
                     (op_NewRevisions op) (srv_revisions s)
              else srv_revisions s)\<rparr>)"

fun scan_lines :: "'w control_env \<Rightarrow> int \<Rightarrow> (int \<times> controlJournalLine option) list \<Rightarrow> 'w ControlService \<Rightarrow> err \<times> 'w ControlService" where
  "scan_lines E limit [] s = (None, s)"
| "scan_lines E limit ((n, content) # rest) s =
     (if limit \<le> 0 then (None, s)
      else case content of
             None \<Rightarrow> (Some (Sentinel ErrControlJournal), s)
           | Some line \<Rightarrow>
               if n > controlJournalLineBytes \<or> n > limit + 1 \<or> jl_Action line = []
                  \<or> op_ID (crd_Operation (jl_Record line)) = [] \<or> \<not> validControlHash E line
               then (Some (Sentinel ErrControlJournal), s)
               else scan_lines E (limit - n) rest (replay_line line s))"

definition loadJournal :: "'w control_env \<Rightarrow> int \<Rightarrow> 'w ControlService \<Rightarrow> err \<times> 'w ControlService" where
  "loadJournal E now s =
     (case srv_file s of
        None \<Rightarrow> (None, s)
      | Some f \<Rightarrow>
          (case scan_lines E (controlJournalMaxBytes + 1) (jf_lines f) s of
             (Some e, s) \<Rightarrow> (Some e, s)
           | (None, s) \<Rightarrow> expireDirectLocked E now s))"

section \<open>Changes made outside the owner\<close>

definition refreshBaseline :: "'w control_env \<Rightarrow> 'w ControlService \<Rightarrow> err \<times> 'w ControlService" where
  "refreshBaseline E s =
     (case cn_baseline E (srv_world s) (srv_db s) of
        Inl e \<Rightarrow> (Some e, s)
      | Inr (config, keys, database) \<Rightarrow>
          (None, s\<lparr>srv_baselineConfig := config, srv_baselineKeys := keys, srv_baselineDB := database,
                   srv_externalChange := False\<rparr>))"

definition detectExternalChange :: "'w control_env \<Rightarrow> 'w ControlService \<Rightarrow> err \<times> 'w ControlService" where
  "detectExternalChange E s =
     (case cn_baseline E (srv_world s) (srv_db s) of
        Inl e \<Rightarrow> (Some e, s)
      | Inr (config, keys, database) \<Rightarrow>
          if srv_externalChange s \<or> srv_baselineConfig s \<noteq> config \<or> srv_baselineKeys s \<noteq> keys \<or> srv_baselineDB s \<noteq> database
          then (Some (Sentinel ErrExternalControlChange), s\<lparr>srv_externalChange := True\<rparr>)
          else (None, s))"

definition ReviewExternalChange :: "'w control_env \<Rightarrow> 'w ControlService \<Rightarrow> err \<times> 'w ControlService" where
  "ReviewExternalChange E s =
     (case cn_reload E (srv_world s) of
        Inl e \<Rightarrow> (Some e, s)
      | Inr w \<Rightarrow> refreshBaseline E (s\<lparr>srv_world := w\<rparr>))"

section \<open>Ending a proposal without applying it\<close>

definition settleInvalidProposal :: "'w control_env \<Rightarrow> controlRecord \<Rightarrow> 'w ControlService \<Rightarrow> err \<times> 'w ControlService" where
  "settleInvalidProposal E r s =
     (if op_AttemptID (crd_Operation r) = [] then (None, s)
      else case get_attempt (srv_db s) (op_AttemptID (crd_Operation r)) of
             None \<Rightarrow> (Some (Sentinel ErrNoRows), s)
           | Some a \<Rightarrow>
               if am_Status a \<noteq> ''pending'' then (None, s)
               else case get_run (srv_db s) (am_RunID a) of
                      None \<Rightarrow> (Some (Sentinel ErrNoRows), s)
                    | Some run \<Rightarrow>
                        (case settleControlProposal (cn_ledger E) run a
                                (failed_result (''control proposal ended without applying a setting: '' @ op_ErrorCode (crd_Operation r)
                                                @ ''; start a new request if needed''))
                                False (op_ErrorCode (crd_Operation r)) (Some ''failed'') (srv_db s) of
                           Inl e \<Rightarrow> (if errors_is e ErrControlAlreadyUsed then (None, s) else (Some e, s))
                         | Inr db \<Rightarrow> (None, s\<lparr>srv_db := db\<rparr>)))"

definition stale_operation :: "string \<Rightarrow> controlRecord \<Rightarrow> controlRecord" where
  "stale_operation code = set_operation (\<lambda>op. op\<lparr>op_Status := ControlStale, op_ErrorCode := code,
     op_Recovery := ''This proposal is no longer applicable. Start a new request with the current settings.''\<rparr>)"

definition invalidateProposalLocked ::
    "'w control_env \<Rightarrow> string \<Rightarrow> controlRecord \<Rightarrow> 'w ControlService \<Rightarrow> err \<times> 'w ControlService" where
  "invalidateProposalLocked E code r s =
     (let r = stale_operation code r; opID = op_ID (crd_Operation r)
      in case appendLocked E ''stale'' r s of
           (Some e, s) \<Rightarrow> (Some e, s)
         | (None, s) \<Rightarrow>
             settleInvalidProposal E r
               (clearMCPProfileLocked opID (clearKeySecretLocked opID (delete_confirmation opID (put r s)))))"

definition withdrawProposal :: "'w control_env \<Rightarrow> string \<Rightarrow> string \<Rightarrow> 'w ControlService \<Rightarrow> err \<times> 'w ControlService" where
  "withdrawProposal E opID code s =
     (case map_of (srv_operations s) opID of
        None \<Rightarrow> (None, s)
      | Some r \<Rightarrow>
          if op_Status (crd_Operation r) \<noteq> ControlPending then (None, s)
          else let r = set_operation (\<lambda>op. op\<lparr>op_Status := ControlRejected, op_ErrorCode := code\<rparr>) r
               in appendLocked E ''withdrawn'' r
                    (clearKeySecretLocked opID (delete_confirmation opID
                       (s\<lparr>srv_operations := AList.update opID r (srv_operations s)\<rparr>))))"

section \<open>Planning\<close>

definition operationForAttempt :: "string \<Rightarrow> 'w ControlService \<Rightarrow> controlRecord option" where
  "operationForAttempt attemptID s =
     (if attemptID = [] then None
      else find (\<lambda>r. op_AttemptID (crd_Operation r) = attemptID \<and> op_Status (crd_Operation r) = ControlPending)
             (map snd (srv_operations s)))"

definition bindAttempt :: "'w control_env \<Rightarrow> string \<Rightarrow> string \<Rightarrow> 'w ControlService \<Rightarrow> err \<times> 'w ControlService" where
  "bindAttempt E opID attemptID s =
     (if opID = [] \<or> attemptID = [] then (Some (Sentinel ErrControlOperationNotFound), s)
      else case map_of (srv_operations s) opID of
             None \<Rightarrow> (Some (Sentinel ErrControlOperationNotFound), s)
           | Some r \<Rightarrow>
               if op_AttemptID (crd_Operation r) \<noteq> [] \<and> op_AttemptID (crd_Operation r) \<noteq> attemptID
               then (Some (Sentinel ErrControlAlreadyUsed), s)
               else let r = set_operation (\<lambda>op. op\<lparr>op_AttemptID := attemptID\<rparr>) r
                    in appendLocked E ''bound'' r (s\<lparr>srv_operations := AList.update opID r (srv_operations s)\<rparr>))"

definition IssueInteractiveCapability ::
    "int \<Rightarrow> string \<Rightarrow> string \<Rightarrow> string \<Rightarrow> 'w ControlService \<Rightarrow> InteractiveControlCapability res" where
  "IssueInteractiveCapability now token conversationID prin s =
     (if TrimSpace prin = [] \<or> length prin > 256 \<or> ContainsAny prin [CHR 0x00, CHR 0x0D, CHR 0x0A]
      then Inl (Sentinel ErrControlUserInteractionRequired)
      else Inr \<lparr>ik_token = token, ik_generation = srv_generation s, ik_principal = prin,
                ik_conversationID = conversationID, ik_expiresAt = now + controlConfirmationTTL\<rparr>)"

text \<open>
  buildRecordLocked: the checks before the part that belongs to the kind of operation, that part
  (cn_build, which fills in resources, snapshots and preview), and the revisions it expects.
\<close>

definition build_checks :: "'w control_env \<Rightarrow> ControlPlanRequest \<Rightarrow> 'w ControlService \<Rightarrow> controlRecord res" where
  "build_checks E q s =
     (case catalogEntry (pq_Kind q) of
        None \<Rightarrow> Inl (Errorf ''harness: unsupported control operation %q'' [pq_Kind q] [])
      | Some ent \<Rightarrow>
          if pq_Authorization q = ControlModelProposed \<and> \<not> cg_ModelProposable ent
          then Inl (ErrorsNew ''harness: operation is user-only'')
          else
            (case (if pq_Authorization q = ControlModelProposed \<and> pq_Kind q = ControlSetExtensionPolicy
                   then (case cn_policy_fields E (pq_Arguments q) of
                           None \<Rightarrow> Some (ErrorsNew ''harness: invalid extension policy'')
                         | Some given \<Rightarrow>
                             if map_of given ''env_from'' \<noteq> None
                             then Some (ErrorsNew ''harness: extension secret mappings are user-only'')
                             else if map_of given ''settings'' \<noteq> None
                             then cn_extension_settings E (srv_world s) (pq_Arguments q)
                             else None)
                   else None) of
               Some e \<Rightarrow> Inl e
             | None \<Rightarrow>
                 Inr \<lparr>crd_Operation = no_operation\<lparr>op_Kind := pq_Kind q, op_Authorization := pq_Authorization q,
                        op_ConversationID := pq_ConversationID q, op_Risk := cg_Risk ent\<rparr>,
                      crd_Arguments = (if pq_Arguments q = [] then ''{}'' else pq_Arguments q),
                      crd_Before = [], crd_After = [], crd_ResultData = [], crd_ExtensionDispatched = False\<rparr>))"

definition expected_revisions :: "ControlPlanRequest \<Rightarrow> 'w ControlService \<Rightarrow> string list \<Rightarrow> (string, 64 word) gomap" where
  "expected_revisions q s resources =
     fold (\<lambda>resource. AList.update resource
             (case map_of (pq_ExpectedRevisions q) resource of Some v \<Rightarrow> v | None \<Rightarrow> revisionLocked s resource)) resources []"

definition build_finish :: "'w control_env \<Rightarrow> ControlPlanRequest \<Rightarrow> 'w ControlService \<Rightarrow> controlRecord \<Rightarrow> controlRecord res" where
  "build_finish E q s r =
     (if list_ex (\<lambda>(resource, _). resource \<notin> set (op_ResourceIDs (crd_Operation r))) (pq_ExpectedRevisions q)
      then Inl (Sentinel ErrControlStaleRevision)
      else Inr (set_operation (\<lambda>op. op\<lparr>
             op_ExpectedRevisions := expected_revisions q s (op_ResourceIDs op),
             op_OldValues := (if op_OldValues op = [] then cn_redacted E (crd_Before r) else op_OldValues op),
             op_ProposedValues := (if op_ProposedValues op = [] then cn_redacted E (crd_After r) else op_ProposedValues op)\<rparr>) r))"

definition with_built :: "built \<Rightarrow> controlRecord \<Rightarrow> controlRecord" where
  "with_built b r =
     (set_operation (\<lambda>op. op\<lparr>op_ConversationID := bt_ConversationID b, op_ResourceIDs := bt_ResourceIDs b,
        op_Preview := bt_Preview b, op_RevertClass := bt_RevertClass b\<rparr>) r)
     \<lparr>crd_Arguments := bt_Arguments b, crd_Before := bt_Before b, crd_After := bt_After b\<rparr>"

definition buildRecordLocked ::
    "'w control_env \<Rightarrow> PublicEntry option \<Rightarrow> ControlPlanRequest \<Rightarrow> 'w ControlService \<Rightarrow> controlRecord res" where
  "buildRecordLocked E ctx q s =
     (case build_checks E q s of
        Inl e \<Rightarrow> Inl e
      | Inr draft \<Rightarrow>
          (case cn_build E (srv_world s) (srv_db s) ctx q draft of
             Inl e \<Rightarrow> Inl e
           | Inr b \<Rightarrow> build_finish E q s (with_built b draft)))"

text \<open>A planned record: its identity, its times and its pending status.\<close>

definition stamp :: "'w control_env \<Rightarrow> int \<Rightarrow> string \<Rightarrow> controlRecord \<Rightarrow> controlRecord" where
  "stamp E now newID r =
     (let r = set_operation (\<lambda>op. op\<lparr>op_ID := newID, op_CreatedAt := cn_format E now,
                op_ExpiresAt := cn_format E (now + controlConfirmationTTL), op_Status := ControlPending\<rparr>) r
      in set_operation (\<lambda>op. op\<lparr>op_Digest := cn_digest E r\<rparr>) r)"

definition record_plan ::
    "'w control_env \<Rightarrow> controlRecord \<Rightarrow> 'w ControlService \<Rightarrow> ControlOperation res \<times> 'w ControlService" where
  "record_plan E r s =
     (case appendLocked E ''planned'' r (put r s) of
        (Some e, s) \<Rightarrow> (Inl e, s\<lparr>srv_operations := AList.delete (op_ID (crd_Operation r)) (srv_operations s)\<rparr>)
      | (None, s) \<Rightarrow> (Inr (crd_Operation r), s))"

definition PlanControlChange ::
    "'w control_env \<Rightarrow> int \<Rightarrow> string \<Rightarrow> PublicEntry option \<Rightarrow> ControlPlanRequest \<Rightarrow> 'w ControlService
     \<Rightarrow> ControlOperation res \<times> 'w ControlService" where
  "PlanControlChange E now newID ctx q s =
     (case detectExternalChange E s of
        (Some e, s) \<Rightarrow> (Inl e, s)
      | (None, s) \<Rightarrow>
          if pq_Authorization q \<notin> {ControlUserDirect, ControlModelProposed, ControlSystemRecovery}
          then (Inl (ErrorsNew ''harness: invalid control authorization source''), s)
          else if pq_Authorization q = ControlModelProposed \<and> TrimSpace (pq_ConversationID q) = []
          then (Inl (ErrorsNew ''harness: model control proposals require a conversation''), s)
          else
            (case buildRecordLocked E ctx q s of
               Inl e \<Rightarrow> (Inl e, s)
             | Inr r \<Rightarrow>
                 if stale_revision s r then (Inl (Sentinel ErrControlStaleRevision), s)
                 else
                   record_plan E
                     (set_operation (\<lambda>op. op\<lparr>
                          op_RemotePrincipal := (case PublicEntryFrom ctx of None \<Rightarrow> op_RemotePrincipal op | Some e \<Rightarrow> en_Principal e),
                          op_RevertClass := (if op_Risk op = ControlRiskIrreversible then ''none''
                                             else if op_RevertClass op = [] then ''exact_snapshot'' else op_RevertClass op)\<rparr>)
                        (stamp E now newID r)) s))"

definition persistKeyPlanLocked ::
    "'w control_env \<Rightarrow> int \<Rightarrow> string \<Rightarrow> controlRecord \<Rightarrow> string \<Rightarrow> 'w ControlService
     \<Rightarrow> ControlOperation res \<times> 'w ControlService" where
  "persistKeyPlanLocked E now newID r secret s =
     (case record_plan E (stamp E now newID r)
             (if secret \<noteq> [] then s\<lparr>srv_keySecrets := AList.update newID secret (srv_keySecrets s)\<rparr> else s) of
        (Inl e, s) \<Rightarrow> (Inl e, clearKeySecretLocked newID s)
      | (Inr op, s) \<Rightarrow> (Inr op, s))"

definition PlanRevertControlChange ::
    "'w control_env \<Rightarrow> int \<Rightarrow> string \<Rightarrow> string \<Rightarrow> string \<Rightarrow> string \<Rightarrow> 'w ControlService
     \<Rightarrow> ControlOperation res \<times> 'w ControlService" where
  "PlanRevertControlChange E now newID opID source conversationID s =
     (case map_of (srv_operations s) opID of
        None \<Rightarrow> (Inl (Sentinel ErrControlOperationNotFound), s)
      | Some original \<Rightarrow>
          let op = crd_Operation original
          in if op_Status op \<noteq> ControlApplied \<or> op_RevertClass op = ''none'' then (Inl (Sentinel ErrControlIrreversible), s)
             else if crd_Before original = [] then (Inl (Sentinel ErrControlIrreversible), s)
             else record_plan E
                    (stamp E now newID
                       \<lparr>crd_Operation = no_operation\<lparr>op_Kind := ControlRevert, op_Authorization := source,
                          op_ConversationID := conversationID, op_ResourceIDs := op_ResourceIDs op,
                          op_ExpectedRevisions := op_NewRevisions op, op_Risk := op_Risk op,
                          op_Preview := ''Revert '' @ op_Kind op @ '' to its exact protected previous value.'',
                          op_RevertClass := ''none'', op_RevertOf := opID\<rparr>,
                        crd_Arguments = cn_revert_arguments E opID, crd_Before = crd_After original,
                        crd_After = crd_Before original, crd_ResultData = [], crd_ExtensionDispatched = False\<rparr>) s)"

text \<open>
  The payload of an MCP profile stays in memory; after a restart it has to be entered again for the
  unchanged operation.
\<close>

definition validMCPControlID :: "'w control_env \<Rightarrow> string \<Rightarrow> bool" where
  "validMCPControlID E name \<longleftrightarrow>
     name \<noteq> [] \<and> length name \<le> 64 \<and> \<not> cn_hasControl E name \<and> \<not> ContainsAny name [CHR ''/'', CHR 0x5C]"

definition mcp_record :: "'w control_env \<Rightarrow> string \<Rightarrow> MCPServerConfig \<Rightarrow> bool \<Rightarrow> 'w ControlService \<Rightarrow> controlRecord" where
  "mcp_record E name config remove s =
     (let resource = ''config.mcp:'' @ name;
          before = [(resource, cn_mcp_json E (mcpControlValue name (map_of (cn_mcp_servers E (srv_world s)) name)))];
          after = [(resource, cn_mcp_json E (mcpControlValue name (if remove then None else Some config)))]
      in \<lparr>crd_Operation = no_operation\<lparr>
            op_Kind := (if remove then ControlRemoveMCP else ControlSetMCPProfile),
            op_Authorization := ControlUserDirect, op_ResourceIDs := [resource],
            op_ExpectedRevisions := [(resource, revisionLocked s resource)],
            op_Risk := (if remove then ControlRiskDestructive else ControlRiskAuthority),
            op_Preview := (if remove then ''Remove MCP server profile '' @ cn_redactID E name @ ''.''
                           else ''Save MCP server profile '' @ cn_redactID E name
                                @ '' without exposing its command environment.''),
            op_OldValues := cn_redacted E before, op_ProposedValues := cn_redacted E after,
            op_RevertClass := ''none''\<rparr>,
          crd_Arguments = cn_mcp_operation E name remove, crd_Before = before, crd_After = after,
          crd_ResultData = [], crd_ExtensionDispatched = False\<rparr>)"

definition PlanMCPProfileChange ::
    "'w control_env \<Rightarrow> int \<Rightarrow> string \<Rightarrow> string \<Rightarrow> MCPServerConfig \<Rightarrow> bool \<Rightarrow> 'w ControlService
     \<Rightarrow> ControlOperation res \<times> 'w ControlService" where
  "PlanMCPProfileChange E now newID name config remove s =
     (case detectExternalChange E s of
        (Some e, s) \<Rightarrow> (Inl e, s)
      | (None, s) \<Rightarrow>
          let name = TrimSpace name; servers = cn_mcp_servers E (srv_world s)
          in if \<not> validMCPControlID E name then (Inl (ErrorsNew ''harness: invalid MCP server identifier''), s)
             else if remove \<and> map_of servers name = None then (Inl (ErrorsNew ''harness: MCP server not found''), s)
             else
               (case cn_mcp_validate E (srv_world s)
                       (if remove then AList.delete name servers else AList.update name config servers) of
                  Some e \<Rightarrow> (Inl e, s)
                | None \<Rightarrow>
                    (case record_plan E (stamp E now newID (mcp_record E name config remove s))
                            (if remove then s else s\<lparr>srv_mcpProfiles := AList.update newID config (srv_mcpProfiles s)\<rparr>) of
                       (Inl e, s) \<Rightarrow> (Inl e, clearMCPProfileLocked newID s)
                     | (Inr op, s) \<Rightarrow> (Inr op, s))))"

definition PlanKeyProbe ::
    "'w control_env \<Rightarrow> int \<Rightarrow> string \<Rightarrow> string \<Rightarrow> 'w ControlService \<Rightarrow> ControlOperation res \<times> 'w ControlService" where
  "PlanKeyProbe E now newID reference s =
     (case detectExternalChange E s of
        (Some e, s) \<Rightarrow> (Inl e, s)
      | (None, s) \<Rightarrow>
          (case cn_find_key E (srv_world s) reference of
             Inl e \<Rightarrow> (Inl e, s)
           | Inr profile \<Rightarrow>
               persistKeyPlanLocked E now newID
                 \<lparr>crd_Operation = no_operation\<lparr>op_Kind := ControlProbeKey, op_Authorization := ControlUserDirect,
                    op_ResourceIDs := [''keys.profiles''],
                    op_ExpectedRevisions := [(''keys.profiles'', revisionLocked s ''keys.profiles'')],
                    op_Risk := ControlRiskOrdinary,
                    op_Preview := ''Test Key profile '' @ cn_redactID E profile
                      @ '' and record the provider response category. No settings will be changed.'',
                    op_RevertClass := ''none''\<rparr>,
                  crd_Arguments = cn_key_operation E profile, crd_Before = [], crd_After = [], crd_ResultData = [],
                  crd_ExtensionDispatched = False\<rparr> [] s))"

definition ReenterMCPProfile ::
    "'w control_env \<Rightarrow> string \<Rightarrow> string \<Rightarrow> MCPServerConfig \<Rightarrow> bool \<Rightarrow> 'w ControlService
     \<Rightarrow> ControlOperation res \<times> 'w ControlService" where
  "ReenterMCPProfile E opID name config remove s =
     (case detectExternalChange E s of
        (Some e, s) \<Rightarrow> (Inl e, s)
      | (None, s) \<Rightarrow>
          let name = TrimSpace name
          in if \<not> validMCPControlID E name \<or> remove then (Inl (ErrorsNew ''harness: invalid MCP re-entry request''), s)
             else
               (case map_of (srv_operations s) opID of
                  None \<Rightarrow> (Inl (Sentinel ErrControlOperationNotFound), s)
                | Some r \<Rightarrow>
                    if op_Status (crd_Operation r) \<noteq> ControlPending \<or> op_Kind (crd_Operation r) \<noteq> ControlSetMCPProfile
                    then (Inl (Sentinel ErrControlAlreadyUsed), s)
                    else if cn_mcp_arguments E (crd_Arguments r) \<noteq> Some (name, False)
                    then (Inl (ErrorsNew ''harness: MCP re-entry target changed''), s)
                    else
                      (case cn_mcp_validate E (srv_world s) (AList.update name config (cn_mcp_servers E (srv_world s))) of
                         Some e \<Rightarrow> (Inl e, s)
                       | None \<Rightarrow>
                           (case appendLocked E ''reentered'' r
                                   (s\<lparr>srv_mcpProfiles := AList.update opID config (srv_mcpProfiles s)\<rparr>) of
                              (Some e, s) \<Rightarrow> (Inl e, clearMCPProfileLocked opID s)
                            | (None, s) \<Rightarrow> (Inr (crd_Operation r), s)))))"

section \<open>Confirmation codes\<close>

definition control_alphabet :: string where
  "control_alphabet = ''0123456789ABCDEFGHJKMNPQRSTVWXYZ''"

definition control_code :: "bytes \<Rightarrow> string" where
  "control_code raw = map (\<lambda>b. control_alphabet ! (unat b mod 32)) raw"

definition controlCodeMAC :: "'w control_env \<Rightarrow> 'w ControlService \<Rightarrow> string \<Rightarrow> string \<Rightarrow> string \<Rightarrow> string" where
  "controlCodeMAC E s opID conversationID code =
     cn_hmac E (srv_ownerKey s)
       (srv_generation s @ [CHR 0x00] @ opID @ [CHR 0x00] @ conversationID @ [CHR 0x00] @ code)"

definition newControlCodeLocked ::
    "'w control_env \<Rightarrow> bytes \<Rightarrow> string \<Rightarrow> string \<Rightarrow> int \<Rightarrow> 'w ControlService \<Rightarrow> 'w ControlService" where
  "newControlCodeLocked E raw opID conversationID now s =
     s\<lparr>srv_confirmations := AList.update opID
         \<lparr>ks_operationID = opID, ks_codeMAC = controlCodeMAC E s opID conversationID (control_code raw),
          ks_code = control_code raw, ks_conversationID = conversationID,
          ks_expiresAt = now + controlConfirmationTTL, ks_attempts = 0\<rparr> (srv_confirmations s)\<rparr>"

definition typed_code :: "'w control_env \<Rightarrow> string \<Rightarrow> string" where
  "typed_code E code = cn_upper E (filter (\<lambda>c. c \<noteq> CHR '' '') (filter (\<lambda>c. c \<noteq> CHR ''-'') code))"

definition verifyCodeLocked ::
    "'w control_env \<Rightarrow> int \<Rightarrow> controlRecord \<Rightarrow> ControlAuthorization \<Rightarrow> 'w ControlService \<Rightarrow> err \<times> 'w ControlService" where
  "verifyCodeLocked E now r auth s =
     (let opID = op_ID (crd_Operation r)
      in case map_of (srv_confirmations s) opID of
           None \<Rightarrow> (Some (Sentinel ErrControlConfirmationRequired), s)
         | Some k \<Rightarrow>
             if now > ks_expiresAt k then (Some (Sentinel ErrControlExpired), s)
             else if ks_attempts k \<ge> controlMaxCodeAttempts then (Some (Sentinel ErrControlWrongCode), s)
             else if az_ConversationID auth \<noteq> ks_conversationID k then (Some (Sentinel ErrControlWrongCode), s)
             else if controlCodeMAC E s opID (ks_conversationID k) (typed_code E (az_Code auth)) \<noteq> ks_codeMAC k
             then (Some (Sentinel ErrControlWrongCode),
                   s\<lparr>srv_confirmations := AList.update opID (k\<lparr>ks_attempts := ks_attempts k + 1\<rparr>) (srv_confirmations s)\<rparr>)
             else (None, s))"

definition validateCapabilityLocked :: "int \<Rightarrow> ControlAuthorization \<Rightarrow> 'w ControlService \<Rightarrow> err" where
  "validateCapabilityLocked now auth s =
     (let c = az_Capability auth
      in if ik_token c = [] \<or> ik_generation c \<noteq> srv_generation s \<or> ik_principal c = [] \<or> az_Principal auth = []
            \<or> az_Principal auth \<noteq> ik_principal c \<or> (ik_expiresAt c \<noteq> 0 \<and> now > ik_expiresAt c)
         then Some (Sentinel ErrControlUserInteractionRequired)
         else if az_ConversationID auth \<noteq> [] \<and> ik_conversationID c \<noteq> [] \<and> az_ConversationID auth \<noteq> ik_conversationID c
         then Some (Sentinel ErrControlUserInteractionRequired)
         else None)"

text \<open>
  RenderConfirmation in three parts: binding the operation to the remote entry that asks (it may
  move to another entry only while its run waits and no code is current), the checks, and the code.
\<close>

definition other_entry :: "PublicEntry option \<Rightarrow> controlRecord \<Rightarrow> bool" where
  "other_entry ctx r \<longleftrightarrow>
     (case PublicEntryFrom ctx of
        None \<Rightarrow> False
      | Some ent \<Rightarrow> op_RemotePrincipal (crd_Operation r) \<noteq> [] \<and> en_Principal ent \<noteq> op_RemotePrincipal (crd_Operation r))"

definition rebind_allowed :: "int \<Rightarrow> string \<Rightarrow> controlRecord \<Rightarrow> 'w ControlService \<Rightarrow> err" where
  "rebind_allowed now opID r s =
     (let op = crd_Operation r
      in if op_AttemptID op = [] \<or> op_Authorization op \<noteq> ControlModelProposed
            \<or> (case map_of (srv_confirmations s) opID of None \<Rightarrow> False | Some k \<Rightarrow> now < ks_expiresAt k)
         then Some (Sentinel ErrControlUserInteractionRequired)
         else case get_attempt (srv_db s) (op_AttemptID op) of
                None \<Rightarrow> Some (Sentinel ErrControlAlreadyUsed)
              | Some a \<Rightarrow>
                  if am_Status a \<noteq> ''pending'' then Some (Sentinel ErrControlAlreadyUsed)
                  else case get_run (srv_db s) (am_RunID a) of
                         None \<Rightarrow> Some (Sentinel ErrControlAlreadyUsed)
                       | Some run \<Rightarrow>
                           if rn_Status run \<noteq> ''waiting_confirmation'' \<or> rn_ConversationID run \<noteq> op_ConversationID op
                           then Some (Sentinel ErrControlAlreadyUsed) else None)"

definition set_remote :: "string \<Rightarrow> controlRecord \<Rightarrow> controlRecord" where
  "set_remote prin = set_operation (\<lambda>op. op\<lparr>op_RemotePrincipal := prin\<rparr>)"

definition render_bind ::
    "'w control_env \<Rightarrow> int \<Rightarrow> PublicEntry option \<Rightarrow> string \<Rightarrow> controlRecord \<Rightarrow> 'w ControlService
     \<Rightarrow> controlRecord res \<times> 'w ControlService" where
  "render_bind E now ctx opID r s =
     (case PublicEntryFrom ctx of
        None \<Rightarrow> (Inr r, s)
      | Some ent \<Rightarrow>
          let r' = set_remote (en_Principal ent) r;
              s' = s\<lparr>srv_operations := AList.update opID r' (srv_operations s)\<rparr>
          in if other_entry ctx r then
               (case rebind_allowed now opID r s of
                  Some e \<Rightarrow> (Inl e, s)
                | None \<Rightarrow>
                    (case appendLocked E ''surface_rebound'' r' (delete_confirmation opID s') of
                       (Some e, s) \<Rightarrow> (Inl e, s)
                     | (None, s) \<Rightarrow> (Inr r', s)))
             else if op_RemotePrincipal (crd_Operation r) = [] then
               (case appendLocked E ''surface_bound'' r' s' of
                  (Some e, s) \<Rightarrow> (Inl e, s)
                | (None, s) \<Rightarrow> (Inr r', s))
             else (Inr r, s))"

definition confirmation :: "'w control_env \<Rightarrow> string \<Rightarrow> string \<Rightarrow> controlRecord \<Rightarrow> controlConfirmationState \<Rightarrow> ControlConfirmation" where
  "confirmation E opID conversationID r k =
     \<lparr>kf_OperationID = opID, kf_Code = ks_code k, kf_ExpiresAt = cn_format E (ks_expiresAt k),
      kf_AttemptsLeft = max 0 (controlMaxCodeAttempts - ks_attempts k),
      kf_ConversationID = conversationID, kf_Preview = op_Preview (crd_Operation r)\<rparr>"

definition render_code ::
    "'w control_env \<Rightarrow> int \<Rightarrow> bytes \<Rightarrow> string \<Rightarrow> string \<Rightarrow> controlRecord \<Rightarrow> 'w ControlService
     \<Rightarrow> ControlConfirmation res \<times> 'w ControlService" where
  "render_code E now raw opID conversationID r s =
     (case (case map_of (srv_confirmations s) opID of
              Some k \<Rightarrow> if ks_conversationID k \<noteq> conversationID \<or> now > ks_expiresAt k \<or> ks_attempts k \<ge> controlMaxCodeAttempts
                        then None else Some k
            | None \<Rightarrow> None) of
        Some k \<Rightarrow> (Inr (confirmation E opID conversationID r k), s)
      | None \<Rightarrow>
          let s1 = newControlCodeLocked E raw opID conversationID now s;
              r' = set_operation (\<lambda>op. op\<lparr>op_ExpiresAt := cn_format E (now + controlConfirmationTTL)\<rparr>) r
          in case appendLocked E ''reissued'' r' (s1\<lparr>srv_operations := AList.update opID r' (srv_operations s1)\<rparr>) of
               (Some e, s) \<Rightarrow> (Inl e, s)
             | (None, s) \<Rightarrow>
                 (Inr (confirmation E opID conversationID r' (the (map_of (srv_confirmations s1) opID))), s))"

definition render_checked ::
    "'w control_env \<Rightarrow> int \<Rightarrow> bytes \<Rightarrow> string \<Rightarrow> string \<Rightarrow> string \<Rightarrow> controlRecord \<Rightarrow> 'w ControlService
     \<Rightarrow> ControlConfirmation res \<times> 'w ControlService" where
  "render_checked E now raw opID conversationID prin r s =
     (if op_Status (crd_Operation r) \<noteq> ControlPending then (Inl (Sentinel ErrControlAlreadyUsed), s)
      else if stale_revision s r then
        (case invalidateProposalLocked E ''stale_revision'' r s of
           (Some e, s) \<Rightarrow> (Inl e, s)
         | (None, s) \<Rightarrow> (Inl (Sentinel ErrControlStaleRevision), s))
      else let chat = (if conversationID = [] then op_ConversationID (crd_Operation r) else conversationID)
           in if chat \<noteq> op_ConversationID (crd_Operation r) \<or> TrimSpace prin = []
              then (Inl (Sentinel ErrControlUserInteractionRequired), s)
              else render_code E now raw opID chat r s)"

definition RenderConfirmation ::
    "'w control_env \<Rightarrow> int \<Rightarrow> bytes \<Rightarrow> PublicEntry option \<Rightarrow> string \<Rightarrow> string \<Rightarrow> string \<Rightarrow> 'w ControlService
     \<Rightarrow> ControlConfirmation res \<times> 'w ControlService" where
  "RenderConfirmation E now raw ctx opID conversationID prin s =
     (case map_of (srv_operations s) opID of
        None \<Rightarrow> (Inl (Sentinel ErrControlOperationNotFound), s)
      | Some _ \<Rightarrow>
          (case expireDirectLocked E now s of
             (Some e, s) \<Rightarrow> (Inl e, s)
           | (None, s) \<Rightarrow>
               let r = the (map_of (srv_operations s) opID)
               in if op_ErrorCode (crd_Operation r) = ''expired'' then (Inl (Sentinel ErrControlExpired), s)
                  else (case render_bind E now ctx opID r s of
                          (Inl e, s) \<Rightarrow> (Inl e, s)
                        | (Inr r, s) \<Rightarrow> render_checked E now raw opID conversationID prin r s)))"

section \<open>Rejecting\<close>

definition rejectControlChange ::
    "'w control_env \<Rightarrow> int \<Rightarrow> PublicEntry option \<Rightarrow> string \<Rightarrow> ControlAuthorization \<Rightarrow> bool \<Rightarrow> 'w ControlService
     \<Rightarrow> ControlResult \<times> err \<times> 'w ControlService" where
  "rejectControlChange E now ctx opID auth fromRun s =
     (case map_of (srv_operations s) opID of
        None \<Rightarrow> (no_result, Some (Sentinel ErrControlOperationNotFound), s)
      | Some r \<Rightarrow>
          let op = crd_Operation r; same = of_operation op
          in if op_Status op \<noteq> ControlPending then (same, Some (Sentinel ErrControlAlreadyUsed), s)
             else if other_entry ctx r then (no_result, Some (Sentinel ErrControlUserInteractionRequired), s)
             else if validateCapabilityLocked now auth s \<noteq> None then (same, validateCapabilityLocked now auth s, s)
             else if az_ConversationID auth \<noteq> [] \<and> op_ConversationID op \<noteq> [] \<and> az_ConversationID auth \<noteq> op_ConversationID op
             then (same, Some (Sentinel ErrControlUserInteractionRequired), s)
             else
               let r' = set_operation (\<lambda>op. op\<lparr>op_Status := ControlRejected, op_ErrorCode := ''rejected''\<rparr>) r;
                   now_rejected = of_operation (crd_Operation r')
               in case appendLocked E ''rejected'' r' (s\<lparr>srv_operations := AList.update opID r' (srv_operations s)\<rparr>) of
                    (Some e, s) \<Rightarrow> (now_rejected, Some e, s)
                  | (None, s) \<Rightarrow>
                      let s = clearMCPProfileLocked opID (clearKeySecretLocked opID (delete_confirmation opID s))
                      in (case (if fromRun then (None, s) else settleInvalidProposal E r' s) of
                            (Some e, s) \<Rightarrow> (now_rejected, Some e, s)
                          | (None, s) \<Rightarrow> (now_rejected\<lparr>zr_Result := ''rejected''\<rparr>, None, s)))"

section \<open>Applying\<close>

definition isSpaceControl :: "string \<Rightarrow> bool" where
  "isSpaceControl kind \<longleftrightarrow>
     kind \<in> {ControlCreateSpace, ControlRenameSpace, ControlDeleteSpace, ControlMoveConversation, ControlSpaceDefault,
             ControlSpaceActive, ControlSpaceMulti, ControlSetSpacePermission, ControlPersonPermission}"

definition isConversationControl :: "string \<Rightarrow> bool" where
  "isConversationControl kind \<longleftrightarrow>
     kind \<in> {ControlSetConversationModel, ControlRenameConversation, ControlPinConversation, ControlSetConversationCapabilities}"

definition spacePermissionReduction :: "'w control_env \<Rightarrow> controlRecord \<Rightarrow> bool" where
  "spacePermissionReduction E r \<longleftrightarrow>
     op_Kind (crd_Operation r) \<in> {ControlSetSpacePermission, ControlPersonPermission} \<and>
     (case (cn_space_arguments E (crd_Arguments r),
            cn_space_before E (case map_of (crd_Before r) ''spaces'' of None \<Rightarrow> [] | Some v \<Rightarrow> v)) of
        (Some args, Some before) \<Rightarrow>
          if op_Kind (crd_Operation r) = ControlPersonPermission
          then (case sb_Person before of None \<Rightarrow> False | Some m \<Rightarrow> permissionRank (sg_Mode args) < permissionRank m)
          else (case sg_Selection args of
                  None \<Rightarrow> False
                | Some sel \<Rightarrow>
                    permissionRank (ps_Mode sel)
                    < permissionRank (case map_of (sb_Permissions before) (sg_SpaceID args) of None \<Rightarrow> [] | Some p \<Rightarrow> ps_Mode p))
      | _ \<Rightarrow> False)"

definition run_handler ::
    "'w control_env \<Rightarrow> handler \<Rightarrow> PublicEntry option \<Rightarrow> controlRecord \<Rightarrow> 'w ControlService
     \<Rightarrow> err \<times> controlRecord \<times> 'w ControlService" where
  "run_handler E h ctx r s =
     (case cn_handler E h ctx r (srv_world s) (srv_db s) of
        (e, data, w, db) \<Rightarrow> (e, r\<lparr>crd_ResultData := data\<rparr>, s\<lparr>srv_world := w, srv_db := db\<rparr>))"

definition applyExtensionState ::
    "'w control_env \<Rightarrow> controlRecord \<Rightarrow> 'w ControlService \<Rightarrow> err \<times> controlRecord \<times> 'w ControlService" where
  "applyExtensionState E r s =
     (if crd_ExtensionDispatched r then (Some (Sentinel ErrUnknownResult), r, s)
      else case cn_state_arguments E (crd_Arguments r) of
             None \<Rightarrow> (Some (Sentinel ErrControlStaleRevision), r, s)
           | Some extension \<Rightarrow>
               let r = r\<lparr>crd_ExtensionDispatched := True\<rparr>; op = crd_Operation r
               in case appendLocked E ''extension_dispatched'' r s of
                    (Some e, s) \<Rightarrow> (Some e, r, s)
                  | (None, s) \<Rightarrow>
                      let s = put r s
                      in case cn_state_rpc E ''state.apply'' extension (op_ID op) (op_Digest op) (srv_world s) of
                           (Inl e, w) \<Rightarrow>
                             (Some (if cn_workflowOutcomeUnknown E e then ErrorsJoin [Sentinel ErrUnknownResult, e] else e),
                              r, s\<lparr>srv_world := w\<rparr>)
                         | (Inr raw, w) \<Rightarrow>
                             if (case cn_state_result E raw of
                                   None \<Rightarrow> True
                                 | Some x \<Rightarrow> \<not> xr_Found x \<or> xr_OperationID x \<noteq> op_ID op \<or> xr_Digest x \<noteq> op_Digest op)
                             then (Some (Sentinel ErrUnknownResult), r, s\<lparr>srv_world := w\<rparr>)
                             else (None, r\<lparr>crd_ResultData := raw\<rparr>, s\<lparr>srv_world := w\<rparr>))"

definition applyMCPRecordLocked ::
    "'w control_env \<Rightarrow> controlRecord \<Rightarrow> 'w ControlService \<Rightarrow> err \<times> controlRecord \<times> 'w ControlService" where
  "applyMCPRecordLocked E r s =
     (let op = crd_Operation r; servers = cn_mcp_servers E (srv_world s);
          invalid = (Some (ErrorsNew ''harness: invalid MCP profile operation''), r, s)
      in case cn_mcp_arguments E (crd_Arguments r) of
           None \<Rightarrow> invalid
         | Some (name, remove) \<Rightarrow>
             if \<not> validMCPControlID E name then invalid
             else
               (case (if remove \<or> op_Kind op = ControlRemoveMCP
                      then (if map_of servers name = None then Inl (ErrorsNew ''harness: MCP server not found'')
                            else Inr (AList.delete name servers))
                      else (case map_of (srv_mcpProfiles s) (op_ID op) of
                              None \<Rightarrow> Inl (Sentinel ErrControlMCPReentryRequired)
                            | Some profile \<Rightarrow> Inr (AList.update name profile servers))) of
                  Inl e \<Rightarrow> (Some e, r, s)
                | Inr candidate \<Rightarrow>
                    (case cn_mcp_validate E (srv_world s) candidate of
                       Some e \<Rightarrow> (Some e, r, s)
                     | None \<Rightarrow>
                         (case cn_mcp_configure E candidate (srv_world s) (srv_db s) of
                            (e, w, db) \<Rightarrow> (e, r, clearMCPProfileLocked (op_ID op) (s\<lparr>srv_world := w, srv_db := db\<rparr>))))))"

definition applyRecordLocked ::
    "'w control_env \<Rightarrow> PublicEntry option \<Rightarrow> controlRecord \<Rightarrow> 'w ControlService
     \<Rightarrow> err \<times> controlRecord \<times> 'w ControlService" where
  "applyRecordLocked E ctx r s =
     (let kind = op_Kind (crd_Operation r); opID = op_ID (crd_Operation r)
      in case validatePublicOperation ctx (cn_public_web E (srv_world s)) (op_RemotePrincipal (crd_Operation r))
                (map_option (cn_public_after E) (map_of (crd_After r) ''config.public_web'')) of
           Some e \<Rightarrow> (Some e, r, s)
         | None \<Rightarrow>
             if kind = ControlChangeExtensionState then applyExtensionState E r s
             else if kind = ControlInitExtensionStorage then run_handler E InitExtensionStorage ctx r s
             else if kind = ControlRevert then
               (case map_of (srv_operations s) (op_RevertOf (crd_Operation r)) of
                  None \<Rightarrow> (Some (Sentinel ErrControlOperationNotFound), r, s)
                | Some original \<Rightarrow> run_handler E (ApplyBefore original) ctx r s)
             else if kind \<in> {ControlSetKeyProfile, ControlRemoveKey, ControlProbeKey} then
               run_handler E (ApplyKey (map_of (srv_keySecrets s) opID)) ctx r
                 (if kind = ControlSetKeyProfile then clearKeySecretLocked opID s else s)
             else if kind \<in> {ControlSetMCPProfile, ControlRemoveMCP} then applyMCPRecordLocked E r s
             else if kind = ControlSetMemoryPin then run_handler E ApplyMemoryPin ctx r s
             else if kind = ControlSetMemorySelection then run_handler E SelectMemory ctx r s
             else if kind = ControlRestartMCP then run_handler E RestartMCP ctx r s
             else if kind \<in> {ControlImportSkill, ControlRemoveSkill, ControlImportExtension, ControlRemoveExtension,
                             ControlRestartExtension, ControlClearExtensionData}
             then run_handler E CapabilityLifecycle ctx r s
             else if kind = ControlBranchConversation then run_handler E ApplyBranch ctx r s
             else if kind = ControlDeleteAttachment then run_handler E AttachmentDelete ctx r s
             else if kind = ControlTelegramAccess then run_handler E TelegramAccess ctx r s
             else if isSpaceControl kind then run_handler E SpaceControl ctx r s
             else if isConversationControl kind then run_handler E ConversationControl ctx r s
             else if kind \<in> {ControlSetProviderEnabled, ControlSetPublicWeb} then run_handler E ProviderSwitch ctx r s
             else run_handler E ConfigControl ctx r s)"

text \<open>
  decideControlChange in the order of the code: who decides (decide_entry), whether the operation is
  current and nothing is running that it could disturb (decide_busy), and the outcome of applying
  it (decide_failed, decide_applied). The gate and the commit lock are taken and given back within
  the step.
\<close>

definition decide_entry ::
    "'w control_env \<Rightarrow> int \<Rightarrow> PublicEntry option \<Rightarrow> controlRecord \<Rightarrow> ControlAuthorization \<Rightarrow> bool \<Rightarrow> bool \<Rightarrow> 'w ControlService
     \<Rightarrow> err \<times> 'w ControlService" where
  "decide_entry E now ctx r auth apply fromRun s =
     (let op = crd_Operation r
      in if other_entry ctx r then (Some (Sentinel ErrControlUserInteractionRequired), s)
         else if op_ErrorCode op = ''expired'' then (Some (Sentinel ErrControlExpired), s)
         else if op_Status op \<noteq> ControlPending then (Some (Sentinel ErrControlAlreadyUsed), s)
         else if apply \<and> \<not> fromRun \<and> op_AttemptID op \<noteq> [] then (Some (Sentinel ErrControlRunConfirmation), s)
         else if validateCapabilityLocked now auth s \<noteq> None then (validateCapabilityLocked now auth s, s)
         else if op_ConversationID op \<noteq> [] \<and> az_ConversationID auth \<noteq> op_ConversationID op
         then (Some (Sentinel ErrControlUserInteractionRequired), s)
         else if op_Authorization op = ControlModelProposed \<or> op_Risk op \<noteq> ControlRiskOrdinary \<or> TrimSpace (az_Code auth) \<noteq> []
         then verifyCodeLocked E now r auth s
         else (None, s))"

definition permission_reduction :: "'w control_env \<Rightarrow> controlRecord \<Rightarrow> bool" where
  "permission_reduction E r \<longleftrightarrow> spacePermissionReduction E r \<or> op_Kind (crd_Operation r) = ControlTelegramAccess"

definition provider_switch :: "controlRecord \<Rightarrow> bool" where
  "provider_switch r \<longleftrightarrow>
     op_Kind (crd_Operation r) \<in> {ControlSetProviderEnabled, ControlSetPublicWeb}
     \<or> (case map_of (crd_After r) ''config.public_web'' of None \<Rightarrow> False | Some v \<Rightarrow> v \<noteq> [])"

definition commits_globally :: "'w control_env \<Rightarrow> controlRecord \<Rightarrow> bool" where
  "commits_globally E r \<longleftrightarrow>
     \<not> permission_reduction E r \<and> list_ex (\<lambda>res. HasPrefix res ''config.'') (op_ResourceIDs (crd_Operation r)) \<and> \<not> provider_switch r"

definition changes_execution :: "string \<Rightarrow> bool" where
  "changes_execution kind \<longleftrightarrow>
     kind \<in> {ControlSetWorkspace, ControlSetPermission, ControlSetExecutionProfile, ControlSetSandbox, ControlSetNetwork,
             ControlSetFileScope, ControlSetTool, ControlSetCommandPolicy, ControlSetSpacePermission}"

definition guards_host :: "'w control_env \<Rightarrow> controlRecord \<Rightarrow> bool" where
  "guards_host E r \<longleftrightarrow>
     op_Risk (crd_Operation r) \<noteq> ControlRiskOrdinary \<and> \<not> permission_reduction E r \<and> \<not> provider_switch r"

definition decide_busy :: "'w control_env \<Rightarrow> controlRecord \<Rightarrow> bool \<Rightarrow> 'w ControlService \<Rightarrow> (string \<times> go_error) option" where
  "decide_busy E r fromRun s =
     (let op = crd_Operation r
      in if op_Kind op = ControlSetWorkspace \<and> list_ex (\<lambda>run. rn_Status run = ''running'' \<or> rn_ActiveSince run \<noteq> []) (db_runs (srv_db s))
         then Some (''busy_active_run'', Sentinel ErrControlBusy)
         else case (if commits_globally E r then fst (commit (srv_runMu s) (if fromRun then op_ConversationID op else []))
                    else Inr ()) of
                Inl e \<Rightarrow> Some (''busy_active_run'', e)
              | Inr _ \<Rightarrow>
                  (case (if \<not> permission_reduction E r \<and> changes_execution (op_Kind op) then cn_activeIDs E (srv_world s) else None) of
                     Some (c # ids) \<Rightarrow> Some (''execution_profile_busy'', Errorf ''%w; affected commands: %s'' [c # ids] [Sentinel ErrCommandBusy])
                   | _ \<Rightarrow>
                       (case (if guards_host E r then fst (beginControl (srv_gate s)) else None) of
                          Some e \<Rightarrow> Some (''host_execution_busy'', e)
                        | None \<Rightarrow> None)))"

definition decide_failed ::
    "'w control_env \<Rightarrow> string \<Rightarrow> controlRecord \<Rightarrow> go_error \<Rightarrow> 'w ControlService \<Rightarrow> ControlResult \<times> err \<times> 'w ControlService" where
  "decide_failed E opID r e s =
     (if errors_is e ErrControlMCPReentryRequired
      then ((of_operation (crd_Operation r))\<lparr>zr_ErrorCode := ''mcp_reentry_required''\<rparr>, Some e, s)
      else if errors_is e ErrUnknownResult
      then
        (let r = set_operation (\<lambda>op. op\<lparr>op_Status := ControlPartiallyApplied, op_ErrorCode := ''apply_unknown'',
                   op_Recovery := ''Inspect saved resources and runtime evidence; do not retry an uncertain control commit.''\<rparr>) r;
             op = crd_Operation r;
             s = snd (appendLocked E ''unknown'' r (s\<lparr>srv_operations := AList.update opID r (srv_operations s)\<rparr>));
             s = (if op_AttemptID op = [] then s
                  else case get_attempt (srv_db s) (op_AttemptID op) of
                         None \<Rightarrow> s
                       | Some a \<Rightarrow> (case markUnknown a ''control commit outcome unknown'' None (srv_db s) of
                                      Inl _ \<Rightarrow> s | Inr db \<Rightarrow> s\<lparr>srv_db := db\<rparr>))
         in ((of_operation op)\<lparr>zr_ErrorCode := ''apply_unknown'', zr_Recovery := op_Recovery op\<rparr>, Some e, s))
      else
        (let r = set_operation (\<lambda>op. op\<lparr>op_Status := ControlFailed, op_ErrorCode := ''apply_failed'',
                   op_Recovery := ''Inspect the current control state; no automatic retry was performed.''\<rparr>) r;
             op = crd_Operation r;
             s = clearMCPProfileLocked opID (clearKeySecretLocked opID (s\<lparr>srv_operations := AList.update opID r (srv_operations s)\<rparr>));
             s = snd (settleInvalidProposal E r (snd (appendLocked E ''failed'' r s)))
         in ((of_operation op)\<lparr>zr_ErrorCode := ''apply_failed'', zr_Recovery := op_Recovery op\<rparr>, Some e, s)))"

definition bump :: "string \<Rightarrow> 'w ControlService \<times> (string, 64 word) gomap \<Rightarrow> 'w ControlService \<times> (string, 64 word) gomap" where
  "bump resource x =
     (let s = fst x; v = revisionLocked s resource + 1
      in (s\<lparr>srv_revisions := AList.update resource v (srv_revisions s)\<rparr>, AList.update resource v (snd x)))"

definition applied_result :: "ControlOperation \<Rightarrow> ControlResult" where
  "applied_result op = (of_operation op)\<lparr>zr_Applied := True, zr_NextRunRequired := True, zr_Result := ''applied_to_future_runs''\<rparr>"

definition decide_applied ::
    "'w control_env \<Rightarrow> int \<Rightarrow> string \<Rightarrow> controlRecord \<Rightarrow> 'w ControlService \<Rightarrow> ControlResult \<times> err \<times> 'w ControlService" where
  "decide_applied E now opID r s =
     (let r = set_operation (\<lambda>op. op\<lparr>op_Status := ControlApplied, op_AppliedAt := cn_format E now\<rparr>) r
      in case refreshBaseline E s of
           (Some e, s) \<Rightarrow> (applied_result (crd_Operation r), Some e, clearMCPProfileLocked opID (clearKeySecretLocked opID s))
         | (None, s) \<Rightarrow>
             let (s, revisions) = fold bump (op_ResourceIDs (crd_Operation r)) (s, []);
                 r = set_operation (\<lambda>op. op\<lparr>op_NewRevisions := revisions\<rparr>) r;
                 result = applied_result (crd_Operation r)
             in case appendLocked E ''applied'' r (s\<lparr>srv_operations := AList.update opID r (srv_operations s)\<rparr>) of
                  (Some e, s) \<Rightarrow> (result, Some e, s)
                | (None, s) \<Rightarrow>
                    (result\<lparr>zr_Data := crd_ResultData r\<rparr>, None,
                     clearMCPProfileLocked opID (clearKeySecretLocked opID (delete_confirmation opID s))))"

text \<open>
  The commit lock is released and the gate is opened again when the step ends. A key operation
  takes its secret out of memory when its handler runs.
\<close>

definition decide_commit ::
    "'w control_env \<Rightarrow> int \<Rightarrow> PublicEntry option \<Rightarrow> string \<Rightarrow> controlRecord \<Rightarrow> bool \<Rightarrow> 'w ControlService
     \<Rightarrow> ControlResult \<times> err \<times> 'w ControlService" where
  "decide_commit E now ctx opID r fromRun s =
     (if stale_revision s r then
        (case invalidateProposalLocked E ''stale_revision'' r s of
           (Some e, s) \<Rightarrow> (of_operation (crd_Operation r), Some e, s)
         | (None, s) \<Rightarrow> ((of_operation (crd_Operation (stale_operation ''stale_revision'' r)))\<lparr>zr_ErrorCode := ''stale_revision''\<rparr>,
                         Some (Sentinel ErrControlStaleRevision), s))
      else case decide_busy E r fromRun s of
             Some (code, e) \<Rightarrow> ((of_operation (crd_Operation r))\<lparr>zr_ErrorCode := code\<rparr>, Some e, s)
           | None \<Rightarrow>
               (case applyRecordLocked E ctx r s of
                  (Some e, r, s) \<Rightarrow> decide_failed E opID r e s
                | (None, r, s) \<Rightarrow> decide_applied E now opID r s))"

definition decideControlChange ::
    "'w control_env \<Rightarrow> int \<Rightarrow> PublicEntry option \<Rightarrow> string \<Rightarrow> ControlAuthorization \<Rightarrow> bool \<Rightarrow> bool \<Rightarrow> 'w ControlService
     \<Rightarrow> ControlResult \<times> err \<times> 'w ControlService" where
  "decideControlChange E now ctx opID auth apply fromRun s =
     (case detectExternalChange E s of
        (Some e, s) \<Rightarrow> (no_result, Some e, s)
      | (None, s) \<Rightarrow>
          (case expireDirectLocked E now s of
             (Some e, s) \<Rightarrow> (no_result, Some e, s)
           | (None, s) \<Rightarrow>
               (case map_of (srv_operations s) opID of
                  None \<Rightarrow> (no_result, Some (Sentinel ErrControlOperationNotFound), s)
                | Some r \<Rightarrow>
                    (case decide_entry E now ctx r auth apply fromRun s of
                       (Some e, s) \<Rightarrow> (of_operation (crd_Operation r), Some e, s)
                     | (None, s) \<Rightarrow>
                         if \<not> apply then (of_operation (crd_Operation r), None, s)
                         else decide_commit E now ctx opID r fromRun s))))"

text \<open>
  The direct path of the local interfaces: plan, issue a capability, render the code and confirm
  with it. Each call reads the clock again.
\<close>

definition ApplyDirectControlChange ::
    "'w control_env \<Rightarrow> int \<Rightarrow> int \<Rightarrow> int \<Rightarrow> int \<Rightarrow> string \<Rightarrow> string \<Rightarrow> bytes \<Rightarrow> PublicEntry option \<Rightarrow> string \<Rightarrow> string \<Rightarrow> string \<Rightarrow> string
     \<Rightarrow> 'w ControlService \<Rightarrow> ControlResult \<times> err \<times> 'w ControlService" where
  "ApplyDirectControlChange E t1 t2 t3 t4 newID token raw ctx kind arguments conversationID prin s =
     (case PlanControlChange E t1 newID ctx
             \<lparr>pq_Kind = kind, pq_Arguments = arguments, pq_Authorization = ControlUserDirect,
              pq_ConversationID = conversationID, pq_ExpectedRevisions = []\<rparr> s of
        (Inl e, s) \<Rightarrow> (no_result, Some e, s)
      | (Inr op, s) \<Rightarrow>
          (case IssueInteractiveCapability t2 token conversationID prin s of
             Inl e \<Rightarrow> (no_result, Some e, s)
           | Inr capability \<Rightarrow>
               (case RenderConfirmation E t3 raw ctx (op_ID op) conversationID prin s of
                  (Inl e, s) \<Rightarrow> (no_result, Some e, s)
                | (Inr shown, s) \<Rightarrow>
                    decideControlChange E t4 ctx (op_ID op)
                      \<lparr>az_Source = ControlUserDirect, az_ConversationID = conversationID, az_Principal = prin,
                       az_Code = kf_Code shown, az_Capability = capability\<rparr> True False s)))"

section \<open>Reconciling an extension change\<close>

text \<open>
  A change whose answer was lost is only asked for, never sent again. Its attempt stays unknown and
  gets a verification receipt; the run of the proposal ends.
\<close>

definition settleReconciledExtension :: "'w control_env \<Rightarrow> controlRecord \<Rightarrow> 'w ControlService \<Rightarrow> err \<times> 'w ControlService" where
  "settleReconciledExtension E r s =
     (let db = srv_db s; attemptID = op_AttemptID (crd_Operation r);
          finish = (\<lambda>x. case x of Inl e \<Rightarrow> (Some e, s) | Inr db \<Rightarrow> (None, s\<lparr>srv_db := db\<rparr>))
      in if attemptID = [] then (None, s)
         else case get_attempt db attemptID of
                None \<Rightarrow> (Some (Sentinel ErrNoRows), s)
              | Some a \<Rightarrow>
                  if am_Status a = ''pending'' then
                    (case get_run db (am_RunID a) of
                       None \<Rightarrow> (Some (Sentinel ErrNoRows), s)
                     | Some run \<Rightarrow>
                         finish (settleControlProposal (cn_ledger E) run a
                           ((failed_result ''Original extension control result verified; no replay was performed.'')\<lparr>tl_IsError := False\<rparr>)
                           True ''extension_control_verified'' None db))
                  else if am_Status a \<noteq> ''unknown'' then (None, s)
                  else
                    (case lockExecutionTx db (am_RunID a) of
                       Some e \<Rightarrow> (Some e, s)
                     | None \<Rightarrow>
                         finish
                           (case (if map_of (db_verified db) attemptID \<noteq> None then Inr db
                                  else case le_call (cn_ledger E) (am_RequestJSON a) of
                                         None \<Rightarrow> Inl (Sentinel ErrStoreFormat)
                                       | Some c \<Rightarrow>
                                           (case get_run db (am_RunID a) of
                                              None \<Rightarrow> Inl (Sentinel ErrNoRows)
                                            | Some run \<Rightarrow>
                                                insertMessage run ((message ''tool'' ''Original extension control remains recorded UNKNOWN. Its original transaction ledger now proves the confirmed change was applied. No model, tool or state operation was replayed.'')
                                                    \<lparr>mm_ToolCallID := tc_ID c\<rparr>)
                                                  (db\<lparr>db_verified := AList.update attemptID (am_RunID a, ''happened'') (db_verified db)\<rparr>))) of
                              Inl e \<Rightarrow> Inl e
                            | Inr db \<Rightarrow>
                                update_runs (\<lambda>x. rn_ID x = am_RunID a \<and> rn_Status x \<in> {''unknown'', ''waiting_confirmation'', ''stopped''})
                                  (set_status ''completed'' ''extension_control_verified'') db)))"

definition ReconcileExtensionChange ::
    "'w control_env \<Rightarrow> int \<Rightarrow> string \<Rightarrow> 'w ControlService \<Rightarrow> ControlResult \<times> err \<times> 'w ControlService" where
  "ReconcileExtensionChange E now opID s =
     (case map_of (srv_operations s) opID of
        None \<Rightarrow> (no_result, Some (Sentinel ErrControlOperationNotFound), s)
      | Some r \<Rightarrow>
          let op = crd_Operation r
          in if op_Kind op \<noteq> ControlChangeExtensionState \<or> \<not> crd_ExtensionDispatched r
             then (no_result, Some (Sentinel ErrPermissionDenied), s)
             else if op_Status op = ControlApplied then
               (case settleReconciledExtension E r s of
                  (Some e, s) \<Rightarrow> ((of_operation op)\<lparr>zr_Applied := True\<rparr>, Some e, s)
                | (None, s) \<Rightarrow> ((of_operation op)\<lparr>zr_Applied := True, zr_Data := crd_ResultData r\<rparr>, None, s))
             else
               (case cn_state_arguments E (crd_Arguments r) of
                  None \<Rightarrow> (no_result, Some (Sentinel ErrControlStaleRevision), s)
                | Some extension \<Rightarrow>
                    (case cn_state_rpc E ''state.result'' extension opID (op_Digest op) (srv_world s) of
                       (Inl e, w) \<Rightarrow> (of_operation op, Some e, s\<lparr>srv_world := w\<rparr>)
                     | (Inr raw, w) \<Rightarrow>
                         let s = s\<lparr>srv_world := w\<rparr>
                         in if (case cn_state_result E raw of
                                  None \<Rightarrow> True
                                | Some x \<Rightarrow> \<not> xr_Found x \<or> xr_OperationID x \<noteq> opID \<or> xr_Digest x \<noteq> op_Digest op)
                            then (of_operation op, Some (Sentinel ErrUnknownResult), s)
                            else
                              let (s, revisions) = fold bump (op_ResourceIDs op) (s, []);
                                  r = (set_operation (\<lambda>op. op\<lparr>op_Status := ControlApplied, op_ErrorCode := [], op_Recovery := [],
                                         op_AppliedAt := cn_format E now, op_NewRevisions := revisions\<rparr>) r)\<lparr>crd_ResultData := raw\<rparr>;
                                  done = (of_operation (crd_Operation r))\<lparr>zr_Applied := True\<rparr>
                              in case appendLocked E ''extension_reconciled'' r
                                        (s\<lparr>srv_operations := AList.update opID r (srv_operations s)\<rparr>) of
                                   (Some e, s) \<Rightarrow> (done, Some e, s)
                                 | (None, s) \<Rightarrow>
                                     (case settleReconciledExtension E r s of
                                        (Some e, s) \<Rightarrow> (done, Some e, s)
                                      | (None, s) \<Rightarrow> (done\<lparr>zr_Data := raw, zr_Result := ''original_operation_verified''\<rparr>, None, s)))))"

section \<open>Starting the owner\<close>

definition settle_recovered :: "'w control_env \<Rightarrow> controlRecord \<Rightarrow> 'w ControlService \<Rightarrow> err \<times> 'w ControlService" where
  "settle_recovered E r s =
     (let op = crd_Operation r
      in if op_Status op \<noteq> ControlApplied \<or> op_AttemptID op = [] then (None, s)
         else if op_Kind op = ControlChangeExtensionState then
           (case settleReconciledExtension E r s of
              (Some e, s') \<Rightarrow> if errors_is e ErrNoRows then (None, s') else (Some e, s')
            | (None, s') \<Rightarrow> (None, s'))
         else case get_attempt (srv_db s) (op_AttemptID op) of
                None \<Rightarrow> (None, s)
              | Some a \<Rightarrow>
                  if am_Status a \<noteq> ''pending'' then (None, s)
                  else case get_run (srv_db s) (am_RunID a) of
                         None \<Rightarrow> (Some (Sentinel ErrNoRows), s)
                       | Some run \<Rightarrow>
                           (case settleControlProposal (cn_ledger E) run a
                                   ((failed_result ''control change applied; it takes effect in the next Run'')\<lparr>tl_IsError := False\<rparr>)
                                   True ''control_change_applied_next_run'' None (srv_db s) of
                              Inl e \<Rightarrow> (if errors_is e ErrControlAlreadyUsed then (None, s) else (Some e, s))
                            | Inr db \<Rightarrow> (None, s\<lparr>srv_db := db\<rparr>)))"

fun recover_proposals :: "'w control_env \<Rightarrow> controlRecord list \<Rightarrow> 'w ControlService \<Rightarrow> err \<times> 'w ControlService" where
  "recover_proposals E [] s = (None, s)"
| "recover_proposals E (r # rest) s =
     (case (if op_Status (crd_Operation r) \<in> {ControlRejected, ControlStale, ControlFailed} then settleInvalidProposal E r s else (None, s)) of
        (Some e, s) \<Rightarrow> (Some e, s)
      | (None, s) \<Rightarrow>
          (case settle_recovered E r s of
             (Some e, s) \<Rightarrow> (Some e, s)
           | (None, s) \<Rightarrow> recover_proposals E rest s))"

definition recoverAppliedProposals :: "'w control_env \<Rightarrow> 'w ControlService \<Rightarrow> err \<times> 'w ControlService" where
  "recoverAppliedProposals E s = recover_proposals E (map snd (srv_operations s)) s"

text \<open>
  A new owner process: what survives is the journal file, the database, the rest of the program and
  the execution gate; the operation maps start empty and are read from the journal.
\<close>

definition fresh_service :: "string \<Rightarrow> string \<Rightarrow> 'w ControlService \<Rightarrow> 'w ControlService" where
  "fresh_service ownerKey generation s =
     s\<lparr>srv_ownerKey := ownerKey, srv_generation := generation, srv_operations := [], srv_revisions := [],
       srv_entries := [], srv_confirmations := [], srv_keySecrets := [], srv_mcpProfiles := [],
       srv_gate := \<lparr>dg_controlBusy = False, dg_hostBusy = 0, dg_processBusy = 0\<rparr>,
       srv_baselineConfig := [], srv_baselineKeys := [], srv_baselineDB := [], srv_externalChange := False\<rparr>"

definition controlServiceForCore ::
    "'w control_env \<Rightarrow> int \<Rightarrow> string \<Rightarrow> string \<Rightarrow> 'w ControlService \<Rightarrow> err \<times> 'w ControlService" where
  "controlServiceForCore E now ownerKey generation s =
     (case loadJournal E now (fresh_service ownerKey generation s) of
        (Some e, s) \<Rightarrow> (Some e, s)
      | (None, s) \<Rightarrow>
          (case recoverAppliedProposals E s of
             (Some e, s) \<Rightarrow> (Some e, s)
           | (None, s) \<Rightarrow> refreshBaseline E s))"

end
