(* ===== verification/Control_Safety.thy ===== *)
theory Control_Safety
  imports Control
begin

text \<open>
  What the control service promises. Operations only move forward: a decided operation is never
  pending again, its identity, its expected revisions and its creation time never change, and the
  revision of a resource only grows. Applying needs a current operation, an interactive capability
  of this owner and, for every operation that is not a direct ordinary one, the confirmation code.
\<close>

section \<open>Frames\<close>

text \<open>Writing the journal changes the file, the entries and the remaining write results only.\<close>

definition journal_only :: "'w ControlService \<Rightarrow> 'w ControlService \<Rightarrow> bool" where
  "journal_only s s' \<longleftrightarrow> s' = s\<lparr>srv_file := srv_file s', srv_entries := srv_entries s', srv_io := srv_io s'\<rparr>"

lemma journal_only_refl [simp]: "journal_only s s"
  by (simp add: journal_only_def)

lemma journal_only_trans: "journal_only s t \<Longrightarrow> journal_only t u \<Longrightarrow> journal_only s u"
  by (cases s; cases t; cases u) (simp add: journal_only_def)

lemma journal_only_next: "next_io s = (i, s') \<Longrightarrow> journal_only s s'"
  by (cases s) (auto simp: next_io_def journal_only_def split: list.splits)

lemma journal_only_update [simp]:
  "journal_only s (t\<lparr>srv_file := f\<rparr>) = journal_only s t"
  "journal_only s (t\<lparr>srv_entries := l\<rparr>) = journal_only s t"
  by (cases s; cases t; simp add: journal_only_def)+

lemma journal_only_compact: "compactLocked E s = (e, s') \<Longrightarrow> journal_only s s'"
  by (auto simp: compactLocked_def split: prod.splits io.splits dest!: journal_only_next)

lemma journal_only_write: "write_entry E line s = (e, s') \<Longrightarrow> journal_only s s'"
  by (auto simp: write_entry_def Let_def split: prod.splits io.splits dest!: journal_only_next)

lemma append_frame: "appendLocked E action r s = (e, s') \<Longrightarrow> journal_only s s'"
  unfolding appendLocked_def Let_def
  by (auto split: sum.splits if_splits prod.splits option.splits
        dest: journal_only_compact journal_only_write intro: journal_only_trans)

lemma journal_only_fields:
  assumes "journal_only s s'"
  shows "srv_operations s' = srv_operations s" "srv_revisions s' = srv_revisions s"
    "srv_generation s' = srv_generation s" "srv_confirmations s' = srv_confirmations s"
    "srv_world s' = srv_world s" "srv_db s' = srv_db s" "srv_gate s' = srv_gate s" "srv_runMu s' = srv_runMu s"
    "srv_ownerKey s' = srv_ownerKey s" "srv_externalChange s' = srv_externalChange s"
    "srv_keySecrets s' = srv_keySecrets s" "srv_mcpProfiles s' = srv_mcpProfiles s"
  using assms by (cases s; cases s'; simp add: journal_only_def)+

lemmas append_fields = journal_only_fields[OF append_frame]

section \<open>Operations only move forward\<close>

definition status_moves :: "controlRecord \<Rightarrow> controlRecord \<Rightarrow> bool" where
  "status_moves r r' \<longleftrightarrow>
     (let old = op_Status (crd_Operation r); new = op_Status (crd_Operation r')
      in new = old \<or> new \<noteq> ControlPending \<and> (old = ControlPending \<or> new = ControlApplied \<and> crd_ExtensionDispatched r))"

definition record_evolves :: "controlRecord \<Rightarrow> controlRecord \<Rightarrow> bool" where
  "record_evolves r r' \<longleftrightarrow>
     (let op = crd_Operation r; op' = crd_Operation r'
      in op_ID op' = op_ID op \<and> op_Kind op' = op_Kind op \<and> op_Authorization op' = op_Authorization op
         \<and> op_ConversationID op' = op_ConversationID op \<and> op_ResourceIDs op' = op_ResourceIDs op
         \<and> op_ExpectedRevisions op' = op_ExpectedRevisions op \<and> op_Risk op' = op_Risk op
         \<and> op_Digest op' = op_Digest op \<and> op_CreatedAt op' = op_CreatedAt op \<and> op_RevertOf op' = op_RevertOf op
         \<and> (op_AttemptID op \<noteq> [] \<longrightarrow> op_AttemptID op' = op_AttemptID op)
         \<and> crd_Arguments r' = crd_Arguments r \<and> crd_Before r' = crd_Before r \<and> crd_After r' = crd_After r
         \<and> (crd_ExtensionDispatched r \<longrightarrow> crd_ExtensionDispatched r')
         \<and> (crd_ExtensionDispatched r' \<longrightarrow> crd_ExtensionDispatched r \<or> op_Status op = ControlPending) \<and> status_moves r r')"

lemma record_evolves_refl [simp]: "record_evolves r r"
  by (simp add: record_evolves_def status_moves_def Let_def)

lemma status_moves_trans:
  "status_moves r s \<Longrightarrow> status_moves s t \<Longrightarrow> (crd_ExtensionDispatched r \<Longrightarrow> crd_ExtensionDispatched s)
   \<Longrightarrow> (crd_ExtensionDispatched s \<Longrightarrow> crd_ExtensionDispatched r \<or> op_Status (crd_Operation r) = ControlPending) \<Longrightarrow> status_moves r t"
  unfolding status_moves_def Let_def by metis

lemma record_evolves_trans:
  assumes "record_evolves r s" "record_evolves s t"
  shows "record_evolves r t"
proof -
  note a = assms[unfolded record_evolves_def Let_def]
  have "crd_ExtensionDispatched t \<longrightarrow> crd_ExtensionDispatched r \<or> op_Status (crd_Operation r) = ControlPending"
    using a by (metis status_moves_def)
  moreover have "status_moves r t" using status_moves_trans[of r s t] a by blast
  ultimately show ?thesis unfolding record_evolves_def Let_def using a by simp
qed

text \<open>Operations are kept under their identifier, each once.\<close>

definition ops_ok :: "'w ControlService \<Rightarrow> bool" where
  "ops_ok s \<longleftrightarrow> distinct (map fst (srv_operations s)) \<and> (\<forall>(opID, r) \<in> set (srv_operations s). op_ID (crd_Operation r) = opID)"

lemma ops_ok_lookup: "ops_ok s \<Longrightarrow> map_of (srv_operations s) opID = Some r \<Longrightarrow> op_ID (crd_Operation r) = opID"
  unfolding ops_ok_def by (auto dest!: map_of_SomeD)

lemma ops_ok_cong: "srv_operations s' = srv_operations s \<Longrightarrow> ops_ok s' = ops_ok s"
  by (simp add: ops_ok_def)

lemma ops_ok_update:
  assumes "ops_ok s" "op_ID (crd_Operation r) = opID" "srv_operations s' = AList.update opID r (srv_operations s)"
  shows "ops_ok s'"
  using assms gm_wf_update[of "srv_operations s" opID r] unfolding ops_ok_def by (auto simp: set_update_gm)

text \<open>
  Most steps are steady: the same operations, each moved forward, and the same revisions.
\<close>

definition steady :: "'w ControlService \<Rightarrow> 'w ControlService \<Rightarrow> bool" where
  "steady s s' \<longleftrightarrow>
     srv_generation s' = srv_generation s \<and> srv_revisions s' = srv_revisions s \<and> (ops_ok s \<longrightarrow> ops_ok s')
     \<and> (ops_ok s \<longrightarrow> (\<forall>opID. rel_option record_evolves (map_of (srv_operations s) opID) (map_of (srv_operations s') opID)))"

lemma rel_option_trans: "rel_option R x y \<Longrightarrow> rel_option R y z \<Longrightarrow> (\<And>a b c. R a b \<Longrightarrow> R b c \<Longrightarrow> R a c) \<Longrightarrow> rel_option R x z"
  by (cases x; cases y; cases z) auto

lemma steady_refl [simp]: "steady s s"
  by (simp add: steady_def option.rel_refl)

lemma steady_trans [trans]: "steady s t \<Longrightarrow> steady t u \<Longrightarrow> steady s u"
  unfolding steady_def by (auto intro: rel_option_trans record_evolves_trans)

lemma steady_same:
  "srv_generation s' = srv_generation s \<Longrightarrow> srv_operations s' = srv_operations s \<Longrightarrow> srv_revisions s' = srv_revisions s \<Longrightarrow> steady s s'"
  by (simp add: steady_def ops_ok_def option.rel_refl)

lemma steady_append: "appendLocked E action r s = (e, s') \<Longrightarrow> steady s s'"
  by (rule steady_same) (simp_all add: append_fields)

lemma steady_then_append: "steady s t \<Longrightarrow> appendLocked E action r t = (e, s') \<Longrightarrow> steady s s'"
  using steady_append steady_trans by blast

lemma steady_ops_ok: "steady s t \<Longrightarrow> ops_ok s \<Longrightarrow> ops_ok t"
  by (simp add: steady_def)

lemma steady_lookup:
  "steady s t \<Longrightarrow> ops_ok s \<Longrightarrow> map_of (srv_operations s) opID = Some r \<Longrightarrow>
   \<exists>r'. map_of (srv_operations t) opID = Some r' \<and> record_evolves r r'"
  unfolding steady_def by (metis option_rel_Some1)

lemma steady_lookup_back:
  "steady s t \<Longrightarrow> ops_ok s \<Longrightarrow> map_of (srv_operations t) opID = Some r' \<Longrightarrow>
   \<exists>r. map_of (srv_operations s) opID = Some r \<and> record_evolves r r'"
  unfolding steady_def by (metis option_rel_Some2)

declare update_conv [simp]

lemma steady_update:
  assumes "map_of (srv_operations s) opID = Some r" "record_evolves r r'"
  shows "steady s (s\<lparr>srv_operations := AList.update opID r' (srv_operations s)\<rparr>)"
proof -
  have "op_ID (crd_Operation r') = opID" if "ops_ok s"
    using ops_ok_lookup[OF that assms(1)] assms(2) by (simp add: record_evolves_def Let_def)
  then show ?thesis using assms
    by (auto simp: steady_def update_conv option.rel_refl intro: ops_ok_update)
qed

lemma steady_clear [simp]:
  "steady s (clearKeySecretLocked opID s)" "steady s (clearMCPProfileLocked opID s)" "steady s (delete_confirmation opID s)"
  by (simp_all add: steady_same clearKeySecretLocked_def clearMCPProfileLocked_def delete_confirmation_def)

lemma steady_cleared:
  "steady s (clearKeySecretLocked opID t) = steady s t" "steady s (clearMCPProfileLocked opID t) = steady s t"
  "steady s (delete_confirmation opID t) = steady s t"
  by (simp_all add: steady_def ops_ok_def clearKeySecretLocked_def clearMCPProfileLocked_def delete_confirmation_def)

lemma steady_other [simp]:
  "steady s (t\<lparr>srv_world := w\<rparr>) = steady s t" "steady s (t\<lparr>srv_db := db\<rparr>) = steady s t"
  "steady s (t\<lparr>srv_confirmations := c\<rparr>) = steady s t" "steady s (t\<lparr>srv_externalChange := x\<rparr>) = steady s t"
  "steady s (t\<lparr>srv_mcpProfiles := m\<rparr>) = steady s t" "steady s (t\<lparr>srv_keySecrets := k\<rparr>) = steady s t"
  by (simp_all add: steady_def ops_ok_def)

lemma steady_from [simp]:
  "steady (s\<lparr>srv_world := w\<rparr>) t = steady s t" "steady (s\<lparr>srv_db := db\<rparr>) t = steady s t"
  "steady (s\<lparr>srv_mcpProfiles := m\<rparr>) t = steady s t" "steady (s\<lparr>srv_keySecrets := k\<rparr>) t = steady s t"
  by (simp_all add: steady_def ops_ok_def)

section \<open>Every operation is steady up to its commit\<close>

lemma steady_log:
  assumes "map_of (srv_operations s) opID = Some r" "record_evolves r r'"
    and "appendLocked E action r' (s\<lparr>srv_operations := AList.update opID r' (srv_operations s)\<rparr>) = (e, s')"
  shows "steady s s'"
  using steady_update[OF assms(1,2)] steady_append[OF assms(3)] by (rule steady_trans)

lemma expired_evolves: "direct_expired E now (crd_Operation r) \<Longrightarrow> record_evolves r (expired_operation r)"
  by (simp add: record_evolves_def status_moves_def expired_operation_def set_operation_def direct_expired_def Let_def)

lemma steady_expire_loop:
  assumes "expire_loop E now xs s = (e, s')" "distinct (map fst xs)" "\<forall>(opID, r) \<in> set xs. map_of (srv_operations s) opID = Some r"
  shows "steady s s'"
  using assms
proof (induction E now xs s rule: expire_loop.induct)
  case (2 E now opID r rest s)
  show ?case
  proof (cases "direct_expired E now (crd_Operation r)")
    case True
    obtain e1 s1 where app: "appendLocked E ''expired'' (expired_operation r) s = (e1, s1)" by fastforce
    show ?thesis
    proof (cases e1)
      case None
      let ?u = "s1\<lparr>srv_operations := AList.update opID (expired_operation r) (srv_operations s1)\<rparr>"
      let ?t = "clearMCPProfileLocked opID (clearKeySecretLocked opID (delete_confirmation opID ?u))"
      have loop: "expire_loop E now rest ?t = (e, s')" using 2(3) True app None by simp
      have "map_of (srv_operations s1) opID = Some r" using 2(5) append_fields(1)[OF app] by simp
      then have "steady s ?t" using steady_append[OF app] steady_update expired_evolves[OF True]
        by (simp only: steady_cleared) (blast intro: steady_trans)
      moreover have "\<forall>(k, v) \<in> set rest. map_of (srv_operations ?t) k = Some v"
        using 2(4,5) append_fields(1)[OF app]
        by (fastforce simp: clearMCPProfileLocked_def clearKeySecretLocked_def delete_confirmation_def update_conv image_iff)
      then have "steady ?t s'" using 2(2)[OF _ app[symmetric] None loop] True 2(4) by simp
      ultimately show ?thesis by (rule steady_trans)
    qed (use 2(3) True app in \<open>auto dest: steady_append\<close>)
  qed (use 2 in auto)
qed simp

lemma steady_expire: "ops_ok s \<Longrightarrow> expireDirectLocked E now s = (e, s') \<Longrightarrow> steady s s'"
  unfolding expireDirectLocked_def by (erule steady_expire_loop) (auto simp: ops_ok_def)

lemma steady_detect: "detectExternalChange E s = (e, s') \<Longrightarrow> steady s s'"
  by (auto simp: detectExternalChange_def split: sum.splits prod.splits if_splits)

lemma steady_refresh: "refreshBaseline E s = (e, s') \<Longrightarrow> steady s s'"
  by (auto simp: refreshBaseline_def steady_def ops_ok_def option.rel_refl split: sum.splits prod.splits)

lemma settle_fields:
  assumes "settleInvalidProposal E r s = (e, s')" shows "\<exists>db. s' = s\<lparr>srv_db := db\<rparr>"
proof -
  have "s = s\<lparr>srv_db := srv_db s\<rparr>" by simp
  then show ?thesis using assms unfolding settleInvalidProposal_def
    by (auto split: if_splits option.splits sum.splits; blast)
qed

lemma steady_settle: "settleInvalidProposal E r s = (e, s') \<Longrightarrow> steady s s'"
  using settle_fields by fastforce

lemma steady_settleReconciled: "settleReconciledExtension E r s = (e, s') \<Longrightarrow> steady s s'"
  unfolding settleReconciledExtension_def Let_def
  by (auto split: if_splits option.splits sum.splits)

lemma stale_evolves: "op_Status (crd_Operation r) = ControlPending \<Longrightarrow> record_evolves r (stale_operation code r)"
  by (simp add: record_evolves_def status_moves_def stale_operation_def set_operation_def Let_def)

lemma steady_invalidate:
  assumes "invalidateProposalLocked E code r s = (e, s')" and "map_of (srv_operations s) (op_ID (crd_Operation r)) = Some r"
    and "op_Status (crd_Operation r) = ControlPending"
  shows "steady s s'"
proof -
  let ?r = "stale_operation code r" and ?i = "op_ID (crd_Operation r)"
  obtain e1 s1 where app: "appendLocked E ''stale'' ?r s = (e1, s1)" by fastforce
  have opID: "op_ID (crd_Operation ?r) = ?i" by (simp add: stale_operation_def set_operation_def)
  show ?thesis
  proof (cases e1)
    case None
    let ?t = "clearMCPProfileLocked ?i (clearKeySecretLocked ?i (delete_confirmation ?i (put ?r s1)))"
    have "settleInvalidProposal E ?r ?t = (e, s')" using assms(1) app None by (simp add: invalidateProposalLocked_def Let_def opID)
    then have "steady ?t s'" by (rule steady_settle)
    moreover have "steady s1 (put ?r s1)" unfolding put_def opID
      by (rule steady_update) (use assms(2,3) append_fields(1)[OF app] in \<open>auto intro: stale_evolves\<close>)
    then have "steady s ?t" using steady_append[OF app] by (simp only: steady_cleared) (blast intro: steady_trans)
    ultimately show ?thesis by (blast intro: steady_trans)
  next
    case (Some x)
    then show ?thesis using assms(1) app steady_append[OF app] by (simp add: invalidateProposalLocked_def Let_def)
  qed
qed

lemma steady_withdraw: assumes "withdrawProposal E opID code s = (e, s')" shows "steady s s'"
proof (cases "map_of (srv_operations s) opID")
  case (Some r)
  show ?thesis
  proof (cases "op_Status (crd_Operation r) = ControlPending")
    case True
    let ?r = "set_operation (\<lambda>op. op\<lparr>op_Status := ControlRejected, op_ErrorCode := code\<rparr>) r"
    have "record_evolves r ?r" using True by (simp add: record_evolves_def status_moves_def set_operation_def Let_def)
    then have "steady s (clearKeySecretLocked opID (delete_confirmation opID (s\<lparr>srv_operations := AList.update opID ?r (srv_operations s)\<rparr>)))"
      using steady_update[OF Some] by (simp only: steady_cleared)
    then show ?thesis using assms Some True steady_then_append by (simp add: withdrawProposal_def Let_def) blast
  qed (use assms Some in \<open>simp add: withdrawProposal_def\<close>)
qed (use assms in \<open>simp add: withdrawProposal_def\<close>)

lemma steady_bind: assumes "bindAttempt E opID attemptID s = (e, s')" shows "steady s s'"
  using assms unfolding bindAttempt_def Let_def
  by (auto split: if_splits option.splits elim!: steady_log[rotated 2]
      simp: record_evolves_def status_moves_def set_operation_def Let_def)

lemma remote_evolves: "record_evolves r (set_remote prin r)"
  by (simp add: record_evolves_def status_moves_def set_remote_def set_operation_def Let_def)

lemma render_bind_facts:
  assumes "render_bind E now ctx opID r s = (x, s')" "map_of (srv_operations s) opID = Some r"
  shows "steady s s' \<and> (\<forall>r'. x = Inr r' \<longrightarrow> map_of (srv_operations s') opID = Some r' \<and> record_evolves r r')"
proof (cases "PublicEntryFrom ctx")
  case (Some ent)
  let ?r = "set_remote (en_Principal ent) r" and ?u = "s\<lparr>srv_operations := AList.update opID (set_remote (en_Principal ent) r) (srv_operations s)\<rparr>"
  have u: "steady s ?u" "steady s (delete_confirmation opID ?u)"
    using steady_update[OF assms(2) remote_evolves] by (simp_all add: steady_cleared)
  have look: "appendLocked E action ?r ?u = (None, t) \<Longrightarrow> map_of (srv_operations t) opID = Some ?r"
    "appendLocked E action ?r (delete_confirmation opID ?u) = (None, t) \<Longrightarrow> map_of (srv_operations t) opID = Some ?r" for action t
    by (simp_all add: append_fields(1) delete_confirmation_def)
  show ?thesis using assms Some u remote_evolves[of r] unfolding render_bind_def Let_def
    by (auto split: if_splits option.splits prod.splits intro: steady_then_append look)
qed (use assms in \<open>auto simp: render_bind_def\<close>)

lemma steady_new_code: "steady s (newControlCodeLocked E raw opID chat now s)"
  by (simp add: newControlCodeLocked_def)

lemma steady_render_code:
  assumes "render_code E now raw opID chat r s = (x, s')" "map_of (srv_operations s) opID = Some r"
  shows "steady s s'"
proof -
  let ?r = "set_operation (\<lambda>op. op\<lparr>op_ExpiresAt := cn_format E (now + controlConfirmationTTL)\<rparr>) r"
    and ?t = "newControlCodeLocked E raw opID chat now s"
  have "record_evolves r ?r" by (simp add: record_evolves_def status_moves_def set_operation_def Let_def)
  moreover have "map_of (srv_operations ?t) opID = Some r" using assms(2) by (simp add: newControlCodeLocked_def)
  ultimately have "steady ?t t" if "appendLocked E ''reissued'' ?r (?t\<lparr>srv_operations := AList.update opID ?r (srv_operations ?t)\<rparr>) = (e, t)" for e t
    using that steady_log by blast
  then have "steady s t" if "appendLocked E ''reissued'' ?r (?t\<lparr>srv_operations := AList.update opID ?r (srv_operations ?t)\<rparr>) = (e, t)" for e t
    using that steady_new_code steady_trans by blast
  then show ?thesis using assms(1) unfolding render_code_def Let_def
    by (auto split: option.splits prod.splits if_splits)
qed

lemma steady_render_checked:
  assumes "render_checked E now raw opID chat prin r s = (x, s')" "map_of (srv_operations s) opID = Some r"
    "op_ID (crd_Operation r) = opID"
  shows "steady s s'"
  using assms steady_invalidate[of E "''stale_revision''" r s] steady_render_code[of E now raw opID _ r s]
  unfolding render_checked_def Let_def by (auto split: if_splits prod.splits option.splits)

lemma steady_render:
  assumes "RenderConfirmation E now raw ctx opID chat prin s = (x, s')" "ops_ok s" shows "steady s s'"
proof (cases "map_of (srv_operations s) opID")
  case (Some r0)
  obtain e1 s1 where ex: "expireDirectLocked E now s = (e1, s1)" by fastforce
  have s1: "steady s s1" by (rule steady_expire[OF assms(2) ex])
  then obtain r where r: "map_of (srv_operations s1) opID = Some r" using steady_lookup[OF _ assms(2) Some] by blast
  obtain y s2 where bind: "render_bind E now ctx opID r s1 = (y, s2)" by fastforce
  have b: "steady s1 s2" "\<And>r'. y = Inr r' \<Longrightarrow> map_of (srv_operations s2) opID = Some r'" using render_bind_facts[OF bind r] by auto
  then have s2: "steady s s2" "ops_ok s2" using steady_trans[OF s1 b(1)] steady_ops_ok assms(2) by auto
  have fin: "steady s s'" if "y = Inr r'" "render_checked E now raw opID chat prin r' s2 = (x, s')" for r'
    using steady_render_checked[OF that(2)] b(2)[OF that(1)] ops_ok_lookup[OF s2(2)] s2(1) steady_trans by blast
  show ?thesis using assms(1) Some ex s1 s2(1) r bind fin unfolding RenderConfirmation_def Let_def
    by (auto split: option.splits if_splits sum.splits)
qed (use assms in \<open>simp add: RenderConfirmation_def\<close>)

lemma steady_reenter: "ReenterMCPProfile E opID name config remove s = (x, s') \<Longrightarrow> steady s s'"
  unfolding ReenterMCPProfile_def Let_def
  by (auto split: prod.splits option.splits if_splits simp: steady_cleared
      dest!: steady_detect steady_append intro: steady_trans)

lemma steady_reject:
  assumes "rejectControlChange E now ctx opID auth fromRun s = (x, e, s')" shows "steady s s'"
proof (cases "map_of (srv_operations s) opID")
  case (Some r)
  let ?r = "set_operation (\<lambda>op. op\<lparr>op_Status := ControlRejected, op_ErrorCode := ''rejected''\<rparr>) r"
    and ?u = "s\<lparr>srv_operations := AList.update opID (set_operation (\<lambda>op. op\<lparr>op_Status := ControlRejected, op_ErrorCode := ''rejected''\<rparr>) r) (srv_operations s)\<rparr>"
  obtain e1 s1 where app: "appendLocked E ''rejected'' ?r ?u = (e1, s1)" by fastforce
  show ?thesis
  proof (cases "op_Status (crd_Operation r) = ControlPending")
    case True
    then have "record_evolves r ?r" by (simp add: record_evolves_def status_moves_def set_operation_def Let_def)
    then have s1: "steady s s1" using steady_log[OF Some _ app] by blast
    let ?t = "clearMCPProfileLocked opID (clearKeySecretLocked opID (delete_confirmation opID s1))"
    have "steady s ?t" using s1 by (simp add: steady_cleared)
    moreover obtain e2 s2 where "settleInvalidProposal E ?r ?t = (e2, s2)" by fastforce
    ultimately show ?thesis using assms Some True app s1 steady_settle[of E ?r ?t e2 s2] unfolding rejectControlChange_def Let_def
      by (auto split: if_splits option.splits intro: steady_trans)
  qed (use assms Some in \<open>simp add: rejectControlChange_def\<close>)
qed (use assms in \<open>simp add: rejectControlChange_def\<close>)

lemma steady_verify: "verifyCodeLocked E now r auth s = (e, s') \<Longrightarrow> steady s s'"
  by (auto simp: verifyCodeLocked_def Let_def split: option.splits if_splits)

lemma steady_decide_entry: "decide_entry E now ctx r auth apply fromRun s = (e, s') \<Longrightarrow> steady s s'"
  by (auto simp: decide_entry_def Let_def split: if_splits dest: steady_verify)

text \<open>Applying sets the result data and, for an extension change, the dispatch marker.\<close>

definition dispatch_of :: "controlRecord \<Rightarrow> controlRecord \<Rightarrow> bool" where
  "dispatch_of r r' \<longleftrightarrow>
     (\<exists>data. r' = r\<lparr>crd_ResultData := data\<rparr> \<or> r' = r\<lparr>crd_ResultData := data, crd_ExtensionDispatched := True\<rparr>)"

lemma dispatch_of_refl [simp]: "dispatch_of r r"
  unfolding dispatch_of_def by (rule exI[of _ "crd_ResultData r"]) simp

lemma dispatch_of_data [simp]: "dispatch_of r (r\<lparr>crd_ResultData := d\<rparr>)"
  "dispatch_of r (r\<lparr>crd_ExtensionDispatched := True\<rparr>)" "dispatch_of r (r\<lparr>crd_ExtensionDispatched := True, crd_ResultData := d\<rparr>)"
  unfolding dispatch_of_def by (blast, rule exI[of _ "crd_ResultData r"], simp, rule exI[of _ d], simp)

lemma dispatch_of_evolves:
  "dispatch_of r r' \<Longrightarrow> op_Status (crd_Operation r) = ControlPending \<Longrightarrow> record_evolves r r'"
  by (auto simp: dispatch_of_def record_evolves_def status_moves_def Let_def)

lemma dispatch_of_fields:
  assumes "dispatch_of r r'"
  shows "crd_Operation r' = crd_Operation r" "crd_Arguments r' = crd_Arguments r" "crd_Before r' = crd_Before r" "crd_After r' = crd_After r"
    "crd_ExtensionDispatched r \<Longrightarrow> crd_ExtensionDispatched r'"
  using assms by (auto simp: dispatch_of_def)

lemmas dispatch_of_operation = dispatch_of_fields(1)

lemma decided_evolves:
  assumes "dispatch_of r q" "dispatch_of r r'" "crd_ExtensionDispatched q \<longrightarrow> crd_ExtensionDispatched r'"
    "op_Status (crd_Operation r) = ControlPending" "st \<noteq> ControlPending"
  shows "record_evolves q (set_operation
      (\<lambda>op. op\<lparr>op_Status := st, op_ErrorCode := c, op_Recovery := rv, op_AppliedAt := at, op_NewRevisions := n\<rparr>) r')"
  using assms(3-5) dispatch_of_fields[OF assms(1)] dispatch_of_fields[OF assms(2)]
  by (simp add: record_evolves_def status_moves_def set_operation_def)

text \<open>
  What applyRecordLocked returns: the record it was given, with result data and dispatch marker; the
  operation is still pending in memory, with the marker once it was journaled.
\<close>

definition applied_from :: "controlRecord \<Rightarrow> 'w ControlService \<Rightarrow> controlRecord \<Rightarrow> 'w ControlService \<Rightarrow> bool" where
  "applied_from r s r' s' \<longleftrightarrow>
     steady s s' \<and> dispatch_of r r'
     \<and> (\<exists>q. map_of (srv_operations s') (op_ID (crd_Operation r)) = Some q \<and> dispatch_of r q
          \<and> (crd_ExtensionDispatched q \<longrightarrow> crd_ExtensionDispatched r'))"

lemma applied_from_handler:
  assumes "run_handler E h ctx r t = (e, r', s')" "steady s t" "srv_operations t = srv_operations s"
    "map_of (srv_operations s) (op_ID (crd_Operation r)) = Some r"
  shows "applied_from r s r' s'"
proof -
  obtain data w db where "r' = r\<lparr>crd_ResultData := data\<rparr>" "s' = t\<lparr>srv_world := w, srv_db := db\<rparr>"
    using assms(1) by (auto simp: run_handler_def split: prod.splits)
  then show ?thesis using assms by (simp add: applied_from_def)
qed

lemma applied_from_same: "map_of (srv_operations s) (op_ID (crd_Operation r)) = Some r \<Longrightarrow> applied_from r s r s"
  by (auto simp: applied_from_def)

lemma applied_from_extension:
  assumes "applyExtensionState E r s = (e, r', s')" and r: "map_of (srv_operations s) (op_ID (crd_Operation r)) = Some r"
    and pend: "op_Status (crd_Operation r) = ControlPending"
  shows "applied_from r s r' s'"
proof (cases "crd_ExtensionDispatched r \<or> cn_state_arguments E (crd_Arguments r) = None")
  case True
  then show ?thesis using assms applied_from_same[OF r] by (auto simp: applyExtensionState_def split: if_splits)
next
  case False
  let ?r = "r\<lparr>crd_ExtensionDispatched := True\<rparr>"
  obtain e1 s1 where app: "appendLocked E ''extension_dispatched'' ?r s = (e1, s1)" by fastforce
  have look: "map_of (srv_operations s1) (op_ID (crd_Operation r)) = Some r" using r append_fields(1)[OF app] by simp
  have st: "steady s (put ?r s1)"
  proof (rule steady_trans[OF steady_append[OF app]])
    show "steady s1 (put ?r s1)" unfolding put_def
      using steady_update[OF look, of ?r] dispatch_of_evolves[OF dispatch_of_data(2) pend] by simp
  qed
  show ?thesis
  proof (cases e1)
    case (Some x)
    then have "r' = ?r" "s' = s1" using assms(1) False app by (auto simp: applyExtensionState_def Let_def)
    then show ?thesis using steady_append[OF app] look by (auto simp: applied_from_def)
  next
    case None
    then obtain w data where r': "r' = ?r \<or> r' = ?r\<lparr>crd_ResultData := data\<rparr>" and s': "s' = (put ?r s1)\<lparr>srv_world := w\<rparr>"
      using assms(1) False app by (auto simp: applyExtensionState_def Let_def split: prod.splits sum.splits if_splits option.splits)
    have "map_of (srv_operations s') (op_ID (crd_Operation r)) = Some ?r" by (simp add: s' put_def)
    then show ?thesis using st r' by (auto simp: applied_from_def s')
  qed
qed

lemma applied_from_mcp:
  assumes "applyMCPRecordLocked E r s = (e, r', s')" "map_of (srv_operations s) (op_ID (crd_Operation r)) = Some r"
  shows "applied_from r s r' s'"
  using assms applied_from_same[OF assms(2)] unfolding applyMCPRecordLocked_def Let_def
  by (auto split: option.splits prod.splits if_splits sum.splits
      simp: applied_from_def steady_cleared, auto simp: clearMCPProfileLocked_def)

lemma applied_from_record:
  assumes ap: "applyRecordLocked E ctx r s = (e, r', s')" and r: "map_of (srv_operations s) (op_ID (crd_Operation r)) = Some r"
    and pend: "op_Status (crd_Operation r) = ControlPending"
  shows "applied_from r s r' s'"
proof -
  define P where "P = (\<lambda>(e :: err, r', s'). applied_from r s r' s')"
  have P: "P x" if "\<And>e r' s'. x = (e, r', s') \<Longrightarrow> applied_from r s r' s'" for x
    using that by (cases x) (simp add: P_def)
  have same: "P (x, r, s)" for x by (simp add: P_def applied_from_same[OF r])
  have handled: "P (run_handler E h ctx r t)" if "steady s t" "srv_operations t = srv_operations s" for h t
    by (rule P) (rule applied_from_handler[OF _ that r])
  have extension: "P (applyExtensionState E r s)" and mcp: "P (applyMCPRecordLocked E r s)"
    by (rule P, erule applied_from_extension[OF _ r pend], rule P, erule applied_from_mcp[OF _ r])
  have branch: "P a \<Longrightarrow> P b \<Longrightarrow> P (if c then a else b)" for a b c by simp
  have "P (applyRecordLocked E ctx r s)"
    unfolding applyRecordLocked_def Let_def
    by (intro branch option.split[of P, THEN iffD2] conjI impI allI same handled extension mcp) (simp_all add: clearKeySecretLocked_def)
  then show ?thesis by (simp add: ap P_def)
qed

section \<open>Revisions\<close>

text \<open>One commit adds one to the revision of every resource of the operation.\<close>

definition bump_revisions :: "string list \<Rightarrow> 'w ControlService \<Rightarrow> 'w ControlService" where
  "bump_revisions resources s = fst (fold bump resources (s, []))"

lemma bump_frame: "fold bump resources (s, m) = (s', m') \<Longrightarrow> s' = s\<lparr>srv_revisions := srv_revisions s'\<rparr>"
  by (induction resources arbitrary: s m) (fastforce simp: bump_def Let_def)+

lemma bump_cong:
  "srv_revisions t = srv_revisions s \<Longrightarrow>
   srv_revisions (fst (fold bump resources (t, m))) = srv_revisions (fst (fold bump resources (s, m')))"
  by (induction resources arbitrary: s t m m') (simp_all add: bump_def Let_def revisionLocked_def)

lemma revision_pos: "revisionLocked s resource \<noteq> 0"
  by (auto simp: revisionLocked_def word_neq_0_conv split: option.splits)

lemma revision_bump:
  "revisionLocked (fst (bump x (s, m))) resource
   = (if resource = x \<and> revisionLocked s x \<noteq> - 1 then revisionLocked s x + 1 else if resource = x then 1 else revisionLocked s resource)"
proof -
  have "v + 1 > 0 \<longleftrightarrow> v \<noteq> - 1" for v :: "64 word"
    by (metis add.inverse_inverse add_eq_0_iff word_neq_0_conv)
  then show ?thesis by (simp add: bump_def Let_def revisionLocked_def)
qed

lemma fold_bump_grows:
  assumes "\<forall>x. unat (revisionLocked s x) + length resources < 2 ^ 64"
  shows "unat (revisionLocked s x) + (if x \<in> set resources then 1 else 0) \<le> unat (revisionLocked (fst (fold bump resources (s, m))) x)"
  using assms
proof (induction resources arbitrary: s m)
  case (Cons y resources)
  let ?t = "fst (bump y (s, m))"
  have room: "unat (revisionLocked s z) + 1 < 2 ^ 64" for z using Cons.prems[rule_format, of z] by simp
  have "revisionLocked s z \<noteq> - 1" for z using room[of z] by (auto simp: unsigned_minus_1_eq_mask mask_eq_exp_minus_1)
  moreover have "unat (revisionLocked s z + 1) = unat (revisionLocked s z) + 1" for z
    using room[of z] by (subst unat_word_ariths) simp
  ultimately have t: "unat (revisionLocked ?t z) = unat (revisionLocked s z) + (if z = y then 1 else 0)" for z
    by (simp add: revision_bump)
  have "\<forall>z. unat (revisionLocked ?t z) + length resources < 2 ^ 64"
  proof
    show "unat (revisionLocked ?t z) + length resources < 2 ^ 64" for z using Cons.prems[rule_format, of z] by (auto simp: t)
  qed
  from Cons.IH[OF this, of "snd (bump y (s, m))"] t[of x] show ?case by (simp split: if_splits)
qed simp

text \<open>
  A step advances: operations move forward (new ones may appear), and either no revision changes or
  the resources of one operation are bumped.
\<close>

definition advances :: "'w ControlService \<Rightarrow> 'w ControlService \<Rightarrow> bool" where
  "advances s s' \<longleftrightarrow>
     srv_generation s' = srv_generation s \<and> ops_ok s'
     \<and> (\<forall>opID r. map_of (srv_operations s) opID = Some r
          \<longrightarrow> (\<exists>r'. map_of (srv_operations s') opID = Some r' \<and> record_evolves r r'))
     \<and> (srv_revisions s' = srv_revisions s
        \<or> (\<exists>opID r. map_of (srv_operations s) opID = Some r
             \<and> srv_revisions s' = srv_revisions (bump_revisions (op_ResourceIDs (crd_Operation r)) s)))"

lemma steady_advances: "ops_ok s \<Longrightarrow> steady s s' \<Longrightarrow> advances s s'"
  unfolding advances_def using steady_ops_ok[of s s'] steady_lookup[of s s'] steady_def[of s s'] by blast

lemma steady_advances_trans:
  assumes "ops_ok s" "steady s t" "advances t u"
  shows "advances s u"
proof -
  have rev: "srv_revisions t = srv_revisions s" using assms(2) by (simp add: steady_def)
  have "\<exists>opID r. map_of (srv_operations s) opID = Some r
      \<and> srv_revisions u = srv_revisions (bump_revisions (op_ResourceIDs (crd_Operation r)) s)"
    if found: "map_of (srv_operations t) opID = Some r" and bumped: "srv_revisions u = srv_revisions (bump_revisions (op_ResourceIDs (crd_Operation r)) t)" for opID r
  proof -
    obtain r0 where "map_of (srv_operations s) opID = Some r0" "record_evolves r0 r"
      using steady_lookup_back[OF assms(2,1) found] by blast
    then show ?thesis using bumped bump_cong[OF rev]
      by (auto simp: bump_revisions_def record_evolves_def Let_def intro!: exI[of _ opID])
  qed
  moreover have "\<exists>r'. map_of (srv_operations u) opID = Some r' \<and> record_evolves r r'" if found: "map_of (srv_operations s) opID = Some r" for opID r
    using steady_lookup[OF assms(2,1) found] assms(3) record_evolves_trans unfolding advances_def by blast
  moreover have "srv_generation t = srv_generation s" using assms(2) by (simp add: steady_def)
  ultimately show ?thesis using assms(3) rev unfolding advances_def by auto
qed

lemma advances_steady_trans:
  assumes "advances s t" "steady t u" shows "advances s u"
proof -
  have ok: "ops_ok t" and gen: "srv_generation t = srv_generation s" using assms(1) by (simp_all add: advances_def)
  have "\<exists>r'. map_of (srv_operations u) opID = Some r' \<and> record_evolves r r'" if found: "map_of (srv_operations s) opID = Some r" for opID r
    using assms(1) found steady_lookup[OF assms(2) ok] record_evolves_trans unfolding advances_def by blast
  moreover have "srv_generation u = srv_generation t" "srv_revisions u = srv_revisions t" using assms(2) by (simp_all add: steady_def)
  ultimately show ?thesis using assms(1) steady_ops_ok[OF assms(2) ok] gen unfolding advances_def by simp
qed

section \<open>Planning and deciding\<close>

lemma delete_update_fresh: "k \<notin> fst ` set m \<Longrightarrow> AList.delete k (AList.update k v m) = m"
  by (induction m) (auto simp: AList.delete_eq)

lemma record_plan_advances:
  assumes "record_plan E r s = (x, s')" "ops_ok s" "map_of (srv_operations s) (op_ID (crd_Operation r)) = None"
  shows "advances s s'"
proof -
  let ?i = "op_ID (crd_Operation r)"
  obtain e1 s1 where app: "appendLocked E ''planned'' r (put r s) = (e1, s1)" by fastforce
  have ops: "srv_operations s1 = AList.update ?i r (srv_operations s)" "srv_revisions s1 = srv_revisions s" "srv_generation s1 = srv_generation s"
    using append_fields(1-3)[OF app] by (simp_all add: put_def)
  have fresh: "?i \<notin> fst ` set (srv_operations s)" using assms(3) by (simp add: map_of_eq_None_iff)
  show ?thesis
  proof (cases e1)
    case None
    then have s': "s' = s1" using assms(1) app by (simp add: record_plan_def)
    have "ops_ok s1" by (rule ops_ok_update[OF assms(2) refl ops(1)])
    then show ?thesis using assms(3) by (auto simp: advances_def s' ops)
  next
    case (Some y)
    then have "srv_operations s' = srv_operations s" "srv_revisions s' = srv_revisions s" "srv_generation s' = srv_generation s"
      using assms(1) app ops fresh by (auto simp: record_plan_def delete_update_fresh)
    then show ?thesis using steady_advances[OF assms(2)] steady_same by blast
  qed
qed

lemma stamp_id [simp]: "op_ID (crd_Operation (stamp E now newID r)) = newID"
  by (simp add: stamp_def set_operation_def Let_def)

lemma plan_advances:
  assumes "PlanControlChange E now newID ctx q s = (x, s')" "ops_ok s" "map_of (srv_operations s) newID = None"
  shows "advances s s'"
proof -
  obtain e1 s1 where det: "detectExternalChange E s = (e1, s1)" by fastforce
  have s1: "steady s s1" by (rule steady_detect[OF det])
  have "map_of (srv_operations s1) newID = None" using assms(3) steady_lookup_back[OF s1 assms(2), of newID] by (cases "map_of (srv_operations s1) newID") auto
  then have "advances s1 u" if "record_plan E (set_operation f (stamp E now newID r)) s1 = (y, u)"
    "\<And>op. op_ID (f op) = op_ID op" for f r y u
    using that record_plan_advances[OF that(1)] steady_ops_ok[OF s1 assms(2)] stamp_id[of E now newID r] by (simp add: set_operation_def)
  then show ?thesis using assms det s1 steady_advances[OF assms(2)] steady_advances_trans[OF assms(2)] unfolding PlanControlChange_def
    by (auto split: option.splits if_splits sum.splits)
qed

lemma key_plan_advances:
  assumes "persistKeyPlanLocked E now newID r secret s = (x, s')" "ops_ok s" "map_of (srv_operations s) newID = None"
  shows "advances s s'"
proof -
  let ?s = "if secret \<noteq> [] then s\<lparr>srv_keySecrets := AList.update newID secret (srv_keySecrets s)\<rparr> else s"
  obtain y t where plan: "record_plan E (stamp E now newID r) ?s = (y, t)" by fastforce
  have st: "steady s ?s" and "map_of (srv_operations ?s) newID = None" using assms(3) by auto
  then have "advances ?s t" by (intro record_plan_advances[OF plan] steady_ops_ok[OF st assms(2)]) (simp only: stamp_id)
  then have "advances s t" by (rule steady_advances_trans[OF assms(2) st])
  moreover have "steady t s'" using assms(1) plan by (auto simp: persistKeyPlanLocked_def split: sum.splits)
  ultimately show ?thesis by (rule advances_steady_trans)
qed

lemma revert_plan_advances:
  assumes "PlanRevertControlChange E now newID opID source chat s = (x, s')" "ops_ok s" "map_of (srv_operations s) newID = None"
  shows "advances s s'"
  using assms steady_advances[OF assms(2) steady_refl] record_plan_advances[OF _ assms(2)]
  unfolding PlanRevertControlChange_def Let_def by (auto split: option.splits if_splits)

lemma marked:
  "steady s t \<Longrightarrow> steady s (if c then t else case g of None \<Rightarrow> t | Some a \<Rightarrow> (case f a of Inl e \<Rightarrow> t | Inr db \<Rightarrow> t\<lparr>srv_db := db\<rparr>))"
  by (auto intro: steady_trans split: option.split sum.split)

lemma failed_steady:
  assumes "decide_failed E opID r' e s = (x, y, s')" "applied_from r t r' s" "op_Status (crd_Operation r) = ControlPending" "op_ID (crd_Operation r) = opID"
  shows "steady s s'"
proof -
  obtain q where q: "map_of (srv_operations s) opID = Some q" "dispatch_of r q" "crd_ExtensionDispatched q \<longrightarrow> crd_ExtensionDispatched r'"
    "dispatch_of r r'" using assms(2,4) by (auto simp: applied_from_def)
  have ev: "record_evolves q (set_operation f r')"
    if "\<And>op. f op = op\<lparr>op_Status := st, op_ErrorCode := c, op_Recovery := rv\<rparr>" "st \<noteq> ControlPending" for f st c rv
  proof -
    have "set_operation f r' = set_operation (\<lambda>op. op\<lparr>op_Status := st, op_ErrorCode := c, op_Recovery := rv,
        op_AppliedAt := op_AppliedAt (crd_Operation r'), op_NewRevisions := op_NewRevisions (crd_Operation r')\<rparr>) r'"
      by (simp add: set_operation_def that(1))
    then show ?thesis using decided_evolves[OF q(2,4,3) assms(3) that(2)] by metis
  qed
  let ?u = "\<lambda>st c rv. s\<lparr>srv_operations := AList.update opID (set_operation (\<lambda>op. op\<lparr>op_Status := st, op_ErrorCode := c, op_Recovery := rv\<rparr>) r') (srv_operations s)\<rparr>"
  have u: "steady s (?u st c rv)" if "st \<noteq> ControlPending" for st c rv by (rule steady_update[OF q(1) ev[OF refl that]])
  have app: "steady s (snd (appendLocked E action r2 t2))" if "steady s t2" for action r2 t2
    by (rule steady_then_append[OF that prod.collapse[symmetric]])
  have settled: "steady s (snd (settleInvalidProposal E r2 t2))" if "steady s t2" for r2 t2
    by (rule steady_trans[OF that steady_settle[OF prod.collapse[symmetric]]])
  show ?thesis
  proof (cases "errors_is e ErrControlMCPReentryRequired")
    case False
    show ?thesis
    proof (cases "errors_is e ErrUnknownResult")
      case True
      note d = assms(1)[unfolded decide_failed_def Let_def if_not_P[OF False] if_P[OF True], THEN prod.inject[THEN iffD1], THEN conjunct2,
          THEN prod.inject[THEN iffD1], THEN conjunct2]
      show ?thesis by (rule subst[OF d]) (intro marked app u, simp)
    next
      case nf: False
      have "steady s (clearMCPProfileLocked opID (clearKeySecretLocked opID (?u st c rv)))" if "st \<noteq> ControlPending" for st c rv
        using u[OF that] by (simp only: steady_cleared)
      then show ?thesis using assms(1) False nf settled[OF app] unfolding decide_failed_def Let_def by auto
    qed
  qed (use assms(1) in \<open>simp add: decide_failed_def\<close>)
qed

text \<open>A commit: the record is stored with the bumped revisions, then journaled.\<close>

lemma commit_advances:
  assumes q: "map_of (srv_operations s) opID = Some q" and ok: "ops_ok s" and ev: "record_evolves q r"
    and bumped: "fold bump (op_ResourceIDs (crd_Operation q)) (s, []) = (t, revisions)"
    and app: "appendLocked E action r (t\<lparr>srv_operations := AList.update opID r (srv_operations t)\<rparr>) = (e, u)"
  shows "advances s u"
proof -
  let ?t = "t\<lparr>srv_operations := AList.update opID r (srv_operations t)\<rparr>"
  have t: "srv_operations t = srv_operations s" "srv_generation t = srv_generation s"
    using bump_frame[OF bumped] by (metis ControlService.select_convs ControlService.surjective ControlService.update_convs(5))+
  have rev: "srv_revisions t = srv_revisions (bump_revisions (op_ResourceIDs (crd_Operation q)) s)"
    using bumped by (simp add: bump_revisions_def)
  have opID: "op_ID (crd_Operation r) = opID" using ops_ok_lookup[OF ok q] ev by (simp add: record_evolves_def Let_def)
  have "ops_ok ?t" by (rule ops_ok_update[OF ok opID]) (simp add: t)
  then have "advances s ?t" using q ev rev by (auto simp: advances_def t)
  then show ?thesis using advances_steady_trans steady_append[OF app] by blast
qed

lemma applied_advances:
  assumes "decide_applied E now opID r' s = (x, y, s')" "applied_from r t r' s" "op_Status (crd_Operation r) = ControlPending"
    "op_ID (crd_Operation r) = opID" "ops_ok s"
  shows "advances s s'"
proof -
  obtain q where q: "map_of (srv_operations s) opID = Some q" "dispatch_of r q" "crd_ExtensionDispatched q \<longrightarrow> crd_ExtensionDispatched r'"
    "dispatch_of r r'" using assms(2,4) by (auto simp: applied_from_def)
  have ev: "record_evolves q (set_operation (\<lambda>op. op\<lparr>op_NewRevisions := n\<rparr>) (set_operation (\<lambda>op. op\<lparr>op_Status := ControlApplied, op_AppliedAt := a\<rparr>) r'))" for n a
  proof -
    have "set_operation (\<lambda>op. op\<lparr>op_NewRevisions := n\<rparr>) (set_operation (\<lambda>op. op\<lparr>op_Status := ControlApplied, op_AppliedAt := a\<rparr>) r')
      = set_operation (\<lambda>op. op\<lparr>op_Status := ControlApplied, op_ErrorCode := op_ErrorCode (crd_Operation r'),
          op_Recovery := op_Recovery (crd_Operation r'), op_AppliedAt := a, op_NewRevisions := n\<rparr>) r'"
      by (simp add: set_operation_def)
    then show ?thesis using decided_evolves[OF q(2,4,3) assms(3), of ControlApplied] by simp
  qed
  have res: "op_ResourceIDs (crd_Operation (set_operation (\<lambda>op. op\<lparr>op_Status := ControlApplied, op_AppliedAt := a\<rparr>) r')) = op_ResourceIDs (crd_Operation q)" for a
    using q(2,4) by (auto simp: set_operation_def dispatch_of_def)
  obtain e1 s1 where base: "refreshBaseline E s = (e1, s1)" by fastforce
  have s1: "steady s s1" by (rule steady_refresh[OF base])
  have q1: "map_of (srv_operations s1) opID = Some q" using base q(1) by (auto simp: refreshBaseline_def split: sum.splits prod.splits)
  show ?thesis
  proof (cases e1)
    case (Some z)
    then have "steady s s'" using assms(1) base s1 by (auto simp: decide_applied_def Let_def steady_cleared)
    then show ?thesis by (rule steady_advances[OF assms(5)])
  next
    case None
    obtain u n where bumped: "fold bump (op_ResourceIDs (crd_Operation q)) (s1, []) = (u, n)" by fastforce
    let ?r = "set_operation (\<lambda>op. op\<lparr>op_NewRevisions := n\<rparr>) (set_operation (\<lambda>op. op\<lparr>op_Status := ControlApplied, op_AppliedAt := cn_format E now\<rparr>) r')"
    obtain e2 s2 where app: "appendLocked E ''applied'' ?r (u\<lparr>srv_operations := AList.update opID ?r (srv_operations u)\<rparr>) = (e2, s2)" by fastforce
    have "advances s1 s2" by (rule commit_advances[OF q1 steady_ops_ok[OF s1 assms(5)] ev bumped app])
    moreover have "steady s2 s'" using assms(1) base None bumped app unfolding decide_applied_def Let_def res
      by (auto simp: steady_cleared split: option.splits)
    ultimately show ?thesis using steady_advances_trans[OF assms(5) s1] advances_steady_trans by blast
  qed
qed

lemma decide_commit_advances:
  assumes "decide_commit E now ctx opID r fromRun s = (x, y, s')" "ops_ok s" "map_of (srv_operations s) opID = Some r"
    "op_Status (crd_Operation r) = ControlPending"
  shows "advances s s'"
proof (cases "stale_revision s r \<or> decide_busy E r fromRun s \<noteq> None")
  case True
  have opID: "op_ID (crd_Operation r) = opID" by (rule ops_ok_lookup[OF assms(2,3)])
  have "steady s s'" using assms True steady_invalidate[of E "''stale_revision''" r s] opID unfolding decide_commit_def
    by (auto split: if_splits prod.splits option.splits)
  then show ?thesis by (rule steady_advances[OF assms(2)])
next
  case False
  have opID: "op_ID (crd_Operation r) = opID" by (rule ops_ok_lookup[OF assms(2,3)])
  obtain e r' t where ap: "applyRecordLocked E ctx r s = (e, r', t)" using prod_cases3 by blast
  have calm: "\<not> stale_revision s r" "decide_busy E r fromRun s = None" using False by (blast, blast)
  have frm: "applied_from r s r' t" using applied_from_record[OF ap] assms(3,4) opID by simp
  then have st: "steady s t" by (simp add: applied_from_def)
  show ?thesis
  proof (cases e)
    case None
    then have "advances t s'" using applied_advances[OF _ frm assms(4) opID steady_ops_ok[OF st assms(2)]] assms(1) ap calm
      by (simp add: decide_commit_def)
    then show ?thesis by (rule steady_advances_trans[OF assms(2) st])
  next
    case (Some z)
    then have "steady t s'" using failed_steady[OF _ frm assms(4) opID] assms(1) ap calm by (simp add: decide_commit_def)
    then show ?thesis using steady_advances[OF assms(2)] steady_trans[OF st] by blast
  qed
qed

text \<open>The decision in terms of the state it decides in: after the checks for outside changes and expiry.\<close>

lemma decide_cases:
  assumes "decideControlChange E now ctx opID auth apply fromRun s = (x, y, s')" "ops_ok s"
  obtains (refused) "steady s s'" "\<not> zr_Applied x" "srv_world s' = srv_world s" "y = None \<longrightarrow> \<not> apply"
  | (commits) s1 s2 r where "detectExternalChange E s = (None, s)" "expireDirectLocked E now s = (None, s1)" "steady s s1"
      "map_of (srv_operations s1) opID = Some r" "decide_entry E now ctx r auth apply fromRun s1 = (None, s2)" "apply"
      "decide_commit E now ctx opID r fromRun s2 = (x, y, s')"
proof -
  note A = that
  obtain e1 s0 where det: "detectExternalChange E s = (e1, s0)" by fastforce
  have d: "steady s s0" "srv_world s0 = srv_world s" "e1 = None \<Longrightarrow> s0 = s"
    using steady_detect[OF det] det by (auto simp: detectExternalChange_def split: sum.splits prod.splits if_splits)
  show ?thesis
  proof (cases "e1 = None")
    case False
    then show ?thesis using A(1) assms(1) det d by (auto simp: decideControlChange_def no_result_def)
  next
    case True
    then have s0: "s0 = s" using d by simp
    obtain e2 s1 where ex: "expireDirectLocked E now s = (e2, s1)" by fastforce
    have w: "srv_world (snd (expire_loop E now xs u)) = srv_world u" for xs u
      by (induction E now xs u rule: expire_loop.induct)
        (auto split: prod.splits option.splits simp: append_fields clearMCPProfileLocked_def clearKeySecretLocked_def delete_confirmation_def)
    have s1: "steady s s1" "srv_world s1 = srv_world s" using steady_expire[OF assms(2) ex] w[of "srv_operations s" s] ex
      by (auto simp: expireDirectLocked_def)
    show ?thesis
    proof (cases "e2 = None \<and> map_of (srv_operations s1) opID \<noteq> None")
      case False
      then show ?thesis using A(1) assms(1) det s0 True ex s1
        by (auto simp: decideControlChange_def no_result_def split: option.splits)
    next
      case e2: True
      then obtain r where r: "map_of (srv_operations s1) opID = Some r" by blast
      obtain e3 s2 where en: "decide_entry E now ctx r auth apply fromRun s1 = (e3, s2)" by fastforce
      have s2: "steady s s2" "srv_world s2 = srv_world s"
        using steady_trans[OF s1(1) steady_decide_entry[OF en]] en s1(2)
        by (auto simp: decide_entry_def verifyCodeLocked_def Let_def split: if_splits option.splits)
      show ?thesis
      proof (cases "e3 = None \<and> apply")
        case True
        then show ?thesis using A(2)[OF _ ex[unfolded e2[THEN conjunct1]] s1(1) r] assms(1) det s0 \<open>e1 = None\<close> ex e2 r en
          by (auto simp: decideControlChange_def)
      next
        case False
        then show ?thesis using A(1) assms(1) det s0 \<open>e1 = None\<close> ex e2 r en s2
          by (auto simp: decideControlChange_def of_operation_def no_result_def split: if_splits option.splits)
      qed
    qed
  qed
qed

lemma decide_entry_pending:
  "decide_entry E now ctx r auth apply fromRun s = (None, s') \<Longrightarrow>
   op_Status (crd_Operation r) = ControlPending \<and> srv_operations s' = srv_operations s \<and> srv_revisions s' = srv_revisions s"
  by (auto simp: decide_entry_def verifyCodeLocked_def Let_def split: if_splits option.splits)

lemma decide_advances:
  assumes "decideControlChange E now ctx opID auth apply fromRun s = (x, y, s')" "ops_ok s"
  shows "advances s s'"
  using assms
proof (cases rule: decide_cases)
  case refused
  then show ?thesis using steady_advances[OF assms(2)] by blast
next
  case (commits s1 s2 r)
  have st: "steady s s2" using steady_trans[OF commits(3) steady_decide_entry[OF commits(5)]] .
  have "advances s2 s'" by (rule decide_commit_advances[OF commits(7) steady_ops_ok[OF st assms(2)]])
    (use commits decide_entry_pending[OF commits(5)] in auto)
  then show ?thesis by (rule steady_advances_trans[OF assms(2) st])
qed

lemma reconcile_advances:
  assumes "ReconcileExtensionChange E now opID s = (x, y, s')" "ops_ok s"
  shows "advances s s'"
proof (cases "map_of (srv_operations s) opID")
  case None
  then show ?thesis using assms steady_advances[OF assms(2) steady_refl] by (simp add: ReconcileExtensionChange_def)
next
  case (Some r)
  show ?thesis
  proof (cases "\<exists>extension raw w. crd_ExtensionDispatched r \<and> op_Status (crd_Operation r) \<noteq> ControlApplied
      \<and> cn_state_rpc E ''state.result'' extension opID (op_Digest (crd_Operation r)) (srv_world s) = (Inr raw, w)
      \<and> cn_state_arguments E (crd_Arguments r) = Some extension
      \<and> (\<exists>z. cn_state_result E raw = Some z \<and> xr_Found z \<and> xr_OperationID z = opID \<and> xr_Digest z = op_Digest (crd_Operation r))
      \<and> op_Kind (crd_Operation r) = ControlChangeExtensionState")
    case False
    have "steady s s'" using assms(1) Some False unfolding ReconcileExtensionChange_def Let_def
      by (auto split: if_splits option.splits prod.splits sum.splits dest: steady_settleReconciled)
    then show ?thesis by (rule steady_advances[OF assms(2)])
  next
    case True
    then obtain extension raw w where c: "crd_ExtensionDispatched r" "op_Status (crd_Operation r) \<noteq> ControlApplied"
      "cn_state_rpc E ''state.result'' extension opID (op_Digest (crd_Operation r)) (srv_world s) = (Inr raw, w)"
      "cn_state_arguments E (crd_Arguments r) = Some extension"
      "\<exists>z. cn_state_result E raw = Some z \<and> xr_Found z \<and> xr_OperationID z = opID \<and> xr_Digest z = op_Digest (crd_Operation r)"
      "op_Kind (crd_Operation r) = ControlChangeExtensionState" by blast
    let ?s = "s\<lparr>srv_world := w\<rparr>"
    obtain u n where bumped: "fold bump (op_ResourceIDs (crd_Operation r)) (?s, []) = (u, n)" by fastforce
    let ?r = "(set_operation (\<lambda>op. op\<lparr>op_Status := ControlApplied, op_ErrorCode := [], op_Recovery := [],
                op_AppliedAt := cn_format E now, op_NewRevisions := n\<rparr>) r)\<lparr>crd_ResultData := raw\<rparr>"
    obtain e2 s2 where app: "appendLocked E ''extension_reconciled'' ?r (u\<lparr>srv_operations := AList.update opID ?r (srv_operations u)\<rparr>) = (e2, s2)"
      by fastforce
    have "record_evolves r ?r" using c(1) by (simp add: record_evolves_def status_moves_def set_operation_def Let_def)
    then have "advances ?s s2" using commit_advances[OF _ _ _ bumped app] Some assms(2) ops_ok_cong[of ?s s] by simp
    moreover have "steady s ?s" by simp
    ultimately have adv: "advances s s2" using steady_advances_trans[OF assms(2)] by blast
    show ?thesis
    proof (cases e2)
      case None
      obtain e3 s3 where settled: "settleReconciledExtension E ?r s2 = (e3, s3)" by fastforce
      have "s' = s3" using assms(1) Some c bumped app None settled unfolding ReconcileExtensionChange_def Let_def
        by (auto split: option.splits)
      then show ?thesis using advances_steady_trans[OF adv steady_settleReconciled[OF settled]] by simp
    next
      case (Some z)
      then have "s' = s2" using assms(1) \<open>map_of (srv_operations s) opID = Some r\<close> c bumped app unfolding ReconcileExtensionChange_def Let_def
        by (auto split: option.splits)
      then show ?thesis using adv by simp
    qed
  qed
qed

end
