(* ===== verification/Control_System.thy ===== *)
theory Control_System
  imports Control_Safety Ledger_System
begin

text \<open>
  The control service of one owner process as a system: any method in any order, with any results
  of journal writes, and with the rest of the program changing the configuration, the database and
  the gates in between. The properties below hold between any two states of such an execution.
\<close>

inductive control_step :: "'w control_env \<Rightarrow> 'w ControlService \<Rightarrow> 'w ControlService \<Rightarrow> bool" for E where
  plans: "PlanControlChange E now newID ctx q s = (x, s') \<Longrightarrow> map_of (srv_operations s) newID = None \<Longrightarrow> control_step E s s'"
| plans_key: "persistKeyPlanLocked E now newID r secret s = (x, s') \<Longrightarrow> map_of (srv_operations s) newID = None \<Longrightarrow> control_step E s s'"
| plans_probe: "PlanKeyProbe E now newID reference s = (x, s') \<Longrightarrow> map_of (srv_operations s) newID = None \<Longrightarrow> control_step E s s'"
| plans_mcp: "PlanMCPProfileChange E now newID name config remove s = (x, s') \<Longrightarrow> map_of (srv_operations s) newID = None \<Longrightarrow> control_step E s s'"
| plans_revert: "PlanRevertControlChange E now newID opID source chat s = (x, s') \<Longrightarrow> map_of (srv_operations s) newID = None \<Longrightarrow> control_step E s s'"
| reenters: "ReenterMCPProfile E opID name config remove s = (x, s') \<Longrightarrow> control_step E s s'"
| binds: "bindAttempt E opID attemptID s = (e, s') \<Longrightarrow> control_step E s s'"
| renders: "RenderConfirmation E now raw ctx opID chat prin s = (c, s') \<Longrightarrow> control_step E s s'"
| withdraws: "withdrawProposal E opID code s = (e, s') \<Longrightarrow> control_step E s s'"
| rejects: "rejectControlChange E now ctx opID auth fromRun s = (res, e, s') \<Longrightarrow> control_step E s s'"
| decides: "decideControlChange E now ctx opID auth apply fromRun s = (res, e, s') \<Longrightarrow> control_step E s s'"
| reconciles: "ReconcileExtensionChange E now opID s = (res, e, s') \<Longrightarrow> control_step E s s'"
| expires: "expireDirectLocked E now s = (e, s') \<Longrightarrow> control_step E s s'"
| detects: "detectExternalChange E s = (e, s') \<Longrightarrow> control_step E s s'"
| reviews: "ReviewExternalChange E s = (e, s') \<Longrightarrow> control_step E s s'"
| others: "s' = s\<lparr>srv_world := w, srv_db := db, srv_runMu := g, srv_gate := dg, srv_io := ios\<rparr> \<Longrightarrow> control_step E s s'"

lemma plan_after_detect:
  assumes "detectExternalChange E s = (None, s1)" "map_of (srv_operations s) newID = None"
  shows "s1 = s"
  using assms by (auto simp: detectExternalChange_def split: sum.splits prod.splits if_splits)

lemma probe_advances:
  assumes "PlanKeyProbe E now newID reference s = (x, s')" "ops_ok s" "map_of (srv_operations s) newID = None"
  shows "advances s s'"
proof -
  obtain e1 s1 where det: "detectExternalChange E s = (e1, s1)" by fastforce
  have adv: "advances s s1" by (rule steady_advances[OF assms(2) steady_detect[OF det]])
  show ?thesis
  proof (cases e1)
    case None
    then have [simp]: "s1 = s" using plan_after_detect det assms(3) by blast
    show ?thesis
    proof (cases "cn_find_key E (srv_world s) reference")
      case (Inr profile)
      then show ?thesis using assms det None key_plan_advances[OF _ assms(2,3)] by (simp add: PlanKeyProbe_def)
    qed (use assms det None adv in \<open>simp add: PlanKeyProbe_def\<close>)
  qed (use assms det adv in \<open>simp add: PlanKeyProbe_def\<close>)
qed

lemma mcp_plan_advances:
  assumes "PlanMCPProfileChange E now newID name config remove s = (x, s')" "ops_ok s" "map_of (srv_operations s) newID = None"
  shows "advances s s'"
proof -
  define s2 where "s2 = (if remove then s else s\<lparr>srv_mcpProfiles := AList.update newID config (srv_mcpProfiles s)\<rparr>)"
  have st: "steady s s2" "map_of (srv_operations s2) newID = None" using assms(3) by (auto simp: s2_def)
  have plan: "advances s t" if p: "record_plan E (stamp E now newID r) s2 = (y, t)" for r y t
    using record_plan_advances[OF p steady_ops_ok[OF st(1) assms(2)]] st(2) steady_advances_trans[OF assms(2) st(1)]
    by (simp only: stamp_id)
  have same: "advances s s" by (rule steady_advances[OF assms(2) steady_refl])
  obtain e1 s1 where det: "detectExternalChange E s = (e1, s1)" by fastforce
  show ?thesis
  proof (cases e1)
    case (Some z)
    then show ?thesis using assms(1) det steady_advances[OF assms(2) steady_detect[OF det]] by (simp add: PlanMCPProfileChange_def)
  next
    case None
    then have "s1 = s" using plan_after_detect det assms(3) by blast
    then have "s' = s \<or> (\<exists>r y t. record_plan E (stamp E now newID r) s2 = (y, t) \<and> (s' = t \<or> s' = clearMCPProfileLocked newID t))"
      using assms(1) det None unfolding PlanMCPProfileChange_def Let_def
      by (cases remove; simp add: s2_def split: option.split_asm prod.split_asm sum.split_asm if_split_asm; blast)
    then show ?thesis using same plan advances_steady_trans[OF plan steady_clear(2)] by blast
  qed
qed

lemma steady_review: "ReviewExternalChange E s = (e, s') \<Longrightarrow> steady s s'"
  by (auto simp: ReviewExternalChange_def split: sum.splits dest!: steady_refresh)

lemma steady_others: "s' = s\<lparr>srv_world := w, srv_db := db, srv_runMu := g, srv_gate := dg, srv_io := ios\<rparr> \<Longrightarrow> steady s s'"
  by (rule steady_same) simp_all

lemma step_advances: "control_step E s s' \<Longrightarrow> ops_ok s \<Longrightarrow> advances s s'"
  by (erule control_step.cases)
    (blast intro: steady_advances plan_advances key_plan_advances probe_advances mcp_plan_advances revert_plan_advances
      steady_reenter steady_bind steady_render steady_withdraw steady_reject decide_advances reconcile_advances
      steady_expire steady_detect steady_review steady_others)+

text \<open>A new owner has read its journal; its operations are kept under their identifiers.\<close>

interpretation control: invariant_system ops_ok "control_step E" ops_ok for E
  by unfold_locales (auto dest: step_advances simp: advances_def)

section \<open>Executions\<close>

lemma steps_evolve:
  assumes "(control_step E)\<^sup>*\<^sup>* s t" "ops_ok s" "map_of (srv_operations s) opID = Some r"
  shows "\<exists>r'. map_of (srv_operations t) opID = Some r' \<and> record_evolves r r'"
  using assms
proof (induction rule: rtranclp_induct)
  case (step t u)
  have "advances t u" using step_advances[OF step.hyps(2)] control.steps_inv[OF step.hyps(1) step.prems(1)] by blast
  then show ?case using step.IH[OF step.prems] record_evolves_trans unfolding advances_def by blast
qed simp

text \<open>Revisions have room: committing any operation once more does not wrap the counters.\<close>

definition room :: "'w ControlService \<Rightarrow> bool" where
  "room s \<longleftrightarrow> (\<forall>(opID, r) \<in> set (srv_operations s). \<forall>resource.
     unat (revisionLocked s resource) + length (op_ResourceIDs (crd_Operation r)) < 2 ^ 64)"

lemma room_lookup:
  "room s \<Longrightarrow> map_of (srv_operations s) opID = Some r \<Longrightarrow> unat (revisionLocked s x) + length (op_ResourceIDs (crd_Operation r)) < 2 ^ 64"
  unfolding room_def by (auto dest!: map_of_SomeD)

lemma revision_cong: "srv_revisions t = srv_revisions s \<Longrightarrow> revisionLocked t x = revisionLocked s x"
  by (simp add: revisionLocked_def)

lemma advances_grow:
  assumes "advances s t" "room s" shows "revisionLocked s x \<le> revisionLocked t x"
proof (cases "srv_revisions t = srv_revisions s")
  case True
  then show ?thesis by (simp add: revision_cong[OF True])
next
  case False
  then obtain opID r where r: "map_of (srv_operations s) opID = Some r"
    "srv_revisions t = srv_revisions (bump_revisions (op_ResourceIDs (crd_Operation r)) s)" using assms(1) by (auto simp: advances_def)
  have "unat (revisionLocked s x) + (if x \<in> set (op_ResourceIDs (crd_Operation r)) then 1 else 0)
      \<le> unat (revisionLocked (bump_revisions (op_ResourceIDs (crd_Operation r)) s) x)"
    unfolding bump_revisions_def by (rule fold_bump_grows) (use room_lookup[OF assms(2) r(1)] in blast)
  then show ?thesis using revision_cong[OF r(2)] by (simp add: word_le_nat_alt split: if_splits)
qed

lemma steps_grow:
  assumes "(\<lambda>s t. control_step E s t \<and> room s)\<^sup>*\<^sup>* s t" "ops_ok s"
  shows "revisionLocked s x \<le> revisionLocked t x \<and> (control_step E)\<^sup>*\<^sup>* s t"
  using assms
proof (induction rule: rtranclp_induct)
  case (step t u)
  then have reach: "revisionLocked s x \<le> revisionLocked t x" "(control_step E)\<^sup>*\<^sup>* s t" by auto
  have "advances t u" using step_advances step.hyps(2) control.steps_inv[OF reach(2) step.prems] by blast
  then show ?case using advances_grow[of t u x] step.hyps(2) reach by (auto intro: rtranclp.rtrancl_into_rtrancl order_trans)
qed simp

section \<open>What expiry does\<close>

lemma expire_loop_effect:
  assumes "expire_loop E now xs s = (None, s')" "distinct (map fst xs)" "\<forall>(opID, r) \<in> set xs. map_of (srv_operations s) opID = Some r"
  shows "map_of (srv_operations s') opID =
           (case map_of xs opID of Some r \<Rightarrow> Some (if direct_expired E now (crd_Operation r) then expired_operation r else r)
            | None \<Rightarrow> map_of (srv_operations s) opID)"
    and "(\<And>r. map_of xs opID = Some r \<Longrightarrow> \<not> direct_expired E now (crd_Operation r)) \<Longrightarrow>
         map_of (srv_confirmations s') opID = map_of (srv_confirmations s) opID"
    and "srv_db s' = srv_db s \<and> srv_world s' = srv_world s \<and> srv_gate s' = srv_gate s \<and> srv_runMu s' = srv_runMu s
         \<and> srv_ownerKey s' = srv_ownerKey s \<and> srv_generation s' = srv_generation s \<and> srv_revisions s' = srv_revisions s"
  using assms
proof (atomize (full), induction E now xs s rule: expire_loop.induct)
  case (2 E now k r rest s)
  show ?case
  proof (cases "direct_expired E now (crd_Operation r)")
    case False
    then show ?thesis using 2(1)[OF False] 2(3-5) by (auto simp: map_of_eq_None_iff split: option.splits)
  next
    case True
    obtain e1 s1 where app: "appendLocked E ''expired'' (expired_operation r) s = (e1, s1)" by fastforce
    then have e1: "e1 = None" using 2(3) True by (cases e1) auto
    let ?t = "clearMCPProfileLocked k (clearKeySecretLocked k (delete_confirmation k (s1\<lparr>srv_operations := AList.update k (expired_operation r) (srv_operations s1)\<rparr>)))"
    have loop: "expire_loop E now rest ?t = (None, s')" using 2(3) True app e1 by simp
    have t: "srv_operations ?t = AList.update k (expired_operation r) (srv_operations s)" "srv_confirmations ?t = AList.delete k (srv_confirmations s)"
      "srv_db ?t = srv_db s \<and> srv_world ?t = srv_world s \<and> srv_gate ?t = srv_gate s \<and> srv_runMu ?t = srv_runMu s
         \<and> srv_ownerKey ?t = srv_ownerKey s \<and> srv_generation ?t = srv_generation s \<and> srv_revisions ?t = srv_revisions s"
      using append_fields[OF app] by (simp_all add: clearMCPProfileLocked_def clearKeySecretLocked_def delete_confirmation_def)
    have "\<forall>(i, v) \<in> set rest. map_of (srv_operations ?t) i = Some v"
      using 2(4,5) by (fastforce simp: t image_iff)
    moreover have "map_of rest k = None" "gm_wf rest" using 2(4) by (simp_all add: map_of_eq_None_iff)
    ultimately show ?thesis using 2(2)[OF _ app[symmetric] e1] True loop t 2(5)
      by (auto simp: delete_conv split: option.splits)
  qed
qed simp

lemma expire_effect:
  assumes "expireDirectLocked E now s = (None, s')" "ops_ok s" "map_of (srv_operations s') opID = Some r"
    "op_Status (crd_Operation r) = ControlPending"
  shows "map_of (srv_operations s) opID = Some r" "\<not> direct_expired E now (crd_Operation r)"
    "map_of (srv_confirmations s') opID = map_of (srv_confirmations s) opID"
    "srv_db s' = srv_db s" "srv_world s' = srv_world s" "srv_gate s' = srv_gate s" "srv_runMu s' = srv_runMu s"
    "srv_ownerKey s' = srv_ownerKey s" "srv_generation s' = srv_generation s" "srv_revisions s' = srv_revisions s"
proof -
  have d: "distinct (map fst (srv_operations s))" "\<forall>(opID, r) \<in> set (srv_operations s). map_of (srv_operations s) opID = Some r"
    using assms(2) by (auto simp: ops_ok_def)
  note eff = expire_loop_effect[OF assms(1)[unfolded expireDirectLocked_def] d]
  obtain q where q: "map_of (srv_operations s) opID = Some q" "r = (if direct_expired E now (crd_Operation q) then expired_operation q else q)"
    using eff(1)[of opID] assms(3) by (cases "map_of (srv_operations s) opID") simp_all
  have "op_Status (crd_Operation (expired_operation q)) = ControlStale" by (simp add: expired_operation_def set_operation_def)
  then have "\<not> direct_expired E now (crd_Operation q)" using q(2) assms(4) by auto
  then show look: "map_of (srv_operations s) opID = Some r" and ne: "\<not> direct_expired E now (crd_Operation r)" using q by simp_all
  show "map_of (srv_confirmations s') opID = map_of (srv_confirmations s) opID" by (rule eff(2)) (use look ne in auto)
  show "srv_db s' = srv_db s" "srv_world s' = srv_world s" "srv_gate s' = srv_gate s" "srv_runMu s' = srv_runMu s"
    "srv_ownerKey s' = srv_ownerKey s" "srv_generation s' = srv_generation s" "srv_revisions s' = srv_revisions s"
    using eff(3) by auto
qed

section \<open>A sample owner\<close>

text \<open>
  An owner whose configuration is one text: a permission change replaces it. Hashes are the texts
  themselves, a journal line has 100 bytes, and the one time that is read back is 1000.
\<close>

definition sample_control_env :: "string control_env" where
  "sample_control_env =
     \<lparr>cn_format = (\<lambda>t. if t = 1000 then ''t1000'' else ''later''),
      cn_parse = (\<lambda>x. if x = ''t1000'' then Some 1000 else None), cn_upper = (\<lambda>x. x), cn_hasControl = (\<lambda>_. False), cn_hmac = (@),
      cn_sha256 = (\<lambda>x. x), cn_marshal = (\<lambda>a r. Inr (a @ op_ID (crd_Operation r))), cn_line_size = (\<lambda>_. 100),
      cn_digest = (\<lambda>_. ''d''), cn_redacted = (\<lambda>m. m), cn_revert_arguments = (\<lambda>x. x),
      cn_build = (\<lambda>w _ _ q _. Inr \<lparr>bt_ConversationID = pq_ConversationID q, bt_ResourceIDs = [''config.execution''],
                     bt_Preview = ''change'', bt_RevertClass = [], bt_Arguments = pq_Arguments q,
                     bt_Before = [(''config.execution'', w)], bt_After = [(''config.execution'', pq_Arguments q)]\<rparr>),
      cn_policy_fields = (\<lambda>_. None), cn_extension_settings = (\<lambda>_ _. None), cn_public_web = (\<lambda>_. DefaultPublicWebConfig),
      cn_public_after = (\<lambda>_. None), cn_activeIDs = (\<lambda>_. None), cn_space_arguments = (\<lambda>_. None), cn_space_before = (\<lambda>_. None),
      cn_mcp_arguments = (\<lambda>_. None), cn_mcp_servers = (\<lambda>_. []), cn_mcp_operation = (\<lambda>n _. n), cn_mcp_json = (\<lambda>_. []),
      cn_redactID = (\<lambda>x. x), cn_find_key = (\<lambda>_ k. Inr k), cn_key_operation = (\<lambda>x. x), cn_mcp_validate = (\<lambda>_ _. None),
      cn_mcp_configure = (\<lambda>_ w db. (None, w, db)), cn_state_arguments = (\<lambda>_. None), cn_state_rpc = (\<lambda>_ _ _ _ w. (Inr [], w)),
      cn_state_result = (\<lambda>_. None), cn_workflowOutcomeUnknown = (\<lambda>_. False),
      cn_handler = (\<lambda>_ _ r w db. (None, [], crd_Arguments r, db)), cn_baseline = (\<lambda>w _. Inr (w, [], ''1'')),
      cn_reload = Inr, cn_ledger = sample_ledger_env\<rparr>"

definition idle_gate :: controlDecisionGate where
  "idle_gate = \<lparr>dg_controlBusy = False, dg_hostBusy = 0, dg_processBusy = 0\<rparr>"

definition fresh_owner :: "string ControlService" where
  "fresh_owner =
     \<lparr>srv_ownerKey = ''key'', srv_generation = ''g'', srv_file = None, srv_operations = [], srv_revisions = [], srv_entries = [],
      srv_confirmations = [], srv_keySecrets = [], srv_mcpProfiles = [], srv_gate = idle_gate, srv_baselineConfig = ''old'',
      srv_baselineKeys = [], srv_baselineDB = ''1'', srv_externalChange = False,
      srv_runMu = \<lparr>exclusive = False, chats = []\<rparr>, srv_db = fresh_store, srv_world = ''old'', srv_io = []\<rparr>"

definition sample_request :: "string \<Rightarrow> ControlPlanRequest" where
  "sample_request v =
     \<lparr>pq_Kind = ControlSetPermission, pq_Arguments = v, pq_Authorization = ControlUserDirect, pq_ConversationID = [],
      pq_ExpectedRevisions = []\<rparr>"

definition planned_owner :: "string ControlService" where
  "planned_owner = snd (PlanControlChange sample_control_env 1000 ''o'' None (sample_request ''new'') fresh_owner)"

definition rival_owner :: "string ControlService" where
  "rival_owner = snd (PlanControlChange sample_control_env 1000 ''p'' None (sample_request ''other'') planned_owner)"

definition rendered_owner :: "string ControlService" where
  "rendered_owner = snd (RenderConfirmation sample_control_env 1001 (replicate 10 7) None ''o'' [] ''me'' rival_owner)"

definition sample_authorization :: "string \<Rightarrow> ControlAuthorization" where
  "sample_authorization code =
     \<lparr>az_Source = ControlUserDirect, az_ConversationID = [], az_Principal = ''me'', az_Code = code,
      az_Capability = \<lparr>ik_token = ''t'', ik_generation = ''g'', ik_principal = ''me'', ik_conversationID = [], ik_expiresAt = 9000\<rparr>\<rparr>"

definition sample_decision :: "string \<Rightarrow> string ControlService \<Rightarrow> ControlResult \<times> err \<times> string ControlService" where
  "sample_decision opID s = decideControlChange sample_control_env 1002 None opID (sample_authorization ''777-777-7777'') True False s"

definition applied_owner :: "string ControlService" where
  "applied_owner = snd (snd (sample_decision ''o'' rendered_owner))"

text \<open>
  The states of the sample written out, so that what follows evaluates from them instead of
  replaying the steps that led there.
\<close>

definition sample_record :: "string \<Rightarrow> string \<Rightarrow> controlRecord" where
  "sample_record opID v =
     \<lparr>crd_Operation =
        \<lparr>op_RemotePrincipal = [], op_ID = opID, op_AttemptID = [], op_Kind = ControlSetPermission,
         op_Authorization = ControlUserDirect, op_ConversationID = [], op_ResourceIDs = [''config.execution''],
         op_ExpectedRevisions = [(''config.execution'', 1)], op_NewRevisions = [],
         op_OldValues = [(''config.execution'', ''old'')], op_ProposedValues = [(''config.execution'', v)],
         op_Risk = ControlRiskAuthority, op_Preview = ''change'', op_Digest = ''d'', op_CreatedAt = ''t1000'',
         op_ExpiresAt = ''later'', op_AppliedAt = [], op_Status = ControlPending, op_RevertClass = ''exact_snapshot'',
         op_RevertOf = [], op_ErrorCode = [], op_Recovery = []\<rparr>,
      crd_Arguments = v, crd_Before = [(''config.execution'', ''old'')], crd_After = [(''config.execution'', v)],
      crd_ResultData = [], crd_ExtensionDispatched = False\<rparr>"

definition sample_line :: "string \<Rightarrow> controlRecord \<Rightarrow> controlJournalLine" where
  "sample_line action r = \<lparr>jl_Action = action, jl_Record = r, jl_Hash = action @ op_ID (crd_Operation r)\<rparr>"

definition owner_after :: "controlJournalLine list \<Rightarrow> controlRecord list \<Rightarrow> string ControlService" where
  "owner_after ls rs = fresh_owner\<lparr>srv_file := Some \<lparr>jf_lines = map (\<lambda>l. (100, Some l)) ls, jf_torn = False\<rparr>, srv_entries := ls,
     srv_operations := map (\<lambda>r. (op_ID (crd_Operation r), r)) rs\<rparr>"

lemma planned_owner_code [code]:
  "planned_owner = owner_after [sample_line ''planned'' (sample_record ''o'' ''new'')] [sample_record ''o'' ''new'']"
  by code_simp

lemma rival_owner_code [code]:
  "rival_owner = owner_after [sample_line ''planned'' (sample_record ''o'' ''new''), sample_line ''planned'' (sample_record ''p'' ''other'')]
     [sample_record ''o'' ''new'', sample_record ''p'' ''other'']"
  by code_simp

definition rendered_lines :: "controlJournalLine list" where
  "rendered_lines = [sample_line ''planned'' (sample_record ''o'' ''new''), sample_line ''planned'' (sample_record ''p'' ''other''),
     sample_line ''reissued'' (sample_record ''o'' ''new'')]"

lemma rendered_owner_code [code]:
  "rendered_owner = (owner_after rendered_lines [sample_record ''o'' ''new'', sample_record ''p'' ''other''])
     \<lparr>srv_confirmations := [(''o'', \<lparr>ks_operationID = ''o'',
        ks_codeMAC = ''keyg'' @ [CHR 0x00] @ ''o'' @ [CHR 0x00, CHR 0x00] @ ''7777777777'', ks_code = ''7777777777'',
        ks_conversationID = [], ks_expiresAt = 600000001001, ks_attempts = 0\<rparr>)]\<rparr>"
  by code_simp

lemma applied_owner_code [code]:
  "applied_owner =
     (let r = set_operation (\<lambda>op. op\<lparr>op_AppliedAt := ''later'', op_Status := ControlApplied, op_NewRevisions := [(''config.execution'', 2)]\<rparr>)
                (sample_record ''o'' ''new'')
      in (owner_after (rendered_lines @ [sample_line ControlApplied r]) [r, sample_record ''p'' ''other''])
           \<lparr>srv_revisions := [(''config.execution'', 2)], srv_baselineConfig := ''new'', srv_world := ''new''\<rparr>)"
  by code_simp

section \<open>Deciding\<close>

definition needs_code :: "controlRecord \<Rightarrow> ControlAuthorization \<Rightarrow> bool" where
  "needs_code r auth \<longleftrightarrow>
     op_Authorization (crd_Operation r) = ControlModelProposed \<or> op_Risk (crd_Operation r) \<noteq> ControlRiskOrdinary \<or> TrimSpace (az_Code auth) \<noteq> []"

definition code_accepted :: "'w control_env \<Rightarrow> int \<Rightarrow> string \<Rightarrow> ControlAuthorization \<Rightarrow> 'w ControlService \<Rightarrow> bool" where
  "code_accepted E now opID auth s \<longleftrightarrow>
     (\<exists>k. map_of (srv_confirmations s) opID = Some k \<and> now \<le> ks_expiresAt k \<and> ks_attempts k < controlMaxCodeAttempts
        \<and> az_ConversationID auth = ks_conversationID k
        \<and> controlCodeMAC E s opID (ks_conversationID k) (typed_code E (az_Code auth)) = ks_codeMAC k)"

definition capability_valid :: "int \<Rightarrow> ControlAuthorization \<Rightarrow> 'w ControlService \<Rightarrow> bool" where
  "capability_valid now auth s \<longleftrightarrow>
     ik_token (az_Capability auth) \<noteq> [] \<and> ik_generation (az_Capability auth) = srv_generation s
     \<and> az_Principal auth \<noteq> [] \<and> az_Principal auth = ik_principal (az_Capability auth)
     \<and> (ik_expiresAt (az_Capability auth) = 0 \<or> now \<le> ik_expiresAt (az_Capability auth))
     \<and> (az_ConversationID auth = [] \<or> ik_conversationID (az_Capability auth) = [] \<or> az_ConversationID auth = ik_conversationID (az_Capability auth))"

definition decidable :: "'w control_env \<Rightarrow> int \<Rightarrow> PublicEntry option \<Rightarrow> string \<Rightarrow> ControlAuthorization \<Rightarrow> bool \<Rightarrow> controlRecord \<Rightarrow> 'w ControlService \<Rightarrow> bool" where
  "decidable E now ctx opID auth fromRun r s \<longleftrightarrow>
     map_of (srv_operations s) opID = Some r \<and> op_Status (crd_Operation r) = ControlPending \<and> op_ErrorCode (crd_Operation r) \<noteq> ''expired''
     \<and> \<not> direct_expired E now (crd_Operation r) \<and> \<not> other_entry ctx r \<and> (op_AttemptID (crd_Operation r) \<noteq> [] \<longrightarrow> fromRun)
     \<and> capability_valid now auth s
     \<and> (op_ConversationID (crd_Operation r) \<noteq> [] \<longrightarrow> az_ConversationID auth = op_ConversationID (crd_Operation r))
     \<and> (needs_code r auth \<longrightarrow> code_accepted E now opID auth s)"

lemma validateCapability_iff: "validateCapabilityLocked now auth s = None \<longleftrightarrow> capability_valid now auth s"
  by (auto simp: validateCapabilityLocked_def capability_valid_def Let_def)

lemma decide_entry_iff:
  assumes "op_ID (crd_Operation r) = opID"
  shows "decide_entry E now ctx r auth True fromRun s = (None, s')
     \<longleftrightarrow> s' = s \<and> \<not> other_entry ctx r \<and> op_ErrorCode (crd_Operation r) \<noteq> ''expired'' \<and> op_Status (crd_Operation r) = ControlPending
         \<and> (op_AttemptID (crd_Operation r) \<noteq> [] \<longrightarrow> fromRun) \<and> capability_valid now auth s
         \<and> (op_ConversationID (crd_Operation r) \<noteq> [] \<longrightarrow> az_ConversationID auth = op_ConversationID (crd_Operation r))
         \<and> (needs_code r auth \<longrightarrow> code_accepted E now opID auth s)"
proof -
  have code: "verifyCodeLocked E now r auth s = (None, s') \<longleftrightarrow> s' = s \<and> code_accepted E now opID auth s"
    by (auto simp: verifyCodeLocked_def code_accepted_def Let_def assms split: option.splits)
  show ?thesis unfolding decide_entry_def Let_def using code validateCapability_iff[of now auth s]
    by (auto simp: needs_code_def)
qed

lemma decide_commits:
  assumes "decideControlChange E now ctx opID auth True fromRun s = (res, e, s')" "ops_ok s"
    and "zr_Applied res \<or> e = None \<or> srv_world s' \<noteq> srv_world s"
  obtains r t where "decidable E now ctx opID auth fromRun r s" "detectExternalChange E s = (None, s)"
    "decide_commit E now ctx opID r fromRun t = (res, e, s')" "steady s t"
    "srv_db t = srv_db s" "srv_world t = srv_world s" "srv_gate t = srv_gate s" "srv_runMu t = srv_runMu s"
    "srv_revisions t = srv_revisions s" "map_of (srv_operations t) opID = Some r"
  using assms(1,2)
proof (cases rule: decide_cases)
  case refused
  then show ?thesis using assms(3) by blast
next
  case (commits s1 s2 r)
  have opID: "op_ID (crd_Operation r) = opID" using ops_ok_lookup[OF steady_ops_ok[OF commits(3) assms(2)] commits(4)] .
  note entry = decide_entry_iff[OF opID, THEN iffD1, OF commits(5)]
  have pend: "op_Status (crd_Operation r) = ControlPending" using entry by blast
  note eff = expire_effect[OF commits(2) assms(2) commits(4) pend]
  have "capability_valid now auth s1 = capability_valid now auth s" "code_accepted E now opID auth s1 = code_accepted E now opID auth s"
    using eff by (simp_all add: capability_valid_def code_accepted_def controlCodeMAC_def)
  then have "decidable E now ctx opID auth fromRun r s" using entry eff(1,2) unfolding decidable_def by simp
  then show ?thesis using that commits eff entry by blast
qed

lemma invalidate_world:
  assumes "invalidateProposalLocked E code r s = (e, s')" shows "srv_world s' = srv_world s"
proof -
  have "srv_world (snd (settleInvalidProposal E q u)) = srv_world u" for q u
    using settle_fields[OF prod.collapse[symmetric], of E q u] by fastforce
  moreover have "srv_world (snd (appendLocked E a q u)) = srv_world u" for a q u
    using append_fields(5)[OF prod.collapse[symmetric]] .
  ultimately show ?thesis using assms unfolding invalidateProposalLocked_def Let_def
    by (auto split: prod.splits option.splits simp: put_def clearMCPProfileLocked_def clearKeySecretLocked_def delete_confirmation_def
        dest!: arg_cong[where f = snd])
qed

lemma stale_commit:
  assumes "decide_commit E now ctx opID r fromRun s = (res, e, s')" "stale_revision s r"
  shows "\<not> zr_Applied res \<and> e \<noteq> None \<and> srv_world s' = srv_world s"
  using assms invalidate_world[of E "''stale_revision''" r s] unfolding decide_commit_def
  by (auto simp: of_operation_def no_result_def split: if_splits prod.splits option.splits)

text \<open>
  C3: a settings change happens only after it was properly decided. Whenever a decision reports that
  a change was applied, or changes anything in the rest of the program, the operation was pending and
  not expired, the authorization carried an unexpired interactive capability of this owner for the
  same person and conversation, a current confirmation code was given for every proposal of a model
  and every operation that is not ordinary, no other remote entry owns it, a proposal of a run was
  confirmed through that run, no resource changed since it was planned, no configuration, key or
  database change from outside is unreviewed, and no run, command or host execution was in the way.
\<close>

theorem apply_needs_decision:
  assumes decide: "decideControlChange E now ctx opID auth True fromRun s = (res, e, s')" and ok: "ops_ok s"
    and effect: "zr_Applied res \<or> srv_world s' \<noteq> srv_world s"
  shows "\<exists>r. decidable E now ctx opID auth fromRun r s \<and> \<not> stale_revision s r \<and> decide_busy E r fromRun s = None
     \<and> \<not> srv_externalChange s
     \<and> cn_baseline E (srv_world s) (srv_db s) = Inr (srv_baselineConfig s, srv_baselineKeys s, srv_baselineDB s)"
proof -
  obtain r t where c: "decidable E now ctx opID auth fromRun r s" "detectExternalChange E s = (None, s)"
    "decide_commit E now ctx opID r fromRun t = (res, e, s')" "steady s t"
    "srv_db t = srv_db s" "srv_world t = srv_world s" "srv_gate t = srv_gate s" "srv_runMu t = srv_runMu s"
    "srv_revisions t = srv_revisions s" "map_of (srv_operations t) opID = Some r"
    using decide_commits[OF decide ok] effect by blast
  have "\<not> stale_revision t r" using stale_commit[OF c(3)] c(6) effect by metis
  moreover have "decide_busy E r fromRun t = None"
    using c(3,6) effect calculation unfolding decide_commit_def
    by (auto simp: of_operation_def no_result_def split: option.splits prod.splits)
  moreover have "stale_revision t r = stale_revision s r" using c(9) by (simp add: stale_revision_def revisionLocked_def)
  moreover have "decide_busy E r fromRun t = decide_busy E r fromRun s" by (simp only: decide_busy_def c(5-8))
  moreover have "\<not> srv_externalChange s \<and> cn_baseline E (srv_world s) (srv_db s) = Inr (srv_baselineConfig s, srv_baselineKeys s, srv_baselineDB s)"
    using c(2) by (auto simp: detectExternalChange_def split: sum.splits prod.splits if_splits)
  ultimately show ?thesis using c(1) by metis
qed

lemma fresh_owner_ok: "ops_ok fresh_owner"
  by (simp add: ops_ok_def fresh_owner_def)

lemma sample_planned: "map_of (srv_operations planned_owner) ''p'' = None" "map_of (srv_operations fresh_owner) ''o'' = None"
  "ops_ok planned_owner"
  by code_simp+

lemma sample_reaches_rendered: "(control_step sample_control_env)\<^sup>*\<^sup>* fresh_owner rendered_owner"
proof -
  have "control_step sample_control_env fresh_owner planned_owner"
    unfolding planned_owner_def by (rule plans[OF prod.collapse[symmetric] sample_planned(2)])
  moreover have "control_step sample_control_env planned_owner rival_owner"
    unfolding rival_owner_def by (rule plans[OF prod.collapse[symmetric] sample_planned(1)])
  moreover have "control_step sample_control_env rival_owner rendered_owner"
    unfolding rendered_owner_def by (rule renders[OF prod.collapse[symmetric]])
  ultimately show ?thesis by (meson rtranclp.rtrancl_refl rtranclp.rtrancl_into_rtrancl)
qed

lemma sample_rendered_ok: "ops_ok rendered_owner"
  using control.steps_inv[OF sample_reaches_rendered fresh_owner_ok] .

lemma applied_sample: "zr_Applied (fst (sample_decision ''o'' rendered_owner))" "fst (snd (sample_decision ''o'' rendered_owner)) = None"
  "srv_world applied_owner = ''new''"
proof -
  have "case sample_decision ''o'' rendered_owner of (res, e, s) \<Rightarrow> zr_Applied res \<and> (case e of None \<Rightarrow> True | Some _ \<Rightarrow> False)" by code_simp
  then show "zr_Applied (fst (sample_decision ''o'' rendered_owner))" "fst (snd (sample_decision ''o'' rendered_owner)) = None"
    by (auto split: prod.splits option.splits)
  show "srv_world applied_owner = ''new''" by code_simp
qed

lemma sample_decided: "sample_decision ''o'' rendered_owner = (fst (sample_decision ''o'' rendered_owner), None, applied_owner)"
  using applied_sample(2) by (simp add: applied_owner_def prod_eq_iff)

theorem apply_needs_decision_witness:
  "zr_Applied (fst (sample_decision ''o'' rendered_owner))
   \<and> (\<exists>r. decidable sample_control_env 1002 None ''o'' (sample_authorization ''777-777-7777'') False r rendered_owner
        \<and> \<not> stale_revision rendered_owner r)"
  using apply_needs_decision[OF sample_decided[unfolded sample_decision_def] sample_rendered_ok] applied_sample(1)
  unfolding sample_decision_def by blast

text \<open>
  C36: a decision is final. Once an operation is no longer pending, whatever the service does
  afterwards, confirming it again fails, reports nothing applied and changes nothing in the rest of
  the program.
\<close>

theorem decided_is_final:
  assumes "ops_ok s" "map_of (srv_operations s) opID = Some r" "op_Status (crd_Operation r) \<noteq> ControlPending"
    and "(control_step E)\<^sup>*\<^sup>* s t" and decide: "decideControlChange E now ctx opID auth True fromRun t = (res, e, t')"
  shows "\<not> zr_Applied res \<and> e \<noteq> None \<and> srv_world t' = srv_world t"
proof (rule ccontr)
  assume "\<not> ?thesis"
  then have "zr_Applied res \<or> e = None \<or> srv_world t' \<noteq> srv_world t" by blast
  then obtain q where "decidable E now ctx opID auth fromRun q t"
    using decide_commits[OF decide control.steps_inv[OF assms(4,1)]] by metis
  then have "map_of (srv_operations t) opID = Some q" "op_Status (crd_Operation q) = ControlPending" by (simp_all add: decidable_def)
  then show False using steps_evolve[OF assms(4,1,2)] assms(3) by (auto simp: record_evolves_def status_moves_def Let_def)
qed

lemma sample_applied_status: "map_option (\<lambda>r. op_Status (crd_Operation r)) (map_of (srv_operations applied_owner) ''o'') = Some ControlApplied"
  by code_simp

lemma sample_applied_ok: "ops_ok applied_owner"
  using control.step_inv[OF sample_rendered_ok decides[OF sample_decided[unfolded sample_decision_def]]] .

theorem decided_is_final_witness:
  "fst (snd (sample_decision ''o'' applied_owner)) \<noteq> None \<and> \<not> zr_Applied (fst (sample_decision ''o'' applied_owner))"
proof -
  obtain r where "map_of (srv_operations applied_owner) ''o'' = Some r" "op_Status (crd_Operation r) = ControlApplied"
    using sample_applied_status by auto
  moreover obtain res e t where "sample_decision ''o'' applied_owner = (res, e, t)" using prod_cases3 by blast
  ultimately show ?thesis
    using decided_is_final[OF sample_applied_ok, of "''o''" r sample_control_env applied_owner] by (simp add: sample_decision_def)
qed

text \<open>What an error-free commit leaves behind: the operation is applied and its resources are newer.\<close>

lemma commit_bumps:
  assumes "decide_commit E now ctx opID r fromRun t = (res, None, s')" "map_of (srv_operations t) opID = Some r" "ops_ok t"
    "op_Status (crd_Operation r) = ControlPending"
  shows "srv_revisions s' = srv_revisions (bump_revisions (op_ResourceIDs (crd_Operation r)) t) \<and> \<not> stale_revision t r"
proof -
  have opID: "op_ID (crd_Operation r) = opID" by (rule ops_ok_lookup[OF assms(3,2)])
  have calm: "\<not> stale_revision t r" "decide_busy E r fromRun t = None"
    using assms(1) by (auto simp: decide_commit_def split: if_splits prod.splits option.splits)
  obtain e r' u where ap: "applyRecordLocked E ctx r t = (e, r', u)" using prod_cases3 by blast
  have frm: "applied_from r t r' u" using applied_from_record[OF ap] assms(2,4) opID by simp
  then have rev: "srv_revisions u = srv_revisions t" and res: "op_ResourceIDs (crd_Operation r') = op_ResourceIDs (crd_Operation r)"
    using dispatch_of_operation by (auto simp: applied_from_def steady_def)
  have "e = None" using assms(1) calm ap by (cases e) (auto simp: decide_commit_def decide_failed_def Let_def split: if_splits)
  then have fin: "decide_applied E now opID r' u = (res, None, s')" using assms(1) calm ap by (simp add: decide_commit_def)
  obtain e1 u1 where base: "refreshBaseline E u = (e1, u1)" by fastforce
  have "srv_revisions u1 = srv_revisions t" using base rev by (auto simp: refreshBaseline_def split: sum.splits prod.splits)
  moreover have e1: "e1 = None" using fin base by (cases e1) (auto simp: decide_applied_def Let_def)
  have "srv_revisions s' = srv_revisions (fst (fold bump (op_ResourceIDs (crd_Operation r)) (u1, [])))"
    using fin base e1 res unfolding decide_applied_def Let_def
    by (auto split: prod.splits option.splits simp: set_operation_def append_fields clearMCPProfileLocked_def clearKeySecretLocked_def delete_confirmation_def)
  ultimately show ?thesis using calm(1) bump_cong[of u1 t] by (simp add: bump_revisions_def)
qed

text \<open>
  C37: two operations planned against the same revision of a resource cannot both be applied. After
  one of them was applied without an error, confirming any operation that expects that revision or
  an older one fails in every later state, reports nothing applied and changes nothing.
\<close>

theorem stale_plans_excluded:
  assumes first: "decideControlChange E now ctx opID auth True fromRun s = (res, None, s')" and ok: "ops_ok s" "room s"
    and applied: "map_of (srv_operations s) opID = Some r" "x \<in> set (op_ResourceIDs (crd_Operation r))"
    and later: "(\<lambda>s t. control_step E s t \<and> room s)\<^sup>*\<^sup>* s' t"
    and rival: "map_of (srv_operations t) opID2 = Some r2" "(x, v) \<in> set (op_ExpectedRevisions (crd_Operation r2))" "v \<le> revisionLocked s x"
    and second: "decideControlChange E now2 ctx2 opID2 auth2 True fromRun2 t = (res2, e2, t')"
  shows "\<not> zr_Applied res2 \<and> e2 \<noteq> None \<and> srv_world t' = srv_world t"
proof -
  obtain q t1 where c: "decidable E now ctx opID auth fromRun q s" "decide_commit E now ctx opID q fromRun t1 = (res, None, s')"
    "steady s t1" "srv_revisions t1 = srv_revisions s" "map_of (srv_operations t1) opID = Some q"
    using decide_commits[OF first ok(1)] by blast
  have [simp]: "q = r" using c(1) applied(1) by (simp add: decidable_def)
  have "srv_revisions s' = srv_revisions (bump_revisions (op_ResourceIDs (crd_Operation r)) t1)"
    using commit_bumps[OF c(2,5) steady_ops_ok[OF c(3) ok(1)]] c(1) by (simp add: decidable_def)
  then have "revisionLocked s' x = revisionLocked (bump_revisions (op_ResourceIDs (crd_Operation r)) s) x"
    using bump_cong[OF c(4), of "op_ResourceIDs (crd_Operation r)" "[]" "[]"] by (simp add: revisionLocked_def bump_revisions_def)
  then have "unat (revisionLocked s x) < unat (revisionLocked s' x)"
    using fold_bump_grows[of s "op_ResourceIDs (crd_Operation r)" x "[]"] room_lookup[OF ok(2) applied(1)] applied(2)
    by (simp add: bump_revisions_def)
  moreover have ok': "ops_ok s'" using control.step_inv[OF ok(1) decides[OF first]] .
  ultimately have newer: "v < revisionLocked t x" and reach: "(control_step E)\<^sup>*\<^sup>* s' t"
    using steps_grow[OF later ok', of x] rival(3) by (auto simp: word_less_nat_alt word_le_nat_alt)
  show ?thesis
  proof (rule ccontr)
    assume "\<not> ?thesis"
    then have eff: "zr_Applied res2 \<or> e2 = None \<or> srv_world t' \<noteq> srv_world t" by blast
    obtain q2 t2 where d: "decidable E now2 ctx2 opID2 auth2 fromRun2 q2 t" "decide_commit E now2 ctx2 opID2 q2 fromRun2 t2 = (res2, e2, t')"
      "srv_world t2 = srv_world t" "srv_revisions t2 = srv_revisions t" "map_of (srv_operations t2) opID2 = Some q2"
      using decide_commits[OF second control.steps_inv[OF reach ok'] eff] by blast
    have "q2 = r2" using d(1) rival(1) by (simp add: decidable_def)
    then have "stale_revision t2 q2" using newer rival(2) d(4) unfolding stale_revision_def list_ex_iff
      by (auto simp: revisionLocked_def intro!: bexI[of _ "(x, v)"])
    then show False using d(2,3) eff stale_commit by metis
  qed
qed

lemma sample_rival:
  "srv_revisions rendered_owner = []" "list_all (\<lambda>(i, r). length (op_ResourceIDs (crd_Operation r)) = 1) (srv_operations rendered_owner)"
  "map_option (\<lambda>r. op_ResourceIDs (crd_Operation r)) (map_of (srv_operations rendered_owner) ''o'') = Some [''config.execution'']"
  "map_option (\<lambda>r. op_ExpectedRevisions (crd_Operation r)) (map_of (srv_operations applied_owner) ''p'') = Some [(''config.execution'', 1)]"
  by code_simp+

theorem stale_plans_excluded_witness:
  "zr_Applied (fst (sample_decision ''o'' rendered_owner)) \<and> fst (snd (sample_decision ''p'' applied_owner)) \<noteq> None"
proof -
  obtain r where r: "map_of (srv_operations rendered_owner) ''o'' = Some r" "op_ResourceIDs (crd_Operation r) = [''config.execution'']"
    using sample_rival(3) by auto
  obtain r2 where r2: "map_of (srv_operations applied_owner) ''p'' = Some r2" "op_ExpectedRevisions (crd_Operation r2) = [(''config.execution'', 1)]"
    using sample_rival(4) by auto
  have one: "revisionLocked rendered_owner x = 1" for x by (simp add: revisionLocked_def sample_rival(1))
  have room: "room rendered_owner" using sample_rival(2) by (auto simp: room_def one list_all_iff)
  obtain res e t where p: "sample_decision ''p'' applied_owner = (res, e, t)" using prod_cases3 by blast
  have "e \<noteq> None"
    using stale_plans_excluded[OF sample_decided[unfolded sample_decision_def] sample_rendered_ok room r(1) _ rtranclp.rtrancl_refl
        r2(1) _ _ p[unfolded sample_decision_def], of "''config.execution''" 1] by (simp add: r(2) r2(2) one)
  then show ?thesis using applied_sample(1) p by simp
qed

lemma planned_record:
  assumes plan: "PlanControlChange E t0 newID ctx q s = (Inr op, s')" and direct: "pq_Authorization q = ControlUserDirect"
  shows "\<exists>p. map_of (srv_operations s') newID = Some p \<and> crd_Operation p = op \<and> op_Authorization (crd_Operation p) = ControlUserDirect
     \<and> op_CreatedAt (crd_Operation p) = cn_format E t0 \<and> op_ID (crd_Operation p) = newID \<and> op_Status (crd_Operation p) = ControlPending"
proof -
  obtain s1 r f where r: "buildRecordLocked E ctx q s1 = Inr r"
    and log: "record_plan E (set_operation f (stamp E t0 newID r)) s1 = (Inr op, s')"
    and f: "\<And>op. op_ID (f op) = op_ID op \<and> op_Authorization (f op) = op_Authorization op \<and> op_CreatedAt (f op) = op_CreatedAt op
         \<and> op_Status (f op) = op_Status op"
    using plan unfolding PlanControlChange_def
    by (auto split: prod.split_asm option.split_asm if_split_asm sum.split_asm)
  have auth: "op_Authorization (crd_Operation r) = ControlUserDirect"
    using r direct unfolding buildRecordLocked_def build_finish_def build_checks_def
    by (auto split: sum.split_asm option.split_asm if_split_asm simp: set_operation_def no_operation_def with_built_def)
  let ?p = "set_operation f (stamp E t0 newID r)"
  have "map_of (srv_operations s') (op_ID (crd_Operation ?p)) = Some ?p \<and> op = crd_Operation ?p"
    using log by (auto simp: record_plan_def put_def append_fields split: prod.split_asm option.split_asm)
  then show ?thesis using f auth by (auto simp: set_operation_def stamp_def Let_def intro!: exI[of _ ?p])
qed

lemma render_pending:
  assumes "RenderConfirmation E now raw ctx opID chat prin s = (Inr c, s')" "ops_ok s"
  shows "\<exists>s1 q. expireDirectLocked E now s = (None, s1) \<and> map_of (srv_operations s1) opID = Some q \<and> op_Status (crd_Operation q) = ControlPending"
proof -
  obtain r0 where r0: "map_of (srv_operations s) opID = Some r0" using assms(1) by (auto simp: RenderConfirmation_def split: option.split_asm)
  obtain s1 where ex: "expireDirectLocked E now s = (None, s1)"
    using assms(1) r0 by (auto simp: RenderConfirmation_def split: option.split_asm prod.split_asm)
  obtain q where q: "map_of (srv_operations s1) opID = Some q" using steady_lookup[OF steady_expire[OF assms(2) ex] assms(2) r0] by blast
  obtain r s2 where bind: "render_bind E now ctx opID q s1 = (Inr r, s2)" and chk: "render_checked E now raw opID chat prin r s2 = (Inr c, s')"
    using assms(1) r0 ex q by (auto simp: RenderConfirmation_def Let_def split: if_split_asm sum.split_asm prod.split_asm)
  have "op_Status (crd_Operation r) = ControlPending" using chk by (auto simp: render_checked_def split: if_split_asm)
  moreover have "op_Status (crd_Operation r) = op_Status (crd_Operation q)"
    using bind by (auto simp: render_bind_def Let_def set_remote_def set_operation_def split: option.split_asm if_split_asm prod.split_asm)
  ultimately show ?thesis using ex q by auto
qed

text \<open>
  C38: a direct settings gesture has an absolute lifetime of ten minutes. After it was planned,
  whatever happens in between, as long as no run adopted it, ten minutes later it can neither be
  shown with a code again nor be confirmed, and nothing is changed.
\<close>

theorem direct_change_expires:
  assumes plan: "PlanControlChange E t0 newID ctx q s = (Inr op, s')" "ops_ok s" "map_of (srv_operations s) newID = None"
    and direct: "pq_Authorization q = ControlUserDirect" and clock: "cn_parse E (cn_format E t0) = Some t0"
    and later: "(control_step E)\<^sup>*\<^sup>* s' t" "map_of (srv_operations t) newID = Some r" "op_AttemptID (crd_Operation r) = []"
    and late: "t0 + controlConfirmationTTL \<le> now"
  shows "(\<forall>ctx' auth fromRun res e t'. decideControlChange E now ctx' newID auth True fromRun t = (res, e, t')
            \<longrightarrow> \<not> zr_Applied res \<and> e \<noteq> None \<and> srv_world t' = srv_world t)
       \<and> (\<forall>raw ctx' chat prin c t'. RenderConfirmation E now raw ctx' newID chat prin t = (Inr c, t') \<longrightarrow> False)"
proof -
  have ok': "ops_ok s'" using control.step_inv[OF plan(2) plans[OF plan(1,3)]] .
  have ok: "ops_ok t" using control.steps_inv[OF later(1) ok'] .
  obtain p where p: "map_of (srv_operations s') newID = Some p" "op_Authorization (crd_Operation p) = ControlUserDirect"
      "op_CreatedAt (crd_Operation p) = cn_format E t0" "op_ID (crd_Operation p) = newID" using planned_record[OF plan(1) direct] by blast
  have "record_evolves p r" using steps_evolve[OF later(1) ok' p(1)] later(2) by simp
  then have r: "op_Authorization (crd_Operation r) = ControlUserDirect" "op_CreatedAt (crd_Operation r) = cn_format E t0"
    using p by (simp_all add: record_evolves_def Let_def)
  have exp: "direct_expired E now (crd_Operation r)" if "op_Status (crd_Operation r) = ControlPending"
    using that r later(3) late clock by (simp add: direct_expired_def)
  have "\<not> decidable E now ctx' newID auth fromRun r' t" for ctx' auth fromRun r'
    using exp later(2) by (auto simp: decidable_def)
  then have "\<not> zr_Applied res \<and> e \<noteq> None \<and> srv_world t' = srv_world t"
    if d: "decideControlChange E now ctx' newID auth True fromRun t = (res, e, t')" for ctx' auth fromRun res e t'
    using decide_commits[OF d ok] by metis
  moreover have False if c: "RenderConfirmation E now raw ctx' newID chat prin t = (Inr c, t')" for raw ctx' chat prin c t'
  proof -
    obtain s1 q where x: "expireDirectLocked E now t = (None, s1)" "map_of (srv_operations s1) newID = Some q" "op_Status (crd_Operation q) = ControlPending"
      using render_pending[OF c ok] by blast
    show False using expire_effect(1,2)[OF x(1) ok x(2,3)] later(2) x(3) exp by simp
  qed
  ultimately show ?thesis by blast
qed

lemma sample_plan: "PlanControlChange sample_control_env 1000 ''o'' None (sample_request ''new'') fresh_owner
     = (fst (PlanControlChange sample_control_env 1000 ''o'' None (sample_request ''new'') fresh_owner), planned_owner)"
  by (simp add: planned_owner_def)

lemma sample_plan_ok:
  "case fst (PlanControlChange sample_control_env 1000 ''o'' None (sample_request ''new'') fresh_owner) of Inl _ \<Rightarrow> False | Inr _ \<Rightarrow> True"
  "map_option (\<lambda>r. op_AttemptID (crd_Operation r)) (map_of (srv_operations planned_owner) ''o'') = Some []"
  by code_simp+

theorem direct_change_expires_witness:
  "fst (snd (decideControlChange sample_control_env 600000001000 None ''o'' (sample_authorization []) True False planned_owner)) \<noteq> None
   \<and> isl (fst (RenderConfirmation sample_control_env 600000001000 (replicate 10 7) None ''o'' [] ''me'' planned_owner))"
proof -
  obtain op where plan: "PlanControlChange sample_control_env 1000 ''o'' None (sample_request ''new'') fresh_owner = (Inr op, planned_owner)"
    using sample_plan sample_plan_ok(1) by (auto split: sum.split_asm)
  obtain r where r: "map_of (srv_operations planned_owner) ''o'' = Some r" "op_AttemptID (crd_Operation r) = []" using sample_plan_ok(2) by auto
  have "cn_parse sample_control_env (cn_format sample_control_env 1000) = Some 1000" by code_simp
  note expires = direct_change_expires[OF plan fresh_owner_ok sample_planned(2) _ this rtranclp.rtrancl_refl r, of 600000001000]
  obtain res e t where d: "decideControlChange sample_control_env 600000001000 None ''o'' (sample_authorization []) True False planned_owner = (res, e, t)"
    using prod_cases3 by blast
  obtain c u where c: "RenderConfirmation sample_control_env 600000001000 (replicate 10 7) None ''o'' [] ''me'' planned_owner = (c, u)" by fastforce
  have "e \<noteq> None" using expires d by (simp add: sample_request_def)
  moreover have "isl c" using expires c by (cases c) (auto simp: sample_request_def)
  ultimately show ?thesis using d c by simp
qed

end
