(* ===== verification/Channel_Store.thy ===== *)
theory Channel_Store
  imports Permission Store_Model
begin

text \<open>
  The tables that chat channels share with the rest of the program: spaces, their conversations,
  messages and attachments, and the metadata rows of channel access. On them the operations of
  spaces.go and the binding of a platform chat to a space (channel_messages.go).

  A metadata row holds the decoded document; tables are lists of rows, and a statement that breaks
  a unique index fails with sql_violation, which rolls the transaction back.
\<close>

section \<open>Rows\<close>

abbreviation SpaceSourceLocal :: string where "SpaceSourceLocal \<equiv> ''local''"
abbreviation SpaceSourceTelegram :: string where "SpaceSourceTelegram \<equiv> ''telegram''"
abbreviation SpaceSourceLark :: string where "SpaceSourceLark \<equiv> ''lark''"
abbreviation SpaceSourceQQ :: string where "SpaceSourceQQ \<equiv> ''qq''"

record Space =
  sc_ID :: string
  sc_Title :: string
  sc_Source :: string
  sc_ChatKind :: string
  sc_ExternalChat :: string
  sc_DefaultConversationID :: string
  sc_ActiveConversationID :: string
  sc_MultiConversation :: bool
  sc_CreatedAt :: string
  sc_UpdatedAt :: string

record chat_row =
  ch_ID :: string
  ch_Title :: string
  ch_Workspace :: string
  ch_SpaceID :: string
  ch_UpdatedAt :: string
  ch_LastMessage :: int

record ChannelTarget =
  tg_Source :: string
  tg_ApplicationID :: string
  tg_ChatID :: string

text \<open>ChannelMessageSource without its media references.\<close>

record ChannelMessageSource =
  ms_Target :: ChannelTarget
  ms_PersonID :: string
  ms_DisplayName :: string
  ms_MessageID :: string
  ms_Purpose :: string

record hub_message =
  hm_Conversation :: string
  hm_ID :: int
  hm_RunID :: "string option"
  hm_RequestKey :: string
  hm_Role :: string
  hm_Content :: string
  hm_Public :: bool
  hm_Channel :: "ChannelMessageSource option"
  hm_Attachments :: "string list"

record attachment_row =
  ar_Conversation :: string
  ar_Space :: string
  ar_Name :: string
  ar_Public :: bool
  ar_Deleted :: bool

record TelegramAccess =
  ta_Target :: ChannelTarget
  ta_SpaceID :: string
  ta_Kind :: string
  ta_Enabled :: bool
  ta_WholeGroup :: bool
  ta_Members :: "string list"
  ta_Revision :: "64 word"
  ta_UpdatedAt :: string

text \<open>
  Selections that must not travel into a published space are pairs of a key prefix and a
  conversation; space permissions and person permissions are those of space_permissions.go.
\<close>

record hub =
  hb_spaces :: "Space list"
  hb_chats :: "chat_row list"
  hb_messages :: "hub_message list"
  hb_attachments :: "(string, attachment_row) gomap"
  hb_local_meta :: "(string \<times> string) list"
  hb_permission :: "(string, PermissionMode) gomap"
  hb_people :: "(string \<times> string) list"
  hb_person :: "(string, PersonPermission) gomap"
  hb_access :: "(string, TelegramAccess) gomap"

text \<open>
  What the operations ask the rest of the program: the clock, the workspace, the number of runes
  and control characters of a text, whether a conversation has an active run or an unfinished
  command, whether a run came from the local entry and was not a direct command, and content hashes.
\<close>

record hub_env =
  he_now :: string
  he_workspace :: string
  he_runeCount :: "string \<Rightarrow> nat"
  he_hasControl :: "string \<Rightarrow> bool"
  he_active :: "string \<Rightarrow> bool"
  he_commands :: "string \<Rightarrow> bool"
  he_local_run :: "string \<Rightarrow> bool"
  he_hash :: "string list \<Rightarrow> string"

section \<open>Validation\<close>

definition validateSpaceSource :: "string \<Rightarrow> string \<Rightarrow> string \<Rightarrow> err" where
  "validateSpaceSource source chatKind externalChat =
     (if source = SpaceSourceLocal
      then (if chatKind \<noteq> [] \<or> externalChat \<noteq> [] then Some (Sentinel ErrInvalidSpace) else None)
      else if source \<in> {SpaceSourceTelegram, SpaceSourceLark, SpaceSourceQQ}
      then (if chatKind \<noteq> ''private'' \<and> chatKind \<noteq> ''group'' then Some (Sentinel ErrInvalidSpace)
            else if TrimSpace externalChat = [] \<or> length externalChat > 512 \<or> ContainsAny externalChat nul_cr_lf
            then Some (Sentinel ErrInvalidSpace) else None)
      else Some (Sentinel ErrInvalidSpace))"

definition validateSpaceTitle :: "hub_env \<Rightarrow> string \<Rightarrow> err" where
  "validateSpaceTitle E title =
     (if TrimSpace title = [] \<or> he_runeCount E title > 80 \<or> ContainsAny title [CHR 0x0D, CHR 0x0A] \<or> he_hasControl E title
      then Some (Sentinel ErrInvalidSpace) else None)"

definition validChannelPart :: "hub_env \<Rightarrow> string \<Rightarrow> bool" where
  "validChannelPart E v \<longleftrightarrow>
     v \<noteq> [] \<and> length v \<le> 256 \<and> \<not> ContainsAny v ([CHR ''/''] @ nul_cr_lf) \<and> \<not> he_hasControl E v"

definition ChannelTarget_validate :: "hub_env \<Rightarrow> ChannelTarget \<Rightarrow> err" where
  "ChannelTarget_validate E t =
     (if tg_Source t \<notin> {SpaceSourceTelegram, SpaceSourceLark, SpaceSourceQQ}
         \<or> \<not> validChannelPart E (tg_ApplicationID t) \<or> \<not> validChannelPart E (tg_ChatID t)
      then Some (Sentinel ErrInvalidSpace) else None)"

definition target_key :: "ChannelTarget \<Rightarrow> string" where
  "target_key t = tg_ApplicationID t @ ''/'' @ tg_ChatID t"

definition channelTarget :: "hub_env \<Rightarrow> Space \<Rightarrow> ChannelTarget option" where
  "channelTarget E space =
     (case dropWhile (\<lambda>c. c \<noteq> CHR ''/'') (sc_ExternalChat space) of
        [] \<Rightarrow> None
      | _ # chat \<Rightarrow>
          let t = \<lparr>tg_Source = sc_Source space, tg_ApplicationID = takeWhile (\<lambda>c. c \<noteq> CHR ''/'') (sc_ExternalChat space),
                   tg_ChatID = chat\<rparr>
          in if ChannelTarget_validate E t = None then Some t else None)"

text \<open>The validator of a message source; media references are left out.\<close>

definition ChannelMessageSource_validate :: "hub_env \<Rightarrow> ChannelMessageSource \<Rightarrow> err" where
  "ChannelMessageSource_validate E s =
     (if ChannelTarget_validate E (ms_Target s) \<noteq> None \<or> \<not> validChannelPart E (ms_MessageID s)
         \<or> he_runeCount E (ms_DisplayName s) > 128 \<or> he_hasControl E (ms_DisplayName s)
      then Some (Sentinel ErrInvalidSpace)
      else if ms_PersonID s \<noteq> [] \<and> (\<not> validPersonID (ms_PersonID s) \<or> \<not> HasPrefix (ms_PersonID s) (tg_Source (ms_Target s) @ '':''))
      then Some (Sentinel ErrPermissionDenied)
      else if ms_Purpose s \<in> {''background'', ''request'', ''command'', ''delivery'', ''published''} then None
      else Some (Sentinel ErrInvalidSpace))"

definition requestKey :: "hub_env \<Rightarrow> ChannelTarget \<Rightarrow> string \<Rightarrow> string" where
  "requestKey E t messageID = ''channel:'' @ he_hash E [tg_Source t, tg_ApplicationID t, tg_ChatID t, messageID]"

section \<open>Statements\<close>

definition get_space :: "hub \<Rightarrow> string \<Rightarrow> Space option" where
  "get_space h sid = find (\<lambda>s. sc_ID s = sid) (hb_spaces h)"

definition space_not_found :: go_error where
  "space_not_found = Errorf ''%w: space not found'' [] [Sentinel ErrSpaceNotFound]"

definition scanSpace :: "Space option \<Rightarrow> Space res" where
  "scanSpace row = (case row of None \<Rightarrow> Inl space_not_found | Some s \<Rightarrow> Inr s)"

definition get_chat :: "hub \<Rightarrow> string \<Rightarrow> chat_row option" where
  "get_chat h cid = find (\<lambda>c. ch_ID c = cid) (hb_chats h)"

definition external_space :: "hub \<Rightarrow> string \<Rightarrow> string \<Rightarrow> Space option" where
  "external_space h source externalChat = find (\<lambda>s. sc_Source s = source \<and> sc_ExternalChat s = externalChat) (hb_spaces h)"

definition insert_space :: "Space \<Rightarrow> hub \<Rightarrow> hub res" where
  "insert_space s h =
     (if get_space h (sc_ID s) \<noteq> None
         \<or> (sc_Source s \<noteq> SpaceSourceLocal \<and> sc_ExternalChat s \<noteq> [] \<and> external_space h (sc_Source s) (sc_ExternalChat s) \<noteq> None)
      then Inl sql_violation else Inr (h\<lparr>hb_spaces := hb_spaces h @ [s]\<rparr>))"

definition insert_chat :: "chat_row \<Rightarrow> hub \<Rightarrow> hub res" where
  "insert_chat c h =
     (if get_chat h (ch_ID c) \<noteq> None \<or> get_space h (ch_SpaceID c) = None then Inl sql_violation
      else Inr (h\<lparr>hb_chats := hb_chats h @ [c]\<rparr>))"

section \<open>Spaces\<close>

definition CreateSpace :: "hub_env \<Rightarrow> string \<Rightarrow> string \<Rightarrow> string \<Rightarrow> string \<Rightarrow> string \<Rightarrow> hub \<Rightarrow> (Space \<times> hub) res" where
  "CreateSpace E newID title source chatKind externalChat h =
     (case validateSpaceTitle E title of Some e \<Rightarrow> Inl e | None \<Rightarrow>
       (case validateSpaceSource source chatKind externalChat of Some e \<Rightarrow> Inl e | None \<Rightarrow>
         (let space = \<lparr>sc_ID = newID, sc_Title = title, sc_Source = source, sc_ChatKind = chatKind, sc_ExternalChat = externalChat,
                        sc_DefaultConversationID = [], sc_ActiveConversationID = [], sc_MultiConversation = False,
                        sc_CreatedAt = he_now E, sc_UpdatedAt = he_now E\<rparr>
          in case insert_space space h of Inl e \<Rightarrow> Inl e | Inr h \<Rightarrow>
            (case insert_meta newID PermissionNone (hb_permission h) of Inl e \<Rightarrow> Inl e | Inr m \<Rightarrow>
              Inr (space, h\<lparr>hb_permission := m\<rparr>)))))"

definition EnsureExternalSpace ::
    "hub_env \<Rightarrow> string \<Rightarrow> string \<Rightarrow> string \<Rightarrow> string \<Rightarrow> string \<Rightarrow> hub \<Rightarrow> (Space \<times> bool \<times> hub) res" where
  "EnsureExternalSpace E newID title source chatKind externalChat h =
     (if source = SpaceSourceLocal then Inl (Sentinel ErrInvalidSpace)
      else case validateSpaceTitle E title of Some e \<Rightarrow> Inl e | None \<Rightarrow>
        (case validateSpaceSource source chatKind externalChat of Some e \<Rightarrow> Inl e | None \<Rightarrow>
          (case external_space h source externalChat of
             Some space \<Rightarrow> Inr (space, False, h)
           | None \<Rightarrow>
               (case CreateSpace E newID title source chatKind externalChat h of
                  Inl e \<Rightarrow> Inl e
                | Inr (space, h) \<Rightarrow> Inr (space, True, h)))))"

definition update_spaces :: "string \<Rightarrow> (Space \<Rightarrow> Space) \<Rightarrow> hub \<Rightarrow> hub" where
  "update_spaces sid f h = h\<lparr>hb_spaces := upd (\<lambda>s. sc_ID s = sid) f (hb_spaces h)\<rparr>"

definition RenameSpace :: "hub_env \<Rightarrow> string \<Rightarrow> string \<Rightarrow> hub \<Rightarrow> hub res" where
  "RenameSpace E sid title h =
     (case validateSpaceTitle E title of Some e \<Rightarrow> Inl e | None \<Rightarrow>
       if TrimSpace sid = [] then Inl (Sentinel ErrSpaceNotFound)
       else case scanSpace (get_space h sid) of Inl e \<Rightarrow> Inl e | Inr _ \<Rightarrow>
         Inr (update_spaces sid (\<lambda>s. s\<lparr>sc_Title := title, sc_UpdatedAt := he_now E\<rparr>) h))"

definition setSpaceConversation :: "hub_env \<Rightarrow> string \<Rightarrow> string \<Rightarrow> bool \<Rightarrow> hub \<Rightarrow> hub res" where
  "setSpaceConversation E spaceID conversationID defaultConversation h =
     (case scanSpace (get_space h spaceID) of Inl e \<Rightarrow> Inl e | Inr space \<Rightarrow>
       (case get_chat h conversationID of None \<Rightarrow> Inl (Sentinel ErrNoRows) | Some c \<Rightarrow>
         if ch_SpaceID c \<noteq> spaceID then Inl (Sentinel ErrConversationSpace)
         else if \<not> defaultConversation \<and> sc_Source space \<noteq> SpaceSourceLocal \<and> \<not> sc_MultiConversation space
                 \<and> conversationID \<noteq> sc_DefaultConversationID space
         then Inl (ErrorsNew ''harness: enable multiple conversations before changing channel routing'')
         else if defaultConversation
         then Inr (update_spaces spaceID (\<lambda>s. s\<lparr>sc_DefaultConversationID := conversationID,
                sc_ActiveConversationID := (if sc_Source s \<noteq> SpaceSourceLocal \<and> \<not> sc_MultiConversation s then conversationID
                                            else sc_ActiveConversationID s), sc_UpdatedAt := he_now E\<rparr>) h)
         else Inr (update_spaces spaceID (\<lambda>s. s\<lparr>sc_ActiveConversationID := conversationID, sc_UpdatedAt := he_now E\<rparr>) h)))"

definition SetSpaceMultiConversation :: "hub_env \<Rightarrow> string \<Rightarrow> bool \<Rightarrow> hub \<Rightarrow> hub res" where
  "SetSpaceMultiConversation E spaceID enabled h =
     (if RowsAffected (\<lambda>s. sc_ID s = spaceID) (hb_spaces h) \<noteq> 1 then Inl (Sentinel ErrSpaceNotFound)
      else Inr (update_spaces spaceID (\<lambda>s. s\<lparr>sc_MultiConversation := enabled,
             sc_ActiveConversationID := (if enabled then sc_ActiveConversationID s else sc_DefaultConversationID s),
             sc_UpdatedAt := he_now E\<rparr>) h))"

section \<open>Routing pointers\<close>

text \<open>
  The first conversation of a space, by the time of its last update and then by identifier, and
  whether a pointer names a conversation of the space.
\<close>

definition newer_chat :: "chat_row \<Rightarrow> chat_row \<Rightarrow> chat_row" where
  "newer_chat a b = (if ch_UpdatedAt a < ch_UpdatedAt b \<or> ch_UpdatedAt a = ch_UpdatedAt b \<and> ch_ID b < ch_ID a then b else a)"

definition first_chat :: "hub \<Rightarrow> string \<Rightarrow> string" where
  "first_chat h sid =
     (case filter (\<lambda>c. ch_SpaceID c = sid) (hb_chats h) of [] \<Rightarrow> [] | c # cs \<Rightarrow> ch_ID (foldl newer_chat c cs))"

definition belongs_to :: "hub \<Rightarrow> string \<Rightarrow> string \<Rightarrow> bool" where
  "belongs_to h sid cid \<longleftrightarrow> (case get_chat h cid of None \<Rightarrow> False | Some c \<Rightarrow> ch_SpaceID c = sid)"

definition refreshSpacePointersTx :: "hub_env \<Rightarrow> string \<Rightarrow> hub \<Rightarrow> hub res" where
  "refreshSpacePointersTx E spaceID h =
     (case get_space h spaceID of None \<Rightarrow> Inl (Sentinel ErrNoRows) | Some space \<Rightarrow>
       (let currentDefault = sc_DefaultConversationID space; currentActive = sc_ActiveConversationID space;
            first = first_chat h spaceID;
            currentDefault = (if currentDefault \<noteq> [] \<and> \<not> belongs_to h spaceID currentDefault then [] else currentDefault);
            currentActive = (if currentActive \<noteq> [] \<and> \<not> belongs_to h spaceID currentActive then [] else currentActive);
            currentDefault = (if currentDefault = [] then first else currentDefault);
            currentActive = (if currentActive = [] then currentDefault else currentActive);
            currentActive = (if sc_Source space \<noteq> SpaceSourceLocal \<and> \<not> sc_MultiConversation space then currentDefault else currentActive)
        in Inr (update_spaces spaceID (\<lambda>s. s\<lparr>sc_DefaultConversationID := currentDefault, sc_ActiveConversationID := currentActive,
                  sc_UpdatedAt := he_now E\<rparr>) h)))"

section \<open>Moving and publishing\<close>

definition messages_of :: "hub \<Rightarrow> string \<Rightarrow> hub_message list" where
  "messages_of h cid = filter (\<lambda>m. hm_Conversation m = cid) (hb_messages h)"

text \<open>
  INSERT of a message: the trigger allocate_message gives it the next number of its conversation. A
  non-empty request key is unique, and ON CONFLICT DO NOTHING keeps the row that has it.
\<close>

definition insert_message :: "hub_message \<Rightarrow> hub \<Rightarrow> (int \<times> hub) res" where
  "insert_message m h =
     (case get_chat h (hm_Conversation m) of None \<Rightarrow> Inl sql_violation | Some c \<Rightarrow>
       if hm_RequestKey m \<noteq> [] \<and> list_ex (\<lambda>n. hm_RequestKey n = hm_RequestKey m) (hb_messages h) then Inl sql_violation
       else let n = ch_LastMessage c + 1
            in Inr (n, h\<lparr>hb_chats := upd (\<lambda>c. ch_ID c = hm_Conversation m) (\<lambda>c. c\<lparr>ch_LastMessage := n\<rparr>) (hb_chats h),
                          hb_messages := hb_messages h @ [m\<lparr>hm_ID := n\<rparr>]\<rparr>))"

definition insert_message_once :: "hub_message \<Rightarrow> hub \<Rightarrow> hub res" where
  "insert_message_once m h =
     (if hm_RequestKey m \<noteq> [] \<and> list_ex (\<lambda>n. hm_RequestKey n = hm_RequestKey m) (hb_messages h) then Inr h
      else map_sum id snd (insert_message m h))"

text \<open>
  The text of local runs that publishMovedText makes public: one row at a time, in the order of
  their numbers (the batches of 32 rows by cursor visit the same rows, since the rows it inserts
  belong to no run).
\<close>

definition publish_attachments :: "string list \<Rightarrow> hub \<Rightarrow> hub" where
  "publish_attachments refs h =
     h\<lparr>hb_attachments := map (\<lambda>(i, r). (i, if i \<in> set refs \<and> \<not> ar_Deleted r then r\<lparr>ar_Public := True\<rparr> else r)) (hb_attachments h)\<rparr>"

definition publish_message :: "ChannelTarget \<Rightarrow> string \<Rightarrow> hub_message \<Rightarrow> hub \<Rightarrow> hub res" where
  "publish_message target chat m h =
     (let n = Itoa (hm_ID m);
          source = \<lparr>ms_Target = target, ms_PersonID = [], ms_DisplayName = [], ms_MessageID = ''published-'' @ n, ms_Purpose = ''published''\<rparr>
      in insert_message_once
           \<lparr>hm_Conversation = chat, hm_ID = 0, hm_RunID = None, hm_RequestKey = ''channel/publication/'' @ chat @ ''/'' @ n,
            hm_Role = hm_Role m, hm_Content = hm_Content m, hm_Public = True, hm_Channel = Some source, hm_Attachments = hm_Attachments m\<rparr>
           (publish_attachments (hm_Attachments m) h))"

definition local_text :: "hub_env \<Rightarrow> hub_message \<Rightarrow> bool" where
  "local_text E m \<longleftrightarrow>
     (case hm_RunID m of None \<Rightarrow> False | Some r \<Rightarrow> he_local_run E r)
     \<and> \<not> hm_Public m \<and> hm_Channel m = None \<and> (hm_Role m = ''user'' \<or> hm_Role m = ''assistant'') \<and> hm_Content m \<noteq> []"

fun publish_all :: "ChannelTarget \<Rightarrow> string \<Rightarrow> hub_message list \<Rightarrow> hub \<Rightarrow> hub res" where
  "publish_all target chat [] h = Inr h"
| "publish_all target chat (m # ms) h =
     (case publish_message target chat m h of Inl e \<Rightarrow> Inl e | Inr h \<Rightarrow> publish_all target chat ms h)"

definition publishMovedText :: "hub_env \<Rightarrow> string \<Rightarrow> string \<Rightarrow> hub \<Rightarrow> hub res" where
  "publishMovedText E chat spaceID h =
     (case scanSpace (get_space h spaceID) of Inl e \<Rightarrow> Inl e | Inr space \<Rightarrow>
       (case channelTarget E space of
          None \<Rightarrow> Inr h
        | Some target \<Rightarrow> publish_all target chat (filter (local_text E) (messages_of h chat)) h))"

definition moved_attachments :: "(attachment_row \<Rightarrow> bool) \<Rightarrow> string \<Rightarrow> hub \<Rightarrow> hub" where
  "moved_attachments P sid h =
     h\<lparr>hb_attachments := map (\<lambda>(i, r). (i, if P r then r\<lparr>ar_Space := sid\<rparr> else r)) (hb_attachments h)\<rparr>"

definition forget_selections :: "string \<Rightarrow> hub \<Rightarrow> hub" where
  "forget_selections cid h = h\<lparr>hb_local_meta := filter (\<lambda>(prefix, c). \<not> (prefix \<in> {''chat/memory/'', ''chat/capabilities/'', ''context/summary/''} \<and> c = cid))
     (hb_local_meta h)\<rparr>"

definition MoveConversation :: "hub_env \<Rightarrow> string \<Rightarrow> string \<Rightarrow> hub \<Rightarrow> hub res" where
  "MoveConversation E conversationID targetSpaceID h =
     (case get_chat h conversationID of
        None \<Rightarrow> Inl (Errorf ''harness: conversation %q not found'' [conversationID] [])
      | Some c \<Rightarrow>
          (case scanSpace (get_space h targetSpaceID) of Inl e \<Rightarrow> Inl e | Inr space \<Rightarrow>
            if ch_SpaceID c = targetSpaceID then Inr h
            else if he_active E conversationID then Inl (Sentinel ErrActiveRun)
            else if he_commands E conversationID then Inl (Sentinel ErrCommandBusy)
            else
              (let sourceSpace = ch_SpaceID c;
                   h = h\<lparr>hb_chats := upd (\<lambda>c. ch_ID c = conversationID) (\<lambda>c. c\<lparr>ch_SpaceID := targetSpaceID, ch_UpdatedAt := he_now E\<rparr>) (hb_chats h)\<rparr>
               in case (if sc_Source space \<noteq> SpaceSourceLocal
                        then map_sum id (forget_selections conversationID) (publishMovedText E conversationID targetSpaceID h)
                        else Inr h) of
                    Inl e \<Rightarrow> Inl e
                  | Inr h \<Rightarrow>
                      (let h = moved_attachments (\<lambda>r. ar_Conversation r = conversationID) targetSpaceID h
                       in case refreshSpacePointersTx E sourceSpace h of Inl e \<Rightarrow> Inl e | Inr h \<Rightarrow>
                            refreshSpacePointersTx E targetSpaceID h))))"

definition DeleteSpace :: "hub_env \<Rightarrow> string \<Rightarrow> hub \<Rightarrow> hub res" where
  "DeleteSpace E sid h =
     (if sid = LocalSpaceID then Inl (ErrorsNew ''harness: the local space cannot be deleted'')
      else if get_space h sid = None then Inl (Errorf ''%w: %s'' [sid] [Sentinel ErrSpaceNotFound])
      else if list_ex (\<lambda>c. ch_SpaceID c = sid \<and> he_active E (ch_ID c)) (hb_chats h)
      then Inl (ErrorsNew ''harness: space has unfinished runs'')
      else if list_ex (\<lambda>c. ch_SpaceID c = sid \<and> he_commands E (ch_ID c)) (hb_chats h) then Inl (Sentinel ErrCommandBusy)
      else
        (let h = moved_attachments (\<lambda>r. ar_Space r = sid) LocalSpaceID h;
             h = h\<lparr>hb_chats := upd (\<lambda>c. ch_SpaceID c = sid) (\<lambda>c. c\<lparr>ch_SpaceID := LocalSpaceID, ch_UpdatedAt := he_now E\<rparr>) (hb_chats h),
                   hb_permission := AList.delete sid (hb_permission h),
                   hb_people := filter (\<lambda>(s, p). s \<noteq> sid) (hb_people h),
                   hb_spaces := filter (\<lambda>s. sc_ID s \<noteq> sid) (hb_spaces h),
                   hb_access := filter (\<lambda>(k, g). ta_SpaceID g \<noteq> sid) (hb_access h)\<rparr>
         in refreshSpacePointersTx E LocalSpaceID h))"

section \<open>Binding a platform chat\<close>

definition bindChannelTx ::
    "hub_env \<Rightarrow> string \<Rightarrow> string \<Rightarrow> ChannelTarget \<Rightarrow> string \<Rightarrow> string \<Rightarrow> hub \<Rightarrow> (Space \<times> hub) res" where
  "bindChannelTx E spaceID chatID target kind title h =
     (case external_space h (tg_Source target) (target_key target) of
        Some space \<Rightarrow> Inr (space, h)
      | None \<Rightarrow>
          (let space = \<lparr>sc_ID = spaceID, sc_Title = title, sc_Source = tg_Source target, sc_ChatKind = kind,
                         sc_ExternalChat = target_key target, sc_DefaultConversationID = chatID, sc_ActiveConversationID = chatID,
                         sc_MultiConversation = False, sc_CreatedAt = he_now E, sc_UpdatedAt = he_now E\<rparr>
           in case insert_space space h of Inl e \<Rightarrow> Inl e | Inr h \<Rightarrow>
             (case insert_chat \<lparr>ch_ID = chatID, ch_Title = title, ch_Workspace = he_workspace E, ch_SpaceID = spaceID,
                      ch_UpdatedAt = he_now E, ch_LastMessage = 0\<rparr> h of Inl e \<Rightarrow> Inl e | Inr h \<Rightarrow>
               (case insert_meta spaceID PermissionNone (hb_permission h) of Inl e \<Rightarrow> Inl e | Inr m \<Rightarrow>
                 Inr (space, h\<lparr>hb_permission := m\<rparr>)))))"

definition PairChannel :: "hub_env \<Rightarrow> string \<Rightarrow> string \<Rightarrow> ChannelTarget \<Rightarrow> string \<Rightarrow> string \<Rightarrow> hub \<Rightarrow> (Space \<times> hub) res" where
  "PairChannel E spaceID chatID target kind title h =
     (if ChannelTarget_validate E target \<noteq> None \<or> validateSpaceTitle E title \<noteq> None \<or> (kind \<noteq> ''private'' \<and> kind \<noteq> ''group'')
      then Inl (Sentinel ErrInvalidSpace) else bindChannelTx E spaceID chatID target kind title h)"

definition ChannelSpace :: "hub_env \<Rightarrow> hub \<Rightarrow> ChannelTarget \<Rightarrow> Space res" where
  "ChannelSpace E h target =
     (case ChannelTarget_validate E target of Some e \<Rightarrow> Inl e | None \<Rightarrow>
       scanSpace (external_space h (tg_Source target) (target_key target)))"

end
