(* ===== verification/Channel_Routing.thy ===== *)
theory Channel_Routing
  imports Channel_Store
begin

text \<open>
  Where a chat message goes: the default and the active conversation of a space. The pointers of
  every space name conversations of that space, a channel space without multiple conversations has
  one destination, and a platform chat is bound to at most one space, whatever operations follow.
\<close>

section \<open>The invariant\<close>

abbreviation chat_keys :: "hub \<Rightarrow> (string \<times> string) list" where
  "chat_keys h \<equiv> map (\<lambda>c. (ch_ID c, ch_SpaceID c)) (hb_chats h)"

definition routed :: "(string \<times> string) list \<Rightarrow> Space \<Rightarrow> bool" where
  "routed ks s \<longleftrightarrow>
     (sc_DefaultConversationID s \<noteq> [] \<longrightarrow> map_of ks (sc_DefaultConversationID s) = Some (sc_ID s))
     \<and> (sc_ActiveConversationID s \<noteq> [] \<longrightarrow> map_of ks (sc_ActiveConversationID s) = Some (sc_ID s))
     \<and> (sc_Source s \<noteq> SpaceSourceLocal \<and> \<not> sc_MultiConversation s \<longrightarrow> sc_ActiveConversationID s = sc_DefaultConversationID s)"

definition external_keys :: "Space list \<Rightarrow> (string \<times> string) list" where
  "external_keys ss = map (\<lambda>s. (sc_Source s, sc_ExternalChat s)) (filter (\<lambda>s. sc_Source s \<noteq> SpaceSourceLocal \<and> sc_ExternalChat s \<noteq> []) ss)"

definition routing_ok :: "hub \<Rightarrow> bool" where
  "routing_ok h \<longleftrightarrow>
     distinct (map sc_ID (hb_spaces h)) \<and> distinct (map ch_ID (hb_chats h))
     \<and> ch_SpaceID ` set (hb_chats h) \<subseteq> sc_ID ` set (hb_spaces h)
     \<and> distinct (external_keys (hb_spaces h)) \<and> (\<forall>s \<in> set (hb_spaces h). routed (chat_keys h) s)"

lemma routing_cong:
  "hb_spaces h' = hb_spaces h \<Longrightarrow> chat_keys h' = chat_keys h \<Longrightarrow> routing_ok h' = routing_ok h"
proof -
  assume a: "hb_spaces h' = hb_spaces h" "chat_keys h' = chat_keys h"
  from a(2) have "map fst (chat_keys h') = map fst (chat_keys h)" "set (map snd (chat_keys h')) = set (map snd (chat_keys h))" by simp_all
  then have "map ch_ID (hb_chats h') = map ch_ID (hb_chats h)" "ch_SpaceID ` set (hb_chats h') = ch_SpaceID ` set (hb_chats h)"
    by (simp_all add: comp_def image_image)
  then show ?thesis by (simp add: routing_ok_def a)
qed

lemma find_chat_key:
  "(case find (\<lambda>c. ch_ID c = cid) cs of None \<Rightarrow> None | Some c \<Rightarrow> Some (ch_SpaceID c)) = map_of (map (\<lambda>c. (ch_ID c, ch_SpaceID c)) cs) cid"
  by (induction cs) auto

lemma get_chat_key: "(case get_chat h cid of None \<Rightarrow> None | Some c \<Rightarrow> Some (ch_SpaceID c)) = map_of (chat_keys h) cid"
  unfolding get_chat_def by (rule find_chat_key)

lemma belongs_key: "belongs_to h sid cid \<longleftrightarrow> map_of (chat_keys h) cid = Some sid"
  unfolding belongs_to_def by (simp add: get_chat_key[symmetric] split: option.split)

lemma get_chat_Some: "get_chat h cid = Some c \<Longrightarrow> map_of (chat_keys h) cid = Some (ch_SpaceID c)"
  using get_chat_key[of h cid] by simp

lemma get_space_Some: "get_space h sid = Some s \<Longrightarrow> s \<in> set (hb_spaces h) \<and> sc_ID s = sid"
  unfolding get_space_def by (rule find_SomeD)

lemma get_space_None: "get_space h sid = None \<longleftrightarrow> sid \<notin> sc_ID ` set (hb_spaces h)"
  unfolding get_space_def by (auto simp: find_None_iff)

lemma get_chat_None: "get_chat h cid = None \<longleftrightarrow> cid \<notin> ch_ID ` set (hb_chats h)"
  unfolding get_chat_def by (auto simp: find_None_iff)

lemma scanSpace_Inr: "scanSpace row = Inr s \<longleftrightarrow> row = Some s"
  by (simp add: scanSpace_def split: option.split)

text \<open>Changing one space that keeps its identity and stays routed.\<close>

lemma update_space_ok:
  assumes "distinct (map sc_ID (hb_spaces h))" "distinct (map ch_ID (hb_chats h))" "ch_SpaceID ` set (hb_chats h) \<subseteq> sc_ID ` set (hb_spaces h)"
    "distinct (external_keys (hb_spaces h))"
    and keep: "\<And>s. sc_ID (f s) = sc_ID s \<and> sc_Source (f s) = sc_Source s \<and> sc_ExternalChat (f s) = sc_ExternalChat s"
    and one: "\<And>s. s \<in> set (hb_spaces h) \<Longrightarrow> sc_ID s = sid \<Longrightarrow> routed (chat_keys h) (f s)"
    and others: "\<And>s. s \<in> set (hb_spaces h) \<Longrightarrow> sc_ID s \<noteq> sid \<Longrightarrow> routed (chat_keys h) s"
  shows "routing_ok (update_spaces sid f h)"
proof -
  let ?ss = "upd (\<lambda>s. sc_ID s = sid) f (hb_spaces h)"
  have ids: "map sc_ID ?ss = map sc_ID (hb_spaces h)" by (simp add: upd_def keep)
  then have idset: "sc_ID ` set ?ss = sc_ID ` set (hb_spaces h)" by (metis list.set_map)
  have ext: "external_keys ?ss = external_keys (hb_spaces h)"
    by (simp add: external_keys_def upd_def filter_map comp_def keep if_distrib cong: filter_cong)
  have "routed (chat_keys h) s" if "s \<in> set ?ss" for s
    using that one others by (auto simp: upd_def split: if_splits)
  then show ?thesis using assms(1-4) unfolding routing_ok_def update_spaces_def by (simp add: ids idset ext)
qed

lemma routing_parts:
  assumes "routing_ok h"
  shows "distinct (map sc_ID (hb_spaces h))" "distinct (map ch_ID (hb_chats h))" "ch_SpaceID ` set (hb_chats h) \<subseteq> sc_ID ` set (hb_spaces h)"
    "distinct (external_keys (hb_spaces h))" "\<And>s. s \<in> set (hb_spaces h) \<Longrightarrow> routed (chat_keys h) s"
  using assms by (simp_all add: routing_ok_def)

lemma update_routed:
  assumes "routing_ok h" "\<And>s. sc_ID (f s) = sc_ID s \<and> sc_Source (f s) = sc_Source s \<and> sc_ExternalChat (f s) = sc_ExternalChat s"
    "\<And>s. s \<in> set (hb_spaces h) \<Longrightarrow> sc_ID s = sid \<Longrightarrow> routed (chat_keys h) (f s)"
  shows "routing_ok (update_spaces sid f h)"
  by (rule update_space_ok) (use routing_parts[OF assms(1)] assms(2,3) in auto)

section \<open>Refreshing pointers\<close>

lemma newest_in: "foldl newer_chat c cs \<in> set (c # cs)"
proof (induction cs arbitrary: c)
  case (Cons d cs)
  have "newer_chat c d \<in> {c, d}" by (simp add: newer_chat_def)
  then show ?case using Cons.IH[of "newer_chat c d"] by auto
qed simp

lemma first_chat_key:
  assumes "distinct (map ch_ID (hb_chats h))" "first_chat h sid \<noteq> []"
  shows "map_of (chat_keys h) (first_chat h sid) = Some sid"
proof -
  obtain c cs where f: "filter (\<lambda>c. ch_SpaceID c = sid) (hb_chats h) = c # cs" "first_chat h sid = ch_ID (foldl newer_chat c cs)"
    using assms(2) by (auto simp: first_chat_def split: list.splits)
  then have "foldl newer_chat c cs \<in> set (hb_chats h)" "ch_SpaceID (foldl newer_chat c cs) = sid"
    using newest_in[of c cs] f(1)[symmetric] by (auto dest!: arg_cong[of _ _ set] simp del: foldl_Cons set_simps)
  then have "(first_chat h sid, sid) \<in> set (chat_keys h)" using f(2) by force
  moreover have "distinct (map fst (chat_keys h))" using assms(1) by (simp add: comp_def)
  ultimately show ?thesis by simp
qed

text \<open>After a refresh the space is routed, whatever its pointers were before.\<close>

lemma refresh_frame:
  assumes "refreshSpacePointersTx E sid h = Inr h'"
  shows "chat_keys h' = chat_keys h" "hb_chats h' = hb_chats h" "sid \<in> sc_ID ` set (hb_spaces h)"
  using assms get_space_Some[of h sid] by (auto simp: refreshSpacePointersTx_def Let_def update_spaces_def split: option.splits)

lemma refresh_ok:
  assumes ref: "refreshSpacePointersTx E sid h = Inr h'"
    and base: "distinct (map sc_ID (hb_spaces h))" "distinct (map ch_ID (hb_chats h))" "ch_SpaceID ` set (hb_chats h) \<subseteq> sc_ID ` set (hb_spaces h)"
      "distinct (external_keys (hb_spaces h))"
    and others: "\<And>s. s \<in> set (hb_spaces h) \<Longrightarrow> sc_ID s \<noteq> sid \<Longrightarrow> routed (chat_keys h) s"
  shows "routing_ok h'"
proof -
  obtain space where space: "get_space h sid = Some space" using ref by (auto simp: refreshSpacePointersTx_def split: option.splits)
  then have sp: "space \<in> set (hb_spaces h)" "sc_ID space = sid" using get_space_Some by blast+
  have same: "s = space" if "s \<in> set (hb_spaces h)" "sc_ID s = sid" for s
    using base(1) sp that by (auto simp: distinct_map inj_on_def)
  note first = first_chat_key[OF base(2), of sid]
  define own where "own cid = (if cid \<noteq> [] \<and> \<not> belongs_to h sid cid then [] else cid)" for cid
  define d where "d = (if own (sc_DefaultConversationID space) = [] then first_chat h sid else own (sc_DefaultConversationID space))"
  define a where "a = (if sc_Source space \<noteq> SpaceSourceLocal \<and> \<not> sc_MultiConversation space then d
     else if own (sc_ActiveConversationID space) = [] then d else own (sc_ActiveConversationID space))"
  have own: "own cid \<noteq> [] \<Longrightarrow> map_of (chat_keys h) (own cid) = Some sid" for cid
    by (auto simp: own_def belongs_key[symmetric] split: if_splits)
  have h': "h' = update_spaces sid (\<lambda>s. s\<lparr>sc_DefaultConversationID := d, sc_ActiveConversationID := a, sc_UpdatedAt := he_now E\<rparr>) h"
    using ref[unfolded refreshSpacePointersTx_def Let_def space option.case, folded own_def, folded d_def, folded a_def]
    unfolding sum.inject by (rule sym)
  have d: "d \<noteq> [] \<longrightarrow> map_of (chat_keys h) d = Some sid" using first own unfolding d_def by (simp split: if_split)
  then have a: "a \<noteq> [] \<longrightarrow> map_of (chat_keys h) a = Some sid" using own unfolding a_def by (simp split: if_split)
  have single: "sc_Source space \<noteq> SpaceSourceLocal \<and> \<not> sc_MultiConversation space \<longrightarrow> a = d" by (simp add: a_def)
  have new: "routed (chat_keys h) (space\<lparr>sc_DefaultConversationID := d, sc_ActiveConversationID := a, sc_UpdatedAt := he_now E\<rparr>)"
    using d a single sp(2) by (simp add: routed_def)
  show ?thesis unfolding h'
  proof (rule update_space_ok[OF base])
    fix s assume "s \<in> set (hb_spaces h)" "sc_ID s = sid"
    then show "routed (chat_keys h) (s\<lparr>sc_DefaultConversationID := d, sc_ActiveConversationID := a, sc_UpdatedAt := he_now E\<rparr>)"
      using same new by simp
  qed (use others in simp_all)
qed

section \<open>Every operation keeps it\<close>

lemma insert_space_facts:
  assumes "insert_space s h = Inr h'"
  shows "h' = h\<lparr>hb_spaces := hb_spaces h @ [s]\<rparr>" "sc_ID s \<notin> sc_ID ` set (hb_spaces h)"
    "distinct (external_keys (hb_spaces h)) \<Longrightarrow> distinct (external_keys (hb_spaces h'))"
proof -
  show "h' = h\<lparr>hb_spaces := hb_spaces h @ [s]\<rparr>" "sc_ID s \<notin> sc_ID ` set (hb_spaces h)"
    using assms by (auto simp: insert_space_def get_space_None split: if_splits)
  then show "distinct (external_keys (hb_spaces h'))" if "distinct (external_keys (hb_spaces h))"
    using that assms by (auto simp: insert_space_def external_keys_def external_space_def find_None_iff split: if_splits)
qed

lemma append_key: "c \<in> fst ` set ks \<Longrightarrow> (m ++ map_of ks) c = map_of ks c"
  by (cases "map_of ks c") (auto simp: map_add_def map_of_eq_None_iff)

lemma append_new_key: "c \<notin> fst ` set ks \<Longrightarrow> ([c \<mapsto> v] ++ map_of ks) c = Some v"
  by (simp add: map_add_def map_of_eq_None_iff[symmetric])

lemma routed_more: "routed ks s \<Longrightarrow> (\<And>c. c \<in> fst ` set ks \<Longrightarrow> map_of ks' c = map_of ks c) \<Longrightarrow> routed ks' s"
  unfolding routed_def by (metis domI dom_map_of_conv_image_fst)

lemma routing_create:
  assumes "CreateSpace E newID title source kind ext h = Inr (s, h')" and ok: "routing_ok h"
  shows "routing_ok h'"
proof -
  obtain h1 m where ins: "insert_space s h = Inr h1" "h' = h1\<lparr>hb_permission := m\<rparr>"
    and s: "sc_DefaultConversationID s = []" "sc_ActiveConversationID s = []"
    using assms(1) by (auto simp: CreateSpace_def Let_def split: option.splits sum.splits)
  have "routing_ok h1" using insert_space_facts[OF ins(1)] routing_parts[OF ok] unfolding routing_ok_def
    by (auto simp: routed_def s)
  then show ?thesis using ins(2) routing_cong[of h' h1] by simp
qed

lemma routing_insert_chat:
  assumes "insert_chat c h = Inr h'" and ok: "routing_ok h"
  shows "routing_ok h'"
proof -
  have h': "h' = h\<lparr>hb_chats := hb_chats h @ [c]\<rparr>" and new: "ch_ID c \<notin> ch_ID ` set (hb_chats h)"
    "ch_SpaceID c \<in> sc_ID ` set (hb_spaces h)"
    using assms(1) by (auto simp: insert_chat_def get_chat_None get_space_None split: if_splits)
  have "routed (chat_keys h') s" if "routed (chat_keys h) s" for s
    by (rule routed_more[OF that]) (simp add: h' append_key)
  then show ?thesis using routing_parts[OF ok] new unfolding routing_ok_def by (auto simp: h')
qed

lemma routing_bind:
  assumes "bindChannelTx E spaceID chatID target kind title h = Inr (s, h')" and ok: "routing_ok h"
  shows "routing_ok h'"
proof (cases "external_space h (tg_Source target) (target_key target)")
  case (Some space)
  then show ?thesis using assms by (simp add: bindChannelTx_def)
next
  case None
  obtain h1 h2 m c where ins: "insert_space s h = Inr h1" "insert_chat c h1 = Inr h2" "h' = h2\<lparr>hb_permission := m\<rparr>"
    and s: "sc_ID s = spaceID" "sc_DefaultConversationID s = chatID" "sc_ActiveConversationID s = chatID"
      "ch_ID c = chatID" "ch_SpaceID c = spaceID"
    using assms(1) None by (auto simp: bindChannelTx_def Let_def split: option.splits sum.splits)
  note h1 = insert_space_facts[OF ins(1)]
  have h2: "h2 = h1\<lparr>hb_chats := hb_chats h1 @ [c]\<rparr>" "chatID \<notin> ch_ID ` set (hb_chats h)"
    using ins(2) h1(1) by (auto simp: insert_chat_def get_chat_None s split: if_splits)
  have new: "map_of (chat_keys h2) chatID = Some spaceID"
    using h2 h1(1) by (simp add: s append_new_key image_image)
  have "routed (chat_keys h2) x" if "routed (chat_keys h) x" for x
    by (rule routed_more[OF that]) (simp add: h2 h1(1) append_key)
  then have "routing_ok h2" using routing_parts[OF ok] h1 h2 new unfolding routing_ok_def
    by (auto simp: routed_def s)
  then show ?thesis using ins(3) routing_cong[of h' h2] by simp
qed

lemma routing_set_conversation:
  assumes "setSpaceConversation E sid cid d h = Inr h'" and ok: "routing_ok h"
  shows "routing_ok h'"
proof -
  obtain space c where get: "get_space h sid = Some space" "get_chat h cid = Some c" "ch_SpaceID c = sid"
    and allowed: "d \<or> sc_Source space = SpaceSourceLocal \<or> sc_MultiConversation space \<or> cid = sc_DefaultConversationID space"
    using assms(1) by (auto simp: setSpaceConversation_def scanSpace_def split: option.splits if_splits)
  have key: "map_of (chat_keys h) cid = Some sid" using get_chat_Some[OF get(2)] get(3) by simp
  have same: "s = space" if "s \<in> set (hb_spaces h)" "sc_ID s = sid" for s
    using get_space_Some[OF get(1)] routing_parts(1)[OF ok] that by (auto simp: distinct_map inj_on_def)
  note old = routing_parts(5)[OF ok]
  show ?thesis
  proof (cases d)
    case True
    have "h' = update_spaces sid (\<lambda>s. s\<lparr>sc_DefaultConversationID := cid,
        sc_ActiveConversationID := (if sc_Source s \<noteq> SpaceSourceLocal \<and> \<not> sc_MultiConversation s then cid else sc_ActiveConversationID s),
        sc_UpdatedAt := he_now E\<rparr>) h"
      using assms(1) get True by (simp add: setSpaceConversation_def scanSpace_def)
    then show ?thesis using update_routed[OF ok] key old by (auto simp: routed_def)
  next
    case False
    have "h' = update_spaces sid (\<lambda>s. s\<lparr>sc_ActiveConversationID := cid, sc_UpdatedAt := he_now E\<rparr>) h"
      using assms(1) get False by (auto simp: setSpaceConversation_def scanSpace_def split: if_splits)
    moreover have "routed (chat_keys h) (s\<lparr>sc_ActiveConversationID := cid, sc_UpdatedAt := he_now E\<rparr>)"
      if "s \<in> set (hb_spaces h)" "sc_ID s = sid" for s
      using old[OF that(1)] same[OF that] key allowed False that(2) by (auto simp: routed_def)
    ultimately show ?thesis using update_routed[OF ok, of "\<lambda>s. s\<lparr>sc_ActiveConversationID := cid, sc_UpdatedAt := he_now E\<rparr>"] by simp
  qed
qed

lemma routing_set_multi:
  assumes "SetSpaceMultiConversation E sid enabled h = Inr h'" and ok: "routing_ok h"
  shows "routing_ok h'"
  using assms(1) update_routed[OF ok] routing_parts(5)[OF ok]
  by (auto simp: SetSpaceMultiConversation_def routed_def split: if_splits)

lemma routing_rename:
  assumes "RenameSpace E sid title h = Inr h'" and ok: "routing_ok h"
  shows "routing_ok h'"
  using assms(1) update_routed[OF ok] routing_parts(5)[OF ok]
  by (auto simp: RenameSpace_def routed_def split: if_splits option.splits sum.splits)

section \<open>Messages, moves and deletions\<close>

lemma keys_upd:
  "(\<And>c. ch_ID (f c) = ch_ID c \<and> ch_SpaceID (f c) = ch_SpaceID c)
   \<Longrightarrow> map (\<lambda>c. (ch_ID c, ch_SpaceID c)) (upd P f cs) = map (\<lambda>c. (ch_ID c, ch_SpaceID c)) cs"
  by (simp add: upd_def)

lemma insert_message_frame:
  assumes "insert_message m h = Inr (n, h')"
  shows "hb_spaces h' = hb_spaces h \<and> chat_keys h' = chat_keys h \<and> hb_access h' = hb_access h"
proof -
  obtain c where "h' = h\<lparr>hb_chats := upd (\<lambda>c. ch_ID c = hm_Conversation m) (\<lambda>c. c\<lparr>ch_LastMessage := n\<rparr>) (hb_chats h),
                          hb_messages := hb_messages h @ [m\<lparr>hm_ID := n\<rparr>]\<rparr>"
    using assms by (auto simp: insert_message_def Let_def split: option.split_asm if_split_asm)
  then show ?thesis by (simp add: keys_upd)
qed

lemma insert_once_frame:
  assumes "insert_message_once m h = Inr h'"
  shows "hb_spaces h' = hb_spaces h \<and> chat_keys h' = chat_keys h \<and> hb_access h' = hb_access h"
proof (cases "hm_RequestKey m \<noteq> [] \<and> list_ex (\<lambda>n. hm_RequestKey n = hm_RequestKey m) (hb_messages h)")
  case False
  then obtain n where "insert_message m h = Inr (n, h')"
    using assms by (cases "insert_message m h") (auto simp: insert_message_once_def)
  then show ?thesis by (rule insert_message_frame)
qed (use assms in \<open>simp add: insert_message_once_def\<close>)

lemma publish_message_frame:
  assumes "publish_message target chat m h = Inr h'"
  shows "hb_spaces h' = hb_spaces h \<and> chat_keys h' = chat_keys h \<and> hb_access h' = hb_access h"
  using insert_once_frame[OF assms[unfolded publish_message_def Let_def]] by (simp_all add: publish_attachments_def)

lemma publish_all_frame:
  "publish_all target chat ms h = Inr h' \<Longrightarrow> hb_spaces h' = hb_spaces h \<and> chat_keys h' = chat_keys h \<and> hb_access h' = hb_access h"
proof (induction ms arbitrary: h)
  case (Cons m ms)
  then obtain h1 where h1: "publish_message target chat m h = Inr h1" "publish_all target chat ms h1 = Inr h'"
    by (cases "publish_message target chat m h") simp_all
  then show ?case using Cons.IH[OF h1(2)] publish_message_frame[OF h1(1)] by simp
qed simp

lemma publish_frame:
  assumes "publishMovedText E chat sid h = Inr h'"
  shows "hb_spaces h' = hb_spaces h \<and> chat_keys h' = chat_keys h \<and> hb_access h' = hb_access h"
  using assms publish_all_frame by (auto simp: publishMovedText_def split: sum.splits option.splits)

lemma moved_publish_frame:
  assumes "(if c then map_sum id (forget_selections cid) (publishMovedText E cid sid h) else Inr h) = Inr h'"
  shows "hb_spaces h' = hb_spaces h \<and> chat_keys h' = chat_keys h \<and> hb_access h' = hb_access h"
proof (cases c)
  case True
  then obtain g where "publishMovedText E cid sid h = Inr g" "h' = forget_selections cid g"
    using assms by (cases "publishMovedText E cid sid h") auto
  then show ?thesis using publish_frame by (simp add: forget_selections_def)
qed (use assms in simp)

lemma map_of_rekey: "map_of (map (\<lambda>(c, s). (c, f c s)) ks) x = map_option (f x) (map_of ks x)"
  by (induction ks) auto

lemma routed_rekey:
  assumes "routed ks s" "\<And>c. map_of ks c = Some (sc_ID s) \<Longrightarrow> f c (sc_ID s) = sc_ID s"
  shows "routed (map (\<lambda>(c, s). (c, f c s)) ks) s"
  using assms by (auto simp: routed_def map_of_rekey)

lemma routing_move:
  assumes mv: "MoveConversation E cid target h = Inr h'" and ok: "routing_ok h"
  shows "routing_ok h'"
proof (cases "h' = h")
  case False
  obtain c space where get: "get_chat h cid = Some c" "get_space h target = Some space" "ch_SpaceID c \<noteq> target"
    using mv False by (auto simp: MoveConversation_def scanSpace_def split: option.splits if_splits)
  let ?h = "h\<lparr>hb_chats := upd (\<lambda>c. ch_ID c = cid) (\<lambda>c. c\<lparr>ch_SpaceID := target, ch_UpdatedAt := he_now E\<rparr>) (hb_chats h)\<rparr>"
  obtain h1 where h1: "(if sc_Source space \<noteq> SpaceSourceLocal
      then map_sum id (forget_selections cid) (publishMovedText E cid target ?h) else Inr ?h) = Inr h1"
    using mv get by (auto simp: MoveConversation_def scanSpace_def Let_def split: sum.splits if_split_asm)
  have same: "hb_spaces h1 = hb_spaces h \<and> chat_keys h1 = chat_keys ?h \<and> hb_access h1 = hb_access h"
    using moved_publish_frame[OF h1] by simp
  let ?m = "moved_attachments (\<lambda>r. ar_Conversation r = cid) target h1"
  obtain h2 where refs: "refreshSpacePointersTx E (ch_SpaceID c) ?m = Inr h2" "refreshSpacePointersTx E target h2 = Inr h'"
    using mv get False unfolding MoveConversation_def scanSpace_def Let_def get(1,2) option.case sum.case h1
    by (simp split: if_split_asm sum.split_asm)
  have spaces: "hb_spaces ?m = hb_spaces h" and keys: "chat_keys ?m = map (\<lambda>(c, s). (c, if c = cid then target else s)) (chat_keys h)"
    using same by (simp_all add: moved_attachments_def upd_def)
  have key: "map_of (chat_keys h) cid = Some (ch_SpaceID c)" by (rule get_chat_Some[OF get(1)])
  have "routing_ok h2"
  proof (rule refresh_ok[OF refs(1)])
    have "map ch_ID (hb_chats ?m) = map fst (chat_keys ?m)" by simp
    also have "\<dots> = map ch_ID (hb_chats h)" unfolding keys by simp
    finally show "distinct (map ch_ID (hb_chats ?m))" using routing_parts(2)[OF ok] by simp
    have "ch_SpaceID ` set (hb_chats ?m) = snd ` set (chat_keys ?m)" by (simp add: image_image)
    also have "\<dots> \<subseteq> insert target (ch_SpaceID ` set (hb_chats h))" unfolding keys by auto
    finally show "ch_SpaceID ` set (hb_chats ?m) \<subseteq> sc_ID ` set (hb_spaces ?m)"
      using routing_parts(3)[OF ok] get_space_Some[OF get(2)] spaces by auto
    show "routed (chat_keys ?m) s" if "s \<in> set (hb_spaces ?m)" "sc_ID s \<noteq> ch_SpaceID c" for s
      unfolding keys by (rule routed_rekey) (use routing_parts(5)[OF ok] that spaces key in auto)
  qed (use routing_parts[OF ok] spaces in simp_all)
  then show ?thesis using refresh_ok[OF refs(2)] routing_parts by blast
qed (simp add: ok)

lemma routing_delete:
  assumes del: "DeleteSpace E sid h = Inr h'" and ok: "routing_ok h"
  shows "routing_ok h'"
proof -
  let ?m = "(moved_attachments (\<lambda>r. ar_Space r = sid) LocalSpaceID h)
       \<lparr>hb_chats := upd (\<lambda>c. ch_SpaceID c = sid) (\<lambda>c. c\<lparr>ch_SpaceID := LocalSpaceID, ch_UpdatedAt := he_now E\<rparr>) (hb_chats h),
        hb_permission := AList.delete sid (hb_permission h), hb_people := filter (\<lambda>(s, p). s \<noteq> sid) (hb_people h),
        hb_spaces := filter (\<lambda>s. sc_ID s \<noteq> sid) (hb_spaces h), hb_access := filter (\<lambda>(k, g). ta_SpaceID g \<noteq> sid) (hb_access h)\<rparr>"
  have ref: "refreshSpacePointersTx E LocalSpaceID ?m = Inr h'" and local: "sid \<noteq> LocalSpaceID"
    using del by (auto simp: DeleteSpace_def Let_def moved_attachments_def split: if_split_asm)
  have keys: "chat_keys ?m = map (\<lambda>(c, s). (c, if s = sid then LocalSpaceID else s)) (chat_keys h)" by (simp add: upd_def)
  show ?thesis
  proof (rule refresh_ok[OF ref])
    have "map ch_ID (hb_chats ?m) = map fst (chat_keys ?m)" by simp
    also have "\<dots> = map ch_ID (hb_chats h)" unfolding keys by simp
    finally show "distinct (map ch_ID (hb_chats ?m))" using routing_parts(2)[OF ok] by simp
    have "ch_SpaceID ` set (hb_chats ?m) = snd ` set (chat_keys ?m)" by (simp add: image_image)
    also have "\<dots> \<subseteq> insert LocalSpaceID (ch_SpaceID ` set (hb_chats h) - {sid})" unfolding keys using local by (auto split: if_split_asm)
    also have "\<dots> \<subseteq> sc_ID ` set (hb_spaces ?m)" using routing_parts(3)[OF ok] refresh_frame(3)[OF ref] by auto
    finally show "ch_SpaceID ` set (hb_chats ?m) \<subseteq> sc_ID ` set (hb_spaces ?m)" .
    show "distinct (map sc_ID (hb_spaces ?m))" using routing_parts(1)[OF ok] by (simp add: distinct_map_filter)
    show "distinct (external_keys (hb_spaces ?m))" using routing_parts(1,4)[OF ok]
      by (auto simp: external_keys_def distinct_map inj_on_def)
    show "routed (chat_keys ?m) s" if "s \<in> set (hb_spaces ?m)" "sc_ID s \<noteq> LocalSpaceID" for s
      unfolding keys by (rule routed_rekey) (use routing_parts(5)[OF ok] that in auto)
  qed
qed

section \<open>Any sequence of operations\<close>

text \<open>
  The operations on spaces, the conversations the rest of the program opens in them, and the
  messages it writes.
\<close>

inductive hub_step :: "hub_env \<Rightarrow> hub \<Rightarrow> hub \<Rightarrow> bool" for E where
  create: "CreateSpace E newID title source kind ext h = Inr (s, h') \<Longrightarrow> hub_step E h h'"
| ensure: "EnsureExternalSpace E newID title source kind ext h = Inr (s, b, h') \<Longrightarrow> hub_step E h h'"
| pair: "PairChannel E spaceID chatID target kind title h = Inr (s, h') \<Longrightarrow> hub_step E h h'"
| rename: "RenameSpace E sid title h = Inr h' \<Longrightarrow> hub_step E h h'"
| route: "setSpaceConversation E sid cid d h = Inr h' \<Longrightarrow> hub_step E h h'"
| multi: "SetSpaceMultiConversation E sid enabled h = Inr h' \<Longrightarrow> hub_step E h h'"
| move: "MoveConversation E cid sid h = Inr h' \<Longrightarrow> hub_step E h h'"
| delete: "DeleteSpace E sid h = Inr h' \<Longrightarrow> hub_step E h h'"
| open_chat: "insert_chat c h = Inr h' \<Longrightarrow> hub_step E h h'"
| wrote: "insert_message m h = Inr (n, h') \<Longrightarrow> hub_step E h h'"

lemma routing_step: "hub_step E h h' \<Longrightarrow> routing_ok h \<Longrightarrow> routing_ok h'"
proof (induction rule: hub_step.induct)
  case (ensure newID title source kind ext h s b h')
  then show ?case using routing_create
    by (auto simp: EnsureExternalSpace_def split: if_splits option.splits sum.splits)
next
  case (pair spaceID chatID target kind title h s h')
  then show ?case using routing_bind by (auto simp: PairChannel_def split: if_splits)
next
  case (wrote m h n h')
  then show ?case using routing_cong[of h' h] insert_message_frame[OF wrote(1)] by simp
qed (erule (1) routing_create routing_rename routing_set_conversation routing_set_multi routing_move routing_delete routing_insert_chat)+

interpretation routing: invariant_system routing_ok "hub_step E" routing_ok
  by unfold_locales (use routing_step in blast)+

section \<open>The property\<close>

text \<open>
  C0: chat routing. Whatever sequence of operations on spaces, conversations and messages runs, every
  conversation lies in an existing space, the default and the active conversation of a space lie in
  that space, a channel space without multiple conversations delivers to its default conversation
  only, and a platform chat is bound to at most one space.
\<close>

theorem chat_routing:
  assumes "routing_ok h0" "(hub_step E)\<^sup>*\<^sup>* h0 h" "s \<in> set (hb_spaces h)" "cid \<in> {sc_DefaultConversationID s, sc_ActiveConversationID s}" "cid \<noteq> []"
  shows "(\<exists>c. get_chat h cid = Some c \<and> ch_SpaceID c = sc_ID s)
     \<and> (sc_Source s \<noteq> SpaceSourceLocal \<and> \<not> sc_MultiConversation s \<longrightarrow> cid = sc_DefaultConversationID s)
     \<and> (sc_Source s \<noteq> SpaceSourceLocal \<longrightarrow> sc_ExternalChat s \<noteq> [] \<longrightarrow> external_space h (sc_Source s) (sc_ExternalChat s) = Some s)"
proof -
  note ok = routing.steps_inv[OF assms(2,1)]
  have r: "routed (chat_keys h) s" by (rule routing_parts(5)[OF ok assms(3)])
  then have "map_of (chat_keys h) cid = Some (sc_ID s)" using assms(4,5) by (auto simp: routed_def)
  then have "\<exists>c. get_chat h cid = Some c \<and> ch_SpaceID c = sc_ID s"
    using get_chat_key[of h cid] by (auto split: option.splits)
  moreover have "sc_Source s \<noteq> SpaceSourceLocal \<and> \<not> sc_MultiConversation s \<longrightarrow> cid = sc_DefaultConversationID s"
    using r assms(4) by (auto simp: routed_def)
  moreover have "external_space h (sc_Source s) (sc_ExternalChat s) = Some s" if n: "sc_Source s \<noteq> SpaceSourceLocal" "sc_ExternalChat s \<noteq> []"
  proof (cases "external_space h (sc_Source s) (sc_ExternalChat s)")
    case None
    then show ?thesis using assms(3) by (auto simp: external_space_def find_None_iff)
  next
    case (Some t)
    then have t: "t \<in> set (hb_spaces h)" "sc_Source t = sc_Source s" "sc_ExternalChat t = sc_ExternalChat s"
      unfolding external_space_def using find_SomeD by fast+
    then have "t = s" using routing_parts(4)[OF ok] assms(3) n by (auto simp: external_keys_def distinct_map inj_on_def)
    then show ?thesis using Some by simp
  qed
  ultimately show ?thesis by blast
qed

definition sample_hub_env :: hub_env where
  "sample_hub_env =
     \<lparr>he_now = ''t'', he_workspace = ''w'', he_runeCount = length, he_hasControl = (\<lambda>_. False), he_active = (\<lambda>_. False),
      he_commands = (\<lambda>_. False), he_local_run = (\<lambda>_. True), he_hash = concat\<rparr>"

definition local_hub :: hub where
  "local_hub =
     \<lparr>hb_spaces = [\<lparr>sc_ID = LocalSpaceID, sc_Title = ''Local'', sc_Source = SpaceSourceLocal, sc_ChatKind = [], sc_ExternalChat = [],
        sc_DefaultConversationID = [], sc_ActiveConversationID = [], sc_MultiConversation = True, sc_CreatedAt = ''t'', sc_UpdatedAt = ''t''\<rparr>],
      hb_chats = [], hb_messages = [], hb_attachments = [], hb_local_meta = [], hb_permission = [], hb_people = [], hb_person = [],
      hb_access = []\<rparr>"

definition sample_target :: ChannelTarget where
  "sample_target = \<lparr>tg_Source = SpaceSourceTelegram, tg_ApplicationID = ''7'', tg_ChatID = ''9''\<rparr>"

definition paired_hub :: hub where
  "paired_hub = snd (projr (PairChannel sample_hub_env ''s'' ''c'' sample_target ''private'' ''Chat'' local_hub))"

lemma local_hub_ok: "routing_ok local_hub"
  by (simp add: routing_ok_def local_hub_def external_keys_def routed_def)

lemma sample_paired:
  "case PairChannel sample_hub_env ''s'' ''c'' sample_target ''private'' ''Chat'' local_hub of Inl _ \<Rightarrow> False | Inr _ \<Rightarrow> True"
  "map_option (\<lambda>s. (sc_ID s, sc_DefaultConversationID s, sc_ActiveConversationID s)) (get_space paired_hub ''s'') = Some (''s'', ''c'', ''c'')"
  by code_simp+

lemma sample_pair_step: "(hub_step sample_hub_env)\<^sup>*\<^sup>* local_hub paired_hub"
proof -
  obtain s h where "PairChannel sample_hub_env ''s'' ''c'' sample_target ''private'' ''Chat'' local_hub = Inr (s, h)"
    using sample_paired(1) by (auto split: sum.split_asm)
  then show ?thesis using hub_step.pair by (auto simp: paired_hub_def)
qed

theorem chat_routing_witness: "\<exists>c. get_chat paired_hub ''c'' = Some c \<and> ch_SpaceID c = ''s''"
proof -
  obtain s where s: "get_space paired_hub ''s'' = Some s" "sc_ID s = ''s''" "sc_DefaultConversationID s = ''c''"
    using sample_paired(2) by auto
  then have "s \<in> set (hb_spaces paired_hub)" using get_space_Some by blast
  from chat_routing[OF local_hub_ok sample_pair_step this, of "''c''"] show ?thesis using s by simp
qed

end
