(* ===== verification/Telegram_Access.thy ===== *)
theory Telegram_Access
  imports Channel_Routing
begin

text \<open>
  telegram_access.go: who may talk to the program through a Telegram bot. A person asks for access,
  the owner grants it for one chat, and every later effect compares the revision of the grant it
  was admitted under with the revision of now. The parts of channel_messages.go that read a grant.

  The mutex telegramMu is held for the whole body of every operation modelled here as one step. A
  control record is represented by the arguments, the row the plan saw and the resource.
\<close>

section \<open>State\<close>

record TelegramAccessRequest =
  tq_ID :: string
  tq_Code :: string
  tq_Target :: ChannelTarget
  tq_Kind :: string
  tq_PersonID :: string
  tq_DisplayName :: string
  tq_CreatedAt :: int
  tq_ExpiresAt :: int
  tq_notifiedAt :: int

record TelegramAccessChange =
  tc_RequestCode :: string
  tc_RequestID :: string
  tc_Target :: ChannelTarget
  tc_Kind :: string
  tc_Enabled :: bool
  tc_WholeGroup :: bool
  tc_Members :: "string list"
  tc_Title :: string

record channelEvent =
  ce_Target :: ChannelTarget
  ce_Kind :: string
  ce_Person :: string
  ce_Name :: string

text \<open>
  The store with the bots of this process, the requests in memory, the rows of approval notices, and
  the conversations that were cancelled and the events that were published, in order.
\<close>

record access_state =
  ac_hub :: hub
  ac_bots :: "string list"
  ac_requests :: "(string, TelegramAccessRequest) gomap"
  ac_notify :: "(string, string) gomap"
  ac_cancelled :: "string list"
  ac_events :: "string list"

text \<open>
  What the operations ask besides the store: the display name without control characters, the
  upper case of a code, case folding, the grants of spaces and persons (space_permissions.go) and
  the stop of the commands of a space.
\<close>

record access_env =
  ae_hub :: hub_env
  ae_name :: "string \<Rightarrow> string"
  ae_upper :: "string \<Rightarrow> string"
  ae_fold :: "string \<Rightarrow> string \<Rightarrow> bool"
  ae_space_permission :: "string \<Rightarrow> PermissionMode res"
  ae_person_permission :: "string \<Rightarrow> PermissionMode res"
  ae_stop_commands :: "string \<Rightarrow> err"

definition telegramRequestTTL :: int where "telegramRequestTTL = 3600000000000"
definition telegramRequestCapacity :: nat where "telegramRequestCapacity = 32"
definition telegramRequestNoticeInterval :: int where "telegramRequestNoticeInterval = 60000000000"

section \<open>Identities\<close>

text \<open>ParseInt of base 10 and 64 bits is Atoi.\<close>

definition telegramNumeric :: "string \<Rightarrow> bool \<Rightarrow> bool" where
  "telegramNumeric v positive \<longleftrightarrow>
     (case Atoi v of None \<Rightarrow> False | Some n \<Rightarrow> n \<noteq> 0 \<and> (\<not> positive \<or> n > 0) \<and> Itoa n = v)"

definition validTelegramPerson :: "string \<Rightarrow> bool" where
  "validTelegramPerson person \<longleftrightarrow>
     HasPrefix person ''telegram:user:'' \<and> telegramNumeric (drop (length ''telegram:user:'') person) True"

definition validTelegramTarget :: "ChannelTarget \<Rightarrow> bool" where
  "validTelegramTarget t \<longleftrightarrow>
     tg_Source t = SpaceSourceTelegram \<and> telegramNumeric (tg_ApplicationID t) True \<and> telegramNumeric (tg_ChatID t) False"

definition telegramAccessKey :: "ChannelTarget \<Rightarrow> string" where
  "telegramAccessKey t = ''telegram/access/'' @ target_key t"

definition telegramIdentities :: "string list \<Rightarrow> access_state \<Rightarrow> access_state" where
  "telegramIdentities bots s =
     s\<lparr>ac_bots := bots, ac_requests := filter (\<lambda>(i, r). tg_ApplicationID (tq_Target r) \<in> set bots) (ac_requests s)\<rparr>"

definition telegramIdentity :: "string \<Rightarrow> string \<times> access_state \<Rightarrow> string \<times> access_state" where
  "telegramIdentity botID bs =
     (case bs of (current, s) \<Rightarrow> if current \<noteq> botID then (botID, s\<lparr>ac_bots := [botID], ac_requests := []\<rparr>) else (current, s))"

section \<open>Requests\<close>

definition expireTelegramRequests :: "int \<Rightarrow> access_state \<Rightarrow> access_state" where
  "expireTelegramRequests now s = s\<lparr>ac_requests := filter (\<lambda>(i, r). now < tq_ExpiresAt r) (ac_requests s)\<rparr>"

definition request_alphabet :: string where
  "request_alphabet = ''23456789ABCDEFGHJKLMNPQRSTUVWXYZ''"

definition request_code :: "bytes \<Rightarrow> string" where
  "request_code raw = map (\<lambda>b. request_alphabet ! (unat b mod 32)) raw"

text \<open>
  The loop that draws a code until no request has it. The draws are an argument; the random source
  that runs out of them is the one that answers an error.
\<close>

fun draw_code :: "(string, TelegramAccessRequest) gomap \<Rightarrow> bytes list \<Rightarrow> string res" where
  "draw_code requests [] = Inl (ErrorsNew ''rand'')"
| "draw_code requests (raw # draws) =
     (if list_ex (\<lambda>(i, r). tq_Code r = request_code raw) requests then draw_code requests draws else Inr (request_code raw))"

definition requestTelegramAccess ::
    "access_env \<Rightarrow> string \<Rightarrow> bytes list \<Rightarrow> channelEvent \<Rightarrow> int \<Rightarrow> access_state
     \<Rightarrow> (TelegramAccessRequest \<times> bool) res \<times> access_state" where
  "requestTelegramAccess E newID draws e now s =
     (if \<not> validTelegramTarget (ce_Target e) \<or> \<not> validTelegramPerson (ce_Person e) \<or> (ce_Kind e \<noteq> ''private'' \<and> ce_Kind e \<noteq> ''group'')
      then (Inl (Sentinel ErrPermissionDenied), s)
      else if tg_ApplicationID (ce_Target e) \<notin> set (ac_bots s) then (Inl (Sentinel ErrPermissionDenied), s)
      else
        (let s = expireTelegramRequests now s
         in case find (\<lambda>(i, r). tq_Target r = ce_Target e \<and> tq_Kind r = ce_Kind e \<and> tq_PersonID r = ce_Person e) (ac_requests s) of
              Some (i, request) \<Rightarrow>
                (let notify = now - tq_notifiedAt request \<ge> telegramRequestNoticeInterval
                 in if notify
                    then (Inr (request\<lparr>tq_notifiedAt := now\<rparr>, True),
                          s\<lparr>ac_requests := AList.update i (request\<lparr>tq_notifiedAt := now\<rparr>) (ac_requests s)\<rparr>)
                    else (Inr (request, False), s))
            | None \<Rightarrow>
                if length (ac_requests s) \<ge> telegramRequestCapacity
                then (Inl (ErrorsNew ''telegram: access request capacity reached; try again after an application expires''), s)
                else case draw_code (ac_requests s) draws of
                       Inl e \<Rightarrow> (Inl e, s)
                     | Inr code \<Rightarrow>
                         (let r = \<lparr>tq_ID = newID, tq_Code = code, tq_Target = ce_Target e, tq_Kind = ce_Kind e, tq_PersonID = ce_Person e,
                                   tq_DisplayName = ae_name E (ce_Name e), tq_CreatedAt = now, tq_ExpiresAt = now + telegramRequestTTL,
                                   tq_notifiedAt = now\<rparr>
                          in (Inr (r, True), s\<lparr>ac_requests := AList.update newID r (ac_requests s)\<rparr>))))"

definition TelegramRequest :: "access_env \<Rightarrow> int \<Rightarrow> string \<Rightarrow> access_state \<Rightarrow> TelegramAccessRequest res \<times> access_state" where
  "TelegramRequest E now code s =
     (let s = expireTelegramRequests now s
      in case find (\<lambda>r. tq_Code r = ae_upper E (TrimSpace code) \<or> tq_ID r = code) (sort_key tq_CreatedAt (map snd (ac_requests s))) of
           None \<Rightarrow> (Inl (Sentinel ErrControlExpired), s)
         | Some r \<Rightarrow> (Inr r, s))"

section \<open>Grants\<close>

definition no_access :: "ChannelTarget \<Rightarrow> TelegramAccess" where
  "no_access t = \<lparr>ta_Target = t, ta_SpaceID = [], ta_Kind = [], ta_Enabled = False, ta_WholeGroup = False, ta_Members = [],
                  ta_Revision = 0, ta_UpdatedAt = []\<rparr>"

text \<open>The grant of a target and the row it was read from, None for no row.\<close>

definition telegramAccessRaw :: "hub \<Rightarrow> ChannelTarget \<Rightarrow> (TelegramAccess \<times> TelegramAccess option) res" where
  "telegramAccessRaw h target =
     (case map_of (hb_access h) (telegramAccessKey target) of
        None \<Rightarrow> Inr (no_access target, None)
      | Some grant \<Rightarrow>
          if ta_Target grant \<noteq> target \<or> ta_Revision grant = 0 then Inl (Sentinel ErrStoreFormat) else Inr (grant, Some grant))"

definition CheckTelegramAccess :: "access_env \<Rightarrow> hub \<Rightarrow> ChannelTarget \<Rightarrow> string \<Rightarrow> TelegramAccess res" where
  "CheckTelegramAccess E h target person =
     (if tg_Source target \<noteq> SpaceSourceTelegram then Inr (no_access \<lparr>tg_Source = [], tg_ApplicationID = [], tg_ChatID = []\<rparr>)
      else if \<not> validTelegramTarget target \<or> \<not> validTelegramPerson person then Inl (Sentinel ErrPermissionDenied)
      else case telegramAccessRaw h target of Inl e \<Rightarrow> Inl e | Inr (grant, _) \<Rightarrow>
        if \<not> ta_Enabled grant \<or> (\<not> ta_WholeGroup grant \<and> person \<notin> set (ta_Members grant)) then Inl (Sentinel ErrPermissionDenied)
        else case ChannelSpace (ae_hub E) h target of
               Inl e \<Rightarrow> Inl (Sentinel ErrPermissionDenied)
             | Inr space \<Rightarrow>
                 if sc_ID space \<noteq> ta_SpaceID grant \<or> sc_ChatKind space \<noteq> ta_Kind grant then Inl (Sentinel ErrPermissionDenied)
                 else Inr grant)"

text \<open>A local owner may continue a channel conversation without being a platform person.\<close>

definition telegramDeliveryGrant :: "access_env \<Rightarrow> hub \<Rightarrow> ChannelTarget \<Rightarrow> string \<Rightarrow> bool \<Rightarrow> TelegramAccess res" where
  "telegramDeliveryGrant E h target person localOwner =
     (if \<not> localOwner then CheckTelegramAccess E h target person
      else if person \<noteq> [] then Inl (Sentinel ErrPermissionDenied)
      else case telegramAccessRaw h target of Inl e \<Rightarrow> Inl e | Inr (grant, _) \<Rightarrow>
        if \<not> ta_Enabled grant \<or> ta_Revision grant = 0 then Inl (Sentinel ErrPermissionDenied) else Inr grant)"

section \<open>Changing a grant\<close>

record access_plan =
  ap_Args :: TelegramAccessChange
  ap_Before :: "TelegramAccess option"

definition no_target :: ChannelTarget where
  "no_target = \<lparr>tg_Source = [], tg_ApplicationID = [], tg_ChatID = []\<rparr>"

definition named_request :: "access_env \<Rightarrow> TelegramAccessChange \<Rightarrow> access_state \<Rightarrow> TelegramAccessChange res" where
  "named_request E args s =
     (let args = (if tc_RequestCode args \<noteq> []
                  then (case find (\<lambda>(i, r). ae_fold E (tq_Code r) (TrimSpace (tc_RequestCode args))) (rev (ac_requests s)) of
                          None \<Rightarrow> args | Some (i, r) \<Rightarrow> args\<lparr>tc_RequestID := tq_ID r\<rparr>)
                  else args)
      in if tc_RequestCode args \<noteq> [] \<and> tc_RequestID args = [] then Inl (Sentinel ErrControlExpired)
         else let args = args\<lparr>tc_RequestCode := []\<rparr>
           in if tc_RequestID args = [] then Inr args
              else case map_of (ac_requests s) (tc_RequestID args) of
                     None \<Rightarrow> Inl (Sentinel ErrControlExpired)
                   | Some request \<Rightarrow>
                       if tc_Target args \<noteq> no_target \<and> tc_Target args \<noteq> tq_Target request then Inl (Sentinel ErrPermissionDenied)
                       else Inr (args\<lparr>tc_Target := tq_Target request, tc_Kind := tq_Kind request,
                                      tc_Members := (if tq_PersonID request \<in> set (tc_Members args) then tc_Members args
                                                     else tc_Members args @ [tq_PersonID request])\<rparr>))"

definition buildTelegramAccess ::
    "access_env \<Rightarrow> int \<Rightarrow> TelegramAccessChange \<Rightarrow> access_state \<Rightarrow> access_plan res \<times> access_state" where
  "buildTelegramAccess E now args s =
     (let s = expireTelegramRequests now s
      in (case named_request E args s of Inl e \<Rightarrow> Inl e | Inr args \<Rightarrow>
            if \<not> validTelegramTarget (tc_Target args) \<or> tg_ApplicationID (tc_Target args) \<notin> set (ac_bots s)
               \<or> (tc_Kind args \<noteq> ''private'' \<and> tc_Kind args \<noteq> ''group'') \<or> length (tc_Members args) > 128
               \<or> (tc_Kind args = ''private'' \<and> tc_WholeGroup args)
            then Inl (Sentinel ErrPermissionDenied)
            else let args = args\<lparr>tc_Members := remdups_adj (sort_Strings (tc_Members args))\<rparr>
              in if \<not> list_all validTelegramPerson (tc_Members args) then Inl (Sentinel ErrPermissionDenied)
                 else if (tc_Enabled args \<and> \<not> tc_WholeGroup args \<and> tc_Members args = [])
                         \<or> (tc_Kind args = ''private'' \<and> length (tc_Members args) \<noteq> 1)
                 then Inl (ErrorsNew ''telegram: private access requires one verified person; a member-scoped group needs at least one member'')
                 else let args = (if tc_Title args = [] then args\<lparr>tc_Title := ''Telegram '' @ tg_ChatID (tc_Target args)\<rparr> else args)
                   in if validateSpaceTitle (ae_hub E) (tc_Title args) \<noteq> None then Inl (Sentinel ErrInvalidSpace)
                      else case telegramAccessRaw (ac_hub s) (tc_Target args) of Inl e \<Rightarrow> Inl e | Inr (_, raw) \<Rightarrow>
                        Inr \<lparr>ap_Args = args, ap_Before = raw\<rparr>, s))"

definition space_chats :: "hub \<Rightarrow> string \<Rightarrow> string list" where
  "space_chats h sid = map ch_ID (filter (\<lambda>c. ch_SpaceID c = sid) (hb_chats h))"

definition applyTelegramAccess ::
    "access_env \<Rightarrow> int \<Rightarrow> string \<Rightarrow> string \<Rightarrow> access_plan \<Rightarrow> access_state \<Rightarrow> TelegramAccess res \<times> access_state" where
  "applyTelegramAccess E now spaceID chatID plan s =
     (let args = ap_Args plan
      in if tg_ApplicationID (tc_Target args) \<notin> set (ac_bots s) then (Inl (Sentinel ErrControlStaleRevision), s)
         else if tc_RequestID args \<noteq> []
                 \<and> (case map_of (ac_requests s) (tc_RequestID args) of
                      None \<Rightarrow> True | Some r \<Rightarrow> \<not> now < tq_ExpiresAt r \<or> tq_Target r \<noteq> tc_Target args)
         then (Inl (Sentinel ErrControlExpired), s)
         else case telegramAccessRaw (ac_hub s) (tc_Target args) of Inl e \<Rightarrow> (Inl e, s) | Inr (previous, raw) \<Rightarrow>
           if raw \<noteq> ap_Before plan then (Inl (Sentinel ErrControlStaleRevision), s)
           else case bindChannelTx (ae_hub E) spaceID chatID (tc_Target args) (tc_Kind args) (tc_Title args) (ac_hub s) of
                  Inl e \<Rightarrow> (Inl e, s)
                | Inr (space, h) \<Rightarrow>
                    if sc_ChatKind space \<noteq> tc_Kind args then (Inl (Sentinel ErrInvalidSpace), s)
                    else if ta_SpaceID previous = sc_ID space \<and> ta_Enabled previous = tc_Enabled args
                            \<and> ta_WholeGroup previous = tc_WholeGroup args \<and> ta_Members previous = tc_Members args
                    then (Inr previous, s\<lparr>ac_hub := h, ac_requests := AList.delete (tc_RequestID args) (ac_requests s)\<rparr>)
                    else
                      let grant = \<lparr>ta_Target = tc_Target args, ta_SpaceID = sc_ID space, ta_Kind = tc_Kind args,
                                   ta_Enabled = tc_Enabled args, ta_WholeGroup = tc_WholeGroup args, ta_Members = tc_Members args,
                                   ta_Revision = ta_Revision previous + 1, ta_UpdatedAt = he_now (ae_hub E)\<rparr>;
                          h = h\<lparr>hb_access := AList.update (telegramAccessKey (tc_Target args)) grant (hb_access h)\<rparr>
                      in (Inr grant,
                          s\<lparr>ac_hub := h, ac_requests := AList.delete (tc_RequestID args) (ac_requests s),
                            ac_cancelled := ac_cancelled s @ space_chats h (sc_ID space),
                            ac_events := (case ae_stop_commands E (sc_ID space) of
                                            None \<Rightarrow> ac_events s | Some e \<Rightarrow> ac_events s @ [''telegram_access_stop_failed''])\<rparr>))"

section \<open>Runs admitted under a grant\<close>

text \<open>ChannelRunOrigin is frozen in the configuration of a run; the person is that of its permission.\<close>

record ChannelRunOrigin =
  or_AccessRevision :: "64 word"
  or_Target :: ChannelTarget
  or_InputMessageID :: int
  or_HistoryThrough :: int
  or_RequestKey :: string

definition checkTelegramRun :: "access_env \<Rightarrow> access_state \<Rightarrow> ChannelRunOrigin option \<Rightarrow> string option \<Rightarrow> err" where
  "checkTelegramRun E s origin permission =
     (case origin of
        None \<Rightarrow> None
      | Some origin \<Rightarrow>
          if tg_Source (or_Target origin) \<noteq> SpaceSourceTelegram then None
          else case permission of None \<Rightarrow> Some (Sentinel ErrPermissionDenied) | Some person \<Rightarrow>
            if person = [] then None
            else if ac_bots s \<noteq> [] \<and> tg_ApplicationID (or_Target origin) \<notin> set (ac_bots s) then Some (Sentinel ErrPermissionRevoked)
            else case CheckTelegramAccess E (ac_hub s) (or_Target origin) person of
                   Inl e \<Rightarrow> Some (Sentinel ErrPermissionRevoked)
                 | Inr grant \<Rightarrow>
                     if or_AccessRevision origin = 0 \<or> ta_Revision grant \<noteq> or_AccessRevision origin
                     then Some (Sentinel ErrPermissionRevoked) else None)"

text \<open>
  The check every dispatch of a Telegram run makes under telegramMu before its effect, and the error
  of its context.
\<close>

definition lockTelegramDispatch ::
    "access_env \<Rightarrow> access_state \<Rightarrow> ChannelRunOrigin option \<Rightarrow> string option \<Rightarrow> err \<Rightarrow> err" where
  "lockTelegramDispatch E s channel permission ctxErr =
     (case (channel, permission) of
        (Some origin, Some person) \<Rightarrow>
          if tg_Source (or_Target origin) \<noteq> SpaceSourceTelegram \<or> person = [] then None
          else (case CheckTelegramAccess E (ac_hub s) (or_Target origin) person of
                  Inl e \<Rightarrow> Some (Sentinel ErrPermissionRevoked)
                | Inr grant \<Rightarrow>
                    if ta_Revision grant \<noteq> or_AccessRevision origin \<or> tg_ApplicationID (or_Target origin) \<notin> set (ac_bots s)
                    then Some (Sentinel ErrPermissionRevoked) else ctxErr)
      | _ \<Rightarrow> None)"

definition send_revoked :: go_error where
  "send_revoked = Errorf ''call'' [''harness: permission revoked''] []"

text \<open>What sendRunText and withTelegramFileAccess check before they send.\<close>

definition sendRunText :: "access_env \<Rightarrow> access_state \<Rightarrow> ChannelRunOrigin option \<Rightarrow> string option \<Rightarrow> ChannelTarget \<Rightarrow> err" where
  "sendRunText E s channel permission target =
     (if tg_Source target \<noteq> SpaceSourceTelegram then None
      else case (channel, permission) of
             (Some origin, Some person) \<Rightarrow>
               (case telegramDeliveryGrant E (ac_hub s) target person (person = []) of
                  Inl e \<Rightarrow> Some send_revoked
                | Inr grant \<Rightarrow>
                    if or_AccessRevision origin \<noteq> ta_Revision grant \<or> tg_ApplicationID target \<notin> set (ac_bots s)
                    then Some send_revoked else None)
           | _ \<Rightarrow> Some (Sentinel ErrPermissionDenied))"

record telegramFileAuthority =
  au_LocalOwner :: bool
  au_Target :: ChannelTarget
  au_Person :: string
  au_Revision :: "64 word"

definition withTelegramFileAccess ::
    "access_env \<Rightarrow> access_state \<Rightarrow> telegramFileAuthority option \<Rightarrow> (ChannelRunOrigin option \<times> string option) res \<Rightarrow> ChannelTarget \<Rightarrow> err" where
  "withTelegramFileAccess E s authority run target =
     (if tg_Source target \<noteq> SpaceSourceTelegram then None
      else case (case authority of
                   Some a \<Rightarrow> Inr a
                 | None \<Rightarrow>
                     (case run of
                        Inl e \<Rightarrow> Inl e
                      | Inr (Some origin, Some person) \<Rightarrow>
                          Inr \<lparr>au_LocalOwner = (person = []), au_Target = or_Target origin, au_Person = person, au_Revision = or_AccessRevision origin\<rparr>
                      | Inr _ \<Rightarrow> Inl (Sentinel ErrPermissionDenied))) of
             Inl e \<Rightarrow> Some e
           | Inr a \<Rightarrow>
               if au_Target a \<noteq> target \<or> tg_ApplicationID target \<notin> set (ac_bots s) then Some send_revoked
               else case telegramDeliveryGrant E (ac_hub s) target (au_Person a) (au_LocalOwner a) of
                      Inl e \<Rightarrow> Some send_revoked
                    | Inr grant \<Rightarrow> if ta_Revision grant \<noteq> au_Revision a then Some send_revoked else None)"

section \<open>The notice of an approval\<close>

text \<open>What sending a text can answer: it was queued, sent with a message, or failed, certainly or not.\<close>

datatype sending = Queued | SentAs string | SendError bool

definition plainAccessNotice :: "access_env \<Rightarrow> access_state \<Rightarrow> TelegramAccess \<Rightarrow> sending \<Rightarrow> sending" where
  "plainAccessNotice E s grant send =
     (case CheckTelegramAccess E (ac_hub s) (ta_Target grant) (hd (ta_Members grant)) of
        Inl e \<Rightarrow> SendError True
      | Inr current \<Rightarrow>
          if ta_Revision current \<noteq> ta_Revision grant \<or> tg_ApplicationID (ta_Target grant) \<notin> set (ac_bots s) then SendError True else send)"

definition notice_key :: "TelegramAccess \<Rightarrow> string" where
  "notice_key grant = ''telegram/access-notify/'' @ target_key (ta_Target grant) @ ''/'' @ Itoa (uint (ta_Revision grant))"

definition NotifyAccess :: "access_env \<Rightarrow> TelegramAccess \<Rightarrow> sending \<Rightarrow> access_state \<Rightarrow> bool \<times> access_state" where
  "NotifyAccess E grant send s =
     (if \<not> ta_Enabled grant \<or> ta_Members grant = [] then (False, s)
      else if map_of (ac_notify s) (notice_key grant) \<noteq> None then (False, s)
      else let state = (case plainAccessNotice E s grant send of
                          Queued \<Rightarrow> ''queued''
                        | SentAs i \<Rightarrow> if i = [] then ''unknown'' else ''sent''
                        | SendError certain \<Rightarrow> if certain then ''failed'' else ''unknown'')
           in (True, s\<lparr>ac_notify := AList.update (notice_key grant) state (ac_notify s)\<rparr>))"

section \<open>Receiving text\<close>

record ChannelReceived =
  cr_ConversationID :: string
  cr_MessageID :: int
  cr_RunID :: string
  cr_Duplicate :: bool
  cr_origin :: "ChannelRunOrigin option"

text \<open>The conversation a message of a space goes to: the one an earlier intent was bound to, or by routing.\<close>

definition routed_chat :: "hub \<Rightarrow> Space \<Rightarrow> string \<Rightarrow> string res" where
  "routed_chat h space intent =
     (if intent \<noteq> []
      then (case get_chat h intent of
              None \<Rightarrow> Inl (Sentinel ErrNoRows)
            | Some c \<Rightarrow> if ch_SpaceID c \<noteq> sc_ID space then Inl (Sentinel ErrConversationSpace) else Inr intent)
      else Inr (if sc_MultiConversation space then sc_ActiveConversationID space else sc_DefaultConversationID space))"

definition ensure_chat :: "hub_env \<Rightarrow> string \<Rightarrow> Space \<Rightarrow> string \<Rightarrow> hub \<Rightarrow> (string \<times> hub) res" where
  "ensure_chat E newID space chat h =
     (if chat \<noteq> [] then Inr (chat, h)
      else case insert_chat \<lparr>ch_ID = newID, ch_Title = sc_Title space, ch_Workspace = he_workspace E, ch_SpaceID = sc_ID space,
                    ch_UpdatedAt = he_now E, ch_LastMessage = 0\<rparr> h of
             Inl e \<Rightarrow> Inl e
           | Inr h \<Rightarrow> Inr (newID, update_spaces (sc_ID space)
                              (\<lambda>s. s\<lparr>sc_DefaultConversationID := newID, sc_ActiveConversationID := newID\<rparr>) h))"

definition receive_tx ::
    "hub_env \<Rightarrow> string \<Rightarrow> ChannelMessageSource \<Rightarrow> string \<Rightarrow> string \<Rightarrow> 64 word \<Rightarrow> hub \<Rightarrow> (ChannelReceived \<times> hub) res" where
  "receive_tx E newID source text intent revision h =
     (let key = requestKey E (ms_Target source) (ms_MessageID source)
      in case find (\<lambda>m. hm_RequestKey m = key) (hb_messages h) of
           Some m \<Rightarrow> Inr (\<lparr>cr_ConversationID = hm_Conversation m, cr_MessageID = hm_ID m,
                             cr_RunID = (case hm_RunID m of None \<Rightarrow> [] | Some r \<Rightarrow> r), cr_Duplicate = True, cr_origin = None\<rparr>, h)
         | None \<Rightarrow>
             (case scanSpace (external_space h (tg_Source (ms_Target source)) (target_key (ms_Target source))) of Inl e \<Rightarrow> Inl e | Inr space \<Rightarrow>
               (case routed_chat h space intent of Inl e \<Rightarrow> Inl e | Inr chat \<Rightarrow>
                 (case ensure_chat E newID space chat h of Inl e \<Rightarrow> Inl e | Inr (chat, h) \<Rightarrow>
                   (case insert_message \<lparr>hm_Conversation = chat, hm_ID = 0, hm_RunID = None, hm_RequestKey = key, hm_Role = ''user'',
                           hm_Content = text, hm_Public = True, hm_Channel = Some source, hm_Attachments = []\<rparr> h of
                      Inl e \<Rightarrow> Inl e
                    | Inr (n, h) \<Rightarrow>
                        (let h = h\<lparr>hb_chats := upd (\<lambda>c. ch_ID c = chat) (\<lambda>c. c\<lparr>ch_UpdatedAt := he_now E\<rparr>) (hb_chats h)\<rparr>;
                             h = (if ms_PersonID source \<noteq> [] \<and> map_of (hb_person h) (ms_PersonID source) = None
                                  then h\<lparr>hb_person := hb_person h @ [(ms_PersonID source,
                                         \<lparr>pp_ID = ms_PersonID source, pp_DisplayName = ms_DisplayName source, pp_Mode = PermissionNone,
                                          pp_UpdatedAt = he_now E\<rparr>)]\<rparr>
                                  else h)
                         in Inr (\<lparr>cr_ConversationID = chat, cr_MessageID = n, cr_RunID = [], cr_Duplicate = False,
                                  cr_origin = Some \<lparr>or_AccessRevision = revision, or_Target = ms_Target source, or_InputMessageID = n,
                                                    or_HistoryThrough = n, or_RequestKey = key\<rparr>\<rparr>, h)))))))"

definition ReceiveChannelText ::
    "access_env \<Rightarrow> string \<Rightarrow> ChannelMessageSource \<Rightarrow> string \<Rightarrow> string \<Rightarrow> access_state \<Rightarrow> ChannelReceived res \<times> access_state" where
  "ReceiveChannelText E newID source text intent s =
     (if ChannelMessageSource_validate (ae_hub E) source \<noteq> None \<or> ms_Purpose source \<in> {''delivery'', ''published''}
         \<or> TrimSpace text = [] \<or> length text > 32768
      then (Inl (Sentinel ErrInvalidSpace), s)
      else case (if tg_Source (ms_Target source) = SpaceSourceTelegram
                 then map_sum id ta_Revision (CheckTelegramAccess E (ac_hub s) (ms_Target source) (ms_PersonID source))
                 else Inr 0) of
             Inl e \<Rightarrow> (Inl e, s)
           | Inr revision \<Rightarrow>
               (case receive_tx (ae_hub E) newID source text intent revision (ac_hub s) of
                  Inl e \<Rightarrow> (Inl e, s)
                | Inr (r, h) \<Rightarrow> (Inr r, s\<lparr>ac_hub := h\<rparr>)))"

section \<open>Binding a run to its chat\<close>

definition history_end :: "hub \<Rightarrow> string \<Rightarrow> int" where
  "history_end h chat = foldl max 0 (map hm_ID (messages_of h chat))"

definition bindChannel ::
    "access_env \<Rightarrow> hub \<Rightarrow> string \<Rightarrow> string option \<Rightarrow> ChannelRunOrigin option \<Rightarrow> ChannelRunOrigin option res" where
  "bindChannel E h chat permission origin =
     (case get_chat h chat of None \<Rightarrow> Inl (Sentinel ErrNoRows) | Some c \<Rightarrow>
       (case scanSpace (get_space h (ch_SpaceID c)) of Inl e \<Rightarrow> Inl e | Inr space \<Rightarrow>
         (case channelTarget (ae_hub E) space of
            None \<Rightarrow> if origin \<noteq> None then Inl (Sentinel ErrConversationSpace) else Inr None
          | Some target \<Rightarrow>
              (case origin of
                 Some o' \<Rightarrow>
                   if or_Target o' \<noteq> target \<or> or_InputMessageID o' < 1 \<or> or_RequestKey o' = [] then Inl (Sentinel ErrConversationSpace)
                   else if tg_Source target = SpaceSourceTelegram
                           \<and> (case CheckTelegramAccess E h target (case permission of None \<Rightarrow> [] | Some p \<Rightarrow> p) of
                                Inl e \<Rightarrow> True | Inr grant \<Rightarrow> or_AccessRevision o' \<noteq> ta_Revision grant)
                   then Inl (Sentinel ErrPermissionRevoked) else Inr (Some o')
               | None \<Rightarrow>
                   let o' = \<lparr>or_AccessRevision = 0, or_Target = target, or_InputMessageID = 0, or_HistoryThrough = history_end h chat,
                             or_RequestKey = []\<rparr>
                   in if tg_Source target \<noteq> SpaceSourceTelegram then Inr (Some o')
                      else case permission of
                             None \<Rightarrow> Inr (Some o')
                           | Some person \<Rightarrow>
                               if person = []
                               then (case telegramAccessRaw h target of
                                       Inl e \<Rightarrow> Inl e
                                     | Inr (grant, _) \<Rightarrow>
                                         Inr (Some (if ta_Enabled grant \<and> ta_SpaceID grant = sc_ID space
                                                    then o'\<lparr>or_AccessRevision := ta_Revision grant\<rparr> else o')))
                               else (case CheckTelegramAccess E h target person of
                                       Inl e \<Rightarrow> Inl e
                                     | Inr grant \<Rightarrow> Inr (Some (o'\<lparr>or_AccessRevision := ta_Revision grant\<rparr>)))))))"

text \<open>A run as the actions of a chat see it: its origin and its permission, person and mode.\<close>

definition CheckChannelRunAction ::
    "access_env \<Rightarrow> access_state \<Rightarrow> ChannelTarget \<Rightarrow> string \<Rightarrow> (ChannelRunOrigin option \<times> (string \<times> PermissionMode) option) res \<Rightarrow> string \<Rightarrow> err" where
  "CheckChannelRunAction E s target personID run action =
     (case run of
        Inl e \<Rightarrow> Some (Sentinel ErrPermissionDenied)
      | Inr (None, _) \<Rightarrow> Some (Sentinel ErrPermissionDenied)
      | Inr (Some origin, permission) \<Rightarrow>
          if or_Target origin \<noteq> target then Some (Sentinel ErrPermissionDenied)
          else case checkTelegramRun E s (Some origin) (map_option fst permission) of Some e \<Rightarrow> Some e | None \<Rightarrow>
            (case (if tg_Source target = SpaceSourceTelegram then CheckTelegramAccess E (ac_hub s) target personID
                   else Inr (no_access target)) of
               Inl e \<Rightarrow> Some e
             | Inr _ \<Rightarrow>
                 (case permission of None \<Rightarrow> Some (Sentinel ErrPermissionDenied) | Some (person, mode) \<Rightarrow>
                   if personID = [] \<or> (action \<noteq> ''stop'' \<and> personID \<noteq> person) then Some (Sentinel ErrPermissionDenied)
                   else case ChannelSpace (ae_hub E) (ac_hub s) target of Inl e \<Rightarrow> Some e | Inr space \<Rightarrow>
                     (case ae_space_permission E (sc_ID space) of Inl e \<Rightarrow> Some e | Inr p \<Rightarrow>
                       (case ae_person_permission E personID of Inl e \<Rightarrow> Some e | Inr q \<Rightarrow>
                         let effective = lowerPermission p q
                         in if action = ''stop'' \<and> (personID = person \<or> effective \<noteq> PermissionNone) then None
                            else if permissionRank effective < permissionRank mode \<or> (action = ''approve'' \<and> effective = PermissionNone)
                            then Some (Sentinel ErrPermissionDenied) else None)))))"

end
