(* ===== verification/Spec2Isabelle.thy ===== *)
theory Spec2Isabelle
  imports Execution_Gate Lark_Frame Public_Auth Command_Policy Ledger_Recovery Ledger_Requests Patch
    Control_Confirmation Telegram_Access
begin

text \<open>
  A verification development of FreeAgent, a local agent host written in Go.

  \<^bold>\<open>The program.\<close> A person talks to FreeAgent in conversations. Every request becomes a run, and a
  run is a sequence of attempts: model calls, tool calls and workflow steps. The ledger
  (internal/harness/store.go) records each attempt before its effect happens, so that a crash
  leaves an outcome that is either known or marked unknown and never repeated silently. A run
  freezes its configuration as an execution profile, gets the permission its space, its person and
  its entrance leave it, sees the workspace and the computer only through a policy view of the
  tools, and may split its work among child agents under a shared budget. Input that arrives while
  a run is active is queued or steers it. Around this core stand the adapters: the HTTP interface
  with its optional public entrance, chat channels, providers, MCP servers, extensions, backups.

  \<^bold>\<open>Theories and sources.\<close> All paths are under src/internal/.
  \<^item> Prelude: Go errors with errors.Is, strings as byte strings, maps as association lists,
    64-bit integers where they wrap, the locale invariant_system every step relation of the
    development is an instance of.
  \<^item> Go_Text: the parts of strings, path, path/filepath and unicode/utf8 the sources call.
  \<^item> Execution_Gate: harness/execution_gate.go.
  \<^item> Execution_Profile: harness/execution_profile.go with the configuration records and validators
    it reads from config.go, permissions.go and runtime_policy.go.
  \<^item> Tool_Runner: harness/runtime_policy.go, tool_verification.go, the runner interface of model.go.
  \<^item> File_Policy: harness/filepolicy.go, private_paths.go, file_scope.go.
  \<^item> Permission: harness/permissions.go, space_permissions.go.
  \<^item> Public_Policy and Public_Auth: harness/public_policy.go, publicweb/auth.go, credential.go.
  \<^item> Command_Policy: the decisions of harness/commands.go and command_service.go.
  \<^item> Collaboration_Plan: harness/collaboration_plan.go and validators of collaboration_results.go.
  \<^item> Collaboration_Budget: harness/collaboration_budget.go, callguard.go, leases of collaboration.go.
  \<^item> Store_Model: the tables of harness/postgres_schema.sql the ledger writes, their rows and keys.
  \<^item> Ledger: the transactions of harness/store.go, tool_outcome.go, model_recovery.go.
  \<^item> Input_Queue: harness/input_queue.go, limit_continuation.go, execution_time.go, verification.
  \<^item> Ledger_Safety, Ledger_System, Ledger_Recovery, Ledger_Requests: the properties of the ledger.
  \<^item> Control: harness/control.go and control_lifecycle.go with the extension changes of
    extension_state.go and the space kinds of space_control.go. The service is a record of its
    operations, confirmations, revisions, journal entries and secrets, the journal file with its
    failures, the decision gate, and whatever else the program holds as an opaque world.
  \<^item> Control_Safety, Control_System, Control_Confirmation: the properties of the control service.
  \<^item> Channel_Store: harness/spaces.go and the binding of chats in channel_messages.go.
  \<^item> Patch: harness/patch.go.
  \<^item> Lark_Frame: channels/lark_frame.go.

  \<^bold>\<open>How the code is represented.\<close> A struct is a record whose fields carry a short prefix, a
  string-typed enum stays a string, []byte and uint64 are words, int is int with the wrap-around
  written out where the code can reach it. A method that holds its mutex or its database
  transaction for the whole body is one step on the state; a method that releases the lock between
  two sections is two definitions. A fallible function answers Inl with the error value of the
  code or Inr with the result; a transaction that answers Inl is rolled back. Random identifiers,
  the clock, hashes, JSON text, the file system and other programs are arguments or the fields of
  an environment record; where a theorem needs to know something about them it says so in a named
  hypothesis or a locale, and its witness supplies a concrete one.

  \<^bold>\<open>Interfaces.\<close> invariant_system (Prelude) is the contract between a step relation and its
  invariant; it is interpreted on the clients of the gate, the grants of spaces and persons, the
  sessions of the public entrance, remote policy changes, the extensions of a service, the ledger,
  the input queue and the control service. The call guard the ledger relies on is the locale lawful_guard
  (Collaboration_Budget), interpreted on the guard of a collaboration. tool_restriction
  (Tool_Runner) is what every runner that wraps another promises, interpreted on the denied, the
  verification and the assigned runner. wire_item (Lark_Frame) is what the decoder needs of an
  encoded field, row_history (Ledger_Safety) what a table keeps of its rows.

  \<^bold>\<open>What the lemmas show.\<close>
  \<^item> Ledger: in every reachable store a conversation has at most one active run and the steps of a
    run count its dispatched calls; a call is dispatched at most once, an unknown outcome stays
    unknown; recovery succeeds and leaves nothing in flight; a request key creates one run; a
    local tool takes effect once; pending input stays within its bound.
  \<^item> Budget: a reservation leaves every budget respected, and a call is settled once.
  \<^item> Permissions: a run never exceeds its space, its person or its entrance; full access needs a
    confirmation; a reduction stops what it no longer allows; external paths stay in their roots.
  \<^item> Public entrance: sessions, challenges and failure counters are bounded and accounted for, a
    login needs an unused challenge and the password, lockouts hold, eviction terminates.
  \<^item> Plans and tools: a plan is accepted exactly when its dependencies can be scheduled, a child's
    tools stay in its subtree, verification reads only.
  \<^item> Control: a change needs a pending operation, a capability of this owner and the code its risk
    demands, and happens with nothing in its way; a decision is final; of two plans that read one
    revision of a resource at most one is applied; a direct change expires; five wrong codes end an
    operation; a change of an extension is sent once; secrets never reach the journal.
  \<^item> Patch and frames: the parsers invert the printers and accept only well-formed input, hunks
    apply exactly where they say, reversed hunks restore the text.

  \<^bold>\<open>Bounds and fuel.\<close> The search for dependency cycles recurses with fuel one more than the number
  of children; visit_plan_total shows that it is never exhausted on a plan. Eviction of sessions
  loops with fuel the number of sessions, and eviction_terminates shows that it ends below the
  limit. Every other recursion is structural or has a measure.

  \<^bold>\<open>Not modelled.\<close> The graphical interface and its HTTP routes (chatui, harness/http.go), the
  command line (cmd), the Windows launcher (winlaunch), the handoff between program versions, the
  provider and channel adapters, MCP transport and sandbox backends are I/O around the decisions
  above. The SQL driver, backup and restore of the database, the process of a command and the
  extension host are operating-system effects. The orchestration of a run (service.go,
  taskservice.go, runtime.go) composes the modelled transactions with provider calls; here the
  transactions may happen in any order, which includes every order the orchestration chooses.
  Of the settings control, what building and applying one kind of change does to the configuration,
  the keys and the spaces is an environment function. Memory, skills, attachments, keys and the
  channel outbox are further components of the same style that no theory covers.
\<close>

end
